(* ===== verification/Prelude.thy ===== *)
theory Prelude
  imports Main "HOL-Library.Word" "HOL-Library.AList" "HOL-Library.Char_ord"
begin

unbundle bit_operations_syntax

text \<open>
  What every component of the model shares: bytes and the 32-bit integers of
  JavaScript's bitwise operators, strings and their bytes, JavaScript objects used as
  dictionaries, decimal numerals, and the locale of components that report to their
  caller at most once.

  JavaScript strings are modelled by \<open>string\<close> (a list of \<open>char\<close>): code units
  0 to 255. A number that the code only computes with is an \<open>int\<close>; a byte of a
  \<open>Uint8Array\<close> is an \<open>8 word\<close>.
\<close>

named_theorems js_int32 "the bitwise operators of JavaScript, read on 32-bit words"
named_theorems once_simps "equations a notification proof unfolds"

type_synonym byte = "8 word"
type_synonym bytes = "byte list"
type_synonym int32 = "32 word"

subsection \<open>Characters and bytes\<close>

definition byte_of_char :: "char \<Rightarrow> byte" where
  "byte_of_char c = word_of_nat (of_char c)"

definition char_of_byte :: "byte \<Rightarrow> char" where
  "char_of_byte b = char_of (unat b)"

lemma char_of_byte_of_char [simp]: "char_of_byte (byte_of_char c) = c"
proof -
  have "of_char c < (256 :: nat)" by simp
  then have "unat (word_of_nat (of_char c) :: byte) = of_char c"
    by (simp add: unat_of_nat)
  then show ?thesis by (simp add: char_of_byte_def byte_of_char_def)
qed

lemma unat_lt_256 [simp]: "unat (b :: byte) < 256"
proof -
  have "unat b < 2 ^ LENGTH(8)" by (rule unsigned_less)
  then show ?thesis by simp
qed

lemma byte_of_char_of_byte [simp]: "byte_of_char (char_of_byte b) = b"
proof -
  have "unat b < 256" using unat_lt_256 by simp
  then have "of_char (char_of (unat b)) = unat b" by simp
  then show ?thesis by (simp add: char_of_byte_def byte_of_char_def)
qed

lemma byte_of_char_inject [simp]: "byte_of_char a = byte_of_char b \<longleftrightarrow> a = b"
  by (metis char_of_byte_of_char)

subsection \<open>Masks and shifts, read as numbers\<close>

lemma unat_and_mask: "unat (w AND mask n) = unat w mod 2 ^ n" for w :: "'a::len word"
  by (simp only: take_bit_eq_mask [symmetric] unsigned_take_bit_eq) (simp only: take_bit_eq_mod)

lemma unat_and_numerals:
  "unat (w AND 15) = unat w mod 16" "unat (w AND 63) = unat w mod 64"
  "unat (w AND 255) = unat w mod 256" for w :: "'a::len word"
  using unat_and_mask [of w 4] unat_and_mask [of w 6] unat_and_mask [of w 8]
  by (simp_all only: mask_eq_exp_minus_1) simp_all

lemma unat_drop_bit: "unat (drop_bit n w) = unat w div 2 ^ n" for w :: "'a::len word"
proof -
  have "take_bit LENGTH('a) (unat w) = unat w" by (rule take_bit_nat_eq_self) (rule unsigned_less)
  then show ?thesis by (simp only: unsigned_drop_bit_eq) (simp only: drop_bit_eq_div)
qed

subsection \<open>The bitwise operators of JavaScript\<close>

text \<open>
  The operands of \<open>&\<close>, \<open>|\<close>, \<open>^\<close>, \<open>~\<close>, \<open><<\<close> and \<open>>>\<close> are first taken
  modulo \<open>2\<^sup>3\<^sup>2\<close> and the result is read as a signed 32-bit number; \<open>>>>\<close> reads it
  unsigned.
\<close>

definition to_int32 :: "int \<Rightarrow> int32" where
  "to_int32 x = word_of_int x"

definition js_and :: "int \<Rightarrow> int \<Rightarrow> int" where
  "js_and x y = sint (to_int32 x AND to_int32 y)"

definition js_or :: "int \<Rightarrow> int \<Rightarrow> int" where
  "js_or x y = sint (to_int32 x OR to_int32 y)"

definition js_xor :: "int \<Rightarrow> int \<Rightarrow> int" where
  "js_xor x y = sint (to_int32 x XOR to_int32 y)"

definition js_not :: "int \<Rightarrow> int" where
  "js_not x = sint (NOT (to_int32 x))"

definition js_shl :: "int \<Rightarrow> nat \<Rightarrow> int" where
  "js_shl x n = sint (push_bit n (to_int32 x))"

definition js_shr :: "int \<Rightarrow> nat \<Rightarrow> int" where
  "js_shr x n = sint (signed_drop_bit n (to_int32 x))"

definition js_ushr :: "int \<Rightarrow> nat \<Rightarrow> int" where
  "js_ushr x n = uint (drop_bit n (to_int32 x))"

lemma to_int32_sint [simp]: "to_int32 (sint w) = w"
  by (simp add: to_int32_def)

lemma to_int32_uint [simp]: "to_int32 (uint w) = w"
  by (simp add: to_int32_def)

lemma to_int32_js [js_int32]:
  "to_int32 (js_and x y) = to_int32 x AND to_int32 y"
  "to_int32 (js_or x y) = to_int32 x OR to_int32 y"
  "to_int32 (js_xor x y) = to_int32 x XOR to_int32 y"
  "to_int32 (js_not x) = NOT (to_int32 x)"
  "to_int32 (js_shl x n) = push_bit n (to_int32 x)"
  "to_int32 (js_shr x n) = signed_drop_bit n (to_int32 x)"
  "to_int32 (js_ushr x n) = drop_bit n (to_int32 x)"
  by (simp_all add: js_and_def js_or_def js_xor_def js_not_def js_shl_def js_shr_def js_ushr_def)

lemma to_int32_add [js_int32]: "to_int32 (x + y) = to_int32 x + to_int32 y"
  by (simp add: to_int32_def)

lemma js_and_range: "- (2 ^ 31) \<le> js_and x y \<and> js_and x y < 2 ^ 31"
  using sint_greater_eq [of "to_int32 x AND to_int32 y"] sint_less [of "to_int32 x AND to_int32 y"]
  by (simp add: js_and_def)

subsection \<open>Decimal numerals\<close>

text \<open>\<open>n.toString()\<close> of a natural number.\<close>

fun nat_to_string :: "nat \<Rightarrow> string" where
  "nat_to_string n =
     (if n < 10 then [char_of (48 + n)] else nat_to_string (n div 10) @ [char_of (48 + n mod 10)])"

declare nat_to_string.simps [simp del]

fun dec_value :: "nat \<Rightarrow> string \<Rightarrow> nat" where
  "dec_value acc [] = acc"
| "dec_value acc (c # cs) = dec_value (acc * 10 + (of_char c - 48)) cs"

lemma dec_value_append: "dec_value acc (s @ t) = dec_value (dec_value acc s) t"
  by (induction s arbitrary: acc) auto

lemma dec_value_nat_to_string: "dec_value 0 (nat_to_string n) = n"
proof (induction n rule: nat_to_string.induct)
  case (1 n)
  show ?case
  proof (cases "n < 10")
    case True
    then show ?thesis by (subst nat_to_string.simps) simp
  next
    case False
    moreover have "of_char (char_of (48 + n mod 10) :: char) = (48 + n mod 10 :: nat)" by simp
    ultimately show ?thesis
      using 1 by (subst nat_to_string.simps) (simp add: dec_value_append del: of_char_of)
  qed
qed

lemma nat_to_string_inject: "nat_to_string m = nat_to_string n \<longleftrightarrow> m = n"
  by (metis dec_value_nat_to_string)

subsection \<open>Objects used as dictionaries\<close>

text \<open>
  An object used as a dictionary is an association list in insertion order:
  \<open>o[k] = v\<close> is \<open>AList.update k v o\<close> (an existing key keeps its place), \<open>o[k]\<close> and
  \<open>hasOwnProperty\<close> are \<open>map_of o k\<close>, \<open>delete o[k]\<close> is \<open>AList.delete k o\<close>. Keys
  that every object inherits from \<open>Object.prototype\<close> are not modelled.
  \<open>Object.keys\<close> and \<open>for (k in o)\<close> list the array-index keys in ascending order, then
  the others in insertion order.
\<close>

type_synonym 'v jsobj = "(string \<times> 'v) list"

definition is_index_key :: "string \<Rightarrow> bool" where
  "is_index_key s \<longleftrightarrow>
     s \<noteq> [] \<and> list_all (\<lambda>c. 48 \<le> (of_char c :: nat) \<and> of_char c \<le> (57 :: nat)) s
     \<and> (s = ''0'' \<or> hd s \<noteq> CHR ''0'') \<and> dec_value 0 s < 4294967295"

definition js_keys :: "'v jsobj \<Rightarrow> string list" where
  "js_keys ob =
     (let ks = map fst ob
      in sort_key (dec_value 0) (filter is_index_key ks) @ filter (\<lambda>k. \<not> is_index_key k) ks)"

lemma set_js_keys [simp]: "set (js_keys ob) = fst ` set ob"
  by (auto simp: js_keys_def Let_def)

lemma distinct_js_keys: "distinct (map fst ob) \<Longrightarrow> distinct (js_keys ob)"
  by (auto simp: js_keys_def Let_def)

lemma keys_update [simp]: "fst ` set (AList.update k v ob) = insert k (fst ` set ob)"
  by (metis dom_map_of_conv_image_fst update_conv' dom_fun_upd option.distinct(1))

text \<open>The dictionary that maps every string of a list to itself.\<close>

definition obj_of_strings :: "string list \<Rightarrow> string jsobj \<Rightarrow> string jsobj" where
  "obj_of_strings ks ob = fold (\<lambda>k o'. AList.update k k o') ks ob"

lemma keys_obj_of_strings [simp]:
  "fst ` set (obj_of_strings ks ob) = set ks \<union> fst ` set ob"
  unfolding obj_of_strings_def by (induction ks arbitrary: ob) auto

lemma distinct_obj_of_strings:
  "distinct (map fst ob) \<Longrightarrow> distinct (map fst (obj_of_strings ks ob))"
  unfolding obj_of_strings_def by (induction ks arbitrary: ob) (auto simp: distinct_update)

lemma delete_fresh: "i \<notin> fst ` set xs \<Longrightarrow> AList.delete i xs = xs"
  by (induction xs) auto

text \<open>The sum of a measure over the values of a dictionary.\<close>

definition asum :: "('v \<Rightarrow> nat) \<Rightarrow> ('k \<times> 'v) list \<Rightarrow> nat" where
  "asum f t = sum_list (map (\<lambda>(k, v). f v) t)"

lemma asum_update:
  "distinct (map fst t) \<Longrightarrow>
   asum f (AList.update k v t) + (case map_of t k of None \<Rightarrow> 0 | Some v' \<Rightarrow> f v') = asum f t + f v"
  by (induction t) (auto simp: asum_def)

lemma asum_delete:
  "distinct (map fst t) \<Longrightarrow>
   asum f (AList.delete k t) + (case map_of t k of None \<Rightarrow> 0 | Some v' \<Rightarrow> f v') = asum f t"
proof (induction t)
  case (Cons p t)
  have "k \<notin> fst ` set t \<Longrightarrow> AList.delete k t = t" by (rule delete_fresh)
  with Cons show ?case by (cases p) (auto simp: asum_def map_of_eq_None_iff split: option.splits)
qed (simp add: asum_def)

subsection \<open>Reporting to the caller at most once\<close>

text \<open>
  Most handlers of the extension promise to call their callback at most once: a flag
  (\<open>notified_\<close>, \<open>done_\<close>, \<open>complete_\<close>) is set together with the call, and every path to
  the call first tests the flag. \<open>step\<close> is one event delivered to the component,
  \<open>told\<close> the flag, \<open>reports\<close> the number of calls made so far.
\<close>

locale notify_once =
  fixes step :: "'e \<Rightarrow> 's \<Rightarrow> 's"
    and told :: "'s \<Rightarrow> bool"
    and reports :: "'s \<Rightarrow> nat"
  assumes quiet_after: "told s \<Longrightarrow> reports (step e s) = reports s"
    and stays_told: "told s \<Longrightarrow> told (step e s)"
    and report_tells: "\<not> told s \<Longrightarrow> reports (step e s) = reports s
          \<or> (reports (step e s) = Suc (reports s) \<and> told (step e s))"
begin

lemma told_run: "told s \<Longrightarrow> told (fold step es s) \<and> reports (fold step es s) = reports s"
  by (induction es arbitrary: s) (auto simp: quiet_after stays_told)

lemma reports_run:
  "\<not> told s \<Longrightarrow> reports (fold step es s) = reports s
     \<or> (reports (fold step es s) = Suc (reports s) \<and> told (fold step es s))"
proof (induction es arbitrary: s)
  case Nil
  then show ?case by simp
next
  case (Cons e es)
  show ?case
  proof (cases "told (step e s)")
    case True
    with told_run [OF True, of es] report_tells [OF Cons.prems, of e] show ?thesis by auto
  next
    case False
    with report_tells [OF Cons.prems, of e] have "reports (step e s) = reports s" by auto
    with Cons.IH [OF False] show ?thesis by simp
  qed
qed

lemma at_most_once: "reports s = 0 \<Longrightarrow> reports (fold step es s) \<le> 1"
proof (cases "told s")
  case True
  assume "reports s = 0"
  with told_run [OF True, of es] show ?thesis by simp
next
  case False
  assume "reports s = 0"
  with reports_run [OF False, of es] show ?thesis by auto
qed

end

end
