(* ===== verification/Countdown.thy ===== *)
theory Countdown
  imports Complex_Main Prelude
begin

text \<open>
  countdowntimer.js, window-timer.js and watchdog.js. A \<open>SystemTimer\<close> is the list of the
  armed timeouts and intervals of the browser; a \<open>CountdownTimer\<close> counts down in ticks of 200
  milliseconds on one of them. Milliseconds and seconds are JavaScript numbers, modelled by
  \<open>rat\<close>. A callback is a name of the type \<open>'cb\<close>, and an operation returns the callbacks it
  calls.
\<close>

subsection \<open>The system timer\<close>

datatype sched = Interval rat | OneShot rat

record systimer =
  sys_last :: nat
  sys_armed :: "(nat \<times> sched) list"

definition sys_arm :: "systimer \<Rightarrow> sched \<Rightarrow> systimer \<times> nat" where
  "sys_arm sys k =
     (let i = Suc (sys_last sys) in (sys\<lparr>sys_last := i, sys_armed := (i, k) # sys_armed sys\<rparr>, i))"

definition sys_setTimeout :: "systimer \<Rightarrow> rat \<Rightarrow> systimer \<times> nat" where
  "sys_setTimeout sys timeoutMillis = sys_arm sys (OneShot timeoutMillis)"

definition sys_setInterval :: "systimer \<Rightarrow> rat \<Rightarrow> systimer \<times> nat" where
  "sys_setInterval sys timeoutMillis = sys_arm sys (Interval timeoutMillis)"

text \<open>Browsers keep one list of identifiers, so \<open>clearTimeout\<close> also stops an interval.\<close>

definition sys_clearTimeout :: "systimer \<Rightarrow> nat \<Rightarrow> systimer" where
  "sys_clearTimeout sys i = sys\<lparr>sys_armed := AList.delete i (sys_armed sys)\<rparr>"

text \<open>The browser delivers a timer: a one-shot timer is spent.\<close>

definition sys_deliver :: "systimer \<Rightarrow> nat \<Rightarrow> systimer" where
  "sys_deliver sys i =
     (case map_of (sys_armed sys) i of
        Some (OneShot _) \<Rightarrow> sys_clearTimeout sys i
      | _ \<Rightarrow> sys)"

subsection \<open>CountdownTimer\<close>

record 'cb countdown =
  remainingMillis :: rat
  timeoutId :: "nat option"
  cd_cb :: "'cb option"

definition TIMER_INTERVAL_MILLIS :: rat where
  "TIMER_INTERVAL_MILLIS = 200"

definition cd_setTimeout ::
  "systimer \<Rightarrow> 'cb countdown \<Rightarrow> rat \<Rightarrow> 'cb option \<Rightarrow> systimer \<times> 'cb countdown \<times> bool" where
  "cd_setTimeout sys t timeoutMillis cb =
     (if timeoutId t \<noteq> None then (sys, t, False)
      else if timeoutMillis = 0 \<or> timeoutMillis < 0 then (sys, t, False)
      else (let t1 = t\<lparr>remainingMillis := timeoutMillis, cd_cb := cb\<rparr>;
                (sys', i) = (if remainingMillis t1 > TIMER_INTERVAL_MILLIS
                             then sys_setInterval sys TIMER_INTERVAL_MILLIS
                             else sys_setTimeout sys (remainingMillis t1))
            in (sys', t1\<lparr>timeoutId := Some i\<rparr>, True)))"

definition cd_clearTimeout :: "systimer \<Rightarrow> 'cb countdown \<Rightarrow> systimer \<times> 'cb countdown" where
  "cd_clearTimeout sys t =
     (case timeoutId t of
        Some i \<Rightarrow> (sys_clearTimeout sys i, t\<lparr>timeoutId := None, remainingMillis := 0\<rparr>)
      | None \<Rightarrow> (sys, t\<lparr>remainingMillis := 0\<rparr>))"

definition millisecondsUntilExpired :: "'cb countdown \<Rightarrow> rat" where
  "millisecondsUntilExpired t = (if remainingMillis t > 0 then remainingMillis t else 0)"

definition expired :: "'cb countdown \<Rightarrow> bool" where
  "expired t \<longleftrightarrow> remainingMillis t \<le> 0"

definition CountdownTimer ::
  "systimer \<Rightarrow> rat option \<Rightarrow> 'cb option \<Rightarrow> systimer \<times> 'cb countdown" where
  "CountdownTimer sys timeoutMillis cb =
     (let (sys', t, _) = cd_setTimeout sys
            \<lparr>remainingMillis = 0, timeoutId = None, cd_cb = None\<rparr>
            (case timeoutMillis of None \<Rightarrow> 0 | Some ms \<Rightarrow> ms) cb
      in (sys', t))"

definition cd_clone ::
  "systimer \<Rightarrow> 'a countdown \<Rightarrow> 'cb option \<Rightarrow> systimer \<times> 'cb countdown" where
  "cd_clone sys t cb = CountdownTimer sys (Some (remainingMillis t)) cb"

definition timerTick :: "systimer \<Rightarrow> 'cb countdown \<Rightarrow> systimer \<times> 'cb countdown \<times> 'cb list" where
  "timerTick sys t =
     (let t1 = t\<lparr>remainingMillis := remainingMillis t - TIMER_INTERVAL_MILLIS\<rparr> in
      if expired t1
      then ((case timeoutId t1 of None \<Rightarrow> sys | Some i \<Rightarrow> sys_clearTimeout sys i),
            t1\<lparr>timeoutId := None\<rparr>, (case cd_cb t1 of None \<Rightarrow> [] | Some c \<Rightarrow> [c]))
      else (sys, t1, []))"

text \<open>The browser fires the timer the countdown holds, if it is still armed.\<close>

definition cd_fire :: "systimer \<Rightarrow> 'cb countdown \<Rightarrow> systimer \<times> 'cb countdown \<times> 'cb list" where
  "cd_fire sys t =
     (case timeoutId t of
        None \<Rightarrow> (sys, t, [])
      | Some i \<Rightarrow>
          (if map_of (sys_armed sys) i = None then (sys, t, [])
           else timerTick (sys_deliver sys i) t))"

definition createTimer ::
  "systimer \<Rightarrow> rat \<Rightarrow> 'cb option \<Rightarrow> systimer \<times> 'cb countdown" where
  "createTimer sys timeoutMillis opt_cb = CountdownTimer sys (Some timeoutMillis) opt_cb"

subsection \<open>Timeout values\<close>

definition MINIMUM_TIMEOUT_ATTENUATION_SECONDS :: rat where
  "MINIMUM_TIMEOUT_ATTENUATION_SECONDS = 1"

definition attenuateTimeoutInSeconds :: "rat \<Rightarrow> rat option \<Rightarrow> rat" where
  "attenuateTimeoutInSeconds timeoutSeconds opt_attenuationSeconds =
     (let attenuationSeconds =
            (case opt_attenuationSeconds of
               Some a \<Rightarrow> if a = 0 then MINIMUM_TIMEOUT_ATTENUATION_SECONDS else a
             | None \<Rightarrow> MINIMUM_TIMEOUT_ATTENUATION_SECONDS)
      in if timeoutSeconds < attenuationSeconds then 0 else timeoutSeconds - attenuationSeconds)"

definition DEFAULT_REQUEST_TIMEOUT_SECONDS :: rat where
  "DEFAULT_REQUEST_TIMEOUT_SECONDS = 30"

text \<open>The two properties of a request that hold a timeout, each present or not.\<close>

record request_timeout =
  req_timeoutSeconds :: "rat option"
  req_timeout :: "rat option"

definition getTimeoutValueFromRequest :: "request_timeout \<Rightarrow> rat option \<Rightarrow> rat" where
  "getTimeoutValueFromRequest request opt_default =
     (case req_timeoutSeconds request of
        Some v \<Rightarrow> v
      | None \<Rightarrow>
        (case req_timeout request of
           Some v \<Rightarrow> v
         | None \<Rightarrow>
           (case opt_default of Some v \<Rightarrow> v | None \<Rightarrow> DEFAULT_REQUEST_TIMEOUT_SECONDS)))"

definition createAttenuatedTimer ::
  "systimer \<Rightarrow> rat \<Rightarrow> rat option \<Rightarrow> systimer \<times> 'cb countdown" where
  "createAttenuatedTimer sys timeoutValueSeconds opt_attenuationSeconds =
     createTimer sys (attenuateTimeoutInSeconds timeoutValueSeconds opt_attenuationSeconds * 1000) None"

subsection \<open>A countdown fires once\<close>

fun cd_run :: "nat \<Rightarrow> systimer \<Rightarrow> 'cb countdown \<Rightarrow> systimer \<times> 'cb countdown \<times> 'cb list" where
  "cd_run 0 sys t = (sys, t, [])"
| "cd_run (Suc n) sys t =
     (let (sys1, t1, c1) = cd_fire sys t; (sys2, t2, c2) = cd_run n sys1 t1 in (sys2, t2, c1 @ c2))"

definition sys_ok :: "systimer \<Rightarrow> bool" where
  "sys_ok sys \<longleftrightarrow> (\<forall>i \<in> fst ` set (sys_armed sys). i \<le> sys_last sys)"

text \<open>Started with \<open>T\<close> milliseconds on \<open>sys0\<close>, and \<open>k\<close> ticks later.\<close>

definition counting :: "systimer \<Rightarrow> rat \<Rightarrow> nat \<Rightarrow> 'cb option \<Rightarrow> systimer \<Rightarrow> 'cb countdown \<Rightarrow> bool" where
  "counting sys0 T k c sys t \<longleftrightarrow>
     timeoutId t = Some (Suc (sys_last sys0)) \<and> cd_cb t = c \<and> remainingMillis t = T - 200 * of_nat k
     \<and> 0 < remainingMillis t
     \<and> sys_armed sys = (Suc (sys_last sys0), if T > 200 then Interval 200 else OneShot T) # sys_armed sys0"

definition spent :: "systimer \<Rightarrow> systimer \<Rightarrow> 'cb countdown \<Rightarrow> bool" where
  "spent sys0 sys t \<longleftrightarrow> timeoutId t = None \<and> remainingMillis t \<le> 0 \<and> sys_armed sys = sys_armed sys0"

lemma not_armed: "sys_ok sys \<Longrightarrow> Suc (sys_last sys) \<notin> fst ` set (sys_armed sys)"
  unfolding sys_ok_def by fastforce

lemma counting_start:
  assumes "0 < T"
  shows "counting sys0 T 0 c (fst (CountdownTimer sys0 (Some T) c)) (snd (CountdownTimer sys0 (Some T) c))"
  using assms
  by (auto simp: counting_def CountdownTimer_def cd_setTimeout_def Let_def sys_arm_def
      sys_setInterval_def sys_setTimeout_def TIMER_INTERVAL_MILLIS_def)

lemma counting_fire:
  assumes "counting sys0 T k c sys t" "sys_ok sys0" "cd_fire sys t = (sys', t', cs)"
  shows "if T \<le> 200 * of_nat (Suc k)
         then spent sys0 sys' t' \<and> cs = (case c of None \<Rightarrow> [] | Some x \<Rightarrow> [x])
         else counting sys0 T (Suc k) c sys' t' \<and> cs = []"
  using assms not_armed [OF assms(2)]
  by (auto simp: counting_def spent_def cd_fire_def timerTick_def sys_deliver_def Let_def expired_def
      sys_clearTimeout_def TIMER_INTERVAL_MILLIS_def delete_fresh algebra_simps split: option.splits if_splits)

lemma spent_run: "spent sys0 sys t \<Longrightarrow> cd_run n sys t = (sys, t, [])"
  by (induction n) (auto simp: spent_def cd_fire_def)

lemma counting_run:
  assumes "counting sys0 T k c sys t" "sys_ok sys0" "cd_run n sys t = (sys', t', cs)"
  shows "if T \<le> 200 * of_nat (k + n)
         then spent sys0 sys' t' \<and> cs = (case c of None \<Rightarrow> [] | Some x \<Rightarrow> [x])
         else counting sys0 T (k + n) c sys' t' \<and> cs = []"
  using assms
proof (induction n arbitrary: k sys t cs)
  case 0
  then show ?case by (auto simp: counting_def)
next
  case (Suc n)
  obtain sys1 t1 c1 where f: "cd_fire sys t = (sys1, t1, c1)" by (metis prod_cases3)
  obtain c2 where r: "cd_run n sys1 t1 = (sys', t', c2)" "cs = c1 @ c2"
    using Suc.prems(3) f by (auto split: prod.splits)
  note s = counting_fire [OF Suc.prems(1,2) f]
  show ?case
  proof (cases "T \<le> 200 * of_nat (Suc k)")
    case True
    have "200 * of_nat (Suc k) \<le> (200 * of_nat (k + Suc n) :: rat)" by simp
    with True have "T \<le> 200 * of_nat (k + Suc n)" by (rule order_trans)
    moreover have "cd_run n sys1 t1 = (sys1, t1, [])" using True s spent_run by metis
    ultimately show ?thesis using True s r by simp
  next
    case False
    with s have "counting sys0 T (Suc k) c sys1 t1" "c1 = []" by auto
    from Suc.IH [OF this(1) Suc.prems(2) r(1)] this(2) r(2) show ?thesis
      by (simp only: add_Suc_shift append_Nil)
  qed
qed

text \<open>
  C19. A countdown of \<open>T > 0\<close> milliseconds calls its callback exactly once: it is silent and still
  counting after every number \<open>n\<close> of ticks with \<open>200 n < T\<close>, and from the first \<open>n\<close> with
  \<open>T \<le> 200 n\<close> on it has called the callback once, is expired, and has left the browser's timers
  as it found them, however often the browser fires afterwards.
\<close>

theorem countdown_fires_once:
  assumes "0 < T" "sys_ok sys" "CountdownTimer sys (Some T) (Some c) = (sys0, t)"
    and "cd_run n sys0 t = (sys', t', cs)"
  shows "if T \<le> 200 * of_nat n
         then cs = [c] \<and> expired t' \<and> timeoutId t' = None \<and> sys_armed sys' = sys_armed sys
         else cs = [] \<and> \<not> expired t' \<and> millisecondsUntilExpired t' = T - 200 * of_nat n"
proof -
  have "counting sys T 0 (Some c) sys0 t"
    using counting_start [OF assms(1), of sys "Some c"] assms(3) by simp
  note counting_run [OF this assms(2,4)]
  then show ?thesis
    by (auto simp: spent_def counting_def expired_def millisecondsUntilExpired_def split: if_splits)
qed

lemma countdown_fires_once_witness:
  "let (s, t) = CountdownTimer \<lparr>sys_last = 0, sys_armed = []\<rparr> (Some 500) (Some ''cb'')
   in snd (snd (cd_run 2 s t)) = [] \<and> snd (snd (cd_run 3 s t)) = [''cb'']"
proof -
  let ?s = "\<lparr>sys_last = 0, sys_armed = []\<rparr>"
  let ?c = "CountdownTimer ?s (Some 500) (Some ''cb'')"
  have ok: "sys_ok ?s" by (simp add: sys_ok_def)
  obtain s0 t0 where c: "?c = (s0, t0)" by fastforce
  obtain s2 t2 c2 where r2: "cd_run 2 s0 t0 = (s2, t2, c2)" by (metis prod_cases3)
  obtain s3 t3 c3 where r3: "cd_run 3 s0 t0 = (s3, t3, c3)" by (metis prod_cases3)
  from countdown_fires_once [OF _ ok c r2] countdown_fires_once [OF _ ok c r3]
  show ?thesis unfolding c using r2 r3 by simp
qed

text \<open>A countdown that is cleared, or made with no time left, never calls back.\<close>

definition idle :: "'cb countdown \<Rightarrow> bool" where
  "idle t \<longleftrightarrow> timeoutId t = None"

lemma idle_fire [simp]: "idle t \<Longrightarrow> cd_fire sys t = (sys, t, [])"
  by (simp add: idle_def cd_fire_def)

lemma idle_clear [simp]: "idle (snd (cd_clearTimeout sys t))"
  by (auto simp: idle_def cd_clearTimeout_def split: option.split)

lemma idle_run: "idle t \<Longrightarrow> cd_run n sys t = (sys, t, [])"
  by (induction n) auto

lemma clone_expired_idle: "expired t \<Longrightarrow> idle (snd (cd_clone sys t cb))"
  by (auto simp: idle_def expired_def cd_clone_def CountdownTimer_def cd_setTimeout_def)

lemma fire_called_idle: "cd_fire sys t = (sys', t', cs) \<Longrightarrow> cs \<noteq> [] \<Longrightarrow> idle t' \<and> cs = [the (cd_cb t)]"
  by (auto simp: idle_def cd_fire_def timerTick_def Let_def split: option.splits if_splits)

text \<open>
  Cloning carries over the remaining time, and so a clone of an expired countdown is never armed:
  its callback is never called, whatever the browser fires. A clone of a live one fires as a new
  countdown of the remaining milliseconds does.
\<close>

theorem clone_behaviour:
  "(expired t \<longrightarrow> snd (snd (cd_run n (fst (cd_clone sys t cb)) (snd (cd_clone sys t cb)))) = [])
   \<and> (\<not> expired t \<longrightarrow> cd_clone sys t cb = CountdownTimer sys (Some (millisecondsUntilExpired t)) cb)"
  using idle_run [OF clone_expired_idle [of t sys cb]]
  by (auto simp: cd_clone_def millisecondsUntilExpired_def expired_def)

lemma clone_behaviour_witness:
  "snd (snd (cd_run 9 (fst (cd_clone \<lparr>sys_last = 0, sys_armed = []\<rparr>
       \<lparr>remainingMillis = 0, timeoutId = None, cd_cb = Some ''a''\<rparr> (Some ''b'')))
     (snd (cd_clone \<lparr>sys_last = 0, sys_armed = []\<rparr>
       \<lparr>remainingMillis = 0, timeoutId = None, cd_cb = Some ''a''\<rparr> (Some ''b''))))) = []"
  using clone_behaviour [of "\<lparr>remainingMillis = 0, timeoutId = None, cd_cb = Some ''a''\<rparr>" 9
      "\<lparr>sys_last = 0, sys_armed = []\<rparr>" "Some ''b''"]
  by (simp add: expired_def)

end
