(* ===== verification/Watchdog.thy ===== *)
theory Watchdog
  imports Countdown
begin

text \<open>
  watchdog.js: a \<open>WatchdogRequestHandler\<close> wraps the callbacks of a request and calls a
  timeout callback when none of them was called in time. Its events are a firing of its timer, a
  call of a wrapped callback, \<open>setCloseable\<close> and \<open>close\<close>; what it does to the outside is a list of
  \<open>wd_effect\<close>s, in order.
\<close>

datatype 'cb wd_effect = CallTimeoutCb | CallBack 'cb | CloseCloseable nat

text \<open>The timer's one callback is \<open>this.timeout_\<close>, here \<open>()\<close>. A closeable is a number.\<close>

record 'cb watchdog =
  wd_sys :: systimer
  timeoutCb :: bool
  calledBack :: bool
  wd_timer :: "unit countdown"
  wd_closeable :: "nat option"
  wd_closed :: bool
  wd_trace :: "'cb wd_effect list"

definition WatchdogRequestHandler :: "systimer \<Rightarrow> rat \<Rightarrow> bool \<Rightarrow> 'cb watchdog" where
  "WatchdogRequestHandler sys timeoutValueSeconds opt_timeoutCb =
     (let (sys', t) = createTimer sys (timeoutValueSeconds * 1000) (Some ()) in
      \<lparr>wd_sys = sys', timeoutCb = opt_timeoutCb, calledBack = False, wd_timer = t,
       wd_closeable = None, wd_closed = False, wd_trace = []\<rparr>)"

definition wd_close :: "'cb watchdog \<Rightarrow> 'cb watchdog" where
  "wd_close w =
     (let (sys', t) = cd_clearTimeout (wd_sys w) (wd_timer w);
          w1 = w\<lparr>wd_closed := True, wd_sys := sys', wd_timer := t\<rparr>
      in case wd_closeable w1 of
           Some c \<Rightarrow> w1\<lparr>wd_trace := wd_trace w1 @ [CloseCloseable c], wd_closeable := None\<rparr>
         | None \<Rightarrow> w1)"

definition setCloseable :: "nat \<Rightarrow> 'cb watchdog \<Rightarrow> 'cb watchdog" where
  "setCloseable c w = w\<lparr>wd_closeable := Some c\<rparr>"

definition wd_timeout :: "'cb watchdog \<Rightarrow> 'cb watchdog" where
  "wd_timeout w =
     (if \<not> calledBack w \<and> \<not> wd_closed w
      then (if timeoutCb w then w\<lparr>wd_trace := wd_trace w @ [CallTimeoutCb]\<rparr> else w)
      else w)"

definition wrappedCallback :: "'cb \<Rightarrow> 'cb watchdog \<Rightarrow> 'cb watchdog" where
  "wrappedCallback cb w =
     (if \<not> wd_closed w
      then (let w1 = w\<lparr>calledBack := True\<rparr>;
                (sys', t) = cd_clearTimeout (wd_sys w1) (wd_timer w1)
            in w1\<lparr>wd_sys := sys', wd_timer := t, wd_trace := wd_trace w1 @ [CallBack cb]\<rparr>)
      else w)"

text \<open>The browser fires the watchdog's timer.\<close>

definition wd_fire :: "'cb watchdog \<Rightarrow> 'cb watchdog" where
  "wd_fire w =
     (let (sys', t, cs) = cd_fire (wd_sys w) (wd_timer w);
          w1 = w\<lparr>wd_sys := sys', wd_timer := t\<rparr>
      in if cs = [] then w1 else wd_timeout w1)"

datatype 'cb wd_event = WFire | WCallback 'cb | WSetCloseable nat | WClose

fun wd_step :: "'cb wd_event \<Rightarrow> 'cb watchdog \<Rightarrow> 'cb watchdog" where
  "wd_step WFire w = wd_fire w"
| "wd_step (WCallback cb) w = wrappedCallback cb w"
| "wd_step (WSetCloseable c) w = setCloseable c w"
| "wd_step WClose w = wd_close w"

subsection \<open>The watchdog keeps its promise\<close>

definition timeouts :: "'cb watchdog \<Rightarrow> nat" where
  "timeouts w = length (filter (\<lambda>e. e = CallTimeoutCb) (wd_trace w))"

lemma clear_idle_pair: "cd_clearTimeout sys t = (sys', t') \<Longrightarrow> idle t'"
  using idle_clear [of sys t] by simp

interpretation watchdog: notify_once "wd_step" "\<lambda>w. idle (wd_timer w)" timeouts
proof
  fix w :: "'a watchdog" and e
  note defs = wd_fire_def wd_timeout_def wrappedCallback_def setCloseable_def wd_close_def timeouts_def
  show "idle (wd_timer w) \<Longrightarrow> timeouts (wd_step e w) = timeouts w"
    by (cases e) (auto simp: defs Let_def split: prod.splits option.splits)
  show "idle (wd_timer w) \<Longrightarrow> idle (wd_timer (wd_step e w))"
    by (cases e) (auto simp: defs Let_def split: prod.splits option.splits dest: clear_idle_pair)
  show "\<not> idle (wd_timer w) \<Longrightarrow> timeouts (wd_step e w) = timeouts w
      \<or> timeouts (wd_step e w) = Suc (timeouts w) \<and> idle (wd_timer (wd_step e w))"
    by (cases e) (auto simp: defs Let_def split: prod.splits option.splits
        dest: clear_idle_pair fire_called_idle)
qed

text \<open>
  The watchdog's timeout callback is called at most once in any history of timer firings,
  callbacks, closeables and \<open>close\<close>, and not at all when the watchdog was given no timeout callback
  or no time.
\<close>

theorem watchdog_times_out_once:
  "timeouts (fold wd_step es (WatchdogRequestHandler sys secs b)) \<le> 1
   \<and> (secs \<le> 0 \<longrightarrow> timeouts (fold wd_step es (WatchdogRequestHandler sys secs b)) = 0)"
proof
  let ?w = "WatchdogRequestHandler sys secs b"
  have z: "timeouts ?w = 0"
    by (simp add: WatchdogRequestHandler_def timeouts_def Let_def split: prod.split)
  then show "timeouts (fold wd_step es ?w) \<le> 1" by (rule watchdog.at_most_once)
  have "idle (wd_timer ?w)" if "secs \<le> 0"
    using that by (auto simp: WatchdogRequestHandler_def idle_def createTimer_def CountdownTimer_def
        cd_setTimeout_def Let_def split: prod.split)
  with z show "secs \<le> 0 \<longrightarrow> timeouts (fold wd_step es ?w) = 0"
    using watchdog.told_run by metis
qed

lemma watchdog_times_out_once_witness:
  "timeouts (fold wd_step [WFire, WCallback ''cb'', WFire] (WatchdogRequestHandler \<lparr>sys_last = 0, sys_armed = []\<rparr> 0 True)) = 0"
  using watchdog_times_out_once [of "[WFire, WCallback ''cb'', WFire]" "\<lparr>sys_last = 0, sys_armed = []\<rparr>" 0 True]
  by blast

lemma closed_step: "wd_closed w \<Longrightarrow> wd_closed (wd_step e w)"
  by (cases e) (auto simp: wd_fire_def wd_timeout_def wrappedCallback_def setCloseable_def wd_close_def
      Let_def split: prod.splits option.splits)

definition outputs :: "'cb watchdog \<Rightarrow> 'cb wd_effect list" where
  "outputs w = filter (\<lambda>e. \<forall>c. e \<noteq> CloseCloseable c) (wd_trace w)"

lemma closed_outputs: "wd_closed w \<Longrightarrow> outputs (wd_step e w) = outputs w"
  by (cases e) (auto simp: outputs_def wd_fire_def wd_timeout_def wrappedCallback_def setCloseable_def
      wd_close_def Let_def split: prod.splits option.splits)

lemma closed_run: "wd_closed w \<Longrightarrow> outputs (fold wd_step es w) = outputs w"
  by (induction es arbitrary: w) (auto simp: closed_step closed_outputs)

lemma called_run:
  "calledBack w \<Longrightarrow> timeouts (fold wd_step es w) = timeouts w"
proof (induction es arbitrary: w)
  case (Cons e es)
  have "calledBack (wd_step e w) \<and> timeouts (wd_step e w) = timeouts w"
    using Cons.prems by (cases e) (auto simp: timeouts_def wd_fire_def wd_timeout_def wrappedCallback_def
        setCloseable_def wd_close_def Let_def split: prod.splits option.splits)
  with Cons.IH [of "wd_step e w"] show ?case by simp
qed simp

text \<open>
  A closed watchdog is silent: after \<open>close\<close>, no event makes it call a wrapped callback or the
  timeout callback; and once a wrapped callback was called on an open watchdog, the timeout callback
  is not called any more.
\<close>

theorem watchdog_silent:
  "outputs (fold wd_step es (wd_close w)) = outputs w
   \<and> (\<not> wd_closed w \<longrightarrow> timeouts (fold wd_step es (wrappedCallback cb w)) = timeouts w)"
proof
  have "wd_closed (wd_close w)" "outputs (wd_close w) = outputs w"
    by (auto simp: wd_close_def outputs_def Let_def split: prod.split option.split)
  then show "outputs (fold wd_step es (wd_close w)) = outputs w" by (simp add: closed_run)
  have "calledBack (wrappedCallback cb w) \<and> timeouts (wrappedCallback cb w) = timeouts w" if "\<not> wd_closed w"
    using that by (auto simp: wrappedCallback_def timeouts_def Let_def split: prod.split)
  then show "\<not> wd_closed w \<longrightarrow> timeouts (fold wd_step es (wrappedCallback cb w)) = timeouts w"
    using called_run by metis
qed

lemma watchdog_silent_witness:
  "timeouts (fold wd_step [WFire, WFire] (wrappedCallback ''cb''
     (WatchdogRequestHandler \<lparr>sys_last = 0, sys_armed = []\<rparr> (1/10) True))) = 0"
proof -
  let ?w = "WatchdogRequestHandler \<lparr>sys_last = 0, sys_armed = []\<rparr> (1/10) True :: string watchdog"
  have "\<not> wd_closed ?w" "timeouts ?w = 0"
    by (simp_all add: WatchdogRequestHandler_def timeouts_def Let_def split: prod.split)
  with watchdog_silent [of "[WFire, WFire]" ?w "''cb''"] show ?thesis by simp
qed

end
