(* ===== verification/RequestQueue.thy ===== *)
theory RequestQueue
  imports Countdown
begin

text \<open>
  requestqueue.js: the queue of the pending requests of one origin. The tokens are a doubly
  linked list of mutable objects, an explicit heap from the token's \<open>id_\<close> to its fields.
  \<open>beginCb\<close> is called in two ways: \<open>complete\<close> begins the completed token's successor, as its
  last action, and the first token of an empty queue is begun by a zero timeout
  (\<open>rq_starts\<close>). \<open>rq_begun\<close> lists the tokens whose \<open>beginCb\<close> was called, in order. The
  specification is a list of the tokens not yet completed.
\<close>

record token =
  tk_prev :: "nat option"
  tk_next :: "nat option"
  completed :: bool

record rqueue =
  rq_sys :: systimer
  head :: "nat option"
  tail :: "nat option"
  rq_id :: nat
  rq_heap :: "nat \<Rightarrow> token option"
  rq_clones :: "(nat \<times> nat countdown) list"
  rq_starts :: "nat list"
  rq_begun :: "nat list"

definition RequestToken :: token where
  "RequestToken = \<lparr>tk_prev = None, tk_next = None, completed = False\<rparr>"

definition RequestQueue :: "systimer \<Rightarrow> rqueue" where
  "RequestQueue sysTimer =
     \<lparr>rq_sys = sysTimer, head = None, tail = None, rq_id = 0, rq_heap = (\<lambda>_. None),
      rq_clones = [], rq_starts = [], rq_begun = []\<rparr>"

text \<open>Assignment to a field of the token at an address.\<close>

definition set_prev :: "nat \<Rightarrow> nat option \<Rightarrow> (nat \<Rightarrow> token option) \<Rightarrow> nat \<Rightarrow> token option" where
  "set_prev a v h = h(a := map_option (tk_prev_update (\<lambda>_. v)) (h a))"

definition set_next :: "nat \<Rightarrow> nat option \<Rightarrow> (nat \<Rightarrow> token option) \<Rightarrow> nat \<Rightarrow> token option" where
  "set_next a v h = h(a := map_option (tk_next_update (\<lambda>_. v)) (h a))"

definition set_completed :: "nat \<Rightarrow> (nat \<Rightarrow> token option) \<Rightarrow> nat \<Rightarrow> token option" where
  "set_completed a h = h(a := map_option (completed_update (\<lambda>_. True)) (h a))"

text \<open>\<open>Inl ()\<close> is the exception \<open>'Non-empty list missing tail'\<close>.\<close>

definition insertToken :: "nat \<Rightarrow> rqueue \<Rightarrow> unit + rqueue" where
  "insertToken tok q =
     (if head q = None then Inr (q\<lparr>head := Some tok, tail := Some tok\<rparr>)
      else (case tail q of
          None \<Rightarrow> Inl ()
        | Some t \<Rightarrow>
            Inr (q\<lparr>rq_heap := set_prev tok (Some t) (set_next t (Some tok) (rq_heap q)),
                   tail := Some tok\<rparr>)))"

text \<open>
  \<open>token.next\<close> and \<open>token.prev\<close> are read again at every use: by then they still hold the values
  they had (a token is not its own neighbour), but \<open>head_\<close> and \<open>tail_\<close> may have changed. \<open>Inl ()\<close>
  is the exception that assigning to a field of \<open>null\<close> raises.
\<close>

definition on_some :: "'a option \<Rightarrow> ('a \<Rightarrow> 'h \<Rightarrow> 'h) \<Rightarrow> 'h \<Rightarrow> 'h" where
  "on_some v f h = (case v of None \<Rightarrow> h | Some a \<Rightarrow> f a h)"

definition tok_at :: "rqueue \<Rightarrow> nat \<Rightarrow> token" where
  "tok_at q a = (case rq_heap q a of None \<Rightarrow> RequestToken | Some t \<Rightarrow> t)"

definition move_head :: "nat \<Rightarrow> rqueue \<Rightarrow> unit + rqueue" where
  "move_head tok q =
     (if head q = Some tok
      then (case tk_next (tok_at q tok) of
          None \<Rightarrow> Inl ()
        | Some n \<Rightarrow> Inr (q\<lparr>head := Some n, rq_heap := set_prev n None (rq_heap q)\<rparr>))
      else Inr q)"

definition move_tail :: "nat \<Rightarrow> rqueue \<Rightarrow> unit + rqueue" where
  "move_tail tok q =
     (if tail q = Some tok
      then (case tk_prev (tok_at q tok) of
          None \<Rightarrow> Inl ()
        | Some p \<Rightarrow> Inr (q\<lparr>tail := Some p, rq_heap := set_next p None (rq_heap q)\<rparr>))
      else Inr q)"

definition removeToken :: "nat \<Rightarrow> rqueue \<Rightarrow> unit + rqueue" where
  "removeToken tok q =
     (let q1 = q\<lparr>rq_heap := on_some (tk_next (tok_at q tok))
                   (\<lambda>n. set_prev n (tk_prev (tok_at q tok))) (rq_heap q)\<rparr>;
          q2 = q1\<lparr>rq_heap := on_some (tk_prev (tok_at q1 tok))
                   (\<lambda>p. set_next p (tk_next (tok_at q1 tok))) (rq_heap q1)\<rparr>;
          moved = (if head q2 = Some tok \<and> tail q2 = Some tok
                   then Inr (q2\<lparr>head := None, tail := None\<rparr>)
                   else (case move_head tok q2 of Inl e \<Rightarrow> Inl e | Inr q3 \<Rightarrow> move_tail tok q3))
      in case moved of Inl e \<Rightarrow> Inl e
         | Inr q4 \<Rightarrow> Inr (q4\<lparr>rq_heap := set_prev tok None (set_next tok None (rq_heap q4))\<rparr>))"

text \<open>\<open>RequestQueue.complete\<close>: the successor is read before the token is unlinked.\<close>

definition rq_complete :: "nat \<Rightarrow> rqueue \<Rightarrow> unit + rqueue" where
  "rq_complete tok q =
     (let next = tk_next (tok_at q tok) in
      case removeToken tok q of Inl e \<Rightarrow> Inl e
      | Inr q' \<Rightarrow> (case next of
            None \<Rightarrow> Inr q'
          | Some n \<Rightarrow> Inr (q'\<lparr>rq_begun := rq_begun q' @ [n]\<rparr>)))"

text \<open>\<open>RequestToken.complete\<close>.\<close>

definition tk_complete :: "nat \<Rightarrow> rqueue \<Rightarrow> unit + rqueue" where
  "tk_complete tok q =
     (if completed (tok_at q tok) then Inr q
      else rq_complete tok (q\<lparr>rq_heap := set_completed tok (rq_heap q)\<rparr>))"

definition rq_empty :: "rqueue \<Rightarrow> bool" where
  "rq_empty q \<longleftrightarrow> head q = None"

definition queueRequest :: "'cb countdown \<Rightarrow> rqueue \<Rightarrow> unit + rqueue \<times> nat" where
  "queueRequest timer q =
     (let startNow = rq_empty q;
          tok = rq_id q + 1;
          (sys', c) = cd_clone (rq_sys q) timer (Some tok);
          q1 = q\<lparr>rq_id := tok, rq_heap := (rq_heap q)(tok := Some RequestToken),
                 rq_sys := sys', rq_clones := (tok, c) # rq_clones q\<rparr>
      in case insertToken tok q1 of Inl e \<Rightarrow> Inl e
         | Inr q2 \<Rightarrow> Inr (if startNow then q2\<lparr>rq_starts := tok # rq_starts q2\<rparr> else q2, tok))"

text \<open>The zero timeout that \<open>queueRequest\<close> set for a token.\<close>

definition rq_start :: "nat \<Rightarrow> rqueue \<Rightarrow> rqueue" where
  "rq_start tok q =
     (if tok \<in> set (rq_starts q)
      then (let q1 = q\<lparr>rq_starts := remove1 tok (rq_starts q)\<rparr> in
            if \<not> completed (tok_at q1 tok) then q1\<lparr>rq_begun := rq_begun q1 @ [tok]\<rparr> else q1)
      else q)"

text \<open>The browser fires the cloned timer of a token, whose callback is \<open>token.complete\<close>.\<close>

definition rq_timer :: "nat \<Rightarrow> rqueue \<Rightarrow> unit + rqueue" where
  "rq_timer tok q =
     (case map_of (rq_clones q) tok of
        None \<Rightarrow> Inr q
      | Some c \<Rightarrow>
        (let (sys', c', cs) = cd_fire (rq_sys q) c;
             q1 = q\<lparr>rq_sys := sys', rq_clones := AList.update tok c' (rq_clones q)\<rparr>
         in if cs = [] then Inr q1 else tk_complete tok q1))"

text \<open>One queue per application and origin, made on the first request.\<close>

type_synonym origin_queues = "rqueue jsobj"

definition queue_key :: "string \<Rightarrow> string \<Rightarrow> string" where
  "queue_key appId origin = appId @ '' '' @ origin"

definition origin_queueRequest ::
  "systimer \<Rightarrow> string \<Rightarrow> string \<Rightarrow> 'cb countdown \<Rightarrow> origin_queues \<Rightarrow> unit + origin_queues \<times> nat" where
  "origin_queueRequest sysTimer appId origin timer requests =
     (let key = queue_key appId origin;
          requests1 = (if map_of requests key = None
                       then AList.update key (RequestQueue sysTimer) requests else requests);
          queue = the (map_of requests1 key)
      in case queueRequest timer queue of Inl e \<Rightarrow> Inl e
         | Inr (queue', tok) \<Rightarrow> Inr (AList.update key queue' requests1, tok))"

subsection \<open>The linked list and the list it stands for\<close>

definition first_of :: "nat list \<Rightarrow> nat option \<Rightarrow> nat option" where
  "first_of xs n = (case xs of [] \<Rightarrow> n | y # _ \<Rightarrow> Some y)"

definition last_of :: "nat option \<Rightarrow> nat list \<Rightarrow> nat option" where
  "last_of p xs = (if xs = [] then p else Some (last xs))"

fun seg :: "(nat \<Rightarrow> token option) \<Rightarrow> nat option \<Rightarrow> nat list \<Rightarrow> nat option \<Rightarrow> bool" where
  "seg h p [] n \<longleftrightarrow> True"
| "seg h p (x # xs) n \<longleftrightarrow>
     h x = Some \<lparr>tk_prev = p, tk_next = first_of xs n, completed = False\<rparr> \<and> seg h (Some x) xs n"

lemma first_last_simps [simp]:
  "first_of [] n = n" "first_of (x # xs) n = Some x" "last_of p [] = p"
  "last_of p (xs @ [x]) = Some x" "first_of (xs @ y # ys) n = first_of xs (Some y)"
  "last_of p (x # xs) = last_of (Some x) xs" "last_of p (xs @ ys) = last_of (last_of p xs) ys"
  by (auto simp: first_of_def last_of_def split: list.split)

lemma seg_append [simp]:
  "seg h p (xs @ ys) n \<longleftrightarrow> seg h p xs (first_of ys n) \<and> seg h (last_of p xs) ys n"
proof (induction xs arbitrary: p)
  case (Cons x xs)
  have "first_of (xs @ ys) n = first_of xs (first_of ys n)"
    by (cases xs) (auto simp: first_of_def)
  with Cons show ?case by simp
qed simp

lemma seg_frame [simp]: "x \<notin> set xs \<Longrightarrow> seg (h(x := v)) p xs n = seg h p xs n"
  by (induction xs arbitrary: p) auto

definition queue_inv :: "rqueue \<Rightarrow> nat list \<Rightarrow> bool" where
  "queue_inv q xs \<longleftrightarrow>
     distinct xs \<and> seg (rq_heap q) None xs None \<and> head q = first_of xs None \<and> tail q = last_of None xs
     \<and> (\<forall>a tok. rq_heap q a = Some tok \<longrightarrow> a \<le> rq_id q \<and>
          (a \<notin> set xs \<longrightarrow> tok = \<lparr>tk_prev = None, tk_next = None, completed = True\<rparr>))"

lemma queue_inv_new: "queue_inv (RequestQueue sys) []"
  by (simp add: queue_inv_def RequestQueue_def)

lemma seg_in_heap: "seg h p xs n \<Longrightarrow> a \<in> set xs \<Longrightarrow> \<exists>tok. h a = Some tok \<and> \<not> completed tok"
  by (induction xs arbitrary: p) auto

lemma inv_heap_none: "queue_inv q xs \<Longrightarrow> rq_heap q a = None \<Longrightarrow> a \<notin> set xs"
  unfolding queue_inv_def using seg_in_heap by (metis option.distinct(1))

lemma inv_members: "queue_inv q xs \<Longrightarrow> a \<in> set xs \<Longrightarrow> a \<le> rq_id q"
  unfolding queue_inv_def using seg_in_heap by blast

lemma rev_split: "xs = [] \<or> (\<exists>ys y. xs = ys @ [y])"
  by (cases xs rule: rev_cases) auto

lemma inv_queueRequest:
  assumes "queue_inv q xs" "queueRequest timer q = r"
  shows "\<exists>q'. r = Inr (q', Suc (rq_id q)) \<and> queue_inv q' (xs @ [Suc (rq_id q)])
     \<and> rq_begun q' = rq_begun q
     \<and> rq_starts q' = (if xs = [] then Suc (rq_id q) # rq_starts q else rq_starts q)"
proof -
  let ?n = "Suc (rq_id q)"
  have n: "?n \<notin> set xs" using inv_members [OF assms(1)] by fastforce
  obtain sys' c where cl: "cd_clone (rq_sys q) timer (Some ?n) = (sys', c)" by fastforce
  from rev_split consider "xs = []" | ys y where "xs = ys @ [y]" by blast
  then show ?thesis
  proof cases
    case 1
    with assms cl show ?thesis
      by (auto simp: queueRequest_def Let_def insertToken_def rq_empty_def queue_inv_def RequestToken_def le_SucI)
  next
    case 2
    with assms(1) n have y: "rq_heap q y = Some \<lparr>tk_prev = last_of None ys, tk_next = None, completed = False\<rparr>"
      "y \<notin> set ys" "y \<noteq> ?n" "?n \<notin> set ys"
      by (auto simp: queue_inv_def)
    have f: "first_of xs None \<noteq> None" using 2 by (auto simp: first_of_def split: list.split)
    from assms cl 2 n y f show ?thesis
      by (auto simp: queueRequest_def Let_def insertToken_def rq_empty_def queue_inv_def RequestToken_def
          set_prev_def set_next_def le_SucI)
  qed
qed

lemmas unlink_defs = tk_complete_def rq_complete_def removeToken_def move_head_def move_tail_def
  tok_at_def on_some_def set_prev_def set_next_def set_completed_def Let_def

lemma list_ends:
  "xs = [] \<or> (\<exists>x. xs = [x]) \<or> (\<exists>x ys y. xs = x # ys @ [y])"
  by (cases xs; cases "tl xs" rule: rev_cases) auto

text \<open>\<open>complete\<close> takes the token out of the list and begins its successor.\<close>

lemma inv_tk_complete:
  assumes "queue_inv q (pre @ t # post)"
  shows "\<exists>q'. tk_complete t q = Inr q' \<and> queue_inv q' (pre @ post) \<and> rq_id q' = rq_id q
     \<and> rq_begun q' = rq_begun q @ (case post of [] \<Rightarrow> [] | n # _ \<Rightarrow> [n]) \<and> rq_starts q' = rq_starts q
     \<and> rq_clones q' = rq_clones q \<and> rq_sys q' = rq_sys q"
proof -
  let ?h = "rq_heap q"
  from assms have t: "t \<notin> set pre" "t \<notin> set post" "distinct pre" "distinct post" "set pre \<inter> set post = {}"
    and ht: "?h t = Some \<lparr>tk_prev = last_of None pre, tk_next = first_of post None, completed = False\<rparr>"
    and sp: "seg ?h None pre (Some t)" and sq: "seg ?h (Some t) post None"
    and hd: "head q = first_of pre (Some t)" and tl: "tail q = last_of (Some t) post"
    and rest: "\<forall>a tok. ?h a = Some tok \<longrightarrow> a \<le> rq_id q \<and> (a \<notin> set (pre @ t # post) \<longrightarrow>
      tok = \<lparr>tk_prev = None, tk_next = None, completed = True\<rparr>)"
    by (auto simp: queue_inv_def)
  from rev_split consider "pre = []" | ps p where "pre = ps @ [p]" by blast
  then show ?thesis
  proof cases
    case 1
    show ?thesis
    proof (cases post)
      case Nil
      with 1 ht hd tl rest show ?thesis
        by (auto simp: unlink_defs queue_inv_def)
    next
      case (Cons n ns)
      with sq have hn: "?h n = Some \<lparr>tk_prev = Some t, tk_next = first_of ns None, completed = False\<rparr>" by simp
      from Cons t have "tail q \<noteq> Some t" using tl by (auto simp: last_of_def)
      with 1 Cons ht hn hd tl rest t sq show ?thesis
        by (auto simp: unlink_defs queue_inv_def)
    qed
  next
    case 2
    with sp have hp: "?h p = Some \<lparr>tk_prev = last_of None ps, tk_next = Some t, completed = False\<rparr>" by simp
    have "pre \<noteq> []" using 2 by simp
    then obtain a l where pre: "pre = a # l" by (cases pre) auto
    have "head q = Some a" using hd unfolding pre by simp
    moreover have "a \<noteq> t" using t(1) unfolding pre by simp
    ultimately have hdt: "head q \<noteq> Some t" by simp
    show ?thesis
    proof (cases post)
      case Nil
      with 2 ht hp hd hdt tl rest t sp show ?thesis
        by (auto simp: unlink_defs queue_inv_def)
    next
      case (Cons n ns)
      with sq have hn: "?h n = Some \<lparr>tk_prev = Some t, tk_next = first_of ns None, completed = False\<rparr>" by simp
      from Cons t have "tail q \<noteq> Some t" using tl by (auto simp: last_of_def)
      with 2 Cons ht hn hp hd hdt tl rest t sp sq show ?thesis
        by (auto simp: unlink_defs queue_inv_def)
    qed
  qed
qed

lemma inv_completed: "queue_inv q xs \<Longrightarrow> a \<notin> set xs \<Longrightarrow> rq_heap q a \<noteq> None \<Longrightarrow> tk_complete a q = Inr q"
proof -
  assume a: "queue_inv q xs" "a \<notin> set xs" "rq_heap q a \<noteq> None"
  then obtain tok where h: "rq_heap q a = Some tok" by blast
  with a have "completed tok" unfolding queue_inv_def by (metis token.select_convs(3))
  with h show ?thesis by (simp add: tk_complete_def tok_at_def)
qed

subsection \<open>Runs of the queue\<close>

text \<open>
  The events: a request with its timer, the zero timeout of a token, a client that completes a
  token it holds, and the browser firing a token's cloned timer. The model of a failing operation
  is \<open>None\<close>; the invariant shows that none fails.
\<close>

datatype 'cb rq_event = EQueue "'cb countdown" | EStart nat | EComplete nat | ETimer nat

fun rq_step :: "'cb rq_event \<Rightarrow> rqueue \<Rightarrow> unit + rqueue" where
  "rq_step (EQueue timer) q = (case queueRequest timer q of Inl e \<Rightarrow> Inl e | Inr (q', _) \<Rightarrow> Inr q')"
| "rq_step (EStart t) q = Inr (rq_start t q)"
| "rq_step (EComplete t) q = (if rq_heap q t = None then Inr q else tk_complete t q)"
| "rq_step (ETimer t) q = (if rq_heap q t = None then Inr q else rq_timer t q)"

fun rq_run :: "'cb rq_event list \<Rightarrow> rqueue \<Rightarrow> unit + rqueue" where
  "rq_run [] q = Inr q"
| "rq_run (e # es) q = (case rq_step e q of Inl x \<Rightarrow> Inl x | Inr q' \<Rightarrow> rq_run es q')"

text \<open>The specification: the list after an event, and whether the event completes \<open>t\<close>.\<close>

definition timer_calls :: "nat \<Rightarrow> rqueue \<Rightarrow> bool" where
  "timer_calls t q \<longleftrightarrow> (case map_of (rq_clones q) t of None \<Rightarrow> False
     | Some c \<Rightarrow> snd (snd (cd_fire (rq_sys q) c)) \<noteq> [])"

fun spec_step :: "'cb rq_event \<Rightarrow> rqueue \<Rightarrow> nat list \<Rightarrow> nat list" where
  "spec_step (EQueue timer) q xs = xs @ [Suc (rq_id q)]"
| "spec_step (EStart t) q xs = xs"
| "spec_step (EComplete t) q xs = remove1 t xs"
| "spec_step (ETimer t) q xs = (if timer_calls t q then remove1 t xs else xs)"

lemma rq_timer_eq:
  "\<exists>sys' cl'. rq_timer t q = (let q1 = q\<lparr>rq_sys := sys', rq_clones := cl'\<rparr>
     in if timer_calls t q then tk_complete t q1 else Inr q1)"
proof (cases "map_of (rq_clones q) t")
  case None
  then have "rq_timer t q = (let q1 = q\<lparr>rq_sys := rq_sys q, rq_clones := rq_clones q\<rparr>
     in if timer_calls t q then tk_complete t q1 else Inr q1)"
    by (simp add: rq_timer_def timer_calls_def)
  then show ?thesis by blast
next
  case (Some c)
  obtain sys' c' cs where "cd_fire (rq_sys q) c = (sys', c', cs)" by (metis prod_cases3)
  with Some have "rq_timer t q = (let q1 = q\<lparr>rq_sys := sys', rq_clones := AList.update t c' (rq_clones q)\<rparr>
     in if timer_calls t q then tk_complete t q1 else Inr q1)"
    by (simp add: rq_timer_def timer_calls_def Let_def)
  then show ?thesis by blast
qed

lemma queue_inv_irrelevant:
  "queue_inv (q\<lparr>rq_begun := b\<rparr>) xs = queue_inv q xs" "queue_inv (q\<lparr>rq_starts := s\<rparr>) xs = queue_inv q xs"
  "queue_inv (q\<lparr>rq_sys := y\<rparr>) xs = queue_inv q xs" "queue_inv (q\<lparr>rq_clones := c\<rparr>) xs = queue_inv q xs"
  by (simp_all add: queue_inv_def)

lemma inv_complete_any:
  assumes "queue_inv q xs" "rq_heap q t \<noteq> None"
  shows "\<exists>q'. tk_complete t q = Inr q' \<and> queue_inv q' (remove1 t xs)"
proof (cases "t \<in> set xs")
  case True
  then obtain pre post where xs: "xs = pre @ t # post" "t \<notin> set pre" by (metis split_list_first)
  with inv_tk_complete [of q pre t post] assms show ?thesis by (auto simp: remove1_append)
next
  case False
  with inv_completed [OF assms(1) False assms(2)] assms(1) show ?thesis by (simp add: remove1_idem)
qed

lemma inv_step:
  assumes "queue_inv q xs"
  shows "\<exists>q'. rq_step e q = Inr q' \<and> queue_inv q' (spec_step e q xs)"
proof (cases e)
  case (EQueue timer)
  with inv_queueRequest [OF assms, of timer] show ?thesis by auto
next
  case (EStart t)
  with assms show ?thesis by (auto simp: rq_start_def Let_def queue_inv_irrelevant)
next
  case (EComplete t)
  show ?thesis
  proof (cases "rq_heap q t = None")
    case True
    then have "t \<notin> set xs" using inv_heap_none [OF assms] by blast
    with True EComplete assms show ?thesis by (simp add: remove1_idem)
  next
    case False
    with inv_complete_any [OF assms False] EComplete False show ?thesis by auto
  qed
next
  case (ETimer t)
  obtain sys' cl' where q: "rq_timer t q = (let q1 = q\<lparr>rq_sys := sys', rq_clones := cl'\<rparr>
     in if timer_calls t q then tk_complete t q1 else Inr q1)"
    using rq_timer_eq by blast
  define q1 where "q1 = q\<lparr>rq_sys := sys', rq_clones := cl'\<rparr>"
  have q1: "rq_timer t q = (if timer_calls t q then tk_complete t q1 else Inr q1)"
    "rq_heap q1 = rq_heap q" "queue_inv q1 xs"
    using q assms by (simp_all add: q1_def queue_inv_irrelevant)
  show ?thesis
  proof (cases "rq_heap q t = None")
    case True
    then have "t \<notin> set xs" using inv_heap_none [OF assms] by blast
    with True ETimer assms show ?thesis by (simp add: remove1_idem)
  next
    case False
    with inv_complete_any [OF q1(3)] q1 ETimer show ?thesis by auto
  qed
qed

text \<open>
  C15. The doubly linked queue is a list: from an empty queue, no sequence of requests, zero timeouts,
  completions (of any token, at any time, also twice) and timer firings ends in an exception, and
  after it the linked structure holds, in both directions and between \<open>head_\<close> and \<open>tail_\<close>, exactly
  a list of distinct live tokens, every other token being completed and unlinked.
\<close>

theorem queue_structure:
  "\<exists>q xs. rq_run es (RequestQueue sys) = Inr q \<and> queue_inv q xs"
proof -
  have "queue_inv q xs \<Longrightarrow> \<exists>q' xs'. rq_run es q = Inr q' \<and> queue_inv q' xs'" for q xs
  proof (induction es arbitrary: q xs)
    case (Cons e es)
    obtain q' where "rq_step e q = Inr q'" "queue_inv q' (spec_step e q xs)"
      using inv_step [OF Cons.prems] by blast
    moreover from Cons.IH [OF this(2)] obtain q2 xs2 where "rq_run es q' = Inr q2" "queue_inv q2 xs2"
      by blast
    ultimately show ?case by (metis rq_run.simps(2) sum.simps(6))
  next
    case Nil
    then show ?case by (metis rq_run.simps(1))
  qed
  then show ?thesis using queue_inv_new by blast
qed

text \<open>
  One operation refines one list operation: \<open>queueRequest\<close> appends its new token, and completing
  a live token, by the client or by its timer, takes exactly that token out; a completed one stays
  completed.
\<close>

theorem queue_refines_list:
  assumes "queue_inv q xs"
  shows "\<exists>q'. rq_step e q = Inr q' \<and> queue_inv q' (spec_step e q xs)"
  by (rule inv_step [OF assms])

lemma queue_refines_list_witness:
  "\<exists>q'. rq_step (EQueue \<lparr>remainingMillis = 5, timeoutId = None, cd_cb = None\<rparr> :: unit rq_event)
      (RequestQueue \<lparr>sys_last = 0, sys_armed = []\<rparr>) = Inr q' \<and> queue_inv q' [1]"
  using queue_refines_list [OF queue_inv_new [of "\<lparr>sys_last = 0, sys_armed = []\<rparr>"],
      of "EQueue \<lparr>remainingMillis = 5, timeoutId = None, cd_cb = None\<rparr> :: unit rq_event"]
  by (simp add: RequestQueue_def)

subsection \<open>First come, first served\<close>

fun completes :: "'cb rq_event \<Rightarrow> rqueue \<Rightarrow> nat option" where
  "completes (EComplete t) q = Some t"
| "completes (ETimer t) q = (if timer_calls t q then Some t else None)"
| "completes _ q = None"

text \<open>Runs that never complete a token that still waits behind another.\<close>

fun head_only :: "'cb rq_event list \<Rightarrow> rqueue \<Rightarrow> nat list \<Rightarrow> bool" where
  "head_only [] q xs \<longleftrightarrow> True"
| "head_only (e # es) q xs \<longleftrightarrow>
     (case completes e q of Some t \<Rightarrow> t \<notin> set (tl xs) | None \<Rightarrow> True)
     \<and> (case rq_step e q of Inl _ \<Rightarrow> False | Inr q' \<Rightarrow> head_only es q' (spec_step e q xs))"

text \<open>On the begun tokens, the pending zero timeouts, the last id and the waiting list.\<close>

definition order_inv :: "nat list \<Rightarrow> nat list \<Rightarrow> nat \<Rightarrow> nat list \<Rightarrow> bool" where
  "order_inv bs ss n xs \<longleftrightarrow>
     sorted_wrt (<) (xs @ [Suc n]) \<and> sorted_wrt (<) bs \<and> distinct ss
     \<and> (\<forall>b \<in> set bs. b \<le> n \<and> (\<forall>a \<in> set xs. b \<le> a))
     \<and> (\<forall>t \<in> set ss. t \<le> n \<and> t \<notin> set (tl xs) \<and> (t \<in> set xs \<longrightarrow> t \<notin> set bs))
     \<and> (xs \<noteq> [] \<longrightarrow> hd xs \<in> set bs \<or> hd xs \<in> set ss)"

lemma order_invD:
  assumes "order_inv bs ss n xs"
  shows "sorted_wrt (<) (xs @ [Suc n])" "sorted_wrt (<) bs" "distinct ss"
    "b \<in> set bs \<Longrightarrow> b \<le> n" "b \<in> set bs \<Longrightarrow> a \<in> set xs \<Longrightarrow> b \<le> a"
    "t \<in> set ss \<Longrightarrow> t \<le> n" "t \<in> set ss \<Longrightarrow> t \<notin> set (tl xs)"
    "t \<in> set ss \<Longrightarrow> t \<in> set xs \<Longrightarrow> t \<notin> set bs"
    "xs \<noteq> [] \<Longrightarrow> hd xs \<in> set bs \<or> hd xs \<in> set ss"
  using assms unfolding order_inv_def by blast+

lemma order_append:
  assumes "order_inv bs ss n xs"
  shows "order_inv bs (if xs = [] then Suc n # ss else ss) (Suc n) (xs @ [Suc n])"
proof -
  note d = order_invD [OF assms]
  have "Suc n \<notin> set ss" "Suc n \<notin> set bs" using d(4,6) by fastforce+
  moreover have "sorted_wrt (<) ((xs @ [Suc n]) @ [Suc (Suc n)])"
    using d(1) by (auto simp: sorted_wrt_append)
  moreover have "tl (xs @ [Suc n]) = (if xs = [] then [] else tl xs @ [Suc n])" by simp
  ultimately show ?thesis
    unfolding order_inv_def using d by (auto simp: le_SucI hd_append)
qed

lemma order_tail:
  assumes "order_inv bs ss n (t # post)"
  shows "order_inv (bs @ (case post of [] \<Rightarrow> [] | m # _ \<Rightarrow> [m])) ss n post"
proof (cases post)
  case Nil
  with order_invD [OF assms] show ?thesis unfolding order_inv_def by auto
next
  case (Cons m l)
  note d = order_invD [OF assms, unfolded Cons]
  have lt: "t < m" "m \<le> n" "\<And>a. a \<in> set l \<Longrightarrow> m < a" using d(1) by (auto simp: sorted_wrt_append)
  have "b < m" if "b \<in> set bs" for b using d(5) [OF that, of t] lt(1) by simp
  then have "sorted_wrt (<) (bs @ [m])" using d(2) by (simp add: sorted_wrt_append)
  moreover have "sorted_wrt (<) ((m # l) @ [Suc n])" using d(1) by simp
  ultimately show ?thesis
    unfolding order_inv_def Cons using d lt by (auto intro: less_imp_le)
qed

lemma order_start:
  assumes "order_inv bs ss n xs" "t \<in> set ss" "t \<in> set xs"
  shows "order_inv (bs @ [t]) (remove1 t ss) n xs"
proof -
  note d = order_invD [OF assms(1)]
  obtain l where xs: "xs = t # l" using assms(2,3) d(7) by (cases xs) auto
  have lt: "\<And>a. a \<in> set l \<Longrightarrow> t < a" using d(1) by (auto simp: xs sorted_wrt_append)
  have "b < t" if "b \<in> set bs" for b
    using d(5) [OF that assms(3)] d(8) [OF assms(2,3)] that by (metis le_neq_implies_less)
  then have "sorted_wrt (<) (bs @ [t])" using d(2) by (simp add: sorted_wrt_append)
  then show ?thesis
    unfolding order_inv_def using d assms(2) lt by (auto simp: xs less_imp_le)
qed

lemma order_drop:
  assumes "order_inv bs ss n xs" "t \<notin> set xs"
  shows "order_inv bs (remove1 t ss) n xs"
  unfolding order_inv_def using order_invD [OF assms(1)] assms(2)
  by (cases xs) (auto simp: set_remove1_eq)

definition fifo_inv :: "rqueue \<Rightarrow> nat list \<Rightarrow> bool" where
  "fifo_inv q xs \<longleftrightarrow> queue_inv q xs \<and> order_inv (rq_begun q) (rq_starts q) (rq_id q) xs
     \<and> (\<forall>t \<in> set (rq_starts q). rq_heap q t \<noteq> None)"
lemma fifo_new: "fifo_inv (RequestQueue sys) []"
  by (simp add: fifo_inv_def queue_inv_new) (simp add: RequestQueue_def order_inv_def)

lemma queueRequest_heap:
  "queueRequest timer q = Inr (q', t) \<Longrightarrow>
   rq_id q' = Suc (rq_id q) \<and> rq_heap q' (Suc (rq_id q)) \<noteq> None
   \<and> (\<forall>a. rq_heap q a \<noteq> None \<longrightarrow> rq_heap q' a \<noteq> None)"
  by (auto simp: queueRequest_def Let_def insertToken_def set_prev_def set_next_def
      split: prod.splits if_splits option.splits)

lemma heap_dom [simp]:
  "dom (set_prev a v h) = dom h" "dom (set_next a v h) = dom h" "dom (set_completed a h) = dom h"
  by (auto simp: set_prev_def set_next_def set_completed_def split: if_splits)

lemma on_some_dom [simp]:
  "dom (on_some v (\<lambda>n. set_prev n x) h) = dom h" "dom (on_some v (\<lambda>n. set_next n x) h) = dom h"
  by (simp_all add: on_some_def split: option.split)

lemma move_dom:
  "move_head t q = Inr q' \<Longrightarrow> dom (rq_heap q') = dom (rq_heap q)"
  "move_tail t q = Inr q' \<Longrightarrow> dom (rq_heap q') = dom (rq_heap q)"
  by (clarsimp simp: move_head_def move_tail_def split: if_splits option.splits)+

lemma removeToken_dom: "removeToken t q = Inr q' \<Longrightarrow> dom (rq_heap q') = dom (rq_heap q)"
  by (clarsimp simp: removeToken_def Let_def dest!: move_dom split: if_splits sum.splits)

lemma tk_complete_dom: "tk_complete t q = Inr q' \<Longrightarrow> dom (rq_heap q') = dom (rq_heap q)"
  by (clarsimp simp: tk_complete_def rq_complete_def Let_def dest!: removeToken_dom
      split: if_splits sum.splits option.splits)

lemma tk_complete_heap:
  "tk_complete t q = Inr q' \<Longrightarrow> rq_heap q a \<noteq> None \<Longrightarrow> rq_heap q' a \<noteq> None"
  using tk_complete_dom [of t q q'] by (auto simp: dom_def)

lemma fifo_queue:
  assumes "fifo_inv q xs"
  shows "\<exists>q'. rq_step (EQueue timer) q = Inr q' \<and> fifo_inv q' (xs @ [Suc (rq_id q)])"
proof -
  from assms have i: "queue_inv q xs" and o: "order_inv (rq_begun q) (rq_starts q) (rq_id q) xs"
    and h: "\<forall>t \<in> set (rq_starts q). rq_heap q t \<noteq> None" by (simp_all add: fifo_inv_def)
  from inv_queueRequest [OF i refl, of timer] obtain q' where
    q': "queueRequest timer q = Inr (q', Suc (rq_id q))" "queue_inv q' (xs @ [Suc (rq_id q)])"
      "rq_begun q' = rq_begun q" "rq_starts q' = (if xs = [] then Suc (rq_id q) # rq_starts q else rq_starts q)"
    by blast
  note g = queueRequest_heap [OF q'(1)]
  have "order_inv (rq_begun q') (rq_starts q') (rq_id q') (xs @ [Suc (rq_id q)])"
    using order_append [OF o] g q'(3,4) by simp
  moreover have "\<forall>t \<in> set (rq_starts q'). rq_heap q' t \<noteq> None"
    using q'(4) g h by (auto split: if_splits)
  ultimately show ?thesis using q'(1,2) by (simp add: fifo_inv_def)
qed

lemma fifo_complete:
  assumes "fifo_inv q xs" "rq_heap q t \<noteq> None" "t \<notin> set (tl xs)"
  shows "\<exists>q'. tk_complete t q = Inr q' \<and> fifo_inv q' (remove1 t xs)"
proof (cases "t \<in> set xs")
  case False
  with inv_completed [OF _ False assms(2)] assms(1) show ?thesis
    by (auto simp: fifo_inv_def remove1_idem)
next
  case True
  with assms(3) obtain post where xs: "xs = t # post" by (cases xs) auto
  from assms(1) inv_tk_complete [of q "[]" t post] obtain q' where q': "tk_complete t q = Inr q'"
    "queue_inv q' post" "rq_id q' = rq_id q"
    "rq_begun q' = rq_begun q @ (case post of [] \<Rightarrow> [] | n # _ \<Rightarrow> [n])" "rq_starts q' = rq_starts q"
    unfolding fifo_inv_def xs by auto
  have "order_inv (rq_begun q') (rq_starts q') (rq_id q') post"
    using order_tail [of "rq_begun q" "rq_starts q" "rq_id q" t post] assms(1) q'
    unfolding fifo_inv_def xs by simp
  moreover have "\<forall>a \<in> set (rq_starts q'). rq_heap q' a \<noteq> None"
    using tk_complete_heap [OF q'(1)] assms(1) q'(5) by (simp add: fifo_inv_def)
  ultimately show ?thesis using q'(1,2) xs by (simp add: fifo_inv_def)
qed

lemma inv_completed_iff:
  "queue_inv q xs \<Longrightarrow> rq_heap q t \<noteq> None \<Longrightarrow> completed (tok_at q t) \<longleftrightarrow> t \<notin> set xs"
proof (cases "t \<in> set xs")
  case True
  assume "queue_inv q xs"
  with seg_in_heap [of "rq_heap q" None xs None t] True show ?thesis
    by (auto simp: queue_inv_def tok_at_def)
next
  case False
  assume "queue_inv q xs" "rq_heap q t \<noteq> None"
  then obtain tok where "rq_heap q t = Some tok" "completed tok"
    using False unfolding queue_inv_def by (metis not_None_eq token.select_convs(3))
  with False show ?thesis by (simp add: tok_at_def)
qed

lemma fifo_start:
  assumes "fifo_inv q xs"
  shows "fifo_inv (rq_start t q) xs"
proof (cases "t \<in> set (rq_starts q)")
  case False
  with assms show ?thesis by (simp add: rq_start_def)
next
  case True
  from assms have i: "queue_inv q xs" and o: "order_inv (rq_begun q) (rq_starts q) (rq_id q) xs"
    and h: "\<forall>t \<in> set (rq_starts q). rq_heap q t \<noteq> None" by (simp_all add: fifo_inv_def)
  have c: "completed (tok_at (q\<lparr>rq_starts := s\<rparr>) t) \<longleftrightarrow> t \<notin> set xs" for s
    using inv_completed_iff [OF i] h True by (simp add: tok_at_def)
  have r: "set (remove1 t (rq_starts q)) \<subseteq> set (rq_starts q)" by (rule set_remove1_subset)
  show ?thesis
    using order_start [OF o True] order_drop [OF o, of t] i h r True
    by (auto simp: rq_start_def Let_def c fifo_inv_def queue_inv_irrelevant)
qed

lemma fifo_irrelevant: "fifo_inv (q\<lparr>rq_sys := y, rq_clones := c\<rparr>) xs = fifo_inv q xs"
  by (simp add: fifo_inv_def queue_inv_irrelevant)

lemma fifo_step:
  assumes "fifo_inv q xs" "case completes e q of Some t \<Rightarrow> t \<notin> set (tl xs) | None \<Rightarrow> True"
  shows "\<exists>q'. rq_step e q = Inr q' \<and> fifo_inv q' (spec_step e q xs)"
proof (cases e)
  case (EQueue timer)
  with fifo_queue [OF assms(1), of timer] show ?thesis by simp
next
  case (EStart t)
  with fifo_start [OF assms(1), of t] show ?thesis by simp
next
  case (EComplete t)
  have "t \<notin> set xs" if "rq_heap q t = None"
    using assms(1) inv_heap_none [OF _ that] by (simp add: fifo_inv_def)
  with fifo_complete [OF assms(1), of t] assms EComplete show ?thesis by (auto simp: remove1_idem)
next
  case (ETimer t)
  obtain sys' cl' where q: "rq_timer t q = (let q1 = q\<lparr>rq_sys := sys', rq_clones := cl'\<rparr>
     in if timer_calls t q then tk_complete t q1 else Inr q1)"
    using rq_timer_eq by blast
  have n: "t \<notin> set xs" if "rq_heap q t = None"
    using assms(1) inv_heap_none [OF _ that] by (simp add: fifo_inv_def)
  have f: "fifo_inv (q\<lparr>rq_sys := sys', rq_clones := cl'\<rparr>) xs" using assms(1) by (simp add: fifo_irrelevant)
  from fifo_complete [OF f, of t] n f q assms ETimer show ?thesis
    by (auto simp: remove1_idem Let_def split: if_splits)
qed

lemma fifo_run:
  "fifo_inv q xs \<Longrightarrow> head_only es q xs \<Longrightarrow> \<exists>q' xs'. rq_run es q = Inr q' \<and> fifo_inv q' xs'"
proof (induction es arbitrary: q xs)
  case Nil
  then show ?case by auto
next
  case (Cons e es)
  from Cons.prems(2) have "case completes e q of Some t \<Rightarrow> t \<notin> set (tl xs) | None \<Rightarrow> True" by simp
  from fifo_step [OF Cons.prems(1) this] obtain q' where
    q': "rq_step e q = Inr q'" "fifo_inv q' (spec_step e q xs)" by blast
  with Cons.prems(2) have "head_only es q' (spec_step e q xs)" by simp
  from Cons.IH [OF q'(2) this] q'(1) show ?case by simp
qed



text \<open>
  Completing a request that still waits (its own timer may do so) takes it out and begins the one
  behind it at once, although the request at the head of the queue is still in progress: with
  completions of waiting tokens the queue no longer runs one request at a time.
\<close>

theorem queue_complete_waiting:
  assumes "queue_inv q (h # pre @ t # n # post)"
  shows "\<exists>q'. tk_complete t q = Inr q' \<and> queue_inv q' (h # pre @ n # post)
     \<and> rq_begun q' = rq_begun q @ [n]"
  using inv_tk_complete [of q "h # pre" t "n # post"] assms by auto

lemma queue_complete_waiting_witness:
  "\<exists>q. rq_run [EQueue \<lparr>remainingMillis = 5, timeoutId = None, cd_cb = None\<rparr> :: unit rq_event, EStart 1,
        EQueue \<lparr>remainingMillis = 5, timeoutId = None, cd_cb = None\<rparr>,
        EQueue \<lparr>remainingMillis = 5, timeoutId = None, cd_cb = None\<rparr>]
      (RequestQueue \<lparr>sys_last = 0, sys_armed = []\<rparr>) = Inr q
    \<and> (\<exists>q'. tk_complete 2 q = Inr q' \<and> rq_begun q' = rq_begun q @ [3] \<and> queue_inv q' [1, 3])"
proof -
  let ?t = "\<lparr>remainingMillis = 5, timeoutId = None, cd_cb = None\<rparr> :: unit countdown"
  let ?q0 = "RequestQueue \<lparr>sys_last = 0, sys_armed = []\<rparr>"
  obtain q1 where q1: "rq_step (EQueue ?t) ?q0 = Inr q1" "queue_inv q1 [1]" "rq_id q1 = 1"
    using inv_queueRequest [OF queue_inv_new refl, of ?t "\<lparr>sys_last = 0, sys_armed = []\<rparr>"]
      queueRequest_heap [of ?t ?q0] by (auto simp: RequestQueue_def)
  have q2: "rq_step (EStart 1 :: unit rq_event) q1 = Inr (rq_start 1 q1)" "queue_inv (rq_start 1 q1) [1]"
    "rq_id (rq_start 1 q1) = 1"
    using q1 by (auto simp: rq_start_def Let_def queue_inv_irrelevant)
  obtain q3 where q3: "rq_step (EQueue ?t) (rq_start 1 q1) = Inr q3" "queue_inv q3 [1, 2]" "rq_id q3 = 2"
    using inv_queueRequest [OF q2(2) refl, of ?t] queueRequest_heap [of ?t "rq_start 1 q1"] q2(3)
    by (auto simp: numeral_2_eq_2)
  obtain q4 where q4: "rq_step (EQueue ?t) q3 = Inr q4" "queue_inv q4 [1, 2, 3]"
    using inv_queueRequest [OF q3(2) refl, of ?t] q3(3) by (auto simp: numeral_eq_Suc)
  from queue_complete_waiting [of q4 1 "[]" 2 3 "[]"] q4(2) q1(1) q2(1) q3(1) q4(1) show ?thesis by auto
qed

lemma space_split:
  "\<lbrakk>CHR '' '' \<notin> set a; CHR '' '' \<notin> set a'; a @ '' '' @ b = a' @ '' '' @ b'\<rbrakk> \<Longrightarrow> a = a' \<and> b = b'"
proof (induction a arbitrary: a')
  case Nil
  then show ?case by (cases a') auto
next
  case (Cons x a)
  then show ?case by (cases a') auto
qed

text \<open>
  The queues of different applications or origins are independent: a request leaves every queue
  but its own untouched, and as an application id without a space never shares its key with another
  pair, a request of one application and origin never waits for one of another.
\<close>

theorem origin_queues_independent:
  assumes "CHR '' '' \<notin> set appId" "CHR '' '' \<notin> set appId'" "(appId, origin) \<noteq> (appId', origin')"
    and "origin_queueRequest sysTimer appId origin timer requests = Inr (requests', tok)"
  shows "map_of requests' (queue_key appId' origin') = map_of requests (queue_key appId' origin')"
proof -
  have "queue_key appId origin \<noteq> queue_key appId' origin'"
    using space_split [OF assms(1,2)] assms(3) unfolding queue_key_def by blast
  with assms(4) show ?thesis
    by (auto simp: origin_queueRequest_def Let_def update_conv' split: sum.splits if_splits)
qed

lemma origin_queues_independent_witness:
  "map_of (fst (projr (origin_queueRequest \<lparr>sys_last = 0, sys_armed = []\<rparr> ''a'' ''o''
     (\<lparr>remainingMillis = 0, timeoutId = None, cd_cb = None\<rparr> :: unit countdown)
     [(''b o'', RequestQueue \<lparr>sys_last = 7, sys_armed = []\<rparr>)]))) ''b o''
   = Some (RequestQueue \<lparr>sys_last = 7, sys_armed = []\<rparr>)"
proof -
  let ?s = "\<lparr>sys_last = 0, sys_armed = []\<rparr>"
  let ?r = "[(''b o'', RequestQueue \<lparr>sys_last = 7, sys_armed = []\<rparr>)]"
  let ?t = "\<lparr>remainingMillis = 0, timeoutId = None, cd_cb = None\<rparr> :: unit countdown"
  obtain r tok where r: "origin_queueRequest ?s ''a'' ''o'' ?t ?r = Inr (r, tok)"
    using inv_queueRequest [OF queue_inv_new refl, of ?t ?s]
    by (auto simp: origin_queueRequest_def queue_key_def update_conv' split: sum.splits)
  from origin_queues_independent [OF _ _ _ r, of "''b''" "''o''"] show ?thesis
    by (simp add: r queue_key_def)
qed

end
