(* ===== verification/Util.thy ===== *)
theory Util
  imports Prelude
begin

unbundle bit_operations_syntax

text \<open>
  util.js: conversions between strings, byte arrays and hexadecimal, the array
  comparisons, the union of two arrays of strings, the DER encoding of an ECDSA signature,
  and the bounded log that every \<open>console.log(UTIL_fmt(...))\<close> goes through.
\<close>

subsection \<open>Strings and bytes\<close>

definition UTIL_StringToBytes :: "string \<Rightarrow> bytes" where
  "UTIL_StringToBytes s = map byte_of_char s"

definition UTIL_BytesToString :: "bytes \<Rightarrow> string" where
  "UTIL_BytesToString b = map char_of_byte b"

lemma BytesToString_StringToBytes [simp]: "UTIL_BytesToString (UTIL_StringToBytes s) = s"
  by (simp add: UTIL_BytesToString_def UTIL_StringToBytes_def comp_def)

lemma StringToBytes_BytesToString [simp]: "UTIL_StringToBytes (UTIL_BytesToString b) = b"
  by (simp add: UTIL_BytesToString_def UTIL_StringToBytes_def comp_def)

subsection \<open>Hexadecimal\<close>

definition hexchars :: string where
  "hexchars = ''0123456789ABCDEF''"

definition hi_hex :: "byte \<Rightarrow> char" where
  "hi_hex b = hexchars ! unat (drop_bit 4 b AND 15)"

definition lo_hex :: "byte \<Rightarrow> char" where
  "lo_hex b = hexchars ! unat (b AND 15)"

fun UTIL_BytesToHex :: "bytes option \<Rightarrow> string" where
  "UTIL_BytesToHex None = ''(null)''"
| "UTIL_BytesToHex (Some b) = concat (map (\<lambda>x. [hi_hex x, lo_hex x]) b)"

text \<open>\<open>hexrep\<close> holds strings: with a separator, one in front of every byte, the first of
  them dropped by \<open>slice(1)\<close>. An empty separator is falsy.\<close>

definition UTIL_BytesToHexWithSeparator :: "bytes \<Rightarrow> string \<Rightarrow> string" where
  "UTIL_BytesToHexWithSeparator b sep =
     (let hexrep = concat (map (\<lambda>x. (if sep \<noteq> [] then [sep] else []) @ [[hi_hex x], [lo_hex x]]) b)
      in concat (if sep \<noteq> [] then drop 1 hexrep else hexrep))"

text \<open>\<open>parseInt\<close> of one hexadecimal digit.\<close>

definition hex_digit :: "char \<Rightarrow> nat option" where
  "hex_digit c =
     (let n = of_char c in
      if 48 \<le> n \<and> n \<le> 57 then Some (n - 48)
      else if 65 \<le> n \<and> n \<le> 70 then Some (n - 55)
      else if 97 \<le> n \<and> n \<le> 102 then Some (n - 87) else None)"

text \<open>
  \<open>parseInt(s, 16)\<close> on the one or two characters \<open>substring(i, i + 2)\<close>, whose first is a
  hexadecimal digit: it stops at the first character that is none, and \<open>0x\<close> alone is NaN
  (\<open>None\<close>).
\<close>

definition parse_hex2 :: "char \<Rightarrow> char option \<Rightarrow> nat option" where
  "parse_hex2 c d =
     (case hex_digit c of None \<Rightarrow> None
      | Some h \<Rightarrow>
        (case d of None \<Rightarrow> Some h
         | Some e \<Rightarrow>
           (if c = CHR ''0'' \<and> (e = CHR ''x'' \<or> e = CHR ''X'') then None
            else (case hex_digit e of None \<Rightarrow> Some h | Some l \<Rightarrow> Some (16 * h + l)))))"

text \<open>
  The loop of \<open>UTIL_HexToBytes\<close> and \<open>UTIL_HexToArray\<close>: the values written, in order,
  until the first pair whose first character is no digit. A last single character
  has the index \<open>(h.length - 1) / 2\<close>, which is past the end of a \<open>Uint8Array\<close>.
\<close>

fun hex_pairs :: "string \<Rightarrow> nat option list" where
  "hex_pairs (c # d # cs) =
     (if hex_digit c = None then [] else parse_hex2 c (Some d) # hex_pairs cs)"
| "hex_pairs _ = []"

text \<open>A fresh \<open>Uint8Array\<close> is zero, and stores NaN as 0.\<close>

definition UTIL_HexToBytes :: "string \<Rightarrow> bytes" where
  "UTIL_HexToBytes h =
     (let n = length h div 2;
          vs = map (\<lambda>v. case v of None \<Rightarrow> 0 | Some x \<Rightarrow> word_of_nat x) (hex_pairs h)
      in vs @ replicate (n - length vs) 0)"

text \<open>
  A fresh \<open>Array\<close> has holes (\<open>None\<close>), keeps NaN (also \<open>None\<close>: no byte), and cannot be
  made with a fractional length: \<open>Inl\<close> is that \<open>RangeError\<close>.
\<close>

definition UTIL_HexToArray :: "string \<Rightarrow> unit + byte option list" where
  "UTIL_HexToArray h =
     (if odd (length h) then Inl ()
      else (let n = length h div 2; vs = map (map_option word_of_nat) (hex_pairs h)
            in Inr (vs @ replicate (n - length vs) None)))"

subsection \<open>Comparing arrays\<close>

fun UTIL_equalArrays :: "bytes option \<Rightarrow> bytes option \<Rightarrow> bool" where
  "UTIL_equalArrays (Some a) (Some b) =
     (if length a \<noteq> length b then False
      else fold (\<lambda>(x, y) accu. accu OR (x XOR y)) (zip a b) 0 = 0)"
| "UTIL_equalArrays _ _ = False"

fun lt_loop :: "bytes \<Rightarrow> bytes \<Rightarrow> bool" where
  "lt_loop (x # a) (y # b) = (if x < y then True else if x > y then False else lt_loop a b)"
| "lt_loop _ _ = False"

definition UTIL_ltArrays :: "bytes \<Rightarrow> bytes \<Rightarrow> bool" where
  "UTIL_ltArrays a b =
     (if length a < length b then True
      else if length a > length b then False
      else lt_loop a b)"

definition UTIL_gtArrays :: "bytes \<Rightarrow> bytes \<Rightarrow> bool" where
  "UTIL_gtArrays a b = UTIL_ltArrays b a"

definition UTIL_geArrays :: "bytes \<Rightarrow> bytes \<Rightarrow> bool" where
  "UTIL_geArrays a b = (\<not> UTIL_ltArrays a b)"

definition UTIL_unionArrays :: "string list \<Rightarrow> string list \<Rightarrow> string list" where
  "UTIL_unionArrays a b =
     (let ob = obj_of_strings b (obj_of_strings a []) in
      map (\<lambda>k. the (map_of ob k)) (js_keys ob))"

subsection \<open>ECDSA signatures in ASN.1\<close>

definition UTIL_ASN_INT :: byte where "UTIL_ASN_INT = 0x02"

definition UTIL_ASN_SEQUENCE :: byte where "UTIL_ASN_SEQUENCE = 0x30"

record signature =
  sig_r :: bytes
  sig_s :: bytes

text \<open>Reading past the end of an array gives \<open>undefined\<close>, which \<open>& 255\<close> makes 0.\<close>

definition byte_at :: "bytes \<Rightarrow> nat \<Rightarrow> byte" where
  "byte_at a i = (if i < length a then a ! i else 0)"

definition asn1_parseInt :: "bytes \<Rightarrow> nat \<Rightarrow> bytes option" where
  "asn1_parseInt a off =
     (if \<not> off < length a \<or> a ! off \<noteq> UTIL_ASN_INT then None
      else (let l = byte_at a (off + 1) in
            if l AND 0x80 \<noteq> 0 then None
            else if off + 2 + unat l > length a then None
            else Some (take (unat l) (drop (off + 2) a))))"

definition UTIL_Asn1SignatureToJson :: "bytes \<Rightarrow> signature option" where
  "UTIL_Asn1SignatureToJson a =
     (if length a < 6 then None
      else if a ! 0 \<noteq> UTIL_ASN_SEQUENCE then None
      else (let l = a ! 1 in
        if l AND 0x80 \<noteq> 0 then None
        else if length a \<noteq> 2 + unat l then None
        else (case asn1_parseInt a 2 of None \<Rightarrow> None
          | Some r \<Rightarrow>
            (case asn1_parseInt a (2 + 2 + length r) of None \<Rightarrow> None
             | Some s \<Rightarrow> Some \<lparr>sig_r = r, sig_s = s\<rparr>))))"

text \<open>\<open>unshift(0)\<close> when the high bit of the first byte is set (an empty array has none).\<close>

definition asn1_unsigned :: "bytes \<Rightarrow> bytes" where
  "asn1_unsigned b = (if byte_at b 0 AND 0x80 \<noteq> 0 then 0 # b else b)"

text \<open>The modified \<open>sig\<close> and the buffer; a length is stored in one byte.\<close>

definition UTIL_JsonSignatureToAsn1 :: "signature \<Rightarrow> signature \<times> bytes" where
  "UTIL_JsonSignatureToAsn1 sig =
     (let rbytes = asn1_unsigned (sig_r sig);
          sbytes = asn1_unsigned (sig_s sig);
          len = 4 + length rbytes + length sbytes
      in (\<lparr>sig_r = rbytes, sig_s = sbytes\<rparr>,
          [UTIL_ASN_SEQUENCE, word_of_nat len]
          @ [UTIL_ASN_INT, word_of_nat (length rbytes)] @ rbytes
          @ [UTIL_ASN_INT, word_of_nat (length sbytes)] @ sbytes))"

subsection \<open>Time stamps and the event log\<close>

definition UTIL_prepend_zero :: "string \<Rightarrow> nat \<Rightarrow> string" where
  "UTIL_prepend_zero s n =
     (if length s = n then s else replicate (n - length s) (CHR ''0'') @ s)"

record date =
  date_month :: nat
  date_day :: nat
  date_hours :: nat
  date_minutes :: nat
  date_seconds :: nat
  date_millis :: nat

definition UTIL_time :: "date \<Rightarrow> string" where
  "UTIL_time d =
     (let m = UTIL_prepend_zero (nat_to_string (date_month d + 1)) 2;
          t = UTIL_prepend_zero (nat_to_string (date_day d)) 2;
          H = UTIL_prepend_zero (nat_to_string (date_hours d)) 2;
          M = UTIL_prepend_zero (nat_to_string (date_minutes d)) 2;
          S = UTIL_prepend_zero (nat_to_string (date_seconds d)) 2;
          L = UTIL_prepend_zero (nat_to_string (date_millis d * 1000)) 6
      in m @ t @ '' '' @ H @ '':'' @ M @ '':'' @ S @ ''.'' @ L)"

definition UTIL_max_events :: nat where "UTIL_max_events = 500"

text \<open>The new \<open>UTIL_events\<close> and the line.\<close>

definition UTIL_fmt :: "date \<Rightarrow> string \<Rightarrow> string list \<Rightarrow> string list \<times> string" where
  "UTIL_fmt now s events =
     (let line = UTIL_time now @ '': '' @ s;
          events' = events @ [line]
      in (if length events' > UTIL_max_events
          then drop (length events' - UTIL_max_events) events' else events', line))"


subsection \<open>Hexadecimal round trip\<close>

lemma hexchar_digit: "n < 16 \<Longrightarrow> hex_digit (hexchars ! n) = Some n \<and> hexchars ! n \<noteq> CHR ''x'' \<and> hexchars ! n \<noteq> CHR ''X''"
proof -
  have "list_all (\<lambda>n. hex_digit (hexchars ! n) = Some n \<and> hexchars ! n \<noteq> CHR ''x''
      \<and> hexchars ! n \<noteq> CHR ''X'') [0..<16]"
    by code_simp
  then show "n < 16 \<Longrightarrow> ?thesis" by (auto simp: list_all_iff)
qed

lemma nibble_bounds: "unat (b :: byte) div 16 < 16" "unat (b :: byte) mod 16 < 16"
  using unat_lt_256 [of b] by linarith+

lemma hi_hex_nth: "hi_hex b = hexchars ! (unat b div 16)"
  using nibble_bounds(1) [of b]
  by (simp only: hi_hex_def unat_and_numerals unat_drop_bit) simp

lemma lo_hex_nth: "lo_hex b = hexchars ! (unat b mod 16)"
  by (simp only: lo_hex_def unat_and_numerals)

lemma parse_hi_lo: "parse_hex2 (hi_hex b) (Some (lo_hex b)) = Some (unat b)"
  using hexchar_digit [OF nibble_bounds(1) [of b]] hexchar_digit [OF nibble_bounds(2) [of b]]
  by (simp add: parse_hex2_def hi_hex_nth lo_hex_nth)

lemma hex_digit_hi: "hex_digit (hi_hex b) \<noteq> None"
  using hexchar_digit [OF nibble_bounds(1) [of b]] by (simp add: hi_hex_nth)

lemma hex_pairs_BytesToHex: "hex_pairs (UTIL_BytesToHex (Some b)) = map (\<lambda>x. Some (unat x)) b"
  by (induction b) (auto simp: parse_hi_lo hex_digit_hi)

lemma length_BytesToHex [simp]: "length (UTIL_BytesToHex (Some b)) = 2 * length b"
  by (induction b) auto

lemma HexToArray_BytesToHex:
  "UTIL_HexToArray (UTIL_BytesToHex (Some b)) = Inr (map Some b)"
  by (simp add: UTIL_HexToArray_def hex_pairs_BytesToHex comp_def Let_def del: UTIL_BytesToHex.simps)

lemma length_HexToBytes: "length (UTIL_HexToBytes h) = length h div 2"
proof -
  have "length (hex_pairs h) \<le> length h div 2"
    by (induction h rule: hex_pairs.induct) auto
  then show ?thesis by (simp add: UTIL_HexToBytes_def Let_def)
qed

lemma HexToBytes_hex: "UTIL_HexToBytes (UTIL_BytesToHex (Some b)) = b"
  by (simp add: UTIL_HexToBytes_def hex_pairs_BytesToHex comp_def Let_def del: UTIL_BytesToHex.simps)

text \<open>
  Hexadecimal round trip: the bytes that \<open>UTIL_BytesToHex\<close> writes are the bytes that
  \<open>UTIL_HexToBytes\<close> reads back, for every byte array.
\<close>

theorem HexToBytes_BytesToHex: "UTIL_HexToBytes (UTIL_BytesToHex (Some b)) = b"
  by (rule HexToBytes_hex)

subsection \<open>Comparisons\<close>

lemma or_zero_word: "(a :: byte) OR b = 0 \<longleftrightarrow> a = 0 \<and> b = 0"
  by (metis or_eq_0_iff)

lemma xor_zero_word: "(a :: byte) XOR b = 0 \<longleftrightarrow> a = b"
  by (metis xor_self_eq bit.xor_left_self xor.right_neutral)

lemma equal_accu: "fold (\<lambda>(x, y) accu. accu OR (x XOR y)) ps acc = 0
    \<longleftrightarrow> acc = (0 :: byte) \<and> (\<forall>(x, y) \<in> set ps. x = y)"
  by (induction ps arbitrary: acc) (auto simp: or_zero_word xor_zero_word)

lemma equalArrays_Some: "UTIL_equalArrays (Some x) (Some y) \<longleftrightarrow> x = y"
proof (cases "length x = length y")
  case True
  then have "x = y \<longleftrightarrow> (\<forall>(u, v) \<in> set (zip x y). u = v)"
    by (induction x y rule: list_induct2) auto
  with True show ?thesis by (simp add: equal_accu)
qed auto

text \<open>
  The constant-time comparison decides equality: it has no early exit in the loop, and
  its accumulator is zero exactly when the two arrays are the same.
\<close>

theorem equalArrays_iff: "UTIL_equalArrays a b \<longleftrightarrow> a \<noteq> None \<and> a = b"
  by (cases a; cases b) (simp_all add: equalArrays_Some del: UTIL_equalArrays.simps(1))

text \<open>\<open>UTIL_ltArrays\<close> orders by length first, then lexicographically from the first byte.\<close>

lemma lt_loop_irrefl: "\<not> lt_loop a a"
  by (induction a) auto

lemma lt_loop_total: "length a = length b \<Longrightarrow> lt_loop a b \<or> a = b \<or> lt_loop b a"
  by (induction a b rule: list_induct2) auto

lemma lt_loop_trans:
  "\<lbrakk>length a = length b; length b = length c; lt_loop a b; lt_loop b c\<rbrakk> \<Longrightarrow> lt_loop a c"
  by (induction a b c rule: list_induct3) (auto split: if_splits)

lemma lt_loop_asym: "length a = length b \<Longrightarrow> lt_loop a b \<Longrightarrow> \<not> lt_loop b a"
  by (metis lt_loop_irrefl lt_loop_trans)

lemma ltArrays_irrefl: "\<not> UTIL_ltArrays a a"
  by (simp add: UTIL_ltArrays_def lt_loop_irrefl)

lemma ltArrays_trans: "UTIL_ltArrays a b \<Longrightarrow> UTIL_ltArrays b c \<Longrightarrow> UTIL_ltArrays a c"
  by (auto simp: UTIL_ltArrays_def split: if_splits intro: lt_loop_trans [of a b c])

lemma ltArrays_total: "UTIL_ltArrays a b \<or> a = b \<or> UTIL_ltArrays b a"
  using lt_loop_total [of a b] by (auto simp: UTIL_ltArrays_def)

lemma geArrays_iff: "UTIL_geArrays a b \<longleftrightarrow> a = b \<or> UTIL_ltArrays b a"
  using ltArrays_total [of a b] ltArrays_irrefl ltArrays_trans
  unfolding UTIL_geArrays_def by blast

definition leArrays :: "bytes \<Rightarrow> bytes \<Rightarrow> bool" where
  "leArrays a b \<longleftrightarrow> UTIL_geArrays b a"

lemma leArrays_iff: "leArrays a b \<longleftrightarrow> a = b \<or> UTIL_ltArrays a b"
  unfolding leArrays_def geArrays_iff by blast

interpretation arrays: linorder leArrays UTIL_ltArrays
proof
  fix x y z :: bytes
  show "UTIL_ltArrays x y = (leArrays x y \<and> \<not> leArrays y x)"
    unfolding leArrays_iff using ltArrays_irrefl ltArrays_trans by blast
  show "leArrays x x"
    unfolding leArrays_iff by blast
  show "leArrays x y \<Longrightarrow> leArrays y z \<Longrightarrow> leArrays x z"
    unfolding leArrays_iff using ltArrays_trans by blast
  show "leArrays x y \<Longrightarrow> leArrays y x \<Longrightarrow> x = y"
    unfolding leArrays_iff using ltArrays_irrefl ltArrays_trans by blast
  show "leArrays x y \<or> leArrays y x"
    unfolding leArrays_iff using ltArrays_total by blast
qed

lemma map_of_obj_of_strings:
  "map_of (obj_of_strings ks ob) k = (if k \<in> set ks then Some k else map_of ob k)"
  unfolding obj_of_strings_def by (induction ks arbitrary: ob) (auto simp: update_conv')

lemma set_unionArrays: "set (UTIL_unionArrays a b) = set a \<union> set b"
proof -
  define ob where "ob = obj_of_strings b (obj_of_strings a [])"
  have keys: "fst ` set ob = set a \<union> set b" by (auto simp: ob_def)
  have "the (map_of ob k) = k" if "k \<in> set a \<union> set b" for k
    using that by (auto simp: ob_def map_of_obj_of_strings)
  then show ?thesis
    unfolding UTIL_unionArrays_def Let_def ob_def [symmetric] set_map set_js_keys keys
    by (auto simp: image_iff)
qed


subsection \<open>ASN.1 round trip\<close>

lemma high_bit: "(w :: byte) AND 0x80 \<noteq> 0 \<longleftrightarrow> 128 \<le> unat w"
proof -
  have n: "n < 256 \<Longrightarrow> odd (n div 128) \<longleftrightarrow> 128 \<le> n" for n :: nat
    by (cases "n < 128") (auto simp: div_eq_dividend_iff le_div_geq)
  have "(0x80 :: byte) = 2 ^ 7" by simp
  then have "w AND 0x80 \<noteq> 0 \<longleftrightarrow> bit w 7" by (simp only: and_exp_eq_0_iff_not_bit) simp
  also have "\<dots> \<longleftrightarrow> bit (unat w) 7" unfolding bit_unsigned_iff by simp
  also have "\<dots> \<longleftrightarrow> odd (unat w div 128)" unfolding bit_iff_odd by simp
  also have "\<dots> \<longleftrightarrow> 128 \<le> unat w" by (rule n [OF unat_lt_256])
  finally show ?thesis .
qed

lemma unat_word_of_nat_byte: "n < 256 \<Longrightarrow> unat (word_of_nat n :: byte) = n"
  by (simp add: unat_of_nat)

lemma byte_at_simps [simp]:
  "byte_at (x # xs) 0 = x" "byte_at (x # xs) (Suc n) = byte_at xs n" "byte_at [] n = 0"
  by (simp_all add: byte_at_def)

lemma asn1_unsigned_positive: "byte_at (asn1_unsigned b) 0 AND 0x80 = 0"
  by (auto simp: asn1_unsigned_def)

lemma asn1_unsigned_idem [simp]: "asn1_unsigned (asn1_unsigned b) = asn1_unsigned b"
  by (simp add: asn1_unsigned_def [of "asn1_unsigned b"] asn1_unsigned_positive)

text \<open>An integer element, read at its offset, gives its content back.\<close>

lemma asn1_parseInt_element:
  assumes "length x < 128"
  shows "asn1_parseInt (pre @ UTIL_ASN_INT # word_of_nat (length x) # x @ post) (length pre) = Some x"
proof -
  from assms have "unat (word_of_nat (length x) :: byte) = length x"
    by (simp add: unat_word_of_nat_byte)
  moreover from this assms have "\<not> (word_of_nat (length x) :: byte) AND 0x80 \<noteq> 0"
    unfolding high_bit by simp
  moreover have "byte_at (pre @ UTIL_ASN_INT # word_of_nat (length x) # x @ post) (length pre + 1)
      = word_of_nat (length x)"
    by (simp add: byte_at_def nth_append)
  ultimately show ?thesis by (simp add: asn1_parseInt_def Let_def)
qed

text \<open>
  Encoding a signature as ASN.1 and parsing the result gives back the two integers, each
  padded with a zero byte where its high bit was set (so that both are read as positive),
  whenever the sequence is short enough for the one-byte length the code writes. ECDSA over
  P-256 needs at most 70 of these 127 bytes.
\<close>

theorem asn1_roundtrip:
  assumes "4 + length (asn1_unsigned (sig_r sig)) + length (asn1_unsigned (sig_s sig)) < 128"
  shows "UTIL_Asn1SignatureToJson (snd (UTIL_JsonSignatureToAsn1 sig))
         = Some (fst (UTIL_JsonSignatureToAsn1 sig))"
proof -
  define r where "r = asn1_unsigned (sig_r sig)"
  define s where "s = asn1_unsigned (sig_s sig)"
  define len where "len = 4 + length r + length s"
  define a where "a = UTIL_ASN_SEQUENCE # word_of_nat len # (UTIL_ASN_INT # word_of_nat (length r) # r)
      @ (UTIL_ASN_INT # word_of_nat (length s) # s)"
  from assms have len: "len < 128" by (simp add: len_def r_def s_def)
  have a: "snd (UTIL_JsonSignatureToAsn1 sig) = a"
    by (simp add: UTIL_JsonSignatureToAsn1_def Let_def a_def r_def s_def len_def)
  have l: "unat (word_of_nat len :: byte) = len" "\<not> (word_of_nat len :: byte) AND 0x80 \<noteq> 0"
    using len unfolding high_bit by (simp_all add: unat_word_of_nat_byte)
  have "asn1_parseInt a 2 = Some r"
    using asn1_parseInt_element [of r "[UTIL_ASN_SEQUENCE, word_of_nat len]"] len
    by (simp add: a_def len_def numeral_2_eq_2)
  moreover have "asn1_parseInt a (2 + 2 + length r) = Some s"
    using asn1_parseInt_element [of s "[UTIL_ASN_SEQUENCE, word_of_nat len] @ UTIL_ASN_INT
        # word_of_nat (length r) # r" "[]"] len
    by (simp add: a_def len_def numeral_eq_Suc)
  moreover have "length a = 2 + len" by (simp add: a_def len_def)
  ultimately show ?thesis
    unfolding a using l
    by (simp add: UTIL_Asn1SignatureToJson_def Let_def a_def len_def)
      (simp add: UTIL_JsonSignatureToAsn1_def Let_def r_def s_def)
qed

lemma asn1_roundtrip_witness:
  "UTIL_Asn1SignatureToJson (snd (UTIL_JsonSignatureToAsn1 \<lparr>sig_r = [0x85, 7], sig_s = [1]\<rparr>))
   = Some \<lparr>sig_r = [0, 0x85, 7], sig_s = [1]\<rparr>"
proof -
  let ?sig = "\<lparr>sig_r = [0x85, 7], sig_s = [1]\<rparr>"
  have r: "asn1_unsigned [0x85, 7] = [0, 0x85, 7]" and s: "asn1_unsigned [1] = [1]"
    by (simp_all add: asn1_unsigned_def)
  from asn1_roundtrip [of ?sig] show ?thesis
    by (simp add: r s) (simp add: UTIL_JsonSignatureToAsn1_def Let_def r s)
qed

subsection \<open>The event log\<close>

lemma UTIL_fmt_keeps_last:
  "length events \<le> UTIL_max_events \<Longrightarrow>
     fst (UTIL_fmt now s events)
     = drop (length events + 1 - UTIL_max_events) (events @ [snd (UTIL_fmt now s events)])"
  by (auto simp: UTIL_fmt_def Let_def)

text \<open>The lines logged by a sequence of calls.\<close>

definition log_all :: "(date \<times> string) list \<Rightarrow> string list \<Rightarrow> string list" where
  "log_all calls events = fold (\<lambda>(now, s) ev. fst (UTIL_fmt now s ev)) calls events"

lemma log_bounded: "length events \<le> UTIL_max_events \<Longrightarrow> length (log_all calls events) \<le> UTIL_max_events"
  unfolding log_all_def
  by (induction calls arbitrary: events) (auto simp: UTIL_fmt_def Let_def)

end
