(* ===== verification/Gnubby.thy ===== *)
theory Gnubby
  imports Countdown Util
begin

unbundle bit_operations_syntax

text \<open>
  gnubbydevice.js and the receiving side of gnubby.js: the constants of the low-level protocol,
  the frames of a \<open>Gnubby\<close> client, and \<open>read_\<close>, which reassembles a reply from the frames that
  arrive on the client's channel. A function that the code hands to \<open>window.setTimeout(_, 0)\<close> is a
  \<open>frame_cb\<close> in the list \<open>g_tasks\<close>, and \<open>g_results\<close> lists the scheduled calls of the callbacks
  given to \<open>read_\<close>. The local variables that the closures of one call of \<open>read_\<close> share are a
  \<open>reader\<close>; readers are numbered by the calls.
\<close>

subsection \<open>Constants\<close>

definition CMD_PING :: nat where "CMD_PING = 0x81"
definition CMD_ATR :: nat where "CMD_ATR = 0x82"
definition CMD_APDU :: nat where "CMD_APDU = 0x83"
definition CMD_LOCK :: nat where "CMD_LOCK = 0x84"
definition CMD_SYSINFO :: nat where "CMD_SYSINFO = 0x85"
definition CMD_INIT :: nat where "CMD_INIT = 0x86"
definition CMD_PROMPT :: nat where "CMD_PROMPT = 0x87"
definition CMD_WINK :: nat where "CMD_WINK = 0x88"
definition CMD_USB_TEST :: nat where "CMD_USB_TEST = 0xb9"
definition CMD_DFU :: nat where "CMD_DFU = 0xba"
definition CMD_SYNC :: nat where "CMD_SYNC = 0xbc"
definition CMD_ERROR :: nat where "CMD_ERROR = 0xbf"

definition OK :: int where "OK = 0"
definition INVALID_CMD :: int where "INVALID_CMD = 1"
definition INVALID_PAR :: int where "INVALID_PAR = 2"
definition INVALID_LEN :: int where "INVALID_LEN = 3"
definition INVALID_SEQ :: int where "INVALID_SEQ = 4"
definition TIMEOUT :: int where "TIMEOUT = 5"
definition BUSY :: int where "BUSY = 6"
definition ACCESS_DENIED :: int where "ACCESS_DENIED = 7"
definition GONE :: int where "GONE = 8"
definition NODEVICE :: int where "NODEVICE = 512"

lemmas command_codes = CMD_PING_def CMD_ATR_def CMD_APDU_def CMD_LOCK_def CMD_SYSINFO_def CMD_INIT_def
  CMD_PROMPT_def CMD_WINK_def CMD_USB_TEST_def CMD_DFU_def CMD_SYNC_def CMD_ERROR_def

lemmas error_codes = OK_def INVALID_CMD_def INVALID_PAR_def INVALID_LEN_def INVALID_SEQ_def
  TIMEOUT_def BUSY_def ACCESS_DENIED_def GONE_def NODEVICE_def

subsection \<open>Frames\<close>

text \<open>
  A channel id is a 32-bit integer. A frame starts with its four bytes, then the command (or, in a
  continuation frame, the sequence number), then the two bytes of the length. Frames from a device
  have at least eight bytes.
\<close>

definition cid_bytes :: "int32 \<Rightarrow> bytes" where
  "cid_bytes cid = map (\<lambda>n. ucast (drop_bit n cid)) [24, 16, 8, 0]"

definition frame_cid :: "bytes \<Rightarrow> int32" where
  "frame_cid f =
     push_bit 24 (ucast (byte_at f 0)) OR push_bit 16 (ucast (byte_at f 1))
     OR push_bit 8 (ucast (byte_at f 2)) OR ucast (byte_at f 3)"

definition frame_cmd :: "bytes \<Rightarrow> nat" where
  "frame_cmd f = unat (byte_at f 4)"

definition frame_len :: "bytes \<Rightarrow> nat" where
  "frame_len f = unat (byte_at f 5) * 256 + unat (byte_at f 6)"

definition frame_code :: "bytes \<Rightarrow> int" where
  "frame_code f = int (unat (byte_at f 7))"

definition is_error_frame :: "bytes \<Rightarrow> bool" where
  "is_error_frame f \<longleftrightarrow> frame_cmd f = CMD_ERROR \<and> frame_len f = 1"

definition error_frame :: "int32 \<Rightarrow> int \<Rightarrow> bytes" where
  "error_frame cid code = cid_bytes cid @ [word_of_nat CMD_ERROR, 0, 1, word_of_int code]"

definition BROADCAST_CID :: int32 where
  "BROADCAST_CID = push_bit 24 0xff OR push_bit 16 0xff OR push_bit 8 0xff OR 0xff"

definition NOTIFICATION_CID :: int32 where
  "NOTIFICATION_CID = 0"

text \<open>\<open>which.device\<close> is the number of the device.\<close>

definition defaultChannelId :: "nat \<Rightarrow> nat \<Rightarrow> int32" where
  "defaultChannelId gnubbyInstance device =
     (word_of_nat gnubbyInstance AND 0x00ffffff) OR push_bit 24 (word_of_nat (device + 1))"

definition hexCid :: "int32 \<Rightarrow> string" where
  "hexCid cid = UTIL_BytesToHex (Some (map (\<lambda>n. ucast (drop_bit n cid AND 255)) [24, 16, 8, 0]))"

subsection \<open>The client\<close>

datatype frame_cb = InitFrame nat | ContFrame nat | CheckSentinel nat

text \<open>
  The variables of one \<open>read_\<close>: \<open>callback\<close> and \<open>tid\<close> only matter as set or null, and \<open>msg\<close> is the
  length asked for and the \<open>count\<close> bytes filled so far.
\<close>

record reader =
  rd_cmd :: nat
  rd_callback :: bool
  rd_tid :: bool
  rd_total :: nat
  rd_got :: bytes
  rd_seqno :: nat

record gnubby =
  g_dev :: bool
  gnubbyInstance :: nat
  which :: nat
  g_cid :: int32
  rxframes :: "bytes list"
  synccnt :: nat
  rxcb :: "frame_cb option"
  g_closed :: bool
  commandPending :: bool
  closingWhenIdle :: bool
  notifyOnClose :: "nat list"
  busyMillis :: rat
  readers :: "reader list"
  g_tasks :: "frame_cb list"
  g_results :: "(nat \<times> int \<times> bytes option) list"
  g_notified :: "nat list"
  g_removes :: nat

definition Gnubby :: "nat \<Rightarrow> rat option \<Rightarrow> gnubby" where
  "Gnubby inst opt_busySeconds =
     \<lparr>g_dev = False, gnubbyInstance = inst, which = 0, g_cid = BROADCAST_CID, rxframes = [], synccnt = 0,
      rxcb = None, g_closed = False, commandPending = False, closingWhenIdle = False, notifyOnClose = [],
      busyMillis = (case opt_busySeconds of Some s \<Rightarrow> if s = 0 then 9500 else s * 1000 | None \<Rightarrow> 9500),
      readers = [], g_tasks = [], g_results = [], g_notified = [], g_removes = 0\<rparr>"

definition inUse :: "gnubby \<Rightarrow> bool" where
  "inUse g \<longleftrightarrow> commandPending g"

text \<open>\<open>g_removes\<close> counts the \<open>removeClient\<close> calls scheduled in 300 milliseconds.\<close>

definition g_close :: "gnubby \<Rightarrow> gnubby" where
  "g_close g =
     (let g1 = g\<lparr>g_closed := True\<rparr> in
      if g_dev g1 then g1\<lparr>rxframes := [], rxcb := None, g_dev := False, g_removes := g_removes g1 + 1\<rparr>
      else g1)"

definition closeWhenIdle :: "nat option \<Rightarrow> gnubby \<Rightarrow> gnubby" where
  "closeWhenIdle cb g =
     (if \<not> inUse g
      then (let g1 = g_close g in
            case cb of Some c \<Rightarrow> g1\<lparr>g_notified := g_notified g1 @ [c]\<rparr> | None \<Rightarrow> g1)
      else (let g1 = g\<lparr>closingWhenIdle := True\<rparr> in
            case cb of Some c \<Rightarrow> g1\<lparr>notifyOnClose := notifyOnClose g1 @ [c]\<rparr> | None \<Rightarrow> g1))"

definition idleClose :: "gnubby \<Rightarrow> gnubby" where
  "idleClose g =
     (let g1 = g_close g in
      g1\<lparr>notifyOnClose := [], g_notified := g_notified g1 @ notifyOnClose g1\<rparr>)"

definition notifyFrame :: "frame_cb \<Rightarrow> gnubby \<Rightarrow> gnubby" where
  "notifyFrame cb g =
     (if rxframes g \<noteq> [] then g\<lparr>g_tasks := g_tasks g @ [cb]\<rparr> else g\<lparr>rxcb := Some cb\<rparr>)"

definition checkCID :: "bytes \<Rightarrow> gnubby \<Rightarrow> bool" where
  "checkCID frame g \<longleftrightarrow> frame_cid frame = g_cid g \<or> frame_cid frame = NOTIFICATION_CID"

text \<open>The result says whether the client is still interested.\<close>

definition receivedFrame :: "bytes \<Rightarrow> gnubby \<Rightarrow> gnubby \<times> bool" where
  "receivedFrame frame g =
     (if g_closed g then (g, False)
      else if \<not> checkCID frame g then (g, True)
      else (let g1 = g\<lparr>rxframes := rxframes g @ [frame]\<rparr>; cb = rxcb g1; g2 = g1\<lparr>rxcb := None\<rparr>
            in (case cb of Some c \<Rightarrow> g2\<lparr>g_tasks := g_tasks g2 @ [c]\<rparr> | None \<Rightarrow> g2, True)))"

text \<open>\<open>None\<close> is the exception \<open>'rxframes empty!'\<close>.\<close>

definition readFrame :: "gnubby \<Rightarrow> (bytes \<times> gnubby) option" where
  "readFrame g = (case rxframes g of [] \<Rightarrow> None | f # fs \<Rightarrow> Some (f, g\<lparr>rxframes := fs\<rparr>))"

subsection \<open>Reading a reply\<close>

definition rd :: "nat \<Rightarrow> gnubby \<Rightarrow> reader" where
  "rd i g = readers g ! i"

definition upd_rd :: "nat \<Rightarrow> (reader \<Rightarrow> reader) \<Rightarrow> gnubby \<Rightarrow> gnubby" where
  "upd_rd i h g = g\<lparr>readers := (readers g)[i := h (rd i g)]\<rparr>"

definition schedule_cb :: "nat \<Rightarrow> int \<Rightarrow> bytes option \<Rightarrow> gnubby \<Rightarrow> gnubby" where
  "schedule_cb i a b g =
     (let g1 = g\<lparr>commandPending := False\<rparr>;
          g2 = upd_rd i (\<lambda>r. r\<lparr>rd_tid := False\<rparr>) g1;
          g3 = (if rd_callback (rd i g2)
                then (upd_rd i (\<lambda>r. r\<lparr>rd_callback := False\<rparr>) g2)\<lparr>g_results := g_results g2 @ [(i, a, b)]\<rparr>
                else g2)
      in if closingWhenIdle g3 then idleClose g3 else g3)"

text \<open>What \<open>dev.destroy()\<close> does to a registered client: the \<open>GONE\<close> frame, then \<open>closed\<close>.\<close>

definition dev_destroyed :: "gnubby \<Rightarrow> gnubby" where
  "dev_destroyed g = (fst (receivedFrame (error_frame NOTIFICATION_CID GONE) g))\<lparr>g_closed := True\<rparr>"

definition read_timeout :: "nat \<Rightarrow> gnubby \<Rightarrow> gnubby" where
  "read_timeout i g =
     (if \<not> rd_callback (rd i g) \<or> \<not> rd_tid (rd i g) then g
      else (let g1 = (if g_dev g then dev_destroyed g else g);
                g2 = upd_rd i (\<lambda>r. r\<lparr>rd_tid := False\<rparr>) g1
            in schedule_cb i (- TIMEOUT) None g2))"

text \<open>
  \<open>msg[count++] = f[i]\<close> from index \<open>start\<close> on, until the frame or the message ends; \<open>True\<close> when
  the message is complete.
\<close>

definition copy_payload :: "nat \<Rightarrow> bytes \<Rightarrow> reader \<Rightarrow> reader" where
  "copy_payload start f r =
     r\<lparr>rd_got := rd_got r @ take (rd_total r - length (rd_got r)) (drop start f)\<rparr>"

definition msg_done :: "reader \<Rightarrow> bool" where
  "msg_done r \<longleftrightarrow> length (rd_got r) = rd_total r"

definition finish_or_more :: "nat \<Rightarrow> gnubby \<Rightarrow> gnubby" where
  "finish_or_more i g =
     (if msg_done (rd i g) then schedule_cb i (- OK) (Some (rd_got (rd i g))) g
      else notifyFrame (ContFrame i) g)"

definition forward_error :: "nat \<Rightarrow> bytes \<Rightarrow> gnubby \<Rightarrow> gnubby" where
  "forward_error i f g =
     schedule_cb i (- frame_code f) None (if frame_code f = GONE then g\<lparr>g_closed := True\<rparr> else g)"

definition cont_frame :: "nat \<Rightarrow> gnubby \<Rightarrow> gnubby option" where
  "cont_frame i g =
     (if \<not> rd_callback (rd i g) \<or> \<not> rd_tid (rd i g) then Some g
      else (case readFrame g of None \<Rightarrow> None
        | Some (f, g1) \<Rightarrow> Some
          (if is_error_frame f then forward_error i f g1
           else if frame_cmd f AND 0x80 \<noteq> 0 then notifyFrame (ContFrame i) g1
           else (let seq = frame_cmd f AND 0x7f;
                     ok = (seq = rd_seqno (rd i g1));
                     g2 = upd_rd i (\<lambda>r. r\<lparr>rd_seqno := rd_seqno r + 1\<rparr>) g1
                 in if \<not> ok then schedule_cb i (- INVALID_SEQ) None g2
                    else finish_or_more i (upd_rd i (copy_payload 5 f) g2)))))"

definition init_frame :: "nat \<Rightarrow> gnubby \<Rightarrow> gnubby option" where
  "init_frame i g =
     (if \<not> rd_callback (rd i g) \<or> \<not> rd_tid (rd i g) then Some g
      else (case readFrame g of None \<Rightarrow> None
        | Some (f, g1) \<Rightarrow> Some
          (if is_error_frame f then forward_error i f g1
           else if frame_cmd f AND 0x80 = 0 then notifyFrame (InitFrame i) g1
           else if frame_cmd f \<noteq> rd_cmd (rd i g1) then notifyFrame (InitFrame i) g1
           else finish_or_more i (upd_rd i (\<lambda>r. copy_payload 7 f (r\<lparr>rd_total := frame_len f\<rparr>)) g1))))"

text \<open>
  \<open>read_\<close>: the result is called at once when the client is closed (the last component), else the
  reader starts. The timeout timer is armed, and fires through \<open>read_timeout\<close>.
\<close>

definition read :: "nat \<Rightarrow> gnubby \<Rightarrow> gnubby \<times> int option" where
  "read cmd g =
     (if g_closed g then (g, Some (- GONE))
      else if \<not> g_dev g then (g, Some (- GONE))
      else (let i = length (readers g);
                r = \<lparr>rd_cmd = cmd, rd_callback = True, rd_tid = True, rd_total = 0, rd_got = [], rd_seqno = 0\<rparr>
            in (notifyFrame (InitFrame i) (g\<lparr>readers := readers g @ [r]\<rparr>), None)))"

text \<open>
  The events of a client: the browser runs the first task, the device delivers a frame, a read
  starts, its timer fires, the client is closed. An exception ends the task only: its frame
  function is gone, and the client stays as it was.
\<close>

datatype g_event = GDeliver bytes | GTask | GRead nat | GTimeout nat | GClose | GCloseWhenIdle "nat option"

definition run_frame_cb :: "frame_cb \<Rightarrow> gnubby \<Rightarrow> gnubby option" where
  "run_frame_cb cb g =
     (case cb of
        InitFrame i \<Rightarrow> if i < length (readers g) then init_frame i g else Some g
      | ContFrame i \<Rightarrow> if i < length (readers g) then cont_frame i g else Some g
      | CheckSentinel i \<Rightarrow> Some g)"

fun g_step :: "g_event \<Rightarrow> gnubby \<Rightarrow> gnubby" where
  "g_step (GDeliver f) g = fst (receivedFrame f g)"
| "g_step GTask g =
     (case g_tasks g of [] \<Rightarrow> g
      | cb # cbs \<Rightarrow> (let g1 = g\<lparr>g_tasks := cbs\<rparr> in
                     case run_frame_cb cb g1 of None \<Rightarrow> g1 | Some g2 \<Rightarrow> g2))"
| "g_step (GRead cmd) g = fst (read cmd g)"
| "g_step (GTimeout i) g = (if i < length (readers g) then read_timeout i g else g)"
| "g_step GClose g = g_close g"
| "g_step (GCloseWhenIdle cb) g = closeWhenIdle cb g"

subsection \<open>Every read is answered at most once\<close>

definition answered :: "nat \<Rightarrow> gnubby \<Rightarrow> bool" where
  "answered i g \<longleftrightarrow> i < length (readers g) \<and> \<not> rd_callback (rd i g)"

definition answers :: "nat \<Rightarrow> gnubby \<Rightarrow> nat" where
  "answers i g = length (filter (\<lambda>(j, _, _). j = i) (g_results g))"

text \<open>How one operation may change what reader \<open>i\<close> was told: reflexive and transitive.\<close>

definition once_rel :: "nat \<Rightarrow> gnubby \<Rightarrow> gnubby \<Rightarrow> bool" where
  "once_rel i g g' \<longleftrightarrow>
     length (readers g) \<le> length (readers g')
     \<and> (answered i g \<longrightarrow> answered i g' \<and> answers i g' = answers i g)
     \<and> (\<not> answered i g \<longrightarrow> answers i g' = answers i g \<or> answers i g' = Suc (answers i g) \<and> answered i g')"

lemma once_refl [simp]: "once_rel i g g"
  by (simp add: once_rel_def)

lemma once_trans: "once_rel i g g' \<Longrightarrow> once_rel i g' g'' \<Longrightarrow> once_rel i g g''"
  unfolding once_rel_def by (metis le_trans)

lemma once_same:
  "readers g' = readers g \<Longrightarrow> g_results g' = g_results g \<Longrightarrow> once_rel i g g'"
  by (simp add: once_rel_def answered_def answers_def rd_def)

lemma once_close [once_simps]: "once_rel i g (g_close g)"
  by (rule once_same) (auto simp: g_close_def Let_def)

lemma once_idleClose: "once_rel i g (idleClose g)"
  by (rule once_same) (auto simp: g_close_def idleClose_def Let_def)

lemma once_closeWhenIdle [once_simps]: "once_rel i g (closeWhenIdle cb g)"
  by (rule once_same) (auto simp: g_close_def closeWhenIdle_def Let_def split: option.split)

lemma once_notify [once_simps]: "once_rel i g (notifyFrame cb g)"
  by (rule once_same) (auto simp: notifyFrame_def)

lemma once_received [once_simps]: "once_rel i g (fst (receivedFrame f g))"
  by (rule once_same) (auto simp: receivedFrame_def Let_def split: option.split)

lemma once_readFrame: "readFrame g = Some (f, g') \<Longrightarrow> once_rel i g g' \<and> readers g' = readers g"
  by (auto simp: readFrame_def intro: once_same split: list.splits)

lemma once_upd:
  "(\<And>r. rd_callback (h r) = rd_callback r) \<Longrightarrow> once_rel i g (upd_rd j h g)"
proof -
  assume h: "\<And>r. rd_callback (h r) = rd_callback r"
  have "rd_callback ((readers g)[j := h (readers g ! j)] ! i) = rd_callback (readers g ! i)"
    by (cases "i = j"; cases "j < length (readers g)") (simp_all add: h list_update_beyond)
  then show ?thesis by (simp add: once_rel_def answered_def answers_def rd_def upd_rd_def)
qed

lemma once_schedule: "j < length (readers g) \<Longrightarrow> once_rel i g (schedule_cb j a b g)"
proof -
  assume j: "j < length (readers g)"
  define g2 where "g2 = upd_rd j (\<lambda>r. r\<lparr>rd_tid := False\<rparr>) (g\<lparr>commandPending := False\<rparr>)"
  define g3 where "g3 = (if rd_callback (rd j g2)
    then (upd_rd j (\<lambda>r. r\<lparr>rd_callback := False\<rparr>) g2)\<lparr>g_results := g_results g2 @ [(j, a, b)]\<rparr> else g2)"
  have 1: "once_rel i g g2"
    unfolding g2_def by (rule once_trans [OF once_same once_upd]) simp_all
  have j2: "j < length (readers g2)" using j by (simp add: g2_def upd_rd_def)
  have 2: "once_rel i g2 g3"
    using j2 by (auto simp: g3_def once_rel_def answered_def answers_def rd_def upd_rd_def nth_list_update)
  have "schedule_cb j a b g = (if closingWhenIdle g3 then idleClose g3 else g3)"
    by (simp add: schedule_cb_def Let_def g2_def g3_def)
  with 1 2 once_idleClose show ?thesis by (metis once_trans)
qed

lemma readers_upd [simp]: "length (readers (upd_rd j h g)) = length (readers g)"
  by (simp add: upd_rd_def)

lemma once_finish: "j < length (readers g) \<Longrightarrow> once_rel i g (finish_or_more j g)"
  by (simp add: finish_or_more_def once_schedule once_notify)

lemma once_forward: "j < length (readers g) \<Longrightarrow> once_rel i g (forward_error j f g)"
  unfolding forward_error_def
  by (rule once_trans [OF once_same once_schedule, of "if frame_code f = GONE then g\<lparr>g_closed := True\<rparr> else g"]) auto

lemma once_upd_then:
  "(\<And>r. rd_callback (h r) = rd_callback r) \<Longrightarrow> once_rel i (upd_rd j h g) g' \<Longrightarrow> once_rel i g g'"
  using once_trans [OF once_upd] by blast

lemma once_frame_cb:
  assumes "j < length (readers g)" "cont_frame j g = Some g' \<or> init_frame j g = Some g'"
  shows "once_rel i g g'"
proof (cases "\<not> rd_callback (rd j g) \<or> \<not> rd_tid (rd j g)")
  case True
  with assms(2) show ?thesis by (auto simp: cont_frame_def init_frame_def)
next
  case False
  with assms(2) obtain f g1 where r: "readFrame g = Some (f, g1)"
    by (auto simp: cont_frame_def init_frame_def split: option.splits)
  note o = once_readFrame [OF r, of i]
  have j: "j < length (readers g1)" using o assms(1) by simp
  have "once_rel i g1 g'"
    using assms(2) False r j
    by (auto simp: cont_frame_def init_frame_def Let_def split: if_splits
        intro!: once_forward once_notify once_schedule once_finish
        intro: once_upd_then [where j = j and g = g1, OF _ once_schedule]
          once_upd_then [where j = j and g = g1, OF _ once_upd_then [OF _ once_finish]]
          once_upd_then [where j = j and g = g1, OF _ once_finish] simp: copy_payload_def)
  with o show ?thesis using once_trans by blast
qed

lemma once_timeout: "j < length (readers g) \<Longrightarrow> once_rel i g (read_timeout j g)"
proof -
  assume j: "j < length (readers g)"
  define g1 where "g1 = (if g_dev g then dev_destroyed g else g)"
  have r: "readers g1 = readers g" "g_results g1 = g_results g"
    by (auto simp: g1_def dev_destroyed_def receivedFrame_def Let_def split: option.split)
  have "once_rel i g1 (upd_rd j (\<lambda>r. r\<lparr>rd_tid := False\<rparr>) g1)" by (rule once_upd) simp
  moreover have "once_rel i (upd_rd j (\<lambda>r. r\<lparr>rd_tid := False\<rparr>) g1)
      (schedule_cb j (- TIMEOUT) None (upd_rd j (\<lambda>r. r\<lparr>rd_tid := False\<rparr>) g1))"
    using j r by (intro once_schedule) simp
  ultimately show ?thesis
    using once_same [OF r, of i]
    by (auto simp: read_timeout_def Let_def g1_def [symmetric] intro: once_trans)
qed

lemma once_read: "once_rel i g (fst (read cmd g))"
proof -
  have "once_rel i g (g\<lparr>readers := readers g @ [r]\<rparr>)" for r
    by (auto simp: once_rel_def answered_def answers_def rd_def nth_append)
  then show ?thesis by (auto simp: read_def Let_def intro: once_trans [OF _ once_notify])
qed

lemma once_step: "once_rel i g (g_step e g)"
proof (cases e)
  case GTask
  show ?thesis
  proof (cases "g_tasks g")
    case (Cons cb cbs)
    let ?g1 = "g\<lparr>g_tasks := cbs\<rparr>"
    have "once_rel i ?g1 g2" if "run_frame_cb cb ?g1 = Some g2" for g2
      using that once_frame_cb [of _ ?g1 g2 i]
      by (auto simp: run_frame_cb_def split: frame_cb.splits if_splits)
    moreover have "once_rel i g ?g1" by (rule once_same) simp_all
    ultimately show ?thesis
      using GTask Cons by (auto simp: Let_def split: option.split intro: once_trans)
  qed (use GTask in simp)
qed (auto simp: once_simps once_timeout once_read)

interpretation gnubby_read: notify_once g_step "answered i" "answers i" for i
proof
  fix e g
  show "answered i g \<Longrightarrow> answers i (g_step e g) = answers i g"
    using once_step [of i g e] by (simp add: once_rel_def)
  show "answered i g \<Longrightarrow> answered i (g_step e g)"
    using once_step [of i g e] by (simp add: once_rel_def)
  show "\<not> answered i g \<Longrightarrow> answers i (g_step e g) = answers i g
      \<or> answers i (g_step e g) = Suc (answers i g) \<and> answered i (g_step e g)"
    using once_step [of i g e] by (auto simp: once_rel_def)
qed


subsection \<open>What a read returns depends on its frames only\<close>

text \<open>
  \<open>read_\<close> as a machine on the stream of the frames of its channel: waiting for the initial frame,
  for a continuation, or done with a result.
\<close>

datatype phase = PInit | PCont | PDone int "bytes option"

definition after_copy :: "reader \<Rightarrow> phase \<times> reader" where
  "after_copy r = (if msg_done r then PDone (- OK) (Some (rd_got r)) else PCont, r)"

fun read_machine :: "bytes \<Rightarrow> phase \<times> reader \<Rightarrow> phase \<times> reader" where
  "read_machine f (PInit, r) =
     (if is_error_frame f then (PDone (- frame_code f) None, r)
      else if frame_cmd f AND 0x80 = 0 \<or> frame_cmd f \<noteq> rd_cmd r then (PInit, r)
      else after_copy (copy_payload 7 f (r\<lparr>rd_total := frame_len f\<rparr>)))"
| "read_machine f (PCont, r) =
     (if is_error_frame f then (PDone (- frame_code f) None, r)
      else if frame_cmd f AND 0x80 \<noteq> 0 then (PCont, r)
      else (let r1 = r\<lparr>rd_seqno := rd_seqno r + 1\<rparr> in
            if frame_cmd f AND 0x7f \<noteq> rd_seqno r then (PDone (- INVALID_SEQ) None, r1)
            else after_copy (copy_payload 5 f r1)))"
| "read_machine f (PDone rc d, r) = (PDone rc d, r)"

definition new_reader :: "nat \<Rightarrow> reader" where
  "new_reader cmd =
     \<lparr>rd_cmd = cmd, rd_callback = True, rd_tid = True, rd_total = 0, rd_got = [], rd_seqno = 0\<rparr>"

definition read_result :: "nat \<Rightarrow> bytes list \<Rightarrow> (int \<times> bytes option) option" where
  "read_result cmd fs =
     (case fst (fold read_machine fs (PInit, new_reader cmd)) of
        PDone rc d \<Rightarrow> Some (rc, d) | _ \<Rightarrow> None)"

lemma machine_done: "fold read_machine fs (PDone rc d, r) = (PDone rc d, r)"
  by (induction fs) auto

fun phase_cb :: "nat \<Rightarrow> phase \<Rightarrow> frame_cb" where
  "phase_cb i PCont = ContFrame i"
| "phase_cb i _ = InitFrame i"

text \<open>
  The reader \<open>i\<close> of an open client has consumed \<open>fs\<close>, and no frame function but its own is
  waiting. \<open>res\<close> are the results from before the read.
\<close>

definition reading :: "nat \<Rightarrow> nat \<Rightarrow> (nat \<times> int \<times> bytes option) list \<Rightarrow> bytes list \<Rightarrow> gnubby \<Rightarrow> bool" where
  "reading i cmd res fs g \<longleftrightarrow>
     i < length (readers g) \<and> \<not> closingWhenIdle g \<and>
     (case fold read_machine fs (PInit, new_reader cmd) of
        (PDone rc d, r) \<Rightarrow> g_results g = res @ [(i, rc, d)] \<and> \<not> rd_callback (rd i g)
          \<and> g_tasks g = [] \<and> rxcb g = None
      | (ph, r) \<Rightarrow> rd i g = r \<and> g_results g = res \<and> \<not> g_closed g
          \<and> (if rxframes g = [] then rxcb g = Some (phase_cb i ph) \<and> g_tasks g = []
             else rxcb g = None \<and> g_tasks g = [phase_cb i ph]))"

lemma machine_flags:
  "fold read_machine fs (PInit, new_reader cmd) = (ph, r) \<Longrightarrow> rd_callback r \<and> rd_tid r \<and> rd_cmd r = cmd"
proof -
  have "fold read_machine fs s = (ph, r) \<Longrightarrow> rd_callback (snd s) \<and> rd_tid (snd s) \<and> rd_cmd (snd s) = cmd
      \<Longrightarrow> rd_callback r \<and> rd_tid r \<and> rd_cmd r = cmd" for s
  proof (induction fs arbitrary: s)
    case (Cons f fs)
    have "rd_callback (snd (read_machine f s)) = rd_callback (snd s)
        \<and> rd_tid (snd (read_machine f s)) = rd_tid (snd s) \<and> rd_cmd (snd (read_machine f s)) = rd_cmd (snd s)"
      by (cases s; cases "fst s") (auto simp: after_copy_def copy_payload_def Let_def)
    with Cons show ?case by simp
  qed auto
  then show "fold read_machine fs (PInit, new_reader cmd) = (ph, r) \<Longrightarrow> ?thesis"
    by (simp add: new_reader_def)
qed

lemma reading_start:
  assumes "\<not> g_closed g" "g_dev g" "\<not> closingWhenIdle g" "rxframes g = []" "g_tasks g = []"
  shows "reading (length (readers g)) cmd (g_results g) [] (fst (read cmd g))"
  using assms by (simp add: read_def Let_def reading_def notifyFrame_def rd_def new_reader_def)

text \<open>A delivered frame is stored, and consumed later.\<close>

lemma reading_deliver:
  assumes "reading i cmd res fs g"
  shows "reading i cmd res fs (fst (receivedFrame f g))"
proof -
  obtain ph r where m: "fold read_machine fs (PInit, new_reader cmd) = (ph, r)" by fastforce
  show ?thesis
    using assms m
    by (cases ph) (auto simp: reading_def receivedFrame_def Let_def rd_def split: option.splits if_splits)
qed

lemma reading_task:
  assumes r: "reading i cmd res fs g" and t: "g_tasks g \<noteq> []"
  shows "\<exists>f. rxframes g = f # tl (rxframes g) \<and> reading i cmd res (fs @ [f]) (g_step GTask g)
    \<and> ((\<forall>rc d. fst (fold read_machine (fs @ [f]) (PInit, new_reader cmd)) \<noteq> PDone rc d)
         \<longrightarrow> rxframes (g_step GTask g) = tl (rxframes g))"
proof -
  obtain ph rr where m: "fold read_machine fs (PInit, new_reader cmd) = (ph, rr)" by fastforce
  note fl = machine_flags [OF m]
  have nd: "ph \<noteq> PDone rc d" for rc d using r t m by (auto simp: reading_def)
  with r t m have g: "i < length (readers g)" "\<not> closingWhenIdle g" "rd i g = rr" "g_results g = res"
    "\<not> g_closed g" "rxframes g \<noteq> []" "rxcb g = None" "g_tasks g = [phase_cb i ph]"
    by (auto simp: reading_def split: phase.splits if_splits)
  then obtain f rest where f: "rxframes g = f # rest" by (cases "rxframes g") auto
  have rdi: "readers g ! i = rr" using g(3) by (simp add: rd_def)
  note defs = reading_def m rdi f g fl rd_def upd_rd_def Let_def run_frame_cb_def init_frame_def cont_frame_def
    readFrame_def forward_error_def schedule_cb_def notifyFrame_def finish_or_more_def after_copy_def
  show ?thesis
  proof (cases ph)
    case PInit
    then show ?thesis unfolding f
      by (simp add: defs copy_payload_def) (auto simp: msg_done_def nth_list_update)
  next
    case PCont
    then show ?thesis unfolding f
      by (auto simp: defs copy_payload_def msg_done_def nth_list_update)
  next
    case (PDone rc d)
    with nd show ?thesis by blast
  qed
qed

text \<open>Runs in which frames are delivered and tasks run, in any order.\<close>

definition quiet_event :: "g_event \<Rightarrow> bool" where
  "quiet_event e \<longleftrightarrow> (case e of GDeliver _ \<Rightarrow> True | GTask \<Rightarrow> True | _ \<Rightarrow> False)"

definition own_frames :: "int32 \<Rightarrow> g_event list \<Rightarrow> bytes list" where
  "own_frames cid es =
     concat (map (\<lambda>e. case e of GDeliver f \<Rightarrow>
       if frame_cid f = cid \<or> frame_cid f = NOTIFICATION_CID then [f] else [] | _ \<Rightarrow> []) es)"

definition read_done :: "nat \<Rightarrow> bytes list \<Rightarrow> bool" where
  "read_done cmd fs \<longleftrightarrow> read_result cmd fs \<noteq> None"

lemma read_done_iff: "read_done cmd fs \<longleftrightarrow> (\<exists>rc d. fst (fold read_machine fs (PInit, new_reader cmd)) = PDone rc d)"
  by (auto simp: read_done_def read_result_def split: phase.split)

lemma read_result_done: "read_done cmd fs \<Longrightarrow> read_result cmd (fs @ gs) = read_result cmd fs"
proof -
  assume "read_done cmd fs"
  then obtain rc d r where "fold read_machine fs (PInit, new_reader cmd) = (PDone rc d, r)"
    unfolding read_done_iff by (metis prod.collapse)
  then show ?thesis by (simp add: read_result_def machine_done)
qed

text \<open>\<open>fs\<close> consumed and \<open>rest\<close> delivered but not consumed.\<close>

definition reading_split ::
  "nat \<Rightarrow> nat \<Rightarrow> (nat \<times> int \<times> bytes option) list \<Rightarrow> bytes list \<Rightarrow> gnubby \<Rightarrow> bool" where
  "reading_split i cmd res own g \<longleftrightarrow>
     (\<exists>fs rest. own = fs @ rest \<and> reading i cmd res fs g \<and> (\<not> read_done cmd fs \<longrightarrow> rxframes g = rest))"

lemma not_done_open: "reading i cmd res fs g \<Longrightarrow> \<not> read_done cmd fs \<Longrightarrow> \<not> g_closed g"
proof -
  assume a: "reading i cmd res fs g" "\<not> read_done cmd fs"
  obtain ph r where m: "fold read_machine fs (PInit, new_reader cmd) = (ph, r)" by fastforce
  with a show ?thesis unfolding read_done_iff reading_def by (cases ph) auto
qed

lemma reading_split_step:
  assumes "reading_split i cmd res own g" "quiet_event e"
  shows "reading_split i cmd res (own @ own_frames (g_cid g) [e]) (g_step e g)"
proof -
  obtain fs rest where s: "own = fs @ rest" "reading i cmd res fs g"
    "\<not> read_done cmd fs \<longrightarrow> rxframes g = rest"
    using assms(1) unfolding reading_split_def by blast
  show ?thesis
  proof (cases e)
    case (GDeliver f)
    have "rxframes (fst (receivedFrame f g)) = rest @ own_frames (g_cid g) [e]" if "\<not> read_done cmd fs"
      using that s not_done_open [OF s(2) that]
      by (auto simp: receivedFrame_def own_frames_def checkCID_def Let_def GDeliver split: option.split)
    with s(1) reading_deliver [OF s(2), of f] show ?thesis
      unfolding reading_split_def GDeliver by (metis append_assoc g_step.simps(1))
  next
    case GTask
    show ?thesis
    proof (cases "g_tasks g = []")
      case True
      with assms(1) GTask show ?thesis by (simp add: own_frames_def)
    next
      case False
      then have nd: "\<not> read_done cmd fs"
        using s(2) unfolding read_done_iff reading_def by (auto split: phase.splits prod.splits)
      from reading_task [OF s(2) False] obtain f where f: "rxframes g = f # tl (rxframes g)"
        "reading i cmd res (fs @ [f]) (g_step GTask g)"
        "\<not> read_done cmd (fs @ [f]) \<longrightarrow> rxframes (g_step GTask g) = tl (rxframes g)"
        unfolding read_done_iff by blast
      have "own @ own_frames (g_cid g) [e] = (fs @ [f]) @ tl (rxframes g)"
        using s(1,3) nd f(1) by (simp add: GTask own_frames_def)
      with f(2,3) show ?thesis unfolding reading_split_def GTask by blast
    qed
  qed (use assms(2) in \<open>simp_all add: quiet_event_def\<close>)
qed

lemma cid_schedule [simp]: "g_cid (schedule_cb i a b g) = g_cid g"
  by (simp add: schedule_cb_def Let_def upd_rd_def idleClose_def g_close_def)

lemma cid_quiet: "quiet_event e \<Longrightarrow> g_cid (g_step e g) = g_cid g"
  by (cases e) (auto simp: quiet_event_def receivedFrame_def Let_def run_frame_cb_def init_frame_def cont_frame_def
      readFrame_def forward_error_def notifyFrame_def finish_or_more_def upd_rd_def
      split: list.splits option.splits frame_cb.splits if_splits)

lemma reading_run:
  "\<lbrakk>reading_split i cmd res own g; \<forall>e \<in> set es. quiet_event e\<rbrakk> \<Longrightarrow>
   reading_split i cmd res (own @ own_frames (g_cid g) es) (fold g_step es g)"
proof (induction es arbitrary: g own)
  case Nil
  then show ?case by (simp add: own_frames_def)
next
  case (Cons e es)
  from Cons.prems have q: "quiet_event e" by simp
  have o: "own_frames c (e # es) = own_frames c [e] @ own_frames c es" for c by (simp add: own_frames_def)
  from Cons.IH [OF reading_split_step [OF Cons.prems(1) q]] Cons.prems(2) cid_quiet [OF q, of g]
  show ?case by (simp add: o)
qed

lemma read_outcome:
  assumes "\<not> g_closed g" "g_dev g" "\<not> closingWhenIdle g" "rxframes g = []" "g_tasks g = []"
    and "\<forall>e \<in> set es. quiet_event e"
    and "g' = fold g_step es (fst (read cmd g))" "g_tasks g' = []"
  shows "g_results g' = g_results g @
     (case read_result cmd (own_frames (g_cid g) es) of
        None \<Rightarrow> [] | Some (rc, d) \<Rightarrow> [(length (readers g), rc, d)])"
proof -
  let ?i = "length (readers g)" and ?g0 = "fst (read cmd g)" and ?res = "g_results g"
  have "rxframes ?g0 = []" "g_cid ?g0 = g_cid g"
    using assms(4) by (auto simp: read_def Let_def notifyFrame_def)
  then have "reading_split ?i cmd ?res [] ?g0"
    using reading_start [OF assms(1-5)] by (auto simp: reading_split_def)
  from reading_run [OF this assms(6)] obtain fs rest where
    s: "own_frames (g_cid g) es = fs @ rest" "reading ?i cmd ?res fs g'"
      "\<not> read_done cmd fs \<longrightarrow> rxframes g' = rest"
    unfolding reading_split_def assms(7) using \<open>g_cid ?g0 = g_cid g\<close> by auto
  obtain ph r where m: "fold read_machine fs (PInit, new_reader cmd) = (ph, r)" by fastforce
  show ?thesis
  proof (cases "read_done cmd fs")
    case True
    with m obtain rc d where ph: "ph = PDone rc d" unfolding read_done_iff by auto
    have "read_result cmd (own_frames (g_cid g) es) = Some (rc, d)"
      using read_result_done [OF True] m ph by (simp add: s(1)) (simp add: read_result_def)
    with s(2) m ph show ?thesis by (simp add: reading_def)
  next
    case False
    with m have ph: "ph \<noteq> PDone rc d" for rc d unfolding read_done_iff by auto
    then have "rest = [] \<and> g_results g' = ?res"
      using s(2,3) False m assms(8) by (cases ph) (auto simp: reading_def split: if_splits)
    with False s(1) show ?thesis
      by (cases "read_result cmd fs") (auto simp: read_done_def)
  qed
qed

text \<open>
  C2. A read does not depend on timing: a read started on an idle open client, followed by any
  interleaving of frames that arrive (for this channel, for all, or for others) with the browser
  running the client's tasks, has scheduled, once no task is left, exactly the result that the
  machine computes from the frames of its channel in the order they arrived, and nothing when they
  do not complete a reply.
\<close>

theorem read_schedule_independent:
  assumes "\<not> g_closed g" "g_dev g" "\<not> closingWhenIdle g" "rxframes g = []" "g_tasks g = []"
    and "\<forall>e \<in> set es. quiet_event e"
    and "g' = fold g_step es (fst (read cmd g))" "g_tasks g' = []"
  shows "g_results g' = g_results g @
     (case read_result cmd (own_frames (g_cid g) es) of
        None \<Rightarrow> [] | Some (rc, d) \<Rightarrow> [(length (readers g), rc, d)])"
  by (rule read_outcome [OF assms])

lemma read_schedule_independent_witness:
  "g_results (fold g_step [GDeliver (error_frame 5 BUSY), GTask] (fst (read CMD_APDU
     ((Gnubby 1 None)\<lparr>g_dev := True, g_cid := 5\<rparr>)))) = [(0, - 6, None)]"
proof -
  let ?g = "(Gnubby 1 None)\<lparr>g_dev := True, g_cid := 5\<rparr>" and ?f = "error_frame 5 BUSY"
  have f: "?f = [0, 0, 0, 5, 0xbf, 0, 1, 6]"
    by code_simp
  have c: "frame_cid ?f = 5" by code_simp
  have e: "is_error_frame ?f" "frame_code ?f = 6"
    by code_simp+
  have r: "read_result CMD_APDU [?f] = Some (- 6, None)" by (simp add: read_result_def e)
  have "g_tasks (fold g_step [GDeliver ?f, GTask] (fst (read CMD_APDU ?g))) = []"
    by (simp add: Gnubby_def read_def notifyFrame_def receivedFrame_def checkCID_def c run_frame_cb_def init_frame_def
      rd_def readFrame_def e forward_error_def schedule_cb_def upd_rd_def Let_def GONE_def)
  with read_schedule_independent [of ?g "[GDeliver ?f, GTask]" _ CMD_APDU] show ?thesis
    by (simp add: Gnubby_def quiet_event_def own_frames_def c r)
qed

end
