(* ===== verification/HidFrames.thy ===== *)
theory HidFrames
  imports Gnubby
begin

unbundle bit_operations_syntax

text \<open>
  How hidgnubbydevice.js cuts a command into frames of 64 bytes, and that \<open>read_\<close> (theory Gnubby)
  puts the frames of a message together again. \<open>hid_frames\<close> is the loop of \<open>queueCommand\<close>: the
  frames it queues in order, each with the value of the variable \<open>cmd\<close> at that moment, which
  \<open>queueFrame_\<close> receives.
\<close>

subsection \<open>The loop of queueCommand\<close>

definition setCid :: "bytes \<Rightarrow> int32 \<Rightarrow> bytes" where
  "setCid frame cid =
     frame[0 := ucast (drop_bit 24 cid), 1 := ucast (drop_bit 16 cid), 2 := ucast (drop_bit 8 cid), 3 := ucast cid]"

record frag =
  fr_f :: bytes
  fr_n :: nat
  fr_seq :: nat
  fr_cmd :: nat
  fr_out :: "(bytes \<times> nat) list"

definition frag_init :: "int32 \<Rightarrow> nat \<Rightarrow> bytes \<Rightarrow> frag" where
  "frag_init cid cmd data =
     \<lparr>fr_f = (setCid (replicate 64 0) cid)
        [4 := word_of_nat cmd, 5 := word_of_nat (length data div 256), 6 := word_of_nat (length data mod 256)],
      fr_n = 7, fr_seq = 0, fr_cmd = cmd, fr_out = []\<rparr>"

definition frag_byte :: "int32 \<Rightarrow> byte \<Rightarrow> frag \<Rightarrow> frag" where
  "frag_byte cid b s =
     (let s1 = s\<lparr>fr_f := (fr_f s)[fr_n s := b], fr_n := fr_n s + 1\<rparr> in
      if fr_n s1 = length (fr_f s1)
      then s1\<lparr>fr_out := fr_out s1 @ [(fr_f s1, fr_cmd s1)],
              fr_f := (setCid (replicate 64 0) cid)[4 := word_of_nat (fr_seq s1)],
              fr_cmd := fr_seq s1, fr_seq := fr_seq s1 + 1, fr_n := 5\<rparr>
      else s1)"

definition hid_frames :: "int32 \<Rightarrow> nat \<Rightarrow> bytes \<Rightarrow> (bytes \<times> nat) list" where
  "hid_frames cid cmd data =
     (let s = fold (frag_byte cid) data (frag_init cid cmd data) in
      fr_out s @ (if fr_n s \<noteq> 5 then [(fr_f s, fr_cmd s)] else []))"

subsection \<open>The frames, from what is already in the current one\<close>

definition pad64 :: "bytes \<Rightarrow> bytes" where
  "pad64 p = p @ replicate (64 - length p) 0"

fun chunks :: "int32 \<Rightarrow> bytes \<Rightarrow> nat \<Rightarrow> nat \<Rightarrow> bytes \<Rightarrow> (bytes \<times> nat) list" where
  "chunks cid p c s [] = (if length p \<noteq> 5 then [(pad64 p, c)] else [])"
| "chunks cid p c s (b # bs) =
     (if length p = 63 then (p @ [b], c) # chunks cid (cid_bytes cid @ [word_of_nat s]) s (s + 1) bs
      else chunks cid (p @ [b]) c s bs)"

lemma length_cid_bytes [simp]: "length (cid_bytes cid) = 4"
  by (simp add: cid_bytes_def)

lemma setCid_pad: "setCid (replicate 64 0) cid = pad64 (cid_bytes cid)"
  by (simp add: setCid_def pad64_def cid_bytes_def numeral_eq_Suc)

lemma pad64_put: "length p < 64 \<Longrightarrow> (pad64 p)[length p := b] = pad64 (p @ [b])"
proof -
  assume "length p < 64"
  then obtain k where k: "64 - length p = Suc k" "64 - Suc (length p) = k"
    by (metis Suc_diff_Suc)
  then show ?thesis by (simp add: pad64_def list_update_append)
qed

lemma length_pad64: "length p \<le> 64 \<Longrightarrow> length (pad64 p) = 64"
  by (simp add: pad64_def)

lemma frag_chunks:
  assumes "length p < 64"
    and "s = \<lparr>fr_f = pad64 p, fr_n = length p, fr_seq = sq, fr_cmd = c, fr_out = out\<rparr>"
    and "s' = fold (frag_byte cid) data s"
  shows "fr_out s' @ (if fr_n s' \<noteq> 5 then [(fr_f s', fr_cmd s')] else []) = out @ chunks cid p c sq data"
  using assms
proof (induction data arbitrary: p s sq c out)
  case Nil
  then show ?case by simp
next
  case (Cons b bs)
  have f: "(pad64 p)[length p := b] = pad64 (p @ [b])" by (rule pad64_put [OF Cons.prems(1)])
  show ?case
  proof (cases "length p = 63")
    case True
    let ?q = "cid_bytes cid @ [word_of_nat sq]"
    have q: "(setCid (replicate 64 0) cid)[4 := word_of_nat sq] = pad64 ?q"
      using pad64_put [of "cid_bytes cid" "word_of_nat sq"] by (simp add: setCid_pad)
    have "pad64 (p @ [b]) = p @ [b]" using True by (simp add: pad64_def)
    then have "frag_byte cid b s = \<lparr>fr_f = pad64 ?q, fr_n = length ?q, fr_seq = sq + 1, fr_cmd = sq,
        fr_out = out @ [(p @ [b], c)]\<rparr>"
      using True f q by (simp add: frag_byte_def Cons.prems(2) Let_def)
    from Cons.IH [OF _ this] Cons.prems(3) show ?thesis using True by simp
  next
    case False
    then have "frag_byte cid b s = \<lparr>fr_f = pad64 (p @ [b]), fr_n = length (p @ [b]), fr_seq = sq, fr_cmd = c,
        fr_out = out\<rparr>"
      using f Cons.prems(1) by (simp add: frag_byte_def Cons.prems(2) Let_def length_pad64)
    moreover have "length (p @ [b]) < 64" using False Cons.prems(1) by simp
    ultimately show ?thesis using Cons.IH [of "p @ [b]"] Cons.prems(3) False by simp
  qed
qed

definition init_header :: "int32 \<Rightarrow> nat \<Rightarrow> nat \<Rightarrow> bytes" where
  "init_header cid cmd len =
     cid_bytes cid @ [word_of_nat cmd, word_of_nat (len div 256), word_of_nat (len mod 256)]"

lemma hid_frames_chunks: "hid_frames cid cmd data = chunks cid (init_header cid cmd (length data)) cmd 0 data"
proof -
  let ?h = "init_header cid cmd (length data)"
  have "frag_init cid cmd data = \<lparr>fr_f = pad64 ?h, fr_n = length ?h, fr_seq = 0, fr_cmd = cmd, fr_out = []\<rparr>"
    using pad64_put [of "cid_bytes cid" "word_of_nat cmd"]
      pad64_put [of "cid_bytes cid @ [word_of_nat cmd]" "word_of_nat (length data div 256)"]
      pad64_put [of "cid_bytes cid @ [word_of_nat cmd, word_of_nat (length data div 256)]"
        "word_of_nat (length data mod 256)"]
    by (simp add: frag_init_def init_header_def setCid_pad)
  from frag_chunks [OF _ this refl, of cid data] show ?thesis
    by (simp add: hid_frames_def init_header_def)
qed

subsection \<open>What a frame says\<close>

lemma unat_byte_of_nat: "n < 256 \<Longrightarrow> unat (word_of_nat n :: byte) = n"
  by (simp add: unat_of_nat)

lemma frame_cid_bytes [simp]: "frame_cid (cid_bytes cid @ rest) = cid"
proof -
  have b: "byte_at (cid_bytes cid @ rest) 0 = ucast (drop_bit 24 cid)"
    "byte_at (cid_bytes cid @ rest) 1 = ucast (drop_bit 16 cid)"
    "byte_at (cid_bytes cid @ rest) 2 = ucast (drop_bit 8 cid)"
    "byte_at (cid_bytes cid @ rest) 3 = ucast cid"
    by (simp_all add: byte_at_def cid_bytes_def numeral_eq_Suc)
  show ?thesis
    unfolding frame_cid_def b
  proof (rule bit_word_eqI)
    fix n assume "n < LENGTH(32)"
    then show "bit (push_bit 24 (ucast (ucast (drop_bit 24 cid) :: byte) :: int32)
        OR push_bit 16 (ucast (ucast (drop_bit 16 cid) :: byte))
        OR push_bit 8 (ucast (ucast (drop_bit 8 cid) :: byte)) OR ucast (ucast cid :: byte)) n = bit cid n"
      by (cases "n < 8"; cases "n < 16"; cases "n < 24") (auto simp: bit_simps)
  qed
qed

lemma frame_fields:
  assumes "cmd < 256" "len < 65536"
  shows "frame_cid (init_header cid cmd len @ rest) = cid"
    "frame_cmd (init_header cid cmd len @ rest) = cmd"
    "frame_len (init_header cid cmd len @ rest) = len"
proof -
  show "frame_cid (init_header cid cmd len @ rest) = cid"
    by (simp add: init_header_def)
  have b: "byte_at (init_header cid cmd len @ rest) 4 = word_of_nat cmd"
    "byte_at (init_header cid cmd len @ rest) 5 = word_of_nat (len div 256)"
    "byte_at (init_header cid cmd len @ rest) 6 = word_of_nat (len mod 256)"
    by (simp_all add: byte_at_def init_header_def cid_bytes_def)
  then show "frame_cmd (init_header cid cmd len @ rest) = cmd"
    using assms(1) by (simp add: frame_cmd_def unat_byte_of_nat)
  have "len div 256 < 256" using assms(2) by linarith
  then show "frame_len (init_header cid cmd len @ rest) = len"
    by (simp add: frame_len_def b unat_byte_of_nat)
qed

lemma cont_fields:
  assumes "s < 256"
  shows "frame_cid (cid_bytes cid @ [word_of_nat s] @ rest) = cid"
    "frame_cmd (cid_bytes cid @ [word_of_nat s] @ rest) = s"
proof -
  show "frame_cid (cid_bytes cid @ [word_of_nat s] @ rest) = cid" by (rule frame_cid_bytes)
  have "byte_at (cid_bytes cid @ [word_of_nat s] @ rest) 4 = word_of_nat s"
    by (simp add: byte_at_def cid_bytes_def)
  with assms show "frame_cmd (cid_bytes cid @ [word_of_nat s] @ rest) = s"
    by (simp add: frame_cmd_def unat_byte_of_nat)
qed

lemma and_128: "s < 256 \<Longrightarrow> (s :: nat) AND 0x80 = 0 \<longleftrightarrow> s < 128"
proof -
  assume s: "s < 256"
  have "(0x80 :: nat) = 2 ^ 7" by simp
  then have "s AND 0x80 = 0 \<longleftrightarrow> \<not> bit s 7" by (simp only: and_exp_eq_0_iff_not_bit)
  also have "\<dots> \<longleftrightarrow> even (s div 128)" by (simp add: bit_iff_odd)
  also have "\<dots> \<longleftrightarrow> s < 128"
    using s by (cases "s < 128") (auto simp: div_nat_eqI le_div_geq)
  finally show ?thesis .
qed

lemma and_127: "s < 128 \<Longrightarrow> (s :: nat) AND 0x7f = s"
proof -
  assume s: "s < 128"
  have "(0x7f :: nat) = mask 7" by (simp add: mask_eq_exp_minus_1)
  then have "s AND 0x7f = s mod 2 ^ 7" by (simp only: take_bit_eq_mask [symmetric] take_bit_eq_mod)
  with s show ?thesis by simp
qed

subsection \<open>Reassembly\<close>

lemma cont_feed:
  assumes "p = cid_bytes cid @ [word_of_nat c] @ q" "length p < 64" "rd_seqno r = c"
    and "rd_total r = length (rd_got r) + length q + length bs" "length q + length bs \<le> 59 * (128 - c)"
    and "rd_total r > length (rd_got r)"
  shows "fst (fold read_machine (map fst (chunks cid p c (Suc c) bs)) (PCont, r))
       = PDone 0 (Some (rd_got r @ q @ bs))"
  using assms
proof (induction bs arbitrary: p c q r)
  case Nil
  have c: "c < 128" using Nil.prems(5,6,4) by (cases "c < 128") auto
  have p: "pad64 p = cid_bytes cid @ [word_of_nat c] @ q @ replicate (64 - length p) 0"
    by (simp add: pad64_def Nil.prems(1))
  note f = cont_fields [of c cid "q @ replicate (64 - length p) 0"]
  have "q \<noteq> []" using Nil.prems(4,6) by auto
  then have "length p \<noteq> 5" using Nil.prems(1) by simp
  moreover have "drop 5 (pad64 p) = q @ replicate (64 - length p) 0" by (simp add: p)
  ultimately show ?case
    using c f Nil.prems(3,4) and_128 [of c] and_127 [OF c]
    by (simp add: p is_error_frame_def CMD_ERROR_def Let_def copy_payload_def after_copy_def msg_done_def OK_def
        del: append_assoc)
next
  case (Cons b bs)
  show ?case
  proof (cases "length p = 63")
    case False
    have "fst (fold read_machine (map fst (chunks cid (p @ [b]) c (Suc c) bs)) (PCont, r))
        = PDone 0 (Some (rd_got r @ (q @ [b]) @ bs))"
      using Cons.prems False by (intro Cons.IH) simp_all
    with False show ?thesis by simp
  next
    case True
    have c: "c < 128" using Cons.prems(5) by (cases "c < 128") auto
    have q: "length q = 58" using True Cons.prems(1) by simp
    have f: "p @ [b] = cid_bytes cid @ [word_of_nat c] @ q @ [b]" by (simp add: Cons.prems(1))
    note ff = cont_fields [of c cid "q @ [b]"]
    let ?r = "copy_payload 5 (p @ [b]) (r\<lparr>rd_seqno := rd_seqno r + 1\<rparr>)"
    have d: "drop 5 (p @ [b]) = q @ [b]" by (simp add: f)
    have r: "rd_got ?r = rd_got r @ q @ [b]" "rd_seqno ?r = Suc c" "rd_total ?r = rd_total r"
      using Cons.prems(3,4) q unfolding copy_payload_def d by simp_all
    have m: "read_machine (p @ [b]) (PCont, r) = after_copy ?r"
      using c ff Cons.prems(3) and_128 [of c] and_127 [OF c]
      by (simp add: f is_error_frame_def CMD_ERROR_def Let_def del: append_assoc)
    show ?thesis
    proof (cases "bs = []")
      case bs: True
      then have "after_copy ?r = (PDone 0 (Some (rd_got r @ q @ [b])), ?r)"
        using r Cons.prems(4) by (simp add: after_copy_def msg_done_def OK_def)
      with m True bs show ?thesis by simp
    next
      case False
      then have a: "after_copy ?r = (PCont, ?r)"
        using r Cons.prems(4) by (simp add: after_copy_def msg_done_def)
      have "fst (fold read_machine (map fst (chunks cid (cid_bytes cid @ [word_of_nat (Suc c)]) (Suc c) (Suc (Suc c)) bs)) (PCont, ?r))
          = PDone 0 (Some (rd_got ?r @ [] @ bs))"
        using False r Cons.prems(4,5) q by (intro Cons.IH) simp_all
      with True m a r show ?thesis by simp
    qed
  qed
qed

lemma init_feed:
  assumes "p = init_header cid cmd n @ q" "length p < 64" "n = length q + length bs" "n \<le> 57 + 59 * 128"
    and "128 \<le> cmd" "cmd < 256" "cmd \<noteq> CMD_ERROR"
  shows "fst (fold read_machine (map fst (chunks cid p cmd 0 bs)) (PInit, new_reader cmd))
       = PDone 0 (Some (q @ bs))"
  using assms(1-3)
proof (induction bs arbitrary: p q)
  case Nil
  have p: "pad64 p = init_header cid cmd n @ q @ replicate (64 - length p) 0"
    by (simp add: pad64_def Nil.prems(1))
  have "n < 65536" using assms(4) by simp
  note f = frame_fields [OF assms(6) this, of cid "q @ replicate (64 - length p) 0"]
  have "length p \<noteq> 5" using Nil.prems(1) by (simp add: init_header_def)
  moreover have "drop 7 (pad64 p) = q @ replicate (64 - length p) 0" by (simp add: p init_header_def)
  ultimately show ?case
    using f Nil.prems(3) assms(5-7) and_128 [OF assms(6)]
    by (simp add: p is_error_frame_def copy_payload_def after_copy_def msg_done_def OK_def new_reader_def
        del: append_assoc)
next
  case (Cons b bs)
  show ?case
  proof (cases "length p = 63")
    case False
    have "fst (fold read_machine (map fst (chunks cid (p @ [b]) cmd 0 bs)) (PInit, new_reader cmd))
        = PDone 0 (Some ((q @ [b]) @ bs))"
      using Cons.prems False by (intro Cons.IH) simp_all
    with False show ?thesis by simp
  next
    case True
    have q: "length q = 56" using True Cons.prems(1) by (simp add: init_header_def)
    have f: "p @ [b] = init_header cid cmd n @ q @ [b]" by (simp add: Cons.prems(1))
    have "n < 65536" using assms(4) by simp
    note ff = frame_fields [OF assms(6) this, of cid "q @ [b]"]
    let ?r = "copy_payload 7 (p @ [b]) ((new_reader cmd)\<lparr>rd_total := n\<rparr>)"
    have d: "drop 7 (p @ [b]) = q @ [b]" by (simp add: f init_header_def)
    have r: "rd_got ?r = q @ [b]" "rd_seqno ?r = 0" "rd_total ?r = n"
      using Cons.prems(3) q unfolding copy_payload_def d by (simp_all add: new_reader_def)
    have m: "read_machine (p @ [b]) (PInit, new_reader cmd) = after_copy ?r"
      using ff assms(5-7) and_128 [OF assms(6)]
      by (simp add: f is_error_frame_def new_reader_def del: append_assoc)
    show ?thesis
    proof (cases "bs = []")
      case bs: True
      then have "after_copy ?r = (PDone 0 (Some (q @ [b])), ?r)"
        using r Cons.prems(3) by (simp add: after_copy_def msg_done_def OK_def)
      with m True bs show ?thesis by simp
    next
      case False
      then have a: "after_copy ?r = (PCont, ?r)"
        using r Cons.prems(3) by (simp add: after_copy_def msg_done_def)
      have "fst (fold read_machine (map fst (chunks cid (cid_bytes cid @ [word_of_nat 0]) 0 (Suc 0) bs)) (PCont, ?r))
          = PDone 0 (Some (rd_got ?r @ [] @ bs))"
        using False r Cons.prems(3) q assms(4) by (intro cont_feed) simp_all
      with True m a r show ?thesis by simp
    qed
  qed
qed

lemma read_result_frames:
  assumes "length data \<le> 7609" "128 \<le> cmd" "cmd < 256" "cmd \<noteq> CMD_ERROR"
  shows "read_result cmd (map fst (hid_frames cid cmd data)) = Some (0, Some data)"
  using init_feed [of "init_header cid cmd (length data)" cid cmd "length data" "[]" data] assms
  by (simp add: read_result_def hid_frames_chunks init_header_def)

text \<open>Every frame has 64 bytes and names the channel.\<close>

lemma chunks_shape:
  "length p < 64 \<Longrightarrow> p = cid_bytes cid @ q \<Longrightarrow>
   \<forall>(f, c') \<in> set (chunks cid p c s data). length f = 64 \<and> frame_cid f = cid"
proof (induction data arbitrary: p q c s)
  case Nil
  then show ?case by (simp add: pad64_def)
next
  case (Cons b bs)
  show ?case
  proof (cases "length p = 63")
    case True
    have "\<forall>(f, c') \<in> set (chunks cid (cid_bytes cid @ [word_of_nat s]) s (s + 1) bs). length f = 64 \<and> frame_cid f = cid"
      by (rule Cons.IH [of _ "[word_of_nat s]"]) simp_all
    with True Cons.prems show ?thesis by simp
  next
    case False
    have "\<forall>(f, c') \<in> set (chunks cid (p @ [b]) c s bs). length f = 64 \<and> frame_cid f = cid"
      using False Cons.prems by (intro Cons.IH [of _ "q @ [b]"]) simp_all
    with False show ?thesis by simp
  qed
qed

lemma hid_frames_shape: "\<forall>(f, c) \<in> set (hid_frames cid cmd data). length f = 64 \<and> frame_cid f = cid"
  unfolding hid_frames_chunks by (rule chunks_shape) (simp_all add: init_header_def)

lemma length_chunks:
  "length p < 64 \<Longrightarrow> length p \<ge> 5 \<Longrightarrow>
   length (chunks cid p c s data) = (length p + length data - 5 + 58) div 59"
proof (induction data arbitrary: p c s)
  case Nil
  then show ?case by (auto simp: Suc_le_eq div_nat_eqI)
next
  case (Cons b bs)
  then show ?case
    by (cases "length p = 63") (simp_all add: div_nat_eqI)
qed

text \<open>
  C1. Frames are reassembled to the message: when a command is cut by \<open>queueCommand\<close> and its frames
  reach an idle client that reads that command on that channel, mixed in any way with frames of
  other channels and with the browser's tasks, then once the client has nothing left to run it has
  answered the read exactly once, with success and exactly the bytes of the message. This holds for
  every message up to 7609 bytes, the most that 128 continuation frames carry.
\<close>

theorem hid_message_roundtrip:
  assumes "length data \<le> 7609" "128 \<le> cmd" "cmd < 256" "cmd \<noteq> CMD_ERROR"
    and "\<not> g_closed g" "g_dev g" "\<not> closingWhenIdle g" "rxframes g = []" "g_tasks g = []"
    and "\<forall>e \<in> set es. quiet_event e"
    and "own_frames (g_cid g) es = map fst (hid_frames (g_cid g) cmd data)"
    and "g' = fold g_step es (fst (read cmd g))" "g_tasks g' = []"
  shows "g_results g' = g_results g @ [(length (readers g), 0, Some data)]"
  using read_outcome [OF assms(5-10,12,13)] assms(11) read_result_frames [OF assms(1-4), of "g_cid g"] by simp

lemma hid_message_roundtrip_witness:
  "g_results (fold g_step [GDeliver (fst (hd (hid_frames 5 CMD_APDU [1, 2, 3]))), GTask]
     (fst (read CMD_APDU ((Gnubby 1 None)\<lparr>g_dev := True, g_cid := 5\<rparr>)))) = [(0, 0, Some [1, 2, 3])]"
proof -
  let ?g = "(Gnubby 1 None)\<lparr>g_dev := True, g_cid := 5\<rparr>"
  define f where "f = ([0, 0, 0, 5, 0x83, 0, 3, 1, 2, 3] @ replicate 54 0 :: bytes)"
  have h: "hid_frames 5 CMD_APDU [1, 2, 3] = [(f, CMD_APDU)]" unfolding f_def by code_simp
  have c: "frame_cid f = 5" "\<not> is_error_frame f" "frame_cmd f AND 0x80 \<noteq> 0" "frame_cmd f = CMD_APDU"
    "frame_len f = 3" unfolding f_def by code_simp+
  have d: "drop 7 f = [1, 2, 3] @ replicate 54 0" by (simp add: f_def)
  have "g_tasks (fold g_step [GDeliver f, GTask] (fst (read CMD_APDU ?g))) = []"
    using c unfolding Gnubby_def
    by (simp add: read_def notifyFrame_def receivedFrame_def checkCID_def run_frame_cb_def init_frame_def
      rd_def readFrame_def finish_or_more_def msg_done_def copy_payload_def d schedule_cb_def upd_rd_def Let_def)
  moreover have "(128 :: nat) \<le> CMD_APDU" "CMD_APDU < 256" "CMD_APDU \<noteq> CMD_ERROR" by code_simp+
  ultimately show ?thesis
    using hid_message_roundtrip [of "[1, 2, 3]" CMD_APDU ?g "[GDeliver f, GTask]"] c(1)
    by (simp add: Gnubby_def quiet_event_def own_frames_def h)
qed

text \<open>
  The shape of what \<open>queueCommand\<close> queues: \<open>\<lceil>(n + 2) / 59\<rceil>\<close> frames for \<open>n\<close> bytes of data, each
  of 64 bytes and on the channel of the command, so that only that channel's clients take them.
\<close>

theorem hid_frames_layout:
  "length (hid_frames cid cmd data) = (length data + 60) div 59
   \<and> list_all (\<lambda>(f, c). length f = 64 \<and> frame_cid f = cid) (hid_frames cid cmd data)"
  using hid_frames_shape [of cid cmd data] length_chunks [of "init_header cid cmd (length data)" cid cmd 0 data]
  by (simp add: list_all_iff hid_frames_chunks init_header_def)

end
