(* ===== verification/Device.thy ===== *)
theory Device
  imports HidFrames
begin

unbundle bit_operations_syntax

text \<open>
  What hidgnubbydevice.js and usbgnubbydevice.js have in common, line for line: the list of clients
  and the frames published to them, the lock of a channel, and the destruction of a device. A device
  is a record that the two drivers extend. The clients are objects it shares with the rest of the
  program: \<open>d_store\<close> holds every \<open>Gnubby\<close> by its number, and \<open>clients\<close> the numbers of the registered
  ones. \<open>d_out\<close> lists the calls of the browser's device API and of \<open>Gnubbies\<close>, and \<open>d_tasks\<close> the
  functions handed to \<open>window.setTimeout(_, 0)\<close>.
\<close>

datatype dev_effect = Send bytes | Receive | Disconnect | RemoveOpenDevice nat

datatype dev_task = TDestroy | TReadLoop | TWritePump | TReadOneReply | TWriteOneRequest

record device =
  d_alive :: bool
  d_id :: nat
  txqueue :: "bytes list"
  clients :: "nat list"
  d_store :: "nat \<Rightarrow> gnubby"
  lockCID :: int32
  lockMillis :: nat
  lockTID :: bool
  closing :: bool
  updating :: bool
  d_out :: "dev_effect list"
  d_tasks :: "dev_task list"

definition emit :: "dev_effect \<Rightarrow> 'a device_scheme \<Rightarrow> 'a device_scheme" where
  "emit e d = d\<lparr>d_out := d_out d @ [e]\<rparr>"

definition later :: "dev_task \<Rightarrow> 'a device_scheme \<Rightarrow> 'a device_scheme" where
  "later t d = d\<lparr>d_tasks := d_tasks d @ [t]\<rparr>"

subsection \<open>Clients\<close>

text \<open>The loop over the clients: the store after the frame, and those that remain.\<close>

fun publish_loop :: "bytes \<Rightarrow> nat list \<Rightarrow> (nat \<Rightarrow> gnubby) \<Rightarrow> (nat \<Rightarrow> gnubby) \<times> nat list" where
  "publish_loop f [] st = (st, [])"
| "publish_loop f (c # cs) st =
     (let (g, interested) = receivedFrame f (st c);
          (st', remaining) = publish_loop f cs (st(c := g))
      in (st', if interested then c # remaining else remaining))"

definition publishFrame :: "bytes \<Rightarrow> 'a device_scheme \<Rightarrow> 'a device_scheme" where
  "publishFrame f d =
     (let (st, remaining) = publish_loop f (clients d) (d_store d) in
      d\<lparr>d_store := st, clients := remaining\<rparr>)"

definition add_client :: "nat \<Rightarrow> 'a device_scheme \<Rightarrow> 'a device_scheme" where
  "add_client who d = (if who \<in> set (clients d) then d else d\<lparr>clients := clients d @ [who]\<rparr>)"

definition deregisterClient :: "nat \<Rightarrow> 'a device_scheme \<Rightarrow> 'a device_scheme \<times> int" where
  "deregisterClient who d =
     (if clients d = [] then (d, -1)
      else (let cs = filter (\<lambda>c. c \<noteq> who) (clients d) in (d\<lparr>clients := cs\<rparr>, int (length cs))))"

definition hasClient :: "nat \<Rightarrow> 'a device_scheme \<Rightarrow> bool" where
  "hasClient who d \<longleftrightarrow> who \<in> set (clients d)"

definition close_all :: "nat list \<Rightarrow> (nat \<Rightarrow> gnubby) \<Rightarrow> nat \<Rightarrow> gnubby" where
  "close_all cs st = fold (\<lambda>c st. st(c := (st c)\<lparr>g_closed := True\<rparr>)) cs st"

definition destroy :: "'a device_scheme \<Rightarrow> 'a device_scheme" where
  "destroy d =
     (if \<not> d_alive d then d
      else (let d1 = (emit (RemoveOpenDevice (d_id d)) d)\<lparr>closing := True\<rparr>;
                d2 = publishFrame (error_frame NOTIFICATION_CID GONE) d1;
                d3 = d2\<lparr>d_store := close_all (clients d2) (d_store d2), clients := []\<rparr>;
                d4 = (if lockTID d3 then d3\<lparr>lockTID := False\<rparr> else d3)
            in emit Disconnect (d4\<lparr>d_alive := False\<rparr>)))"

subsection \<open>The channel lock\<close>

definition checkLock :: "int32 \<Rightarrow> nat \<Rightarrow> 'a device_scheme \<Rightarrow> 'a device_scheme \<times> bool" where
  "checkLock cid cmd d =
     (if lockCID d \<noteq> 0 \<and> lockCID d \<noteq> cid \<and> cmd \<noteq> CMD_SYNC \<and> cmd \<noteq> CMD_INIT
      then (publishFrame (error_frame cid BUSY) d, False)
      else (d, True))"

definition updateLock :: "int32 \<Rightarrow> nat \<Rightarrow> byte \<Rightarrow> 'a device_scheme \<Rightarrow> 'a device_scheme" where
  "updateLock cid cmd arg d =
     (if lockCID d = 0 \<or> lockCID d = cid
      then (let d1 = d\<lparr>lockTID := False\<rparr>;
                d2 = (if cmd = CMD_LOCK
                      then (if arg \<noteq> 0
                            then d1\<lparr>lockCID := cid, lockMillis := unat arg * 1000 + 100\<rparr>
                            else d1\<lparr>lockCID := 0\<rparr>)
                      else d1)
            in if lockCID d2 \<noteq> 0 then d2\<lparr>lockTID := True\<rparr> else d2)
      else d)"

text \<open>The lock's timer fires, when it is armed.\<close>

definition lock_expired :: "'a device_scheme \<Rightarrow> 'a device_scheme" where
  "lock_expired d = (if lockTID d then d\<lparr>lockTID := False, lockCID := 0\<rparr> else d)"

subsection \<open>Publishing\<close>

lemma publish_loop_eq:
  "distinct cs \<Longrightarrow> publish_loop f cs st =
     ((\<lambda>c. if c \<in> set cs then fst (receivedFrame f (st c)) else st c), filter (\<lambda>c. \<not> g_closed (st c)) cs)"
proof (induction cs arbitrary: st)
  case Nil
  then show ?case by simp
next
  case (Cons c cs)
  obtain g i where r: "receivedFrame f (st c) = (g, i)" by fastforce
  have i: "i \<longleftrightarrow> \<not> g_closed (st c)" using r by (auto simp: receivedFrame_def Let_def split: if_splits)
  have n: "c \<notin> set cs" using Cons.prems by simp
  have f: "filter (\<lambda>x. \<not> g_closed ((st(c := g)) x)) cs = filter (\<lambda>x. \<not> g_closed (st x)) cs"
    using n by (intro filter_cong) auto
  show ?case
    using Cons r i n f by (auto simp: fun_eq_iff)
qed

lemma publishFrame_eq:
  "distinct (clients d) \<Longrightarrow> publishFrame f d = d\<lparr>
     d_store := (\<lambda>c. if c \<in> set (clients d) then fst (receivedFrame f (d_store d c)) else d_store d c),
     clients := filter (\<lambda>c. \<not> g_closed (d_store d c)) (clients d)\<rparr>"
  by (simp add: publishFrame_def publish_loop_eq)

lemma close_all_eq: "close_all cs st = (\<lambda>c. if c \<in> set cs then (st c)\<lparr>g_closed := True\<rparr> else st c)"
  unfolding close_all_def by (induction cs arbitrary: st) (auto simp: fun_eq_iff)

lemma receivedFrame_closed [simp]: "g_closed (fst (receivedFrame f g)) = g_closed g"
  by (auto simp: receivedFrame_def Let_def split: option.split)

lemma publish_simps [simp]:
  "d_alive (publishFrame f d) = d_alive d" "txqueue (publishFrame f d) = txqueue d"
  "lockCID (publishFrame f d) = lockCID d" "lockTID (publishFrame f d) = lockTID d"
  "d_out (publishFrame f d) = d_out d" "d_tasks (publishFrame f d) = d_tasks d" "d_id (publishFrame f d) = d_id d"
  "closing (publishFrame f d) = closing d" "updating (publishFrame f d) = updating d"
  by (simp_all add: publishFrame_def split_def Let_def)

lemma frame_cid_error [simp]: "frame_cid (error_frame cid code) = cid"
  by (simp add: error_frame_def)

text \<open>
  Destroying a device leaves no client behind: every registered client that was open has received
  the \<open>GONE\<close> error frame on the notification channel as its last frame, all registered clients are
  closed and none is registered any more, unregistered ones are untouched, the lock timer is off, the
  device is dead, and destroying it again changes nothing.
\<close>

theorem destroy_notifies_all:
  assumes "d_alive d" "distinct (clients d)"
  shows "clients (destroy d) = [] \<and> \<not> d_alive (destroy d) \<and> \<not> lockTID (destroy d)
    \<and> (\<forall>c. c \<notin> set (clients d) \<longrightarrow> d_store (destroy d) c = d_store d c)
    \<and> (\<forall>c \<in> set (clients d). g_closed (d_store (destroy d) c)
         \<and> (\<not> g_closed (d_store d c) \<longrightarrow> rxframes (d_store (destroy d) c)
              = rxframes (d_store d c) @ [error_frame NOTIFICATION_CID GONE]))
    \<and> destroy (destroy d) = destroy d"
proof -
  have r: "\<not> g_closed g \<Longrightarrow> rxframes (fst (receivedFrame (error_frame NOTIFICATION_CID GONE) g))
      = rxframes g @ [error_frame NOTIFICATION_CID GONE]" for g
    by (auto simp: receivedFrame_def checkCID_def Let_def split: option.split)
  show ?thesis
    using assms r
    by (auto simp: destroy_def emit_def Let_def publishFrame_eq close_all_eq)
qed
subsection \<open>Locking\<close>

text \<open>The expiry timer runs exactly while a channel holds the lock.\<close>

definition lock_ok :: "'a device_scheme \<Rightarrow> bool" where
  "lock_ok d \<longleftrightarrow> (lockTID d \<longleftrightarrow> lockCID d \<noteq> 0)"

lemma lock_ok_updateLock: "lock_ok d \<Longrightarrow> lock_ok (updateLock cid cmd arg d)"
  by (auto simp: lock_ok_def updateLock_def Let_def)

lemma lock_ok_publish: "lock_ok (publishFrame f d) = lock_ok d"
  by (simp add: lock_ok_def)



text \<open>
  The lock is taken, renewed and released as the protocol asks: a \<open>LOCK\<close> command with a non-zero
  argument of the holder, or of anyone while the lock is free, makes its channel the holder for that
  many seconds and a tenth; with argument zero it frees the lock; any other command of the holder
  restarts the running time; and a channel that does not hold a taken lock changes nothing. In every
  case the expiry timer runs exactly when the lock is taken, and its firing frees the lock.
\<close>

theorem lock_protocol:
  assumes "lock_ok d"
  shows "lock_ok (updateLock cid cmd arg d) \<and> lock_ok (lock_expired d) \<and> lockCID (lock_expired d) = 0
    \<and> (if lockCID d \<noteq> 0 \<and> lockCID d \<noteq> cid then updateLock cid cmd arg d = d
       else if cmd = CMD_LOCK \<and> arg \<noteq> 0
       then lockCID (updateLock cid cmd arg d) = cid
         \<and> lockMillis (updateLock cid cmd arg d) = unat arg * 1000 + 100
       else if cmd = CMD_LOCK then lockCID (updateLock cid cmd arg d) = 0
       else lockCID (updateLock cid cmd arg d) = lockCID d
         \<and> lockMillis (updateLock cid cmd arg d) = lockMillis d)"
  using assms lock_ok_updateLock [OF assms]
  by (auto simp: lock_ok_def updateLock_def lock_expired_def Let_def)

lemma lock_protocol_witness:
  "lockCID (updateLock 7 CMD_LOCK 2 \<lparr>d_alive = True, d_id = 0, txqueue = [], clients = [], d_store = (\<lambda>_. Gnubby 1 None),
      lockCID = 0, lockMillis = 0, lockTID = False, closing = False, updating = False, d_out = [], d_tasks = []\<rparr>) = 7"
proof -
  let ?d = "\<lparr>d_alive = True, d_id = 0, txqueue = [], clients = [], d_store = (\<lambda>_. Gnubby 1 None),
      lockCID = 0, lockMillis = 0, lockTID = False, closing = False, updating = False, d_out = [], d_tasks = []\<rparr>"
  have "lock_ok ?d" by (simp add: lock_ok_def)
  from lock_protocol [OF this, of 7 CMD_LOCK 2] show ?thesis by simp
qed

lemma destroy_notifies_all_witness:
  "clients (destroy \<lparr>d_alive = True, d_id = 0, txqueue = [], clients = [1, 2], d_store = (\<lambda>_. Gnubby 1 None),
      lockCID = 0, lockMillis = 0, lockTID = False, closing = False, updating = False, d_out = [], d_tasks = []\<rparr>) = []"
  using destroy_notifies_all [of "\<lparr>d_alive = True, d_id = 0, txqueue = [], clients = [1, 2], d_store = (\<lambda>_. Gnubby 1 None),
      lockCID = 0, lockMillis = 0, lockTID = False, closing = False, updating = False, d_out = [], d_tasks = []\<rparr>"]
  by simp

end
