(* ===== verification/HidDevice.thy ===== *)
theory HidDevice
  imports Device
begin

unbundle bit_operations_syntax

text \<open>
  hidgnubbydevice.js: the driver of a HID device. Frames wait in \<open>txqueue\<close>, whose head is the frame
  handed to \<open>chrome.hid.send\<close>; \<open>hid_sending\<close> says that the browser has not yet reported its
  transfer. Reading is a loop of \<open>chrome.hid.receive\<close> calls. The events are the calls of the clients,
  the browser's reports, the lock timer and the zero timeouts.
\<close>

record hiddev = device +
  hid_sending :: bool

definition HidGnubbyDevice :: "nat \<Rightarrow> (nat \<Rightarrow> gnubby) \<Rightarrow> hiddev" where
  "HidGnubbyDevice devid store =
     \<lparr>d_alive = True, d_id = devid, txqueue = [], clients = [], d_store = store, lockCID = 0, lockMillis = 0,
      lockTID = False, closing = False, updating = False, d_out = [], d_tasks = [], hid_sending = False\<rparr>"

text \<open>\<open>chrome.hid.send\<close> is given a copy of the frame, padded to 64 bytes.\<close>

definition writePump :: "hiddev \<Rightarrow> hiddev" where
  "writePump d =
     (if \<not> d_alive d then d
      else if txqueue d = [] then d
      else (emit (Send (pad64 (hd (txqueue d)))) d)\<lparr>hid_sending := True\<rparr>)"

text \<open>The browser's report of a transfer, with an error or without.\<close>

definition transferComplete :: "bool \<Rightarrow> hiddev \<Rightarrow> hiddev" where
  "transferComplete lastError d0 =
     (let d = d0\<lparr>hid_sending := False\<rparr> in
      if lastError then later TDestroy d
      else (let d1 = d\<lparr>txqueue := tl (txqueue d)\<rparr> in
            if txqueue d1 \<noteq> [] then later TWritePump d1 else d1))"

definition queueFrame :: "bytes \<Rightarrow> int32 \<Rightarrow> nat \<Rightarrow> byte \<Rightarrow> hiddev \<Rightarrow> hiddev" where
  "queueFrame frame cid cmd arg d =
     (let d1 = updateLock cid cmd arg d;
          wasEmpty = (txqueue d1 = []);
          d2 = d1\<lparr>txqueue := txqueue d1 @ [frame]\<rparr>
      in if wasEmpty then writePump d2 else d2)"

definition queueCommand :: "int32 \<Rightarrow> nat \<Rightarrow> bytes \<Rightarrow> hiddev \<Rightarrow> hiddev" where
  "queueCommand cid cmd data d =
     (if \<not> d_alive d then d
      else (case checkLock cid cmd d of
          (d1, False) \<Rightarrow> d1
        | (d1, True) \<Rightarrow>
          (let lockArg = (if length data > 0 then data ! 0 else 0) in
           fold (\<lambda>(f, c). queueFrame f cid c lockArg) (hid_frames cid cmd data) d1)))"

definition readLoop :: "hiddev \<Rightarrow> hiddev" where
  "readLoop d =
     (if \<not> d_alive d then d
      else if closing d then destroy d
      else if clients d = [] then destroy (d\<lparr>closing := True\<rparr>)
      else if updating d then d
      else emit Receive d)"

text \<open>
  The report of a \<open>chrome.hid.receive\<close>: with an error, with data, or with neither. In the last case
  the code reads \<open>chrome.runtime.lastError.message\<close> of no error, and the exception that raises ends
  the callback before it schedules anything.
\<close>

datatype receive_report = ReceiveError | ReceiveData bytes | ReceiveNothing

definition received :: "receive_report \<Rightarrow> hiddev \<Rightarrow> hiddev" where
  "received r d =
     (case r of
        ReceiveError \<Rightarrow> later TDestroy d
      | ReceiveNothing \<Rightarrow> d
      | ReceiveData data \<Rightarrow> later TReadLoop (publishFrame data d))"

definition registerClient :: "nat \<Rightarrow> hiddev \<Rightarrow> hiddev" where
  "registerClient who d =
     (if who \<in> set (clients d) then d
      else (let d1 = add_client who d in
            if length (clients d1) = 1 then readLoop d1 else d1))"

text \<open>The zero timeouts.\<close>

definition hid_task :: "dev_task \<Rightarrow> hiddev \<Rightarrow> hiddev" where
  "hid_task t d =
     (case t of TDestroy \<Rightarrow> destroy d | TReadLoop \<Rightarrow> readLoop d | TWritePump \<Rightarrow> writePump d | _ \<Rightarrow> d)"

datatype hid_event =
    HQueue int32 nat bytes | HTransfer bool | HReceive receive_report | HTask
  | HLockTimer | HRegister nat | HDeregister nat | HDestroy

fun hid_step :: "hid_event \<Rightarrow> hiddev \<Rightarrow> hiddev" where
  "hid_step (HQueue cid cmd data) d = queueCommand cid cmd data d"
| "hid_step (HTransfer err) d = (if hid_sending d then transferComplete err d else d)"
| "hid_step (HReceive r) d = received r d"
| "hid_step HTask d =
     (case d_tasks d of [] \<Rightarrow> d | t # ts \<Rightarrow> hid_task t (d\<lparr>d_tasks := ts\<rparr>))"
| "hid_step HLockTimer d = lock_expired d"
| "hid_step (HRegister who) d = registerClient who d"
| "hid_step (HDeregister who) d = fst (deregisterClient who d)"
| "hid_step HDestroy d = destroy d"

subsection \<open>Enumeration\<close>

record hid_info =
  hid_deviceId :: nat
  f1d0Only :: bool

text \<open>
  \<open>enumerated\<close>: a device already found keeps its entry, whose flag is and-ed with that of the pass.
\<close>

fun merge_dev :: "bool \<Rightarrow> hid_info \<Rightarrow> hid_info list \<Rightarrow> hid_info list" where
  "merge_dev f1d0 dev [] = [dev\<lparr>f1d0Only := f1d0\<rparr>]"
| "merge_dev f1d0 dev (a # as) =
     (if hid_deviceId a = hid_deviceId dev then a\<lparr>f1d0Only := f1d0Only a \<and> f1d0\<rparr> # as
      else a # merge_dev f1d0 dev as)"

definition enumerated :: "bool \<Rightarrow> hid_info list \<Rightarrow> hid_info list \<Rightarrow> hid_info list" where
  "enumerated f1d0 devs allDevs = fold (merge_dev f1d0) devs allDevs"

datatype enumeration_type = ANY | VID_PID | FIDO_U2F

text \<open>
  What \<open>enumerate\<close> returns when the two queries of the browser answer, in either order
  (\<open>usage_first\<close>); a query that the type excludes is replaced by the empty list.
\<close>

definition hid_enumerate ::
  "enumeration_type \<Rightarrow> bool \<Rightarrow> hid_info list \<Rightarrow> hid_info list \<Rightarrow> hid_info list" where
  "hid_enumerate opt_type usage_first usage_devs vidpid_devs =
     (let p1 = enumerated True (if opt_type = VID_PID then [] else usage_devs);
          p2 = enumerated False (if opt_type = FIDO_U2F then [] else vidpid_devs)
      in if usage_first then p2 (p1 []) else p1 (p2 []))"

text \<open>\<open>open\<close>: \<open>None\<close> is a connection that failed.\<close>

definition hid_open :: "nat \<Rightarrow> (nat \<Rightarrow> gnubby) \<Rightarrow> bool \<Rightarrow> int \<times> hiddev option" where
  "hid_open dev store handle_ok =
     (if \<not> handle_ok then (- NODEVICE, None) else (- OK, Some (HidGnubbyDevice dev store)))"

subsection \<open>Frames are sent in order\<close>

definition sends :: "'a device_scheme \<Rightarrow> bytes list" where
  "sends d = concat (map (\<lambda>e. case e of Send f \<Rightarrow> [f] | _ \<Rightarrow> []) (d_out d))"

text \<open>The frames an event adds to the queue of a device, and those of a run.\<close>

definition pushed :: "hid_event \<Rightarrow> hiddev \<Rightarrow> bytes list" where
  "pushed e d = (case e of
     HQueue cid cmd data \<Rightarrow>
       if d_alive d \<and> snd (checkLock cid cmd d) then map fst (hid_frames cid cmd data) else []
   | _ \<Rightarrow> [])"

fun pushed_run :: "hid_event list \<Rightarrow> hiddev \<Rightarrow> bytes list" where
  "pushed_run [] d = []"
| "pushed_run (e # es) d = pushed e d @ pushed_run es (hid_step e d)"

definition pumps :: "hiddev \<Rightarrow> nat" where
  "pumps d = length (filter (\<lambda>t. t = TWritePump) (d_tasks d))"

text \<open>
  \<open>all\<close> was queued: the acknowledged frames, then \<open>txqueue\<close>. A live device has nothing to send, or
  its first frame was handed to the browser, or exactly one \<open>writePump\<close> is scheduled for it.
\<close>

definition pump_inv :: "bytes list \<Rightarrow> hiddev \<Rightarrow> bool" where
  "pump_inv all d \<longleftrightarrow>
     (\<exists>acked. all = acked @ txqueue d \<and>
        (sends d = acked \<or> txqueue d \<noteq> [] \<and> sends d = acked @ [hd (txqueue d)])
        \<and> (hid_sending d \<longrightarrow> txqueue d \<noteq> [] \<and> sends d = acked @ [hd (txqueue d)])
        \<and> (d_alive d \<longrightarrow>
             (if txqueue d = [] then pumps d = 0 \<and> sends d = acked
              else pumps d = 0 \<and> sends d = acked @ [hd (txqueue d)]
                 \<or> pumps d = 1 \<and> sends d = acked \<and> \<not> hid_sending d)))
     \<and> (\<forall>f \<in> set all. length f = 64)"

lemma sends_update [simp]:
  "sends (d\<lparr>d_alive := a\<rparr>) = sends d" "sends (d\<lparr>txqueue := q\<rparr>) = sends d" "sends (d\<lparr>clients := c\<rparr>) = sends d"
  "sends (d\<lparr>d_store := s\<rparr>) = sends d" "sends (d\<lparr>lockTID := t\<rparr>) = sends d" "sends (d\<lparr>lockCID := i\<rparr>) = sends d"
  "sends (d\<lparr>lockMillis := m\<rparr>) = sends d" "sends (d\<lparr>closing := a\<rparr>) = sends d" "sends (d\<lparr>d_tasks := ts\<rparr>) = sends d"
  by (simp_all add: sends_def)

lemma sends_sending [simp]: "sends (d\<lparr>hid_sending := b\<rparr>) = sends d"
  by (simp add: sends_def)

lemma sends_emit [simp]:
  "sends (emit e d) = sends d @ (case e of Send f \<Rightarrow> [f] | _ \<Rightarrow> [])" "txqueue (emit e d) = txqueue d"
  "d_alive (emit e d) = d_alive d" "d_tasks (emit e d) = d_tasks d" "lockTID (emit e d) = lockTID d"
  "clients (emit e d) = clients d" "d_store (emit e d) = d_store d"
  by (simp_all add: emit_def sends_def)

lemma sending_emit [simp]: "hid_sending (emit e d) = hid_sending d"
  by (simp add: emit_def)

lemma sending_later [simp]: "hid_sending (later t d) = hid_sending d"
  by (simp add: later_def)

lemma later_simps [simp]:
  "sends (later t d) = sends d" "txqueue (later t d) = txqueue d" "d_alive (later t d) = d_alive d"
  "d_tasks (later t d) = d_tasks d @ [t]"
  by (simp_all add: later_def sends_def)

lemma pump_inv_new: "pump_inv [] (HidGnubbyDevice i st)"
  by (simp add: pump_inv_def HidGnubbyDevice_def sends_def pumps_def)

text \<open>Operations that touch neither the queue nor the sender keep the invariant.\<close>

lemma pump_inv_frame:
  assumes "pump_inv all d" "txqueue d' = txqueue d" "sends d' = sends d" "hid_sending d' = hid_sending d"
    and "d_alive d' \<longrightarrow> d_alive d \<and> pumps d' = pumps d"
  shows "pump_inv all d'"
  using assms unfolding pump_inv_def by auto

lemma sends_publish [simp]: "sends (publishFrame f d) = sends d"
  by (simp add: sends_def)

lemma sending_publish [simp]: "hid_sending (publishFrame f d) = hid_sending d"
  by (simp add: publishFrame_def split_def Let_def)

lemma destroy_simps [simp]:
  "txqueue (destroy d) = txqueue d" "sends (destroy d) = sends d" "\<not> d_alive (destroy d)"
  by (simp_all add: destroy_def Let_def)

lemma sending_destroy [simp]: "hid_sending (destroy d) = hid_sending d"
  by (simp add: destroy_def Let_def emit_def)

lemma updateLock_simps [simp]:
  "txqueue (updateLock cid cmd arg d) = txqueue d" "sends (updateLock cid cmd arg d) = sends d"
  "d_alive (updateLock cid cmd arg d) = d_alive d" "d_tasks (updateLock cid cmd arg d) = d_tasks d"
  by (simp_all add: updateLock_def Let_def)

lemma sending_updateLock [simp]: "hid_sending (updateLock cid cmd arg d) = hid_sending d"
  by (simp add: updateLock_def Let_def)

lemma pad64_full: "length f = 64 \<Longrightarrow> pad64 f = f"
  by (simp add: pad64_def)

lemma pump_inv_queueFrame:
  assumes "pump_inv all d" "d_alive d" "length f = 64"
  shows "pump_inv (all @ [f]) (queueFrame f cid c arg d) \<and> d_alive (queueFrame f cid c arg d)"
proof -
  have p: "pumps (updateLock cid c arg d) = pumps d" by (simp add: pumps_def)
  show ?thesis
  proof (cases "txqueue d = []")
    case True
    with assms show ?thesis
      by (auto simp: pump_inv_def queueFrame_def writePump_def Let_def pad64_full pumps_def)
  next
    case False
    with assms p show ?thesis
      by (auto simp: pump_inv_def queueFrame_def Let_def pumps_def)
  qed
qed

lemma pump_inv_queueFrames:
  "\<lbrakk>pump_inv all d; d_alive d; \<forall>(f, c) \<in> set fs. length f = 64\<rbrakk> \<Longrightarrow>
   pump_inv (all @ map fst fs) (fold (\<lambda>(f, c). queueFrame f cid c arg) fs d)"
proof (induction fs arbitrary: all d)
  case Nil
  then show ?case by simp
next
  case (Cons fc fs)
  obtain f c where fc: "fc = (f, c)" by fastforce
  from Cons.prems fc pump_inv_queueFrame [of all d f cid c arg]
  have "pump_inv (all @ [f]) (queueFrame f cid c arg d)" "d_alive (queueFrame f cid c arg d)" by auto
  from Cons.IH [OF this] Cons.prems(3) fc show ?case by simp
qed

lemma pump_inv_dead:
  "pump_inv all d \<Longrightarrow> \<not> d_alive d' \<Longrightarrow> txqueue d' = txqueue d \<Longrightarrow> sends d' = sends d
     \<Longrightarrow> hid_sending d' = hid_sending d \<Longrightarrow> pump_inv all d'"
  unfolding pump_inv_def by auto

lemma pump_inv_queueCommand:
  assumes "pump_inv all d"
  shows "pump_inv (all @ pushed (HQueue cid cmd data) d) (queueCommand cid cmd data d)"
proof (cases "d_alive d")
  case False
  with assms show ?thesis by (simp add: queueCommand_def pushed_def)
next
  case True
  obtain d1 ok where c: "checkLock cid cmd d = (d1, ok)" by fastforce
  have s: "txqueue d1 = txqueue d" "sends d1 = sends d" "hid_sending d1 = hid_sending d"
    "d_alive d1 = d_alive d" "pumps d1 = pumps d"
    using c by (auto simp: checkLock_def pumps_def split: if_splits)
  have d1: "pump_inv all d1" using pump_inv_frame [OF assms s(1-3)] s(4,5) by simp
  show ?thesis
  proof (cases ok)
    case False
    with c d1 True show ?thesis by (simp add: queueCommand_def pushed_def)
  next
    case ok: True
    have "\<forall>(f, c) \<in> set (hid_frames cid cmd data). length f = 64"
      using hid_frames_shape [of cid cmd data] by auto
    from pump_inv_queueFrames [OF d1 _ this, of cid "if length data > 0 then data ! 0 else 0"]
    show ?thesis using c ok True s(4) by (simp add: queueCommand_def pushed_def Let_def)
  qed
qed

lemma pump_inv_writePump:
  assumes "pump_inv all d" "d_alive d" "txqueue d \<noteq> []" "pumps d = 1" "d_tasks d = TWritePump # ts"
  shows "pump_inv all (writePump (d\<lparr>d_tasks := ts\<rparr>))"
proof -
  have l: "length (hd (txqueue d)) = 64"
    using assms(1,3) by (cases "txqueue d") (auto simp: pump_inv_def)
  have p: "length (filter (\<lambda>t. t = TWritePump) ts) = 0"
    using assms(4,5) by (simp add: pumps_def)
  show ?thesis
    using assms l p by (auto simp: pump_inv_def writePump_def pumps_def pad64_full)
qed

lemma pump_inv_tasks_drop:
  assumes "pump_inv all d" "d_tasks d = t # ts" "t \<noteq> TWritePump"
  shows "pump_inv all (d\<lparr>d_tasks := ts\<rparr>)"
  by (rule pump_inv_frame [OF assms(1)]) (use assms(2,3) in \<open>simp_all add: pumps_def\<close>)

lemma pump_inv_readLoop: "pump_inv all d \<Longrightarrow> pump_inv all (readLoop d)"
proof -
  assume a: "pump_inv all d"
  have "readLoop d = d \<or> readLoop d = emit Receive d \<or> (\<exists>d'. readLoop d = destroy d' \<and> txqueue d' = txqueue d
      \<and> sends d' = sends d \<and> hid_sending d' = hid_sending d)"
    by (auto simp: readLoop_def)
  then show ?thesis
    using a pump_inv_frame [OF a, of "emit Receive d"] pump_inv_dead [OF a]
    by (auto simp: pumps_def)
qed

lemma pump_inv_step:
  assumes "pump_inv all d"
  shows "pump_inv (all @ pushed e d) (hid_step e d)"
proof (cases e)
  case (HQueue cid cmd data)
  with pump_inv_queueCommand [OF assms] show ?thesis by simp
next
  case (HTransfer err)
  then show ?thesis
    using assms
    by (cases "txqueue d") (auto simp: pushed_def transferComplete_def Let_def pump_inv_def pumps_def)
next
  case (HReceive r)
  have "pump_inv all (publishFrame f d)" for f
    by (rule pump_inv_frame [OF assms]) (simp_all add: pumps_def)
  then have "pump_inv all (later TReadLoop (publishFrame f d))" for f
    using pump_inv_frame [of all "publishFrame f d" "later TReadLoop (publishFrame f d)"]
    by (simp add: pumps_def later_def)
  moreover have "pump_inv all (later TDestroy d)"
    using pump_inv_frame [OF assms, of "later TDestroy d"] by (simp add: pumps_def later_def)
  ultimately show ?thesis
    using HReceive assms by (simp add: pushed_def received_def split: receive_report.split)
next
  case HTask
  show ?thesis
  proof (cases "d_tasks d")
    case (Cons t ts)
    show ?thesis
    proof (cases "t = TWritePump")
      case True
      then have p: "pumps d > 0" using Cons by (simp add: pumps_def)
      show ?thesis
      proof (cases "d_alive d")
        case alive: True
        then have "txqueue d \<noteq> []" "pumps d = 1"
          using assms p by (auto simp: pump_inv_def split: if_splits)
        from pump_inv_writePump [OF assms alive this] Cons True show ?thesis
          by (simp add: HTask pushed_def hid_task_def)
      next
        case False
        with pump_inv_dead [OF assms, of "d\<lparr>d_tasks := ts\<rparr>"] Cons True show ?thesis
          by (simp add: HTask pushed_def hid_task_def writePump_def)
      qed
    next
      case False
      note i = pump_inv_tasks_drop [OF assms Cons False]
      from pump_inv_readLoop [OF i] pump_inv_dead [OF i, of "destroy (d\<lparr>d_tasks := ts\<rparr>)"] i False Cons
      show ?thesis
        by (simp add: HTask pushed_def hid_task_def split: dev_task.split)
    qed
  qed (use HTask assms in \<open>simp add: pushed_def\<close>)
next
  case HLockTimer
  with pump_inv_frame [OF assms, of "lock_expired d"] show ?thesis
    by (simp add: pushed_def lock_expired_def pumps_def)
next
  case (HRegister who)
  have "pump_inv all (add_client who d)"
    by (rule pump_inv_frame [OF assms]) (simp_all add: add_client_def pumps_def)
  with pump_inv_readLoop assms HRegister show ?thesis
    by (simp add: pushed_def registerClient_def Let_def)
next
  case (HDeregister who)
  with pump_inv_frame [OF assms, of "fst (deregisterClient who d)"] show ?thesis
    by (simp add: pushed_def deregisterClient_def pumps_def Let_def)
next
  case HDestroy
  with pump_inv_dead [OF assms, of "destroy d"] show ?thesis by (simp add: pushed_def)
qed

lemma pump_inv_run:
  "pump_inv all d \<Longrightarrow> pump_inv (all @ pushed_run es d) (fold hid_step es d)"
proof (induction es arbitrary: all d)
  case (Cons e es)
  from Cons.IH [OF pump_inv_step [OF Cons.prems, of e]] show ?case by simp
qed simp

text \<open>
  A HID device sends the frames of its accepted commands in the order they were queued, each
  whole and at most once: whatever calls, transfer reports, received frames, timers and zero timeouts
  happen, in any order, the frames handed to the browser so far are a prefix of the frames the
  accepted commands were cut into.
\<close>

theorem hid_sends_in_order:
  "\<exists>rest. pushed_run es (HidGnubbyDevice i st) = sends (fold hid_step es (HidGnubbyDevice i st)) @ rest"
proof -
  have "pump_inv ([] @ pushed_run es (HidGnubbyDevice i st)) (fold hid_step es (HidGnubbyDevice i st))"
    by (rule pump_inv_run [OF pump_inv_new])
  then obtain acked where a: "pushed_run es (HidGnubbyDevice i st) = acked @ txqueue (fold hid_step es (HidGnubbyDevice i st))"
    and s: "sends (fold hid_step es (HidGnubbyDevice i st)) = acked
      \<or> txqueue (fold hid_step es (HidGnubbyDevice i st)) \<noteq> []
        \<and> sends (fold hid_step es (HidGnubbyDevice i st)) = acked @ [hd (txqueue (fold hid_step es (HidGnubbyDevice i st)))]"
    unfolding pump_inv_def by auto
  from s show ?thesis
  proof (elim disjE conjE)
    assume "sends (fold hid_step es (HidGnubbyDevice i st)) = acked"
    with a show ?thesis by simp
  next
    assume "txqueue (fold hid_step es (HidGnubbyDevice i st)) \<noteq> []"
      "sends (fold hid_step es (HidGnubbyDevice i st)) = acked @ [hd (txqueue (fold hid_step es (HidGnubbyDevice i st)))]"
    with a show ?thesis by (cases "txqueue (fold hid_step es (HidGnubbyDevice i st))") auto
  qed
qed

subsection \<open>Enumerating\<close>

lemma merge_dev_ids: "set (map hid_deviceId (merge_dev b dev as)) = insert (hid_deviceId dev) (set (map hid_deviceId as))"
  by (induction as) auto

lemma merge_dev_distinct: "distinct (map hid_deviceId as) \<Longrightarrow> distinct (map hid_deviceId (merge_dev b dev as))"
proof (induction as)
  case (Cons a as)
  have "hid_deviceId a \<noteq> hid_deviceId dev \<Longrightarrow> hid_deviceId a \<notin> set (map hid_deviceId (merge_dev b dev as))"
    using Cons.prems unfolding merge_dev_ids by auto
  with Cons show ?case by auto
qed simp

text \<open>\<open>A\<close> and \<open>B\<close> are the ids the passes over usage pages and over vendor ids have found so far.\<close>

definition found :: "nat set \<Rightarrow> nat set \<Rightarrow> hid_info list \<Rightarrow> bool" where
  "found A B as \<longleftrightarrow> distinct (map hid_deviceId as) \<and> set (map hid_deviceId as) = A \<union> B
     \<and> (\<forall>d \<in> set as. f1d0Only d \<longleftrightarrow> hid_deviceId d \<notin> B)"

lemma merge_dev_flag:
  "distinct (map hid_deviceId as) \<Longrightarrow> d \<in> set (merge_dev b dev as) \<Longrightarrow>
     (if hid_deviceId d = hid_deviceId dev
      then (if hid_deviceId dev \<in> set (map hid_deviceId as)
            then \<exists>a \<in> set as. hid_deviceId a = hid_deviceId dev \<and> f1d0Only d = (f1d0Only a \<and> b)
            else f1d0Only d = b)
      else d \<in> set as)"
  by (induction as) (auto simp: image_iff split: if_splits)

lemma found_merge:
  assumes "found A B as"
  shows "found (if b then insert (hid_deviceId dev) A else A) (if b then B else insert (hid_deviceId dev) B)
    (merge_dev b dev as)"
proof -
  from assms have a: "distinct (map hid_deviceId as)" "set (map hid_deviceId as) = A \<union> B"
    "\<forall>d \<in> set as. f1d0Only d \<longleftrightarrow> hid_deviceId d \<notin> B" by (auto simp: found_def)
  show ?thesis
    unfolding found_def
  proof (intro conjI ballI)
    show "distinct (map hid_deviceId (merge_dev b dev as))" by (rule merge_dev_distinct [OF a(1)])
    show "set (map hid_deviceId (merge_dev b dev as))
        = (if b then insert (hid_deviceId dev) A else A) \<union> (if b then B else insert (hid_deviceId dev) B)"
      unfolding merge_dev_ids a(2) by auto
    fix d assume "d \<in> set (merge_dev b dev as)"
    from merge_dev_flag [OF a(1) this] a(2,3)
    show "f1d0Only d = (hid_deviceId d \<notin> (if b then B else insert (hid_deviceId dev) B))"
      by (auto split: if_splits)
  qed
qed

lemma found_enumerated:
  "found A B as \<Longrightarrow> found (if b then hid_deviceId ` set devs \<union> A else A)
     (if b then B else hid_deviceId ` set devs \<union> B) (enumerated b devs as)"
proof (induction devs arbitrary: A B as)
  case (Cons dev devs)
  from Cons.IH [OF found_merge [OF Cons.prems, of b dev]] show ?case
    by (cases b) (simp_all add: enumerated_def)
qed (simp add: enumerated_def)

text \<open>
  Enumeration merges its two passes: whichever of the two browser queries answers first, and
  however often a query repeats a device, each device found by a pass that the type asks for is listed
  exactly once, and it is marked as found by its FIDO usage page only exactly when the query for the
  legacy vendor and product ids did not find it.
\<close>

theorem hid_enumerate_merges:
  "let A = (if ty = VID_PID then {} else hid_deviceId ` set usage_devs);
       B = (if ty = FIDO_U2F then {} else hid_deviceId ` set vidpid_devs);
       devs = hid_enumerate ty first usage_devs vidpid_devs
   in distinct (map hid_deviceId devs) \<and> set (map hid_deviceId devs) = A \<union> B
      \<and> list_all (\<lambda>d. f1d0Only d \<longleftrightarrow> hid_deviceId d \<notin> B) devs"
proof -
  define A where "A = (if ty = VID_PID then {} else hid_deviceId ` set usage_devs)"
  define B where "B = (if ty = FIDO_U2F then {} else hid_deviceId ` set vidpid_devs)"
  have n: "found {} {} []" by (simp add: found_def)
  let ?u = "if ty = VID_PID then [] else usage_devs" and ?v = "if ty = FIDO_U2F then [] else vidpid_devs"
  have s: "hid_deviceId ` set ?u = A" "hid_deviceId ` set ?v = B" by (auto simp: A_def B_def)
  have "found A B (enumerated False ?v (enumerated True ?u []))"
    using found_enumerated [OF found_enumerated [OF n, of True ?u], of False ?v] unfolding s by simp
  moreover have "found A B (enumerated True ?u (enumerated False ?v []))"
    using found_enumerated [OF found_enumerated [OF n, of False ?v], of True ?u] unfolding s by simp
  ultimately have "found A B (hid_enumerate ty first usage_devs vidpid_devs)"
    by (simp add: hid_enumerate_def Let_def)
  then show ?thesis by (simp add: found_def list_all_iff Let_def A_def [symmetric] B_def [symmetric])
qed

end
