(* ===== verification/UsbDevice.thy ===== *)
theory UsbDevice
  imports Device
begin

unbundle bit_operations_syntax

text \<open>
  usbgnubbydevice.js: the driver of a USB device, which sends a command as one frame and waits for
  one reply before it sends the next. \<open>outTransferPending\<close> and \<open>inTransferPending\<close> guard the two bulk
  transfers; \<open>usb_thrown\<close> records that one of the code's two \<open>throw\<close>s was reached. The parts this
  driver shares with the HID one, including the lock, are those of theory Device.
\<close>

record usbdev = device +
  outTransferPending :: bool
  inTransferPending :: bool
  usb_thrown :: bool

definition UsbGnubbyDevice :: "nat \<Rightarrow> (nat \<Rightarrow> gnubby) \<Rightarrow> usbdev" where
  "UsbGnubbyDevice devid store =
     \<lparr>d_alive = True, d_id = devid, txqueue = [], clients = [], d_store = store, lockCID = 0, lockMillis = 0,
      lockTID = False, closing = False, updating = False, d_out = [], d_tasks = [],
      outTransferPending = False, inTransferPending = False, usb_thrown = False\<rparr>"

definition readyToUse :: "usbdev \<Rightarrow> bool" where
  "readyToUse d \<longleftrightarrow> (if closing d then False else d_alive d)"

definition readOneReply :: "usbdev \<Rightarrow> usbdev" where
  "readOneReply d =
     (if \<not> readyToUse d then d
      else if updating d then d
      else if \<not> inTransferPending d then emit Receive (d\<lparr>inTransferPending := True\<rparr>)
      else d\<lparr>usb_thrown := True\<rparr>)"

text \<open>The report of the bulk-in transfer: an error, data, or no data.\<close>

definition inTransferComplete :: "bool \<Rightarrow> bytes option \<Rightarrow> usbdev \<Rightarrow> usbdev" where
  "inTransferComplete lastError data d0 =
     (let d = d0\<lparr>inTransferPending := False\<rparr> in
      if \<not> readyToUse d then d
      else if lastError then later TDestroy d
      else (case data of
          Some f \<Rightarrow> later TWriteOneRequest (publishFrame f d)
        | None \<Rightarrow> later TDestroy d))"

definition writeOneRequest :: "usbdev \<Rightarrow> usbdev" where
  "writeOneRequest d =
     (if \<not> readyToUse d then d
      else if txqueue d = [] then d
      else if \<not> outTransferPending d
      then emit (Send (hd (txqueue d))) (d\<lparr>outTransferPending := True\<rparr>)
      else d\<lparr>usb_thrown := True\<rparr>)"

definition OutTransferComplete :: "bool \<Rightarrow> usbdev \<Rightarrow> usbdev" where
  "OutTransferComplete lastError d0 =
     (let d = d0\<lparr>outTransferPending := False\<rparr> in
      if \<not> readyToUse d then d
      else if lastError then later TDestroy d
      else later TReadOneReply d)"

definition usb_frame :: "int32 \<Rightarrow> nat \<Rightarrow> bytes \<Rightarrow> bytes" where
  "usb_frame cid cmd data =
     cid_bytes cid @ [word_of_nat cmd, word_of_nat (length data div 256), word_of_nat (length data mod 256)] @ data"

definition usb_queueCommand :: "int32 \<Rightarrow> nat \<Rightarrow> bytes \<Rightarrow> usbdev \<Rightarrow> usbdev" where
  "usb_queueCommand cid cmd data d =
     (if \<not> d_alive d then d
      else (case checkLock cid cmd d of
          (d1, False) \<Rightarrow> d1
        | (d1, True) \<Rightarrow>
          (let lockArg = (if length data > 0 then data ! 0 else 0);
               d2 = updateLock cid cmd lockArg d1;
               wasEmpty = (txqueue d2 = []);
               d3 = d2\<lparr>txqueue := txqueue d2 @ [usb_frame cid cmd data]\<rparr>
           in if wasEmpty then writeOneRequest d3 else d3)))"

text \<open>The zero timeout after a reply first drops the frame it answers.\<close>

definition usb_task :: "dev_task \<Rightarrow> usbdev \<Rightarrow> usbdev" where
  "usb_task t d =
     (case t of
        TDestroy \<Rightarrow> destroy d
      | TReadOneReply \<Rightarrow> readOneReply d
      | TWriteOneRequest \<Rightarrow> writeOneRequest (d\<lparr>txqueue := tl (txqueue d)\<rparr>)
      | _ \<Rightarrow> d)"

datatype usb_event =
    UQueue int32 nat bytes | UOut bool | UIn bool "bytes option" | UTask | ULockTimer
  | URegister nat | UDeregister nat | UDestroy

fun usb_step :: "usb_event \<Rightarrow> usbdev \<Rightarrow> usbdev" where
  "usb_step (UQueue cid cmd data) d = usb_queueCommand cid cmd data d"
| "usb_step (UOut err) d = (if outTransferPending d then OutTransferComplete err d else d)"
| "usb_step (UIn err data) d = (if inTransferPending d then inTransferComplete err data d else d)"
| "usb_step UTask d =
     (case d_tasks d of [] \<Rightarrow> d | t # ts \<Rightarrow> usb_task t (d\<lparr>d_tasks := ts\<rparr>))"
| "usb_step ULockTimer d = lock_expired d"
| "usb_step (URegister who) d = add_client who d"
| "usb_step (UDeregister who) d = fst (deregisterClient who d)"
| "usb_step UDestroy d = destroy d"

subsection \<open>Opening\<close>

record endpoint =
  ep_bulk :: bool
  ep_in :: bool
  ep_address :: nat

fun first_endpoint :: "bool \<Rightarrow> endpoint list \<Rightarrow> nat option" where
  "first_endpoint dir [] = None"
| "first_endpoint dir (e # es) =
     (if ep_bulk e \<and> ep_in e = dir then Some (ep_address e) else first_endpoint dir es)"

text \<open>
  The browser's answers: whether the device opened, its endpoints (those of all interfaces, in
  order), and whether the interface could be claimed. The result, the device, and whether the handle
  was closed again.
\<close>

definition usb_open ::
  "nat \<Rightarrow> (nat \<Rightarrow> gnubby) \<Rightarrow> bool \<Rightarrow> endpoint list \<Rightarrow> bool \<Rightarrow> int \<times> usbdev option \<times> bool" where
  "usb_open dev store opened endpoints claimed =
     (if \<not> opened then (- NODEVICE, None, False)
      else if first_endpoint True endpoints = None \<or> first_endpoint False endpoints = None
      then (- NODEVICE, None, True)
      else if \<not> claimed then (- BUSY, None, True)
      else (- OK, Some (UsbGnubbyDevice dev store), False))"

subsection \<open>One request, one reply\<close>

text \<open>The transfers of a trace: \<open>True\<close> for a request sent, \<open>False\<close> for a reply asked for.\<close>

definition transfers :: "usbdev \<Rightarrow> bool list" where
  "transfers d = concat (map (\<lambda>e. case e of Send _ \<Rightarrow> [True] | Receive \<Rightarrow> [False] | _ \<Rightarrow> []) (d_out d))"

fun alternates :: "bool \<Rightarrow> bool list \<Rightarrow> bool" where
  "alternates b [] \<longleftrightarrow> True"
| "alternates b (x # xs) \<longleftrightarrow> x = b \<and> alternates (\<not> b) xs"

definition next_transfer :: "bool list \<Rightarrow> bool" where
  "next_transfer xs \<longleftrightarrow> even (length xs)"

lemma alternates_snoc: "alternates b (xs @ [x]) \<longleftrightarrow> alternates b xs \<and> x = (if even (length xs) then b else \<not> b)"
  by (induction xs arbitrary: b) auto

definition waiting :: "dev_task \<Rightarrow> usbdev \<Rightarrow> nat" where
  "waiting t d = length (filter (\<lambda>u. u = t) (d_tasks d))"

text \<open>
  At most one of: a bulk-out transfer, a bulk-in transfer, a scheduled read, a scheduled write; none
  of them while the queue is empty; and what they say about which transfer comes next.
\<close>

definition usb_inv :: "usbdev \<Rightarrow> bool" where
  "usb_inv d \<longleftrightarrow>
     \<not> usb_thrown d \<and> alternates True (transfers d) \<and>
     (let n = (if outTransferPending d then 1 else 0) + (if inTransferPending d then 1 else 0)
          + waiting TReadOneReply d + waiting TWriteOneRequest d;
          reply_next = odd (length (transfers d))
      in n \<le> 1 \<and> (txqueue d = [] \<longrightarrow> n = 0 \<and> \<not> reply_next)
         \<and> (outTransferPending d \<or> waiting TReadOneReply d > 0 \<longrightarrow> reply_next)
         \<and> (inTransferPending d \<or> waiting TWriteOneRequest d > 0 \<longrightarrow> \<not> reply_next))"

lemma transfers_emit [simp]:
  "transfers (emit e d) = transfers d @ (case e of Send _ \<Rightarrow> [True] | Receive \<Rightarrow> [False] | _ \<Rightarrow> [])"
  by (simp add: transfers_def emit_def)

lemma transfers_update [simp]:
  "transfers (d\<lparr>d_alive := a\<rparr>) = transfers d" "transfers (d\<lparr>txqueue := q\<rparr>) = transfers d"
  "transfers (d\<lparr>clients := c\<rparr>) = transfers d" "transfers (d\<lparr>d_store := s\<rparr>) = transfers d"
  "transfers (d\<lparr>lockTID := t\<rparr>) = transfers d" "transfers (d\<lparr>lockCID := i\<rparr>) = transfers d"
  "transfers (d\<lparr>lockMillis := m\<rparr>) = transfers d" "transfers (d\<lparr>closing := a\<rparr>) = transfers d"
  "transfers (d\<lparr>d_tasks := ts\<rparr>) = transfers d" "transfers (d\<lparr>outTransferPending := b\<rparr>) = transfers d"
  "transfers (d\<lparr>inTransferPending := b\<rparr>) = transfers d"
  by (simp_all add: transfers_def)

lemma emit_usb [simp]:
  "outTransferPending (emit e d) = outTransferPending d" "inTransferPending (emit e d) = inTransferPending d"
  "usb_thrown (emit e d) = usb_thrown d" "txqueue (emit e d) = txqueue d" "d_tasks (emit e d) = d_tasks d"
  by (simp_all add: emit_def)

lemma later_usb [simp]:
  "outTransferPending (later t d) = outTransferPending d" "inTransferPending (later t d) = inTransferPending d"
  "usb_thrown (later t d) = usb_thrown d" "txqueue (later t d) = txqueue d" "d_tasks (later t d) = d_tasks d @ [t]"
  "transfers (later t d) = transfers d"
  by (simp_all add: later_def)

lemma publish_usb [simp]:
  "outTransferPending (publishFrame f d) = outTransferPending d"
  "inTransferPending (publishFrame f d) = inTransferPending d" "usb_thrown (publishFrame f d) = usb_thrown d"
  "transfers (publishFrame f d) = transfers d"
  by (simp_all add: publishFrame_def split_def Let_def)

lemma updateLock_usb [simp]:
  "outTransferPending (updateLock cid cmd arg d) = outTransferPending d"
  "inTransferPending (updateLock cid cmd arg d) = inTransferPending d"
  "usb_thrown (updateLock cid cmd arg d) = usb_thrown d" "txqueue (updateLock cid cmd arg d) = txqueue d"
  "d_tasks (updateLock cid cmd arg d) = d_tasks d" "transfers (updateLock cid cmd arg d) = transfers d"
  by (simp_all add: updateLock_def Let_def)

lemma destroy_usb [simp]:
  "outTransferPending (destroy d) = outTransferPending d" "inTransferPending (destroy d) = inTransferPending d"
  "usb_thrown (destroy d) = usb_thrown d" "txqueue (destroy d) = txqueue d" "d_tasks (destroy d) = d_tasks d"
  "transfers (destroy d) = transfers d"
  by (simp_all add: destroy_def Let_def)

text \<open>Operations that touch none of this.\<close>

lemma usb_inv_frame:
  assumes "usb_inv d" "txqueue d' = txqueue d" "transfers d' = transfers d" "d_tasks d' = d_tasks d"
    "outTransferPending d' = outTransferPending d" "inTransferPending d' = inTransferPending d"
    "usb_thrown d' = usb_thrown d"
  shows "usb_inv d'"
  using assms by (simp add: usb_inv_def waiting_def)

lemma usb_inv_write:
  assumes "\<not> usb_thrown d" "alternates True (transfers d)" "even (length (transfers d))"
    "\<not> outTransferPending d" "\<not> inTransferPending d" "waiting TReadOneReply d = 0" "waiting TWriteOneRequest d = 0"
  shows "usb_inv (writeOneRequest d)"
  using assms by (auto simp: usb_inv_def writeOneRequest_def waiting_def alternates_snoc Let_def)

lemma usb_inv_queue:
  assumes "usb_inv d"
  shows "usb_inv (usb_queueCommand cid cmd data d)"
proof -
  obtain d1 ok where c: "checkLock cid cmd d = (d1, ok)" by fastforce
  have d1: "usb_inv d1"
    using c assms by (auto simp: checkLock_def intro: usb_inv_frame [OF assms] split: if_splits)
  let ?d2 = "updateLock cid cmd (if length data > 0 then data ! 0 else 0) d1"
  have d2: "usb_inv ?d2" by (rule usb_inv_frame [OF d1]) simp_all
  have "usb_inv (writeOneRequest (?d2\<lparr>txqueue := q\<rparr>))" if "txqueue d1 = []" for q
    by (rule usb_inv_write) (use d1 that in \<open>auto simp: usb_inv_def waiting_def Let_def split: if_splits\<close>)
  moreover have "usb_inv (?d2\<lparr>txqueue := txqueue ?d2 @ [f]\<rparr>)" for f
    using d2 by (auto simp: usb_inv_def waiting_def Let_def)
  ultimately show ?thesis
    using assms d1 c by (auto simp: usb_queueCommand_def Let_def split: bool.splits)
qed

lemma usb_inv_out: "usb_inv d \<Longrightarrow> outTransferPending d \<Longrightarrow> usb_inv (OutTransferComplete err d)"
  by (auto simp: usb_inv_def OutTransferComplete_def waiting_def Let_def split: if_splits)

lemma usb_inv_in: "usb_inv d \<Longrightarrow> inTransferPending d \<Longrightarrow> usb_inv (inTransferComplete err data d)"
  by (auto simp: usb_inv_def inTransferComplete_def waiting_def Let_def split: if_splits option.splits)

lemma usb_inv_task:
  assumes "usb_inv d" "d_tasks d = t # ts"
  shows "usb_inv (usb_task t (d\<lparr>d_tasks := ts\<rparr>))"
proof (cases t)
  case TDestroy
  have "usb_inv (d\<lparr>d_tasks := ts\<rparr>)"
    using assms TDestroy by (auto simp: usb_inv_def waiting_def Let_def split: if_splits)
  then have "usb_inv (destroy (d\<lparr>d_tasks := ts\<rparr>))" by (rule usb_inv_frame) simp_all
  with TDestroy show ?thesis by (simp add: usb_task_def)
next
  case TReadOneReply
  with assms show ?thesis
    by (auto simp: usb_inv_def usb_task_def readOneReply_def waiting_def alternates_snoc Let_def split: if_splits)
next
  case TWriteOneRequest
  have "usb_inv (writeOneRequest (d\<lparr>d_tasks := ts, txqueue := tl (txqueue d)\<rparr>))"
    by (rule usb_inv_write) (use assms TWriteOneRequest in \<open>auto simp: usb_inv_def waiting_def Let_def split: if_splits\<close>)
  with TWriteOneRequest show ?thesis by (simp add: usb_task_def)
qed (use assms in \<open>auto simp: usb_task_def usb_inv_def waiting_def Let_def split: if_splits\<close>)

lemma usb_inv_step: "usb_inv d \<Longrightarrow> usb_inv (usb_step e d)"
proof (cases e)
  case UTask
  assume "usb_inv d"
  with UTask usb_inv_task show ?thesis by (cases "d_tasks d") auto
next
  case ULockTimer
  assume "usb_inv d"
  then show ?thesis
    unfolding ULockTimer usb_step.simps by (rule usb_inv_frame) (simp_all add: lock_expired_def)
next
  case (URegister who)
  assume "usb_inv d"
  then show ?thesis
    unfolding URegister usb_step.simps by (rule usb_inv_frame) (simp_all add: add_client_def)
next
  case (UDeregister who)
  assume "usb_inv d"
  then show ?thesis
    unfolding UDeregister usb_step.simps by (rule usb_inv_frame) (simp_all add: deregisterClient_def Let_def)
next
  case UDestroy
  assume "usb_inv d"
  then show ?thesis unfolding UDestroy usb_step.simps by (rule usb_inv_frame) simp_all
qed (auto simp: usb_inv_queue usb_inv_out usb_inv_in)

text \<open>
  C16. A USB device is used half-duplex: in every history of commands, transfer reports, timers, zero
  timeouts and clients, the driver asks for exactly one reply after each request it sends before it
  sends the next one, and neither of its exceptions \<open>'outTransferPending!'\<close> and
  \<open>'inTransferPending!'\<close> is ever raised.
\<close>

theorem usb_half_duplex:
  "alternates True (transfers (fold usb_step es (UsbGnubbyDevice i st)))
   \<and> \<not> usb_thrown (fold usb_step es (UsbGnubbyDevice i st))"
proof -
  have "usb_inv (UsbGnubbyDevice i st)"
    by (simp add: usb_inv_def UsbGnubbyDevice_def transfers_def waiting_def)
  moreover have "usb_inv d \<Longrightarrow> usb_inv (fold usb_step es d)" for d
    by (induction es arbitrary: d) (auto simp: usb_inv_step)
  ultimately have "usb_inv (fold usb_step es (UsbGnubbyDevice i st))" by blast
  then show ?thesis by (simp add: usb_inv_def)
qed

text \<open>
  A message sent over USB is read back in one step: the single frame of a command of up to 65535
  bytes answers a read of that command with success and exactly its data.
\<close>

theorem usb_message_roundtrip:
  assumes "length data < 65536" "128 \<le> cmd" "cmd < 256" "cmd \<noteq> CMD_ERROR"
  shows "frame_cid (usb_frame cid cmd data) = cid
    \<and> read_result cmd [usb_frame cid cmd data] = Some (0, Some data)"
proof -
  have f: "usb_frame cid cmd data = init_header cid cmd (length data) @ data"
    by (simp add: usb_frame_def init_header_def)
  note ff = frame_fields [OF assms(3,1), of cid data]
  have "drop 7 (init_header cid cmd (length data) @ data) = data" by (simp add: init_header_def)
  then show ?thesis
    using ff assms(2-4) and_128 [OF assms(3)]
    by (simp add: f read_result_def is_error_frame_def copy_payload_def after_copy_def msg_done_def OK_def
        new_reader_def)
qed

lemma usb_message_roundtrip_witness:
  "read_result CMD_PING [usb_frame 9 CMD_PING [7, 8]] = Some (0, Some [7, 8])"
proof -
  have "(128 :: nat) \<le> CMD_PING" "CMD_PING < 256" "CMD_PING \<noteq> CMD_ERROR" by code_simp+
  with usb_message_roundtrip [of "[7, 8]" CMD_PING 9] show ?thesis by simp
qed

end
