(* ===== verification/GnubbySync.thy ===== *)
theory GnubbySync
  imports HidFrames
begin

unbundle bit_operations_syntax

text \<open>
  \<open>Gnubby.sync\<close> of gnubby.js: taking the device over, by \<open>INIT\<close> with a nonce on a shared device and
  by \<open>SYNC\<close> with a counter on an exclusive one. A run is one call of \<open>sync\<close> on a client: the local
  variables of the call are a \<open>syncer\<close>, \<open>sy_sent\<close> lists the commands it queues on the device (the
  device publishes nothing while it takes an \<open>INIT\<close> or a \<open>SYNC\<close>), and \<open>sy_results\<close> the results its
  callback is scheduled with. The random bytes of \<open>UTIL_getRandom\<close> are parameters.
\<close>

datatype sync_mode = ModeInit | ModeSync

record syncer =
  sy_g :: gnubby
  sy_mode :: sync_mode
  sy_nonce :: bytes
  sy_rnd :: "byte \<times> byte"
  sy_done :: bool
  sy_trycount :: nat
  sy_tid :: bool
  sy_sent :: "(int32 \<times> nat \<times> bytes) list"
  sy_results :: "int list"

definition on_g :: "(gnubby \<Rightarrow> gnubby) \<Rightarrow> syncer \<Rightarrow> syncer" where
  "on_g f s = s\<lparr>sy_g := f (sy_g s)\<rparr>"

definition default_cid :: "gnubby \<Rightarrow> int32" where
  "default_cid g = defaultChannelId (gnubbyInstance g) (which g)"

definition returnValue :: "int \<Rightarrow> syncer \<Rightarrow> syncer" where
  "returnValue rc s =
     (let s1 = s\<lparr>sy_done := True, sy_results := sy_results s @ [rc]\<rparr> in
      if closingWhenIdle (sy_g s1) then on_g idleClose s1 else s1)"

definition sendSyncSentinel :: "syncer \<Rightarrow> syncer" where
  "sendSyncSentinel s =
     (let s1 = on_g (\<lambda>g. g\<lparr>synccnt := synccnt g + 1\<rparr>) s in
      s1\<lparr>sy_sent := sy_sent s1 @ [(g_cid (sy_g s1), CMD_SYNC, [word_of_nat (synccnt (sy_g s1))])]\<rparr>)"

definition syncSentinelEquals :: "bytes \<Rightarrow> syncer \<Rightarrow> bool" where
  "syncSentinelEquals f s \<longleftrightarrow>
     frame_cmd f = CMD_SYNC \<and> (length f = 7 \<or> unat (byte_at f 7) = synccnt (sy_g s))"

definition sendInitSentinel :: "syncer \<Rightarrow> syncer" where
  "sendInitSentinel s =
     (let s1 = (if g_cid (sy_g s) = default_cid (sy_g s) then on_g (\<lambda>g. g\<lparr>g_cid := BROADCAST_CID\<rparr>) s else s)
      in s1\<lparr>sy_sent := sy_sent s1 @ [(g_cid (sy_g s1), CMD_INIT, sy_nonce s1)]\<rparr>)"

definition initSentinelEquals :: "bytes \<Rightarrow> syncer \<Rightarrow> bool" where
  "initSentinelEquals f s \<longleftrightarrow>
     frame_cmd f = CMD_INIT \<and> length f \<ge> length (sy_nonce s) + 7
     \<and> UTIL_equalArrays (Some (take (length (sy_nonce s)) (drop 7 f))) (Some (sy_nonce s))"

definition sendSentinel :: "syncer \<Rightarrow> syncer" where
  "sendSentinel s = (case sy_mode s of ModeInit \<Rightarrow> sendInitSentinel s | ModeSync \<Rightarrow> sendSyncSentinel s)"

definition sentinelEquals :: "bytes \<Rightarrow> syncer \<Rightarrow> bool" where
  "sentinelEquals f s = (case sy_mode s of ModeInit \<Rightarrow> initSentinelEquals f s | ModeSync \<Rightarrow> syncSentinelEquals f s)"

definition initCmdUnsupported :: "int \<Rightarrow> bool" where
  "initCmdUnsupported rc \<longleftrightarrow> rc = - INVALID_CMD \<or> rc = - INVALID_PAR \<or> rc = - INVALID_LEN"

definition setSync :: "syncer \<Rightarrow> syncer" where
  "setSync s = s\<lparr>sy_mode := ModeSync\<rparr>"

definition random_cid :: "syncer \<Rightarrow> int32" where
  "random_cid s =
     default_cid (sy_g s) XOR (push_bit 16 (ucast (fst (sy_rnd s))) OR push_bit 8 (ucast (snd (sy_rnd s))))"

text \<open>The channel id that an \<open>INIT\<close> reply carries after the nonce.\<close>

definition assigned_cid :: "bytes \<Rightarrow> syncer \<Rightarrow> int32" where
  "assigned_cid f s = frame_cid (drop (7 + length (sy_nonce s)) f)"

text \<open>
  The completion actions, \<open>callback\<close> and \<open>timeoutLoop\<close> call each other. \<open>timeoutLoop\<close> calls
  \<open>callback\<close> only when no tries are left, and \<open>callback\<close> calls \<open>timeoutLoop\<close> only after leaving the
  \<open>INIT\<close> mode, so that one unfolding of each is enough: \<open>sync_callback\<close> is \<open>callback\<close> in the \<open>SYNC\<close>
  mode, \<open>timeoutLoop\<close> in that mode follows, and then both in the \<open>INIT\<close> mode.
\<close>

definition end_command :: "syncer \<Rightarrow> syncer" where
  "end_command s = (on_g (\<lambda>g. g\<lparr>commandPending := False\<rparr>) s)\<lparr>sy_tid := False\<rparr>"

definition sync_callback :: "int \<Rightarrow> syncer \<Rightarrow> syncer" where
  "sync_callback rc s = returnValue rc (end_command s)"

text \<open>Another try: \<open>--trycount\<close>, the sentinel, a wait for a frame, and the timer.\<close>

definition try_again :: "syncer \<Rightarrow> syncer" where
  "try_again s =
     (on_g (notifyFrame (CheckSentinel 0)) (sendSentinel (s\<lparr>sy_trycount := sy_trycount s - 1\<rparr>)))\<lparr>sy_tid := True\<rparr>"

definition sync_timeoutLoop :: "syncer \<Rightarrow> syncer" where
  "sync_timeoutLoop s =
     (if sy_done s then s
      else if sy_trycount s = 0 then sync_callback (- TIMEOUT) s
      else try_again s)"

definition initCompletionAction :: "int \<Rightarrow> bytes option \<Rightarrow> syncer \<Rightarrow> syncer" where
  "initCompletionAction rc opt_frame s =
     (let s1 = (if rc \<noteq> 0 \<and> \<not> initCmdUnsupported rc then returnValue rc s else s) in
      case opt_frame of
        Some f \<Rightarrow>
          (if rc \<noteq> 0 \<or> length f < length (sy_nonce s1) + (7 + 4)
           then sync_timeoutLoop (setSync (on_g (\<lambda>g. g\<lparr>g_cid := random_cid s1\<rparr>) s1))
           else returnValue rc (on_g (\<lambda>g. g\<lparr>g_cid := assigned_cid f s1\<rparr>) s1))
      | None \<Rightarrow> sync_timeoutLoop (setSync (on_g (\<lambda>g. g\<lparr>g_cid := random_cid s1\<rparr>) s1)))"

definition callback :: "int \<Rightarrow> bytes option \<Rightarrow> syncer \<Rightarrow> syncer" where
  "callback rc opt_frame s =
     (case sy_mode s of
        ModeSync \<Rightarrow> sync_callback rc s
      | ModeInit \<Rightarrow> initCompletionAction rc opt_frame (end_command s))"

definition timeoutLoop :: "syncer \<Rightarrow> syncer" where
  "timeoutLoop s =
     (if sy_done s then s
      else if sy_trycount s = 0 then callback (- TIMEOUT) None s
      else try_again s)"

text \<open>\<open>None\<close> is the exception of \<open>readFrame_\<close>.\<close>

definition checkSentinel :: "syncer \<Rightarrow> syncer option" where
  "checkSentinel s =
     (case readFrame (sy_g s) of None \<Rightarrow> None
      | Some (f, g1) \<Rightarrow>
        (let s1 = s\<lparr>sy_g := g1\<rparr> in Some
          (if is_error_frame f
           then (if frame_code f = BUSY then on_g (notifyFrame (CheckSentinel 0)) (sendSentinel s1)
                 else (let s2 = (if frame_code f = GONE then on_g (\<lambda>g. g\<lparr>g_closed := True\<rparr>) s1 else s1)
                       in callback (- frame_code f) None s2))
           else if \<not> sentinelEquals f s1 then on_g (notifyFrame (CheckSentinel 0)) s1
           else callback (- OK) (Some f) s1)))"

text \<open>\<open>sync\<close>: the start of a run, on an open client; a closed one is answered at once.\<close>

definition sync :: "bool \<Rightarrow> bytes \<Rightarrow> byte \<times> byte \<Rightarrow> gnubby \<Rightarrow> syncer" where
  "sync isSharedAccess nonce rnd g =
     (let s = \<lparr>sy_g = g, sy_mode = (if isSharedAccess then ModeInit else ModeSync), sy_nonce = nonce, sy_rnd = rnd,
               sy_done = False, sy_trycount = 6, sy_tid = False, sy_sent = [], sy_results = []\<rparr>
      in if g_closed g then s\<lparr>sy_results := [- GONE], sy_done := True\<rparr> else timeoutLoop s)"

text \<open>Frames arrive, the browser runs the client's first task, the 500 millisecond timer fires.\<close>

datatype sync_event = SDeliver bytes | STask | STimer

fun sync_step :: "sync_event \<Rightarrow> syncer \<Rightarrow> syncer" where
  "sync_step (SDeliver f) s = on_g (\<lambda>g. fst (receivedFrame f g)) s"
| "sync_step STask s =
     (case g_tasks (sy_g s) of
        CheckSentinel i # cbs \<Rightarrow>
          (let s1 = on_g (\<lambda>g. g\<lparr>g_tasks := cbs\<rparr>) s in
           case checkSentinel s1 of None \<Rightarrow> s1 | Some s2 \<Rightarrow> s2)
      | _ \<Rightarrow> s)"
| "sync_step STimer s = (if sy_tid s then timeoutLoop (s\<lparr>sy_tid := False\<rparr>) else s)"

declare sync_step.simps [simp del]

subsection \<open>What sync establishes\<close>

lemmas sync_defs = callback_def initCompletionAction_def returnValue_def end_command_def on_g_def
  assigned_cid_def OK_def Let_def

text \<open>
  On a shared device, a channel id is only ever taken from a reply to this very call. A frame that
  is an \<open>INIT\<close> reply, repeats the nonce of the call and carries an id ends the call with success and
  gives the client that id; one that is not an \<open>INIT\<close> reply with the nonce is dropped, and the call
  goes on waiting with nothing else changed. (A reply with the nonce and no id switches to \<open>SYNC\<close>.)
\<close>

theorem sync_init_accepts:
  assumes "sy_mode s = ModeInit" "rxframes (sy_g s) = f # fs" "\<not> is_error_frame f"
  defines "repeats \<equiv> frame_cmd f = CMD_INIT \<and> length f \<ge> length (sy_nonce s) + 7
      \<and> take (length (sy_nonce s)) (drop 7 f) = sy_nonce s"
  shows "\<exists>s'. checkSentinel s = Some s'
    \<and> (repeats \<and> length f \<ge> length (sy_nonce s) + 11 \<and> \<not> closingWhenIdle (sy_g s) \<longrightarrow>
        g_cid (sy_g s') = frame_cid (drop (7 + length (sy_nonce s)) f) \<and> sy_done s' \<and> \<not> sy_tid s'
        \<and> sy_results s' = sy_results s @ [0])
    \<and> (\<not> repeats \<longrightarrow> s' = s\<lparr>sy_g := notifyFrame (CheckSentinel 0) (sy_g s\<lparr>rxframes := fs\<rparr>)\<rparr>)
    \<and> (repeats \<and> length f < length (sy_nonce s) + 11 \<longrightarrow>
        sy_mode s' = ModeSync \<and> (sy_trycount s \<noteq> 0 \<longrightarrow> sy_results s' = sy_results s))"
proof -
  have s: "sentinelEquals f (s\<lparr>sy_g := g\<rparr>) = repeats" for g
    using assms(1) by (simp add: sentinelEquals_def initSentinelEquals_def equalArrays_Some repeats_def
        del: UTIL_equalArrays.simps)
  show ?thesis
    using assms(1-3) unfolding checkSentinel_def readFrame_def
    by (simp add: s) (auto simp: sync_defs setSync_def sync_timeoutLoop_def sync_callback_def try_again_def
        sendSentinel_def sendSyncSentinel_def)
qed

text \<open>
  In the \<open>SYNC\<close> mode the byte that is sent is the counter modulo 256, and the reply is compared with
  the counter itself: a reply that carries a byte is recognised exactly while the counter of the
  client is below 256; after 255 rounds only the replies without a byte of the old firmware are.
\<close>

theorem sync_sentinel_range:
  "syncSentinelEquals f (sendSyncSentinel s) \<longleftrightarrow>
     frame_cmd f = CMD_SYNC \<and>
     (length f = 7 \<or> (synccnt (sy_g s) < 255 \<and> byte_at f 7 = word_of_nat (Suc (synccnt (sy_g s)))))"
proof -
  let ?n = "Suc (synccnt (sy_g s))"
  have "unat (byte_at f 7) = ?n \<longleftrightarrow> ?n < 256 \<and> byte_at f 7 = word_of_nat ?n"
  proof (cases "?n < 256")
    case True
    then have "unat (word_of_nat ?n :: byte) = ?n" by (simp only: unat_of_nat) simp
    with True show ?thesis by (metis unsigned_word_eqI)
  next
    case False
    with unat_lt_256 [of "byte_at f 7"] show ?thesis by linarith
  qed
  then show ?thesis
    by (auto simp: syncSentinelEquals_def sendSyncSentinel_def on_g_def Let_def)
qed

text \<open>Timers alone: the state after \<open>n\<close> of them.\<close>

definition waiting_sync :: "syncer \<Rightarrow> nat \<Rightarrow> bool" where
  "waiting_sync s n \<longleftrightarrow> \<not> sy_done s \<and> sy_tid s \<and> sy_trycount s = n \<and> sy_results s = []
     \<and> length (sy_sent s) = 6 - n"

lemma try_again_waiting:
  "\<not> sy_done s \<Longrightarrow> sy_trycount s = Suc n \<Longrightarrow> sy_results s = [] \<Longrightarrow> length (sy_sent s) = 5 - n \<Longrightarrow> n < 6
     \<Longrightarrow> waiting_sync (try_again s) n"
  by (cases "sy_mode s") (auto simp: waiting_sync_def try_again_def sendSentinel_def sendSyncSentinel_def
      sendInitSentinel_def on_g_def Let_def)

lemma timer_waiting:
  "waiting_sync s (Suc n) \<Longrightarrow> n < 5 \<Longrightarrow> waiting_sync (sync_step STimer s) n"
  unfolding sync_step.simps timeoutLoop_def
  by (subst (asm) waiting_sync_def) (auto intro!: try_again_waiting)

lemma timers_waiting:
  "waiting_sync s 5 \<Longrightarrow> n \<le> 5 \<Longrightarrow> waiting_sync ((sync_step STimer ^^ n) s) (5 - n)"
proof (induction n)
  case (Suc n)
  moreover from Suc.prems have "5 - n = Suc (5 - Suc n)" by simp
  ultimately have "waiting_sync (sync_step STimer ((sync_step STimer ^^ n) s)) (5 - Suc n)"
    by (intro timer_waiting) (simp_all)
  then show ?case by simp
qed simp

lemma timer_done: "sy_done s \<Longrightarrow> sy_results (sync_step STimer s) = sy_results s \<and> sy_done (sync_step STimer s)
    \<and> sy_sent (sync_step STimer s) = sy_sent s"
  by (simp add: timeoutLoop_def sync_step.simps)

lemma timer_gives_up:
  "waiting_sync s 0 \<Longrightarrow> sy_done (sync_step STimer s) \<and> sy_results (sync_step STimer s) = [- TIMEOUT]
     \<and> length (sy_sent (sync_step STimer s)) = 6"
  by (cases "sy_mode s") (auto simp: sync_step.simps waiting_sync_def timeoutLoop_def sync_defs TIMEOUT_def sync_callback_def
      initCmdUnsupported_def error_codes sync_timeoutLoop_def setSync_def)

lemma timers_done:
  "sy_done s \<Longrightarrow> sy_results ((sync_step STimer ^^ n) s) = sy_results s \<and> sy_done ((sync_step STimer ^^ n) s)
     \<and> sy_sent ((sync_step STimer ^^ n) s) = sy_sent s"
  by (induction n) (simp_all add: timer_done)

text \<open>
  A device that never answers: \<open>sync\<close> sends its sentinel at once and after each of the first five
  500 millisecond timers, gives up at the sixth with \<open>-TIMEOUT\<close>, and then neither sends nor reports
  again, whatever the number of timers.
\<close>

theorem sync_gives_up:
  "\<not> g_closed g \<Longrightarrow>
   (let s = (sync_step STimer ^^ n) (sync shared nonce rnd g)
    in length (sy_sent s) = min 6 (Suc n) \<and> sy_results s = (if n < 6 then [] else [- TIMEOUT]))"
proof -
  assume open': "\<not> g_closed g"
  let ?s = "sync shared nonce rnd g"
  have w: "waiting_sync ?s 5"
    using open' unfolding sync_def timeoutLoop_def by (auto simp: Let_def intro!: try_again_waiting)
  show ?thesis
  proof (cases "n < 6")
    case True
    with timers_waiting [OF w, of n] show ?thesis by (auto simp: waiting_sync_def Let_def)
  next
    case False
    then obtain m where n: "n = m + 6" by (metis add.commute le_Suc_ex not_less)
    have six: "(sync_step STimer ^^ 6) ?s = sync_step STimer ((sync_step STimer ^^ 5) ?s)"
      by (simp add: eval_nat_numeral)
    have "sy_done ((sync_step STimer ^^ 6) ?s) \<and> sy_results ((sync_step STimer ^^ 6) ?s) = [- TIMEOUT]
        \<and> length (sy_sent ((sync_step STimer ^^ 6) ?s)) = 6"
      unfolding six using timers_waiting [OF w, of 5] by (intro timer_gives_up) simp
    with timers_done [of "(sync_step STimer ^^ 6) ?s" m] show ?thesis
      by (simp add: n funpow_add)
  qed
qed

definition a_client :: gnubby where
  "a_client = (Gnubby 1 None)\<lparr>g_dev := True, which := 1, g_cid := defaultChannelId 1 1\<rparr>"

theorem sync_gives_up_witness:
  "(let s = (sync_step STimer ^^ 7) (sync True [1, 2, 3, 4, 5, 6, 7, 8] (9, 10) a_client)
    in length (sy_sent s) = 6 \<and> sy_results s = [- TIMEOUT])"
  using sync_gives_up [of a_client 7 True "[1, 2, 3, 4, 5, 6, 7, 8]" "(9, 10)"]
  by (simp add: a_client_def Gnubby_def)

theorem sync_init_accepts_witness:
  "\<exists>s'. checkSentinel (sync_step (SDeliver ([255, 255, 255, 255, 0x86, 0, 12, 1, 2, 3, 4, 5, 6, 7, 8, 0, 0, 7, 1]))
        (sync True [1, 2, 3, 4, 5, 6, 7, 8] (9, 10) a_client)) = Some s'
    \<and> g_cid (sy_g s') = 0x701 \<and> sy_results s' = [0]"
proof -
  let ?f = "[255, 255, 255, 255, 0x86, 0, 12, 1, 2, 3, 4, 5, 6, 7, 8, 0, 0, 7, 1] :: bytes"
  let ?s = "sync_step (SDeliver ?f) (sync True [1, 2, 3, 4, 5, 6, 7, 8] (9, 10) a_client)"
  have "sy_mode ?s = ModeInit" "rxframes (sy_g ?s) = [?f]" "\<not> is_error_frame ?f"
    "sy_nonce ?s = [1, 2, 3, 4, 5, 6, 7, 8]" "\<not> closingWhenIdle (sy_g ?s)" "sy_results ?s = []"
    "frame_cmd ?f = CMD_INIT" "frame_cid (drop 15 ?f) = 0x701"
    by code_simp+
  with sync_init_accepts [of ?s ?f "[]"] show ?thesis by auto
qed

text \<open>
  The call does not test \<open>done\<close> when a frame arrives, and leaves its frame function registered when it
  gives up: a reply after the last timer makes its callback run a second time.
\<close>

theorem sync_answers_twice:
  "sy_results (sync_step STask (sync_step (SDeliver [0, 0, 0, 0, 0xbc, 0, 1, 6])
      ((sync_step STimer ^^ 6) (sync False [] (9, 10) a_client)))) = [- TIMEOUT, 0]"
  by code_simp

end
