(* ===== verification/Gnubbies.thy ===== *)
theory Gnubbies
  imports Device
begin

text \<open>
  gnubbies.js: the manager of the devices, which enumerates them, opens each at most once for all its
  clients, and closes them when the last client leaves or after a time without activity. The objects it
  shares with others are numbered: clients, callbacks, the devices the browser lists (the numbers are what
  \<open>deviceToDeviceId\<close> reads as \<open>device\<close>), and the low-level devices, which live in \<open>gb_heap\<close>. Of a low-level
  device it only uses its clients and whether it is closing: \<open>ldev\<close> holds these, and the drivers'
  operations are shown below to act on them as the operations of \<open>ldev\<close> do. The calls of the namespaces'
  functions and of the callbacks are listed in \<open>gb_out\<close>, in order.
\<close>

subsection \<open>The low-level devices, as the manager sees them\<close>

record ldev =
  ld_alive :: bool
  ld_closing :: bool
  ld_clients :: "nat list"
  ld_ns :: string
  ld_id :: nat

definition ld_register :: "nat \<Rightarrow> ldev \<Rightarrow> ldev" where
  "ld_register who d = (if who \<in> set (ld_clients d) then d else d\<lparr>ld_clients := ld_clients d @ [who]\<rparr>)"

definition ld_deregister :: "nat \<Rightarrow> ldev \<Rightarrow> ldev \<times> int" where
  "ld_deregister who d =
     (if ld_clients d = [] then (d, -1)
      else (let cs = filter (\<lambda>c. c \<noteq> who) (ld_clients d) in (d\<lparr>ld_clients := cs\<rparr>, int (length cs))))"

definition ld_hasClient :: "nat \<Rightarrow> ldev \<Rightarrow> bool" where
  "ld_hasClient who d \<longleftrightarrow> who \<in> set (ld_clients d)"

definition ld_destroy :: "ldev \<Rightarrow> ldev" where
  "ld_destroy d = (if \<not> ld_alive d then d else d\<lparr>ld_closing := True, ld_clients := [], ld_alive := False\<rparr>)"

definition abs_dev :: "string \<Rightarrow> 'a device_scheme \<Rightarrow> ldev" where
  "abs_dev ns d = \<lparr>ld_alive = d_alive d, ld_closing = closing d, ld_clients = clients d, ld_ns = ns, ld_id = d_id d\<rparr>"

subsection \<open>The manager\<close>

text \<open>An object of objects, by namespace and device number.\<close>

type_synonym 'v table = "(string \<times> (nat \<times> 'v) list) list"

definition look2 :: "'v table \<Rightarrow> string \<Rightarrow> nat \<Rightarrow> 'v option" where
  "look2 t ns d = (case map_of t ns of None \<Rightarrow> None | Some m \<Rightarrow> map_of m d)"

definition put2 :: "string \<Rightarrow> nat \<Rightarrow> 'v \<Rightarrow> 'v table \<Rightarrow> 'v table" where
  "put2 ns d v t = AList.update ns (AList.update d v (case map_of t ns of None \<Rightarrow> [] | Some m \<Rightarrow> m)) t"

definition del2 :: "string \<Rightarrow> nat \<Rightarrow> 'v table \<Rightarrow> 'v table" where
  "del2 ns d t = (case map_of t ns of None \<Rightarrow> t | Some m \<Rightarrow> AList.update ns (AList.delete d m) t)"

definition devices_of :: "'v table \<Rightarrow> string \<Rightarrow> nat list" where
  "devices_of t ns = (case map_of t ns of None \<Rightarrow> [] | Some m \<Rightarrow> sort (map fst m))"

definition all_devices :: "'v table \<Rightarrow> (string \<times> nat) list" where
  "all_devices t = concat (map (\<lambda>ns. map (Pair ns) (devices_of t ns)) (js_keys t))"

datatype gb_effect =
    CallEnumerate string
  | CallOpen string nat
  | CallCancelOpen string nat
  | EnumerateCb nat int "(string \<times> nat) list"
  | OpenCb nat int "nat option"
  | Raised

record ns_impl =
  im_isSharedAccess :: bool
  im_cancelOpen :: bool

text \<open>
  \<open>gb_run\<close> holds the variables of the enumeration that is under way, \<open>namespacesEnumerated\<close> and
  \<open>deviceIds\<close>; the calls of \<open>enumerate\<close> that do not start one do not use theirs.
\<close>

record gnubbies =
  gb_devs :: "nat list jsobj"
  pendingEnumerate :: "nat list"
  namespaces :: "string list"
  gb_impl :: "ns_impl jsobj"
  openDevs :: "nat table"
  pendingOpens :: "(nat \<times> nat) list table"
  inactivityTimer :: "unit countdown option"
  gb_sys :: systimer
  gb_heap :: "nat \<Rightarrow> ldev"
  gb_run :: "nat \<times> (string \<times> nat) list"
  gb_out :: "gb_effect list"

definition Gnubbies :: "systimer \<Rightarrow> gnubbies" where
  "Gnubbies sys =
     \<lparr>gb_devs = [], pendingEnumerate = [], namespaces = [], gb_impl = [], openDevs = [], pendingOpens = [],
      inactivityTimer = None, gb_sys = sys, gb_heap = (\<lambda>_. \<lparr>ld_alive = True, ld_closing = False, ld_clients = [],
      ld_ns = [], ld_id = 0\<rparr>), gb_run = (0, []), gb_out = []\<rparr>"

definition gb_emit :: "gb_effect \<Rightarrow> gnubbies \<Rightarrow> gnubbies" where
  "gb_emit e g = g\<lparr>gb_out := gb_out g @ [e]\<rparr>"

definition registerNamespace :: "string \<Rightarrow> ns_impl \<Rightarrow> gnubbies \<Rightarrow> gnubbies" where
  "registerNamespace ns impl g =
     (let g1 = (if map_of (gb_impl g) ns = None then g\<lparr>namespaces := namespaces g @ [ns]\<rparr> else g)
      in g1\<lparr>gb_impl := AList.update ns impl (gb_impl g1)\<rparr>)"

definition isSharedAccess :: "string \<times> nat \<Rightarrow> gnubbies \<Rightarrow> bool" where
  "isSharedAccess wh g =
     (case map_of (gb_impl g) (fst wh) of None \<Rightarrow> False | Some im \<Rightarrow> im_isSharedAccess im)"

definition removeOpenDevice :: "string \<times> nat \<Rightarrow> gnubbies \<Rightarrow> gnubbies" where
  "removeOpenDevice wh g = g\<lparr>openDevs := del2 (fst wh) (snd wh) (openDevs g)\<rparr>"

text \<open>\<open>destroy()\<close> of the low-level device \<open>h\<close>, which first calls \<open>removeOpenDevice\<close>.\<close>

definition destroy_dev :: "nat \<Rightarrow> gnubbies \<Rightarrow> gnubbies" where
  "destroy_dev h g =
     (if \<not> ld_alive (gb_heap g h) then g
      else (let g1 = removeOpenDevice (ld_ns (gb_heap g h), ld_id (gb_heap g h)) g
            in g1\<lparr>gb_heap := (gb_heap g1)(h := ld_destroy (gb_heap g1 h))\<rparr>))"

text \<open>The loop over all open devices: those that are still there when the loop comes to them.\<close>

definition for_open :: "(nat \<Rightarrow> gnubbies \<Rightarrow> gnubbies) \<Rightarrow> gnubbies \<Rightarrow> gnubbies" where
  "for_open h g =
     fold (\<lambda>(ns, d) g'. case look2 (openDevs g') ns d of None \<Rightarrow> g' | Some dev \<Rightarrow> h dev g')
       (all_devices (openDevs g)) g"

definition INACTIVITY_TIMEOUT_MARGIN_MILLIS :: rat where
  "INACTIVITY_TIMEOUT_MARGIN_MILLIS = 30000"

definition resetInactivityTimer :: "rat option \<Rightarrow> gnubbies \<Rightarrow> gnubbies" where
  "resetInactivityTimer opt_timeoutMillis g =
     (let millis = (case opt_timeoutMillis of
            Some t \<Rightarrow> if t \<noteq> 0 then t + INACTIVITY_TIMEOUT_MARGIN_MILLIS else INACTIVITY_TIMEOUT_MARGIN_MILLIS
          | None \<Rightarrow> INACTIVITY_TIMEOUT_MARGIN_MILLIS)
      in case inactivityTimer g of
           None \<Rightarrow> (let (sys', t) = CountdownTimer (gb_sys g) (Some millis) (Some ())
                   in g\<lparr>gb_sys := sys', inactivityTimer := Some t\<rparr>)
         | Some t \<Rightarrow>
             if millis > millisecondsUntilExpired t
             then (let (sys1, t1) = cd_clearTimeout (gb_sys g) t;
                       (sys2, t2, b) = cd_setTimeout sys1 t1 millis (Some ())
                   in g\<lparr>gb_sys := sys2, inactivityTimer := Some t2\<rparr>)
             else g)"

definition inactivityTimeout :: "gnubbies \<Rightarrow> gnubbies" where
  "inactivityTimeout g = for_open destroy_dev (g\<lparr>inactivityTimer := None\<rparr>)"

text \<open>The browser fires the inactivity timer.\<close>

definition gb_tick :: "gnubbies \<Rightarrow> gnubbies" where
  "gb_tick g =
     (case inactivityTimer g of None \<Rightarrow> g
      | Some t \<Rightarrow> (let (sys', t', cs) = cd_fire (gb_sys g) t;
                       g1 = g\<lparr>gb_sys := sys', inactivityTimer := Some t'\<rparr>
                   in if cs = [] then g1 else inactivityTimeout g1))"

definition closeAll :: "gnubbies \<Rightarrow> gnubbies" where
  "closeAll g =
     (let g1 = (case inactivityTimer g of None \<Rightarrow> g
                | Some t \<Rightarrow> g\<lparr>gb_sys := fst (cd_clearTimeout (gb_sys g) t), inactivityTimer := None\<rparr>);
          g2 = for_open destroy_dev g1
      in g2\<lparr>gb_devs := [], openDevs := []\<rparr>)"

subsection \<open>Enumerating\<close>

definition enumerate :: "nat \<Rightarrow> gnubbies \<Rightarrow> gnubbies" where
  "enumerate cb g =
     (if namespaces g = [] then gb_emit (EnumerateCb cb (- OK) []) g
      else (let g1 = g\<lparr>pendingEnumerate := pendingEnumerate g @ [cb]\<rparr> in
            if length (pendingEnumerate g1) = 1
            then fold (\<lambda>ns. gb_emit (CallEnumerate ns)) (namespaces g1) (g1\<lparr>gb_run := (0, [])\<rparr>)
            else g1))"

text \<open>
  A namespace reports its devices; with \<open>chrome.runtime.lastError\<close> set (\<open>err\<close>) it counts as having none.
\<close>

definition remove_absent :: "string \<Rightarrow> nat list \<Rightarrow> gnubbies \<Rightarrow> gnubbies" where
  "remove_absent ns devs g =
     (let toRemove = filter (\<lambda>d. d \<notin> set devs) (devices_of (openDevs g) ns) in
      fold (\<lambda>d g'. case look2 (openDevs g') ns d of None \<Rightarrow> g'
              | Some h \<Rightarrow> (let g1 = destroy_dev h g' in g1\<lparr>openDevs := del2 ns d (openDevs g1)\<rparr>))
        toRemove g)"

definition gb_enumerated :: "string \<Rightarrow> bool \<Rightarrow> nat list \<Rightarrow> gnubbies \<Rightarrow> gnubbies" where
  "gb_enumerated ns err ds g =
     (let devs = (if err then [] else ds);
          n = fst (gb_run g) + 1;
          g1 = remove_absent ns devs (g\<lparr>gb_run := (n, snd (gb_run g))\<rparr>);
          ids = snd (gb_run g1) @ map (Pair ns) devs;
          g2 = g1\<lparr>gb_devs := AList.update ns devs (gb_devs g1), gb_run := (n, ids)\<rparr>
      in if n = length (namespaces g2)
         then (fold (\<lambda>cb. gb_emit (EnumerateCb cb (- OK) ids)) (pendingEnumerate g2) g2)\<lparr>pendingEnumerate := []\<rparr>
         else g2)"

subsection \<open>Clients\<close>

definition removeClient :: "nat \<Rightarrow> gnubbies \<Rightarrow> gnubbies" where
  "removeClient who g =
     for_open (\<lambda>h g'.
       if ld_hasClient who (gb_heap g' h)
       then (let (d, n) = ld_deregister who (gb_heap g' h);
                 g1 = g'\<lparr>gb_heap := (gb_heap g')(h := d)\<rparr>
             in if n = 0 then destroy_dev h g1 else g1)
       else g') (resetInactivityTimer None g)"

definition opened :: "nat \<Rightarrow> nat \<Rightarrow> nat \<Rightarrow> gnubbies \<Rightarrow> gnubbies" where
  "opened h who cb g =
     (if ld_closing (gb_heap g h) then gb_emit (OpenCb cb (- NODEVICE) None) (removeClient who g)
      else gb_emit (OpenCb cb (- OK) (Some h)) (g\<lparr>gb_heap := (gb_heap g)(h := ld_register who (gb_heap g h))\<rparr>))"

text \<open>A missing list of openers where the code reads its \<open>length\<close> is an exception.\<close>

definition notifyOpenResult :: "string \<times> nat \<Rightarrow> int \<Rightarrow> gnubbies \<Rightarrow> gnubbies" where
  "notifyOpenResult wh rc g =
     (case map_of (pendingOpens g) (fst wh) of None \<Rightarrow> g
      | Some m \<Rightarrow>
        (case map_of m (snd wh) of None \<Rightarrow> gb_emit Raised g
         | Some ops \<Rightarrow> (let g1 = fold (\<lambda>(who, cb). gb_emit (OpenCb cb rc None)) ops g
                       in g1\<lparr>pendingOpens := del2 (fst wh) (snd wh) (pendingOpens g1)\<rparr>)))"

definition openCb :: "string \<times> nat \<Rightarrow> int \<Rightarrow> nat option \<Rightarrow> gnubbies \<Rightarrow> gnubbies" where
  "openCb wh rc opt_gnubby g =
     (if rc \<noteq> 0 then notifyOpenResult wh rc g
      else (case opt_gnubby of None \<Rightarrow> notifyOpenResult wh (- NODEVICE) g
        | Some h \<Rightarrow>
          (let g1 = g\<lparr>openDevs := put2 (fst wh) (snd wh) h (openDevs g)\<rparr> in
           case look2 (pendingOpens g1) (fst wh) (snd wh) of None \<Rightarrow> gb_emit Raised g1
           | Some ops \<Rightarrow>
             (let g2 = fold (\<lambda>(who, cb). opened h who cb) ops g1
              in g2\<lparr>pendingOpens := del2 (fst wh) (snd wh) (pendingOpens g2)\<rparr>))))"

definition device_listed :: "string \<times> nat \<Rightarrow> gnubbies \<Rightarrow> bool" where
  "device_listed wh g \<longleftrightarrow> (case map_of (gb_devs g) (fst wh) of None \<Rightarrow> False | Some ds \<Rightarrow> snd wh \<in> set ds)"

definition addClient :: "string \<times> nat \<Rightarrow> nat \<Rightarrow> nat \<Rightarrow> gnubbies \<Rightarrow> gnubbies" where
  "addClient wh who cb g =
     (let g1 = resetInactivityTimer None g in
      if \<not> device_listed wh g1 then gb_emit (OpenCb cb (- NODEVICE) None) (removeClient who g1)
      else (case look2 (openDevs g1) (fst wh) (snd wh) of
          Some h \<Rightarrow> opened h who cb g1
        | None \<Rightarrow>
          (case look2 (pendingOpens g1) (fst wh) (snd wh) of
             Some ops \<Rightarrow> g1\<lparr>pendingOpens := put2 (fst wh) (snd wh) (ops @ [(who, cb)]) (pendingOpens g1)\<rparr>
           | None \<Rightarrow> gb_emit (CallOpen (fst wh) (snd wh))
               (g1\<lparr>pendingOpens := put2 (fst wh) (snd wh) [(who, cb)] (pendingOpens g1)\<rparr>))))"

definition cancelAddClient :: "string \<times> nat \<Rightarrow> gnubbies \<Rightarrow> gnubbies" where
  "cancelAddClient wh g =
     (if \<not> device_listed wh g then g
      else if look2 (pendingOpens g) (fst wh) (snd wh) \<noteq> None
           \<and> (case map_of (gb_impl g) (fst wh) of Some im \<Rightarrow> im_cancelOpen im | None \<Rightarrow> False)
      then gb_emit (CallCancelOpen (fst wh) (snd wh)) g else g)"

text \<open>
  The events of the manager. The driver makes a new low-level device when it opens one; \<open>GbMade\<close>
  records it in the heap under its number, and \<open>GbDestroy\<close> is a destruction that the device itself or
  a client starts.
\<close>

datatype gb_event =
    GbAdd "string \<times> nat" nat nat
  | GbOpenResult "string \<times> nat" int "nat option"
  | GbEnumerate nat
  | GbEnumerated string bool "nat list"
  | GbRemove nat
  | GbCancel "string \<times> nat"
  | GbReset rat
  | GbTick
  | GbCloseAll
  | GbDestroy nat
  | GbMade nat "string \<times> nat"

definition device_made :: "nat \<Rightarrow> string \<times> nat \<Rightarrow> gnubbies \<Rightarrow> gnubbies" where
  "device_made h wh g = g\<lparr>gb_heap := (gb_heap g)(h :=
     \<lparr>ld_alive = True, ld_closing = False, ld_clients = [], ld_ns = fst wh, ld_id = snd wh\<rparr>)\<rparr>"

fun gb_step :: "gb_event \<Rightarrow> gnubbies \<Rightarrow> gnubbies" where
  "gb_step (GbAdd wh who cb) g = addClient wh who cb g"
| "gb_step (GbOpenResult wh rc h) g = openCb wh rc h g"
| "gb_step (GbEnumerate cb) g = enumerate cb g"
| "gb_step (GbEnumerated ns err ds) g = gb_enumerated ns err ds g"
| "gb_step (GbRemove who) g = removeClient who g"
| "gb_step (GbCancel wh) g = cancelAddClient wh g"
| "gb_step (GbReset t) g = resetInactivityTimer (Some t) g"
| "gb_step GbTick g = gb_tick g"
| "gb_step GbCloseAll g = closeAll g"
| "gb_step (GbDestroy h) g = destroy_dev h g"
| "gb_step (GbMade h wh) g = device_made h wh g"

subsection \<open>The drivers implement the low-level devices\<close>


subsection \<open>Tables\<close>

lemma look2_put2 [simp]: "look2 (put2 ns d v t) ns' d' = (if ns' = ns \<and> d' = d then Some v else look2 t ns' d')"
  by (auto simp: look2_def put2_def update_conv' split: option.splits)

lemma look2_del2 [simp]: "look2 (del2 ns d t) ns' d' = (if ns' = ns \<and> d' = d then None else look2 t ns' d')"
  by (auto simp: look2_def del2_def update_conv' delete_conv' split: option.splits)

definition table_ok :: "'v table \<Rightarrow> bool" where
  "table_ok t \<longleftrightarrow> distinct (map fst t) \<and> (\<forall>(ns, m) \<in> set t. distinct (map fst m))"

lemma table_ok_inner: "table_ok t \<Longrightarrow> map_of t ns = Some m \<Longrightarrow> distinct (map fst m)"
  by (auto simp: table_ok_def dest!: map_of_SomeD)

lemma set_update_subset: "set (AList.update k v t) \<subseteq> insert (k, v) (set t)"
  by (induction t) auto

lemma table_ok_update:
  "table_ok t \<Longrightarrow> distinct (map fst m) \<Longrightarrow> table_ok (AList.update ns m t)"
  using set_update_subset [of ns m t] by (auto simp: table_ok_def distinct_update)

lemma table_ok_put2 [simp]: "table_ok t \<Longrightarrow> table_ok (put2 ns d v t)"
  by (auto simp: put2_def intro!: table_ok_update distinct_update dest: table_ok_inner split: option.split)

lemma table_ok_del2 [simp]: "table_ok t \<Longrightarrow> table_ok (del2 ns d t)"
  by (auto simp: del2_def intro!: table_ok_update distinct_delete dest: table_ok_inner split: option.split)

lemma table_ok_Nil [simp]: "table_ok []"
  by (simp add: table_ok_def)

definition tsum :: "('v \<Rightarrow> nat) \<Rightarrow> 'v table \<Rightarrow> nat" where
  "tsum f t = asum (asum f) t"

lemma tsum_put2:
  assumes "table_ok t"
  shows "tsum f (put2 ns d v t) + (case look2 t ns d of None \<Rightarrow> 0 | Some v' \<Rightarrow> f v') = tsum f t + f v"
proof (cases "map_of t ns")
  case None
  then show ?thesis
    using asum_update [of t "asum f" ns "[(d, v)]"] assms
    by (simp add: tsum_def put2_def look2_def table_ok_def asum_def)
next
  case (Some m)
  have "asum (asum f) (AList.update ns (AList.update d v m) t) + asum f m
      = asum (asum f) t + asum f (AList.update d v m)"
    using asum_update [of t "asum f" ns "AList.update d v m"] assms Some by (simp add: table_ok_def)
  moreover have "asum f (AList.update d v m) + (case map_of m d of None \<Rightarrow> 0 | Some v' \<Rightarrow> f v') = asum f m + f v"
    by (rule asum_update) (rule table_ok_inner [OF assms Some])
  ultimately show ?thesis using Some by (simp add: tsum_def put2_def look2_def)
qed

lemma tsum_del2:
  assumes "table_ok t"
  shows "tsum f (del2 ns d t) + (case look2 t ns d of None \<Rightarrow> 0 | Some v' \<Rightarrow> f v') = tsum f t"
proof (cases "map_of t ns")
  case None
  then show ?thesis by (simp add: del2_def look2_def)
next
  case (Some m)
  have "asum (asum f) (AList.update ns (AList.delete d m) t) + asum f m
      = asum (asum f) t + asum f (AList.delete d m)"
    using asum_update [of t "asum f" ns "AList.delete d m"] assms Some by (simp add: table_ok_def)
  moreover have "asum f (AList.delete d m) + (case map_of m d of None \<Rightarrow> 0 | Some v' \<Rightarrow> f v') = asum f m"
    by (rule asum_delete) (rule table_ok_inner [OF assms Some])
  ultimately show ?thesis using Some by (simp add: tsum_def del2_def look2_def)
qed

subsection \<open>Every client is answered, and a device is opened once\<close>

definition is_open_cb :: "nat \<Rightarrow> gb_effect \<Rightarrow> bool" where
  "is_open_cb cb e = (case e of OpenCb c _ _ \<Rightarrow> c = cb | _ \<Rightarrow> False)"

definition open_answers :: "nat \<Rightarrow> gnubbies \<Rightarrow> nat" where
  "open_answers cb g = length (filter (is_open_cb cb) (gb_out g))"

definition open_calls :: "string \<times> nat \<Rightarrow> gnubbies \<Rightarrow> nat" where
  "open_calls wh g = length (filter (\<lambda>e. e = CallOpen (fst wh) (snd wh)) (gb_out g))"

definition waiting_for :: "nat \<Rightarrow> (nat \<times> nat) list \<Rightarrow> nat" where
  "waiting_for cb ops = length (filter (\<lambda>(who, c). c = cb) ops)"

definition open_waiting :: "nat \<Rightarrow> gnubbies \<Rightarrow> nat" where
  "open_waiting cb g = tsum (waiting_for cb) (pendingOpens g)"

text \<open>The operations that concern neither: they keep the pending opens and the calls listed so far.\<close>

definition same_opens :: "gnubbies \<Rightarrow> gnubbies \<Rightarrow> bool" where
  "same_opens g g' \<longleftrightarrow> pendingOpens g' = pendingOpens g
     \<and> (\<exists>es. gb_out g' = gb_out g @ es \<and> (\<forall>e \<in> set es. (\<forall>cb. \<not> is_open_cb cb e) \<and> (\<forall>ns d. e \<noteq> CallOpen ns d)))"

lemma same_refl [simp]: "same_opens g g"
  by (simp add: same_opens_def)

lemma same_trans: "same_opens g g' \<Longrightarrow> same_opens g' g'' \<Longrightarrow> same_opens g g''"
  unfolding same_opens_def by (metis UnE append.assoc set_append)

lemma same_counts:
  "same_opens g g' \<Longrightarrow> open_answers cb g' = open_answers cb g \<and> open_calls wh g' = open_calls wh g
     \<and> open_waiting cb g' = open_waiting cb g \<and> pendingOpens g' = pendingOpens g"
  by (auto simp: same_opens_def open_answers_def open_calls_def open_waiting_def filter_empty_conv)

lemma same_silent: "pendingOpens g' = pendingOpens g \<Longrightarrow> gb_out g' = gb_out g \<Longrightarrow> same_opens g g'"
  by (simp add: same_opens_def)

lemma same_emit:
  "(\<And>cb. \<not> is_open_cb cb e) \<Longrightarrow> (\<And>ns d. e \<noteq> CallOpen ns d) \<Longrightarrow> same_opens g (gb_emit e g)"
  by (simp add: same_opens_def gb_emit_def)

lemma same_fold: "(\<And>x g. same_opens g (h x g)) \<Longrightarrow> same_opens g (fold h xs g)"
proof (induction xs arbitrary: g)
  case (Cons x xs)
  have "same_opens g (h x g)" "same_opens (h x g) (fold h xs (h x g))" by (rule Cons.prems, rule Cons.IH, rule Cons.prems)
  then show ?case by (auto intro: same_trans)
qed simp

lemma same_destroy: "same_opens g (destroy_dev h g)"
  by (rule same_silent) (auto simp: destroy_dev_def removeOpenDevice_def Let_def)

lemma same_reset: "same_opens g (resetInactivityTimer t g)"
  by (rule same_silent) (auto simp: resetInactivityTimer_def Let_def split: prod.splits option.splits)

lemma same_for_open: "(\<And>x g. same_opens g (h x g)) \<Longrightarrow> same_opens g (for_open h g)"
  unfolding for_open_def by (rule same_fold) (auto split: option.split)

lemma same_removeClient: "same_opens g (removeClient who g)"
proof -
  have "same_opens (resetInactivityTimer None g) (removeClient who g)"
    unfolding removeClient_def
    by (rule same_for_open) (auto simp: Let_def split: prod.split
        intro: same_trans [OF same_silent same_destroy] same_silent)
  then show ?thesis by (rule same_trans [OF same_reset])
qed

lemma same_tick: "same_opens g (gb_tick g)"
proof -
  have s: "same_opens g (for_open destroy_dev (g\<lparr>gb_sys := s, inactivityTimer := t\<rparr>))" for s t
    by (rule same_trans [OF same_silent same_for_open [OF same_destroy]]) auto
  have "same_opens g (g\<lparr>gb_sys := s, inactivityTimer := t\<rparr>)" for s t by (rule same_silent) auto
  with s show ?thesis unfolding gb_tick_def inactivityTimeout_def Let_def by (auto split: option.split prod.split)
qed

lemma same_closeAll: "same_opens g (closeAll g)"
proof -
  have "same_opens g (case inactivityTimer g of None \<Rightarrow> g
      | Some t \<Rightarrow> g\<lparr>gb_sys := fst (cd_clearTimeout (gb_sys g) t), inactivityTimer := None\<rparr>)" (is "same_opens g ?g1")
    by (auto intro: same_silent split: option.split)
  moreover have "same_opens ?g1 (for_open destroy_dev ?g1)" by (rule same_for_open [OF same_destroy])
  moreover have "same_opens g2 (g2\<lparr>gb_devs := [], openDevs := []\<rparr>)" for g2 by (rule same_silent) auto
  ultimately show ?thesis unfolding closeAll_def Let_def by (blast intro: same_trans)
qed

lemma same_enumerate: "same_opens g (enumerate cb g)"
proof -
  have e: "same_opens g (gb_emit (CallEnumerate ns) g)" for g ns by (rule same_emit) (auto simp: is_open_cb_def)
  have "same_opens g (fold (\<lambda>ns. gb_emit (CallEnumerate ns)) nss g1)"
    if "pendingOpens g1 = pendingOpens g" "gb_out g1 = gb_out g" for nss g1
    by (rule same_trans [OF same_silent same_fold]) (use that e in auto)
  moreover have "same_opens g (gb_emit (EnumerateCb cb (- OK) []) g)" by (rule same_emit) (auto simp: is_open_cb_def)
  moreover have "same_opens g (g\<lparr>pendingEnumerate := p\<rparr>)" for p by (rule same_silent) auto
  ultimately show ?thesis unfolding enumerate_def Let_def by simp
qed

lemma same_remove_absent: "same_opens g (remove_absent ns devs g)"
  unfolding remove_absent_def Let_def
  by (rule same_fold) (auto simp: Let_def split: option.split
      intro: same_trans [OF same_destroy same_silent])

lemma same_gb_enumerated: "same_opens g (gb_enumerated ns err ds g)"
proof -
  have f: "same_opens g (fold (\<lambda>cb. gb_emit (EnumerateCb cb (- OK) ids)) cbs g)" for g cbs ids
    by (rule same_fold, rule same_emit) (auto simp: is_open_cb_def)
  have p: "same_opens g (g\<lparr>pendingEnumerate := []\<rparr>)" for g by (rule same_silent) auto
  let ?devs = "if err then [] else ds"
  let ?g1 = "remove_absent ns ?devs (g\<lparr>gb_run := (fst (gb_run g) + 1, snd (gb_run g))\<rparr>)"
  have "same_opens g ?g1" by (rule same_trans [OF same_silent same_remove_absent]) auto
  moreover have "same_opens ?g1 (?g1\<lparr>gb_devs := D, gb_run := R\<rparr>)" for D R by (rule same_silent) auto
  ultimately have "same_opens g (?g1\<lparr>gb_devs := D, gb_run := R\<rparr>)" for D R by (rule same_trans)
  then show ?thesis
    unfolding gb_enumerated_def Let_def by (auto intro: same_trans [OF _ same_trans [OF f p]])
qed

text \<open>The openers that are answered in one go.\<close>

lemma answers_emit:
  "open_answers cb (gb_emit e g) = open_answers cb g + (if is_open_cb cb e then 1 else 0)"
  "open_calls wh (gb_emit e g) = open_calls wh g + (if e = CallOpen (fst wh) (snd wh) then 1 else 0)"
  "open_waiting cb (gb_emit e g) = open_waiting cb g"
  "pendingOpens (gb_emit e g) = pendingOpens g"
  by (auto simp: open_answers_def open_calls_def open_waiting_def gb_emit_def)

lemma is_open_cb_simps [simp]: "is_open_cb cb (OpenCb c rc h) \<longleftrightarrow> c = cb" "\<not> is_open_cb cb Raised"
  "\<not> is_open_cb cb (CallOpen ns d)" "\<not> is_open_cb cb (CallCancelOpen ns d)"
  by (auto simp: is_open_cb_def)

lemma opened_counts:
  "open_answers cb (opened h who c g) = open_answers cb g + (if c = cb then 1 else 0)
   \<and> open_calls wh (opened h who c g) = open_calls wh g
   \<and> open_waiting cb (opened h who c g) = open_waiting cb g \<and> pendingOpens (opened h who c g) = pendingOpens g"
  using same_counts [OF same_removeClient [of g who], of cb wh]
  by (auto simp: opened_def answers_emit) (auto simp: open_answers_def open_calls_def open_waiting_def)

lemma fold_answers:
  assumes "\<And>who c g. open_answers cb (h (who, c) g) = open_answers cb g + (if c = cb then 1 else 0)
      \<and> open_calls wh (h (who, c) g) = open_calls wh g \<and> pendingOpens (h (who, c) g) = pendingOpens g"
  shows "open_answers cb (fold h ops g) = open_answers cb g + waiting_for cb ops
      \<and> open_calls wh (fold h ops g) = open_calls wh g \<and> pendingOpens (fold h ops g) = pendingOpens g"
proof (induction ops arbitrary: g)
  case (Cons p ops)
  obtain who c where "p = (who, c)" by (cases p)
  with assms [of who c g] Cons [of "h p g"] show ?case by (simp add: waiting_for_def)
qed (simp add: waiting_for_def)

text \<open>What one event adds to the requests for a callback, and the results the driver delivers.\<close>

fun asks :: "nat \<Rightarrow> gb_event \<Rightarrow> nat" where
  "asks cb (GbAdd wh who c) = (if c = cb then 1 else 0)"
| "asks cb _ = 0"

fun delivers :: "string \<times> nat \<Rightarrow> gb_event \<Rightarrow> bool" where
  "delivers wh (GbOpenResult wh' rc h) = (wh' = wh)"
| "delivers wh _ = False"

definition is_pending :: "string \<times> nat \<Rightarrow> gnubbies \<Rightarrow> bool" where
  "is_pending wh g \<longleftrightarrow> look2 (pendingOpens g) (fst wh) (snd wh) \<noteq> None"

definition opens_step :: "nat \<Rightarrow> string \<times> nat \<Rightarrow> nat \<Rightarrow> bool \<Rightarrow> gnubbies \<Rightarrow> gnubbies \<Rightarrow> bool" where
  "opens_step cb wh asked dlv g g' \<longleftrightarrow> table_ok (pendingOpens g')
     \<and> open_answers cb g' + open_waiting cb g' = open_answers cb g + open_waiting cb g + asked
     \<and> open_calls wh g' + (if is_pending wh g \<and> \<not> dlv then 1 else 0) = open_calls wh g + (if is_pending wh g' then 1 else 0)"

lemma same_opens_step: "same_opens g g' \<Longrightarrow> table_ok (pendingOpens g) \<Longrightarrow> opens_step cb wh 0 False g g'"
  using same_counts [of g g' cb wh] by (simp add: opens_step_def is_pending_def)

lemma put_counts:
  assumes "table_ok (pendingOpens g)"
  shows "open_waiting cb (g\<lparr>pendingOpens := put2 (fst w) (snd w) ops (pendingOpens g)\<rparr>)
      + (case look2 (pendingOpens g) (fst w) (snd w) of None \<Rightarrow> 0 | Some o' \<Rightarrow> waiting_for cb o')
      = open_waiting cb g + waiting_for cb ops"
  using tsum_put2 [OF assms, of "waiting_for cb"] by (simp add: open_waiting_def)

lemma del_counts:
  assumes "table_ok (pendingOpens g)"
  shows "open_waiting cb (g\<lparr>pendingOpens := del2 (fst w) (snd w) (pendingOpens g)\<rparr>)
      + (case look2 (pendingOpens g) (fst w) (snd w) of None \<Rightarrow> 0 | Some o' \<Rightarrow> waiting_for cb o')
      = open_waiting cb g"
  using tsum_del2 [OF assms, of "waiting_for cb"] by (simp add: open_waiting_def)

lemma pending_update_simps [simp]:
  "open_answers cb (g\<lparr>pendingOpens := p\<rparr>) = open_answers cb g"
  "open_calls wh (g\<lparr>pendingOpens := p\<rparr>) = open_calls wh g"
  "is_pending wh (gb_emit e g) = is_pending wh g"
  "is_pending wh (g\<lparr>pendingOpens := put2 (fst w) (snd w) v t\<rparr>) \<longleftrightarrow> w = wh \<or> look2 t (fst wh) (snd wh) \<noteq> None"
  "is_pending wh (g\<lparr>pendingOpens := del2 (fst w) (snd w) t\<rparr>) \<longleftrightarrow> w \<noteq> wh \<and> look2 t (fst wh) (snd wh) \<noteq> None"
  by (auto simp: open_answers_def open_calls_def is_pending_def gb_emit_def prod_eq_iff)

lemma waiting_for_simps [simp]:
  "waiting_for cb [] = 0"
  "waiting_for cb (ops @ [(who, c)]) = waiting_for cb ops + (if c = cb then 1 else 0)"
  "waiting_for cb ((who, c) # ops) = (if c = cb then 1 else 0) + waiting_for cb ops"
  by (auto simp: waiting_for_def)

lemma opens_step_add:
  assumes ok: "table_ok (pendingOpens g)"
  shows "opens_step cb wh (if c = cb then 1 else 0) False g (addClient w who c g)"
proof -
  let ?g1 = "resetInactivityTimer None g"
  note r = same_counts [OF same_reset [of g None], of cb wh]
  note rm = same_counts [OF same_removeClient [of ?g1 who], of cb wh]
  have ok1: "table_ok (pendingOpens ?g1)" using ok r by simp
  have p: "is_pending wh ?g1 = is_pending wh g" using r by (simp add: is_pending_def)
  show ?thesis
  proof (cases "device_listed w ?g1")
    case False
    with r rm ok show ?thesis
      by (simp add: addClient_def Let_def opens_step_def answers_emit is_pending_def)
  next
    case l: True
    show ?thesis
    proof (cases "look2 (openDevs ?g1) (fst w) (snd w)")
      case (Some h)
      with l r ok opened_counts [of cb h who c ?g1 wh] show ?thesis
        by (simp add: addClient_def Let_def opens_step_def is_pending_def)
    next
      case None
      show ?thesis
      proof (cases "look2 (pendingOpens ?g1) (fst w) (snd w)")
        case (Some ops)
        moreover have "w = wh \<Longrightarrow> is_pending wh g" using Some r by (simp add: is_pending_def)
        ultimately show ?thesis
          using l \<open>look2 (openDevs ?g1) (fst w) (snd w) = None\<close> r ok1 p
            put_counts [OF ok1, of cb w "ops @ [(who, c)]"]
          by (auto simp: addClient_def Let_def opens_step_def) (auto simp: is_pending_def)
      next
        case None
        moreover have "w = wh \<Longrightarrow> \<not> is_pending wh g" using None r by (simp add: is_pending_def)
        moreover have "CallOpen (fst w) (snd w) = CallOpen (fst wh) (snd wh) \<longleftrightarrow> w = wh"
          by (auto simp: prod_eq_iff)
        ultimately show ?thesis
          using l \<open>look2 (openDevs ?g1) (fst w) (snd w) = None\<close> r ok1 p
            put_counts [OF ok1, of cb w "[(who, c)]"]
          by (auto simp: addClient_def Let_def opens_step_def answers_emit simp del: gb_effect.inject)
            (auto simp: is_pending_def)
      qed
    qed
  qed
qed

lemma map_of_look2: "map_of t ns = None \<Longrightarrow> look2 t ns d = None"
  by (simp add: look2_def)

lemma opens_step_notify:
  assumes ok: "table_ok (pendingOpens g)" and p: "is_pending w g"
  shows "opens_step cb wh 0 (w = wh) g (notifyOpenResult w rc g)"
proof -
  obtain m ops where m: "map_of (pendingOpens g) (fst w) = Some m" "map_of m (snd w) = Some ops"
    using p by (auto simp: is_pending_def look2_def split: option.splits)
  then have l: "look2 (pendingOpens g) (fst w) (snd w) = Some ops" by (simp add: look2_def)
  let ?g1 = "fold (\<lambda>(who, c). gb_emit (OpenCb c rc None)) ops g"
  have f: "open_answers cb ?g1 = open_answers cb g + waiting_for cb ops \<and> open_calls wh ?g1 = open_calls wh g
      \<and> pendingOpens ?g1 = pendingOpens g"
    by (rule fold_answers) (simp add: answers_emit)
  moreover have "open_waiting cb ?g1 = open_waiting cb g" using f by (simp add: open_waiting_def)
  moreover have "notifyOpenResult w rc g = ?g1\<lparr>pendingOpens := del2 (fst w) (snd w) (pendingOpens ?g1)\<rparr>"
    using m by (simp add: notifyOpenResult_def Let_def)
  ultimately show ?thesis
    using ok p l del_counts [of ?g1 cb w] by (auto simp: opens_step_def) (auto simp: is_pending_def)
qed

lemma opens_step_open:
  assumes ok: "table_ok (pendingOpens g)" and p: "is_pending w g"
  shows "opens_step cb wh 0 (w = wh) g (openCb w rc h g)"
proof (cases "rc = 0 \<and> h \<noteq> None")
  case False
  with opens_step_notify [OF ok p] show ?thesis by (auto simp: openCb_def)
next
  case True
  then obtain d where h: "h = Some d" "rc = 0" by auto
  let ?g0 = "g\<lparr>openDevs := put2 (fst w) (snd w) d (openDevs g)\<rparr>"
  obtain ops where l: "look2 (pendingOpens g) (fst w) (snd w) = Some ops" using p by (auto simp: is_pending_def)
  let ?g1 = "fold (\<lambda>(who, c). opened d who c) ops ?g0"
  have f: "open_answers cb ?g1 = open_answers cb ?g0 + waiting_for cb ops \<and> open_calls wh ?g1 = open_calls wh ?g0
      \<and> pendingOpens ?g1 = pendingOpens ?g0"
    by (rule fold_answers) (simp add: opened_counts)
  moreover have "open_waiting cb ?g1 = open_waiting cb g" using f by (simp add: open_waiting_def)
  moreover have "openCb w rc h g = ?g1\<lparr>pendingOpens := del2 (fst w) (snd w) (pendingOpens ?g1)\<rparr>"
    using l h by (simp add: openCb_def Let_def)
  moreover have "open_answers cb ?g0 = open_answers cb g" "open_calls wh ?g0 = open_calls wh g"
    by (simp_all add: open_answers_def open_calls_def)
  ultimately show ?thesis
    using ok p l del_counts [of ?g1 cb w] by (auto simp: opens_step_def) (auto simp: is_pending_def)
qed

text \<open>The driver answers an \<open>open\<close> that is under way.\<close>

fun results_expected :: "gb_event list \<Rightarrow> gnubbies \<Rightarrow> bool" where
  "results_expected [] g = True"
| "results_expected (e # es) g =
     ((case e of GbOpenResult w _ _ \<Rightarrow> is_pending w g | _ \<Rightarrow> True) \<and> results_expected es (gb_step e g))"

lemma opens_step_event:
  assumes ok: "table_ok (pendingOpens g)" and "results_expected [e] g"
  shows "opens_step cb wh (asks cb e) (delivers wh e) g (gb_step e g)"
proof -
  have cancel: "same_opens g (cancelAddClient w g)" for w
    by (auto simp: cancelAddClient_def intro: same_emit)
  show ?thesis
    using opens_step_add [OF ok] opens_step_open [OF ok] assms(2) cancel
      same_opens_step [OF same_enumerate ok] same_opens_step [OF same_gb_enumerated ok]
      same_opens_step [OF same_removeClient ok] same_opens_step [OF cancel ok]
      same_opens_step [OF same_reset ok] same_opens_step [OF same_tick ok] same_opens_step [OF same_closeAll ok]
      same_opens_step [OF same_destroy ok] same_opens_step [OF same_silent ok]
    by (cases e) (auto simp: device_made_def)
qed

lemma opens_run:
  assumes "table_ok (pendingOpens g)" "results_expected es g"
  shows "open_answers cb (fold gb_step es g) + open_waiting cb (fold gb_step es g)
      = open_answers cb g + open_waiting cb g + sum_list (map (asks cb) es)
    \<and> open_calls wh (fold gb_step es g) + (if is_pending wh g then 1 else 0)
      = open_calls wh g + (if is_pending wh (fold gb_step es g) then 1 else 0) + length (filter (delivers wh) es)"
  using assms
proof (induction es arbitrary: g)
  case (Cons e es)
  have s: "opens_step cb wh (asks cb e) (delivers wh e) g (gb_step e g)"
    using Cons.prems by (intro opens_step_event) auto
  moreover have "delivers wh e \<Longrightarrow> is_pending wh g" using Cons.prems by (cases e) auto
  ultimately show ?case
    using Cons.IH [of "gb_step e g"] Cons.prems by (auto simp: opens_step_def split: if_splits)
qed simp

text \<open>
  C24. Every client is answered, and a device is opened once for all of them. In every history of clients,
  removals, enumerations, timers, destructions and results of the drivers, the callbacks given to
  \<open>addClient\<close> are exactly those that were called and those that still wait for an open (so none is lost
  or called twice), and the driver's \<open>open\<close> of a device was called once for every result it delivered, and
  once more exactly while clients wait for it: two opens of one device never overlap.
\<close>

theorem addClient_answers:
  assumes "results_expected es (Gnubbies sys)"
  shows "open_answers cb (fold gb_step es (Gnubbies sys)) + open_waiting cb (fold gb_step es (Gnubbies sys))
      = sum_list (map (asks cb) es)
    \<and> open_calls wh (fold gb_step es (Gnubbies sys))
      = length (filter (delivers wh) es) + (if is_pending wh (fold gb_step es (Gnubbies sys)) then 1 else 0)"
proof -
  have "table_ok (pendingOpens (Gnubbies sys))" "open_answers cb (Gnubbies sys) = 0"
    "open_waiting cb (Gnubbies sys) = 0" "open_calls wh (Gnubbies sys) = 0" "\<not> is_pending wh (Gnubbies sys)"
    by (simp_all add: Gnubbies_def open_answers_def open_waiting_def open_calls_def is_pending_def look2_def
        tsum_def asum_def)
  with opens_run [OF this(1) assms, of cb wh] show ?thesis by simp
qed

definition two_clients :: "gb_event list" where
  "two_clients = [GbEnumerated ''hid'' False [7], GbAdd (''hid'', 7) 1 11, GbAdd (''hid'', 7) 2 12,
     GbMade 5 (''hid'', 7), GbOpenResult (''hid'', 7) 0 (Some 5)]"

theorem addClient_answers_witness:
  "open_answers 12 (fold gb_step two_clients (Gnubbies \<lparr>sys_last = 0, sys_armed = []\<rparr>)) = 1
   \<and> open_calls (''hid'', 7) (fold gb_step two_clients (Gnubbies \<lparr>sys_last = 0, sys_armed = []\<rparr>)) = 1"
proof -
  let ?G = "Gnubbies \<lparr>sys_last = 0, sys_armed = []\<rparr>"
  have e: "results_expected two_clients ?G" by code_simp
  have "open_waiting 12 (fold gb_step two_clients ?G) = 0" by code_simp
  moreover have "\<not> is_pending (''hid'', 7) (fold gb_step two_clients ?G)" by code_simp
  ultimately show ?thesis
    using addClient_answers [OF e, of 12 "(''hid'', 7)"] by (simp add: two_clients_def)
qed

subsection \<open>Clients leave, devices disappear\<close>

text \<open>Every open device is alive and registered under its own namespace and number.\<close>

definition devs_ok :: "gnubbies \<Rightarrow> bool" where
  "devs_ok g \<longleftrightarrow> (\<forall>ns d h. look2 (openDevs g) ns d = Some h \<longrightarrow>
     ld_alive (gb_heap g h) \<and> ld_ns (gb_heap g h) = ns \<and> ld_id (gb_heap g h) = d)"

text \<open>What a client's leaving makes of a device.\<close>

definition left :: "nat \<Rightarrow> ldev \<Rightarrow> ldev" where
  "left who c =
     (if who \<notin> set (ld_clients c) then c
      else if set (ld_clients c) \<subseteq> {who} then c\<lparr>ld_closing := True, ld_clients := [], ld_alive := False\<rparr>
      else c\<lparr>ld_clients := filter (\<lambda>x. x \<noteq> who) (ld_clients c)\<rparr>)"

text \<open>A loop that touches each open device of \<open>D\<close> once, by \<open>h\<close>, and forgets it when it dies.\<close>

definition touched :: "(ldev \<Rightarrow> ldev) \<Rightarrow> (string \<times> nat) set \<Rightarrow> gnubbies \<Rightarrow> gnubbies \<Rightarrow> bool" where
  "touched f D g g' \<longleftrightarrow>
     (\<forall>ns d. look2 (openDevs g') ns d = (case look2 (openDevs g) ns d of None \<Rightarrow> None
        | Some h \<Rightarrow> if (ns, d) \<in> D \<and> \<not> ld_alive (f (gb_heap g h)) then None else Some h))
     \<and> (\<forall>ns d h. look2 (openDevs g) ns d = Some h \<longrightarrow>
          gb_heap g' h = (if (ns, d) \<in> D then f (gb_heap g h) else gb_heap g h))"

lemma touched_empty: "touched f {} g g"
  by (auto simp: touched_def split: option.split)

lemma touched_look:
  "touched f D g g' \<Longrightarrow> look2 (openDevs g') ns d = Some h \<Longrightarrow>
     look2 (openDevs g) ns d = Some h \<and> ((ns, d) \<in> D \<longrightarrow> ld_alive (f (gb_heap g h)))"
  unfolding touched_def by (cases "look2 (openDevs g) ns d") (auto split: if_splits)

lemma touched_heap:
  "touched f D g g' \<Longrightarrow> look2 (openDevs g) ns d = Some h \<Longrightarrow>
     gb_heap g' h = (if (ns, d) \<in> D then f (gb_heap g h) else gb_heap g h)"
  unfolding touched_def by blast

lemma all_devices_iff: "(ns, d) \<in> set (all_devices t) \<longleftrightarrow> look2 t ns d \<noteq> None"
proof -
  have "(ns, d) \<in> set (all_devices t) \<longleftrightarrow> ns \<in> fst ` set t \<and> d \<in> set (devices_of t ns)"
    by (auto simp: all_devices_def)
  also have "\<dots> \<longleftrightarrow> look2 t ns d \<noteq> None"
  proof (cases "map_of t ns")
    case None
    then show ?thesis by (simp add: look2_def devices_of_def)
  next
    case (Some m)
    then have "ns \<in> fst ` set t" by (force dest: map_of_SomeD)
    moreover have "d \<in> fst ` set m \<longleftrightarrow> map_of m d \<noteq> None" by (simp add: map_of_eq_None_iff)
    ultimately show ?thesis using Some by (simp add: look2_def devices_of_def)
  qed
  finally show ?thesis .
qed

text \<open>One step of such a loop, for an operation that acts on the device it is given.\<close>

definition acts :: "(ldev \<Rightarrow> ldev) \<Rightarrow> (string \<times> nat \<Rightarrow> nat \<Rightarrow> gnubbies \<Rightarrow> gnubbies) \<Rightarrow> bool" where
  "acts f op \<longleftrightarrow> (\<forall>g h. ld_alive (gb_heap g h) \<longrightarrow>
     (let k = (ld_ns (gb_heap g h), ld_id (gb_heap g h)); g' = op k h g in
      gb_heap g' = (gb_heap g)(h := f (gb_heap g h))
      \<and> (\<forall>ns d. look2 (openDevs g') ns d
            = (if ld_alive (f (gb_heap g h)) \<or> (ns, d) \<noteq> k then look2 (openDevs g) ns d else None))))"

definition keeps_name :: "(ldev \<Rightarrow> ldev) \<Rightarrow> bool" where
  "keeps_name f \<longleftrightarrow> (\<forall>c. ld_ns (f c) = ld_ns c \<and> ld_id (f c) = ld_id c \<and> f (f c) = f c)"

lemma touched_step:
  assumes ok: "devs_ok g" and a: "acts f op" and k: "keeps_name f" and t: "touched f D g g'"
  shows "touched f (insert (ns, d) D) g
     (case look2 (openDevs g') ns d of None \<Rightarrow> g' | Some h \<Rightarrow> op (ns, d) h g')"
proof (cases "look2 (openDevs g') ns d")
  case None
  then show ?thesis
    using t ok by (auto simp: touched_def devs_ok_def split: option.splits if_splits)
next
  case (Some h)
  note D = touched_look [OF t Some]
  then have h: "look2 (openDevs g) ns d = Some h" by blast
  note c1 = touched_heap [OF t h]
  with D h ok have c: "gb_heap g' h = (if (ns, d) \<in> D then f (gb_heap g h) else gb_heap g h)" "ld_alive (gb_heap g' h)"
    by (auto simp: devs_ok_def)
  have n: "ld_ns (gb_heap g' h) = ns" "ld_id (gb_heap g' h) = d"
    using c h ok k by (auto simp: devs_ok_def keeps_name_def)
  have fc: "f (gb_heap g' h) = f (gb_heap g h)" using c k by (auto simp: keeps_name_def)
  have uniq: "look2 (openDevs g) ns' d' = Some h \<Longrightarrow> ns' = ns \<and> d' = d" for ns' d'
    using ok h unfolding devs_ok_def by metis
  let ?g'' = "op (ns, d) h g'"
  have *: "gb_heap ?g'' = (gb_heap g')(h := f (gb_heap g h))"
    "look2 (openDevs ?g'') ns' d' = (if ld_alive (f (gb_heap g h)) \<or> (ns', d') \<noteq> (ns, d)
        then look2 (openDevs g') ns' d' else None)" for ns' d'
    using a [unfolded acts_def Let_def, THEN spec [of _ g'], THEN spec [of _ h]] c(2) n fc by simp_all
  have "look2 (openDevs ?g'') ns' d' = (case look2 (openDevs g) ns' d' of None \<Rightarrow> None
      | Some h' \<Rightarrow> if (ns', d') \<in> insert (ns, d) D \<and> \<not> ld_alive (f (gb_heap g h')) then None else Some h')"
    for ns' d'
  proof (cases "ns' = ns \<and> d' = d")
    case True
    with h Some show ?thesis by (simp add: *)
  next
    case False
    then have "look2 (openDevs ?g'') ns' d' = look2 (openDevs g') ns' d'" "(ns', d') \<noteq> (ns, d)"
      by (auto simp: *)
    with t show ?thesis unfolding touched_def by (cases "look2 (openDevs g) ns' d'") auto
  qed
  moreover have "gb_heap ?g'' h' = (if (ns', d') \<in> insert (ns, d) D then f (gb_heap g h') else gb_heap g h')"
    if "look2 (openDevs g) ns' d' = Some h'" for ns' d' h'
  proof (cases "h' = h")
    case True
    with uniq [of ns' d'] that have "ns' = ns" "d' = d" by auto
    with True show ?thesis by (simp add: *)
  next
    case False
    with that h have "(ns', d') \<noteq> (ns, d)" by auto
    with False show ?thesis using touched_heap [OF t that] by (auto simp: *)
  qed
  ultimately show ?thesis using Some by (simp add: touched_def)
qed

lemma touched_fold:
  assumes ok: "devs_ok g" and a: "acts f op" and k: "keeps_name f"
  shows "touched f D g g' \<Longrightarrow> touched f (D \<union> set xs) g
     (fold (\<lambda>(ns, d) g'. case look2 (openDevs g') ns d of None \<Rightarrow> g' | Some h \<Rightarrow> op (ns, d) h g') xs g')"
proof (induction xs arbitrary: D g')
  case (Cons x xs)
  obtain ns d where x: "x = (ns, d)" by (cases x)
  from Cons.IH [OF touched_step [OF ok a k Cons.prems, of ns d]] show ?case
    by (simp add: x)
qed simp

lemma acts_destroy: "acts ld_destroy (\<lambda>_. destroy_dev)"
  by (auto simp: acts_def Let_def destroy_dev_def removeOpenDevice_def ld_destroy_def)

lemma keeps_destroy: "keeps_name ld_destroy"
  by (auto simp: keeps_name_def ld_destroy_def)

definition remove_from :: "nat \<Rightarrow> nat \<Rightarrow> gnubbies \<Rightarrow> gnubbies" where
  "remove_from who h g =
     (if ld_hasClient who (gb_heap g h)
      then (let (d, n) = ld_deregister who (gb_heap g h);
                g1 = g\<lparr>gb_heap := (gb_heap g)(h := d)\<rparr>
            in if n = 0 then destroy_dev h g1 else g1)
      else g)"

lemma filter_other_Nil: "filter (\<lambda>x. x \<noteq> who) cs = [] \<longleftrightarrow> set cs \<subseteq> {who}"
  by (auto simp: filter_empty_conv)

lemma acts_remove: "acts (left who) (\<lambda>_. remove_from who)"
  by (auto simp: acts_def remove_from_def left_def ld_hasClient_def ld_deregister_def Let_def
      destroy_dev_def removeOpenDevice_def ld_destroy_def filter_other_Nil subset_singleton_iff)

lemma keeps_left: "keeps_name (left who)"
  by (auto simp: keeps_name_def left_def)

lemma touched_all:
  assumes "devs_ok g" "acts f (\<lambda>_. op)" "keeps_name f"
  shows "touched f UNIV g (for_open op g)"
proof -
  have "touched f ({} \<union> set (all_devices (openDevs g))) g (for_open op g)"
    unfolding for_open_def by (rule touched_fold [OF assms touched_empty])
  then show ?thesis by (simp add: touched_def all_devices_iff split: option.splits)
qed

lemma removeClient_alt: "removeClient who g = for_open (remove_from who) (resetInactivityTimer None g)"
  unfolding removeClient_def remove_from_def by (rule arg_cong2 [where f = for_open]) (simp_all add: fun_eq_iff)

lemma reset_devices [simp]:
  "openDevs (resetInactivityTimer t g) = openDevs g" "gb_heap (resetInactivityTimer t g) = gb_heap g"
  by (auto simp: resetInactivityTimer_def Let_def split: prod.split option.split)

text \<open>
  When a client leaves, each open device loses exactly that client; a device it was the only client of
  is destroyed and is not open any more, and all others stay open with their other clients. When the time
  without activity has passed, every open device is destroyed.
\<close>

theorem removeClient_closes_unused:
  assumes "devs_ok g" "look2 (openDevs g) ns d = Some h"
  shows "(let c = gb_heap g h; g' = removeClient who g; g'' = inactivityTimeout g in
    gb_heap g' h = left who c
    \<and> look2 (openDevs g') ns d = (if who \<in> set (ld_clients c) \<and> set (ld_clients c) \<subseteq> {who} then None else Some h)
    \<and> look2 (openDevs g'') ns d = None \<and> \<not> ld_alive (gb_heap g'' h) \<and> ld_clients (gb_heap g'' h) = [])"
proof -
  let ?g0 = "resetInactivityTimer None g"
  have a: "ld_alive (gb_heap g h)" using assms by (simp add: devs_ok_def)
  have "devs_ok ?g0" using assms(1) by (simp add: devs_ok_def)
  from touched_all [OF this acts_remove keeps_left, of who]
  have t: "touched (left who) UNIV ?g0 (removeClient who g)" by (simp add: removeClient_alt)
  have ok1: "devs_ok (g\<lparr>inactivityTimer := None\<rparr>)" using assms(1) by (simp add: devs_ok_def)
  have t': "touched ld_destroy UNIV (g\<lparr>inactivityTimer := None\<rparr>) (inactivityTimeout g)"
    unfolding inactivityTimeout_def by (rule touched_all [OF ok1 acts_destroy keeps_destroy])
  have "gb_heap (removeClient who g) h = left who (gb_heap g h)"
    using touched_heap [OF t] assms(2) by simp
  moreover have "look2 (openDevs (removeClient who g)) ns d
      = (if ld_alive (left who (gb_heap g h)) then Some h else None)"
    using t assms(2) by (simp add: touched_def)
  moreover have "ld_alive (left who (gb_heap g h)) \<longleftrightarrow>
      \<not> (who \<in> set (ld_clients (gb_heap g h)) \<and> set (ld_clients (gb_heap g h)) \<subseteq> {who})"
    using a by (auto simp: left_def)
  moreover have "gb_heap (inactivityTimeout g) h = ld_destroy (gb_heap g h)"
    using touched_heap [OF t'] assms(2) by simp
  moreover have "look2 (openDevs (inactivityTimeout g)) ns d = None"
    using t' assms(2) a by (simp add: touched_def ld_destroy_def)
  ultimately show ?thesis using a by (simp add: Let_def ld_destroy_def)
qed

definition shared_device :: gnubbies where
  "shared_device = fold gb_step two_clients (Gnubbies \<lparr>sys_last = 0, sys_armed = []\<rparr>)"

lemma shared_device_open: "openDevs shared_device = [(''hid'', [(7, 5)])]"
  "gb_heap shared_device 5 = \<lparr>ld_alive = True, ld_closing = False, ld_clients = [1, 2], ld_ns = ''hid'', ld_id = 7\<rparr>"
  by code_simp+

theorem removeClient_closes_unused_witness:
  "ld_clients (gb_heap (removeClient 1 shared_device) 5) = [2]
   \<and> look2 (openDevs (inactivityTimeout shared_device)) ''hid'' 7 = None"
proof -
  have "devs_ok shared_device" by (auto simp: devs_ok_def look2_def shared_device_open split: if_splits)
  from removeClient_closes_unused [OF this, of "''hid''" 7 5 1] show ?thesis
    by (simp add: look2_def shared_device_open Let_def left_def)
qed

lemma remove_absent_touched:
  assumes "devs_ok g"
  shows "touched ld_destroy ({} \<union> set (map (Pair ns) (filter (\<lambda>d. d \<notin> set devs) (devices_of (openDevs g) ns)))) g
     (remove_absent ns devs g)"
proof -
  let ?op = "\<lambda>k h g'. let g1 = destroy_dev h g' in g1\<lparr>openDevs := del2 (fst k) (snd k) (openDevs g1)\<rparr>"
  have "acts ld_destroy ?op"
    by (auto simp: acts_def Let_def destroy_dev_def removeOpenDevice_def ld_destroy_def)
  from touched_fold [OF assms this keeps_destroy touched_empty,
      of "map (Pair ns) (filter (\<lambda>d. d \<notin> set devs) (devices_of (openDevs g) ns))"]
  show ?thesis unfolding remove_absent_def by (simp add: fold_map comp_def Let_def cong: option.case_cong)
qed

lemma devices_of_iff: "d \<in> set (devices_of t ns) \<longleftrightarrow> look2 t ns d \<noteq> None"
proof (cases "map_of t ns")
  case (Some m)
  have "d \<in> fst ` set m \<longleftrightarrow> map_of m d \<noteq> None" by (simp add: map_of_eq_None_iff)
  with Some show ?thesis by (simp add: look2_def devices_of_def)
qed (simp add: look2_def devices_of_def)

lemma enumerated_frame:
  "openDevs (fold (\<lambda>cb. gb_emit (EnumerateCb cb rc ids)) cbs g) = openDevs g"
  "gb_heap (fold (\<lambda>cb. gb_emit (EnumerateCb cb rc ids)) cbs g) = gb_heap g"
  "gb_run (fold (\<lambda>cb. gb_emit (EnumerateCb cb rc ids)) cbs g) = gb_run g"
  "gb_out (fold (\<lambda>cb. gb_emit (EnumerateCb cb rc ids)) cbs g) = gb_out g @ map (\<lambda>cb. EnumerateCb cb rc ids) cbs"
  by (induction cbs arbitrary: g) (auto simp: gb_emit_def)

lemma remove_absent_frame:
  "gb_out (remove_absent ns devs g) = gb_out g \<and> pendingEnumerate (remove_absent ns devs g) = pendingEnumerate g
     \<and> namespaces (remove_absent ns devs g) = namespaces g \<and> gb_run (remove_absent ns devs g) = gb_run g"
proof -
  have "gb_out (fold h xs g) = gb_out g \<and> pendingEnumerate (fold h xs g) = pendingEnumerate g
     \<and> namespaces (fold h xs g) = namespaces g \<and> gb_run (fold h xs g) = gb_run g"
    if "\<And>x g. gb_out (h x g) = gb_out g \<and> pendingEnumerate (h x g) = pendingEnumerate g
      \<and> namespaces (h x g) = namespaces g \<and> gb_run (h x g) = gb_run g" for h and xs :: "nat list"
    using that by (induction xs arbitrary: g) auto
  then show ?thesis
    unfolding remove_absent_def Let_def by (rule) (auto simp: destroy_dev_def removeOpenDevice_def Let_def split: option.split)
qed

text \<open>
  When a namespace reports its devices, the open devices of that namespace that are not among them are
  destroyed and forgotten, and no other open device is touched; and when it is the last namespace of the
  enumeration, every waiting callback is called, in order, with all devices the namespaces reported, and
  nobody waits any more. An error of the browser counts as an empty report.
\<close>

theorem enumerated_reports:
  assumes "devs_ok g"
  shows "(let devs = (if err then [] else ds); g' = gb_enumerated ns err ds g; n = fst (gb_run g) + 1;
              ids = snd (gb_run g) @ map (Pair ns) devs in
    (\<forall>ns' d. look2 (openDevs g') ns' d = (if ns' = ns \<and> d \<notin> set devs then None else look2 (openDevs g) ns' d))
    \<and> (\<forall>h. look2 (openDevs g) ns d = Some h \<and> d \<notin> set devs \<longrightarrow> \<not> ld_alive (gb_heap g' h))
    \<and> gb_run g' = (n, ids)
    \<and> (if n = length (namespaces g)
       then gb_out g' = gb_out g @ map (\<lambda>cb. EnumerateCb cb 0 ids) (pendingEnumerate g) \<and> pendingEnumerate g' = []
       else gb_out g' = gb_out g \<and> pendingEnumerate g' = pendingEnumerate g))"
proof -
  define devs where "devs = (if err then [] else ds)"
  define n where "n = fst (gb_run g) + 1"
  let ?g0 = "g\<lparr>gb_run := (n, snd (gb_run g))\<rparr>"
  define g1 where "g1 = remove_absent ns devs ?g0"
  have "devs_ok ?g0" using assms by (simp add: devs_ok_def)
  note t = remove_absent_touched [OF this, of ns devs, folded g1_def]
  have look: "look2 (openDevs g1) ns' d = (if ns' = ns \<and> d \<notin> set devs then None else look2 (openDevs g) ns' d)"
    for ns' d
    using t assms unfolding touched_def
    by (cases "look2 (openDevs g) ns' d") (auto simp: devices_of_iff ld_destroy_def devs_ok_def)
  have dead: "\<not> ld_alive (gb_heap g1 h)" if "look2 (openDevs g) ns d = Some h" "d \<notin> set devs" for h d
    using touched_heap [OF t, of ns d h] that by (auto simp: devices_of_iff ld_destroy_def)
  show ?thesis
    using look dead remove_absent_frame [of ns devs ?g0, folded g1_def]
    unfolding gb_enumerated_def Let_def devs_def [symmetric] n_def [symmetric] g1_def [symmetric]
    by (simp add: enumerated_frame OK_def) blast
qed

theorem enumerated_reports_witness:
  "look2 (openDevs (gb_enumerated ''hid'' True [7] shared_device)) ''hid'' 7 = None
   \<and> \<not> ld_alive (gb_heap (gb_enumerated ''hid'' True [7] shared_device) 5)"
proof -
  have "devs_ok shared_device" by (auto simp: devs_ok_def look2_def shared_device_open split: if_splits)
  from enumerated_reports [OF this, of True "[7]" "''hid''" 7] show ?thesis
    by (simp add: look2_def shared_device_open Let_def)
qed

end
