(* ===== verification/Applet.thy ===== *)
theory Applet
  imports Gnubby
begin

unbundle bit_operations_syntax

text \<open>
  The commands of a \<open>Gnubby\<close>: \<open>exchange_\<close> of gnubby.js with its busy retries, the command wrappers,
  \<open>apduReply\<close>, and the U2F commands of gnubby-u2f.js. The code is written with callbacks: an
  asynchronous method is here a \<open>prog\<close>, which is either the call of its callback or one exchange with
  the device and, for each reply, what the callback given to \<open>exchange_\<close> does.
\<close>

subsection \<open>exchange_\<close>

text \<open>
  The variables of one call of \<open>exchange_\<close>. The events are the ticks of \<open>busyWait\<close> and the calls of
  the callback given to \<open>read_\<close>; \<open>ex_writes\<close> counts the rounds of \<open>write_\<close> and \<open>read_\<close> (each of them
  resets the inactivity timer) and \<open>ex_results\<close> lists the calls of \<open>cb\<close>.
\<close>

record exchange =
  ex_sys :: systimer
  busyWait :: "unit countdown"
  ex_writes :: nat
  ex_results :: "(int \<times> bytes option) list"

definition retryBusy :: "int \<Rightarrow> bytes option \<Rightarrow> exchange \<Rightarrow> exchange" where
  "retryBusy rc data x =
     (if rc = - BUSY \<and> \<not> expired (busyWait x) then x\<lparr>ex_writes := ex_writes x + 1\<rparr>
      else (let (sys', t) = cd_clearTimeout (ex_sys x) (busyWait x) in
            x\<lparr>ex_sys := sys', busyWait := t, ex_results := ex_results x @ [(rc, data)]\<rparr>))"

definition exchange_start :: "systimer \<Rightarrow> rat \<Rightarrow> exchange" where
  "exchange_start sys millis =
     (let (sys', t) = CountdownTimer sys (Some millis) None in
      retryBusy (- BUSY) None \<lparr>ex_sys = sys', busyWait = t, ex_writes = 0, ex_results = []\<rparr>)"

datatype ex_event = ExTick | ExReply int "bytes option"

text \<open>A reply arrives only while a read is pending, that is when fewer replies came than rounds began.\<close>

fun ex_step :: "ex_event \<Rightarrow> exchange \<Rightarrow> exchange" where
  "ex_step ExTick x =
     (let (sys', t, cs) = cd_fire (ex_sys x) (busyWait x) in x\<lparr>ex_sys := sys', busyWait := t\<rparr>)"
| "ex_step (ExReply rc data) x = (if ex_results x = [] then retryBusy rc data x else x)"

subsection \<open>Commands as programs\<close>

text \<open>
  The first component of a reply is the result code. \<open>NaN\<close> is what \<open>apduReply\<close> computes from a
  reply shorter than two bytes; like 0 it is no error for \<open>if (rc)\<close>.
\<close>

datatype rc = Rc int | NaN

fun failed :: "rc \<Rightarrow> bool" where
  "failed (Rc i) \<longleftrightarrow> i \<noteq> 0"
| "failed NaN \<longleftrightarrow> False"

datatype 'a prog = Ret 'a | Exchange nat bytes nat "rc \<times> bytes option \<Rightarrow> 'a prog"

primrec andThen :: "'a prog \<Rightarrow> ('a \<Rightarrow> 'b prog) \<Rightarrow> 'b prog" where
  "andThen (Ret a) h = h a"
| "andThen (Exchange c d t k) h = Exchange c d t (\<lambda>r. andThen (k r) h)"

text \<open>A run on a device: its result, the device afterwards, and the commands it was sent.\<close>

primrec run_prog :: "('d \<Rightarrow> nat \<Rightarrow> bytes \<Rightarrow> 'd \<times> rc \<times> bytes option) \<Rightarrow> 'a prog \<Rightarrow> 'd
    \<Rightarrow> 'a \<times> 'd \<times> (nat \<times> bytes) list" where
  "run_prog dev (Ret a) s = (a, s, [])"
| "run_prog dev (Exchange c d t k) s =
     (let (s1, r) = dev s c d; (a, s2, tr) = run_prog dev (k r) s1 in (a, s2, (c, d) # tr))"

definition SHORT_TIMEOUT :: nat where "SHORT_TIMEOUT = 1"
definition NORMAL_TIMEOUT :: nat where "NORMAL_TIMEOUT = 3"
definition MAX_TIMEOUT :: nat where "MAX_TIMEOUT = 31"

definition exchange_cmd :: "nat \<Rightarrow> bytes \<Rightarrow> nat \<Rightarrow> (rc \<times> bytes option) prog" where
  "exchange_cmd c d timeout = Exchange c d timeout Ret"

text \<open>Where the code accepts a number or an array, \<open>Inl n\<close> is the number.\<close>

definition number_or_data :: "int + bytes \<Rightarrow> bytes" where
  "number_or_data x = (case x of Inl n \<Rightarrow> [word_of_int n] | Inr d \<Rightarrow> d)"

definition blink :: "int + bytes \<Rightarrow> (rc \<times> bytes option) prog" where
  "blink x = exchange_cmd CMD_PROMPT (number_or_data x) NORMAL_TIMEOUT"

definition lock :: "int + bytes \<Rightarrow> (rc \<times> bytes option) prog" where
  "lock x = exchange_cmd CMD_LOCK (number_or_data x) NORMAL_TIMEOUT"

definition unlock :: "(rc \<times> bytes option) prog" where
  "unlock = exchange_cmd CMD_LOCK [0] NORMAL_TIMEOUT"

definition sysinfo :: "(rc \<times> bytes option) prog" where
  "sysinfo = exchange_cmd CMD_SYSINFO [] NORMAL_TIMEOUT"

definition wink :: "(rc \<times> bytes option) prog" where
  "wink = exchange_cmd CMD_WINK [] NORMAL_TIMEOUT"

definition dfu :: "bytes \<Rightarrow> (rc \<times> bytes option) prog" where
  "dfu d = exchange_cmd CMD_DFU d NORMAL_TIMEOUT"

text \<open>A number asks for that many random bytes, here given by \<open>getRandomValues\<close>.\<close>

definition ping :: "(nat \<Rightarrow> bytes) \<Rightarrow> nat + bytes \<Rightarrow> (rc \<times> bytes option) prog" where
  "ping getRandomValues x =
     exchange_cmd CMD_PING (case x of Inl n \<Rightarrow> getRandomValues n | Inr d \<Rightarrow> d) NORMAL_TIMEOUT"

definition apdu :: "bytes \<Rightarrow> (rc \<times> bytes option) prog" where
  "apdu d = exchange_cmd CMD_APDU d MAX_TIMEOUT"

definition reset :: "(rc \<times> bytes option) prog" where
  "reset = exchange_cmd CMD_ATR [] MAX_TIMEOUT"

definition usb_test :: "bytes \<Rightarrow> (rc \<times> bytes option) prog" where
  "usb_test args = exchange_cmd CMD_USB_TEST args NORMAL_TIMEOUT"

text \<open>The status word at the end of a response; \<open>NaN\<close> when there are not two bytes.\<close>

definition status_word :: "bytes \<Rightarrow> rc" where
  "status_word r8 =
     (if length r8 < 2 then NaN
      else Rc (int (unat (r8 ! (length r8 - 2))) * 256 + int (unat (r8 ! (length r8 - 1)))))"

definition apduReply :: "bytes \<Rightarrow> bool \<Rightarrow> (rc \<times> bytes option) prog" where
  "apduReply request opt_nowink = andThen (apdu request) (\<lambda>(rc, data).
     if rc = Rc 0
     then (let r8 = (case data of Some d \<Rightarrow> d | None \<Rightarrow> []) in
           if length r8 \<ge> 2 \<and> r8 ! (length r8 - 2) = 0x90 \<and> r8 ! (length r8 - 1) = 0x00
           then Ret (Rc (- OK), Some (take (length r8 - 2) r8))
           else if status_word r8 = Rc 0x6985 \<and> \<not> opt_nowink
           then andThen wink (\<lambda>_. Ret (status_word r8, None))
           else Ret (status_word r8, None))
     else Ret (rc, None))"

subsection \<open>The U2F commands\<close>

definition U2F_ENROLL :: byte where "U2F_ENROLL = 0x01"
definition U2F_SIGN :: byte where "U2F_SIGN = 0x02"
definition U2F_VERSION :: byte where "U2F_VERSION = 0x03"
definition P1_TUP_REQUIRED :: byte where "P1_TUP_REQUIRED = 0x01"
definition P1_TUP_CONSUME :: byte where "P1_TUP_CONSUME = 0x02"
definition P1_TUP_TESTONLY :: byte where "P1_TUP_TESTONLY = 0x04"
definition P1_INDIVIDUAL_KEY :: byte where "P1_INDIVIDUAL_KEY = 0x80"
definition U2F_V1 :: string where "U2F_V1 = ''U2F_V1''"
definition U2F_V2 :: string where "U2F_V2 = ''U2F_V2''"

lemmas u2f_consts = U2F_ENROLL_def U2F_SIGN_def U2F_VERSION_def P1_TUP_REQUIRED_def P1_TUP_CONSUME_def
  P1_TUP_TESTONLY_def P1_INDIVIDUAL_KEY_def

text \<open>A number stored into a \<open>Uint8Array\<close> is taken modulo 256.\<close>

definition enroll_apdu :: "bytes \<Rightarrow> bytes \<Rightarrow> bool \<Rightarrow> bytes" where
  "enroll_apdu challenge appIdHash individual =
     (let p1 = P1_TUP_REQUIRED OR P1_TUP_CONSUME;
          p1 = (if individual then p1 OR P1_INDIVIDUAL_KEY else p1);
          header = [0x00, U2F_ENROLL, p1, 0x00, 0x00, 0x00, word_of_nat (length challenge + length appIdHash)]
      in header @ challenge @ appIdHash @ [0, 0])"

definition enroll :: "bytes \<Rightarrow> bytes \<Rightarrow> bool \<Rightarrow> (rc \<times> bytes option) prog" where
  "enroll challenge appIdHash individual = apduReply (enroll_apdu challenge appIdHash individual) False"

definition sign_apdu :: "string \<Rightarrow> bytes \<Rightarrow> bytes \<Rightarrow> bytes \<Rightarrow> bool \<Rightarrow> bytes" where
  "sign_apdu version challengeHash appIdHash keyHandle opt_nowink =
     (let apduDataLen = length challengeHash + length appIdHash + length keyHandle;
          apduDataLen = (if version \<noteq> U2F_V1 then apduDataLen + 1 else apduDataLen);
          p1 = P1_TUP_REQUIRED OR P1_TUP_CONSUME;
          p1 = (if opt_nowink then p1 OR P1_TUP_TESTONLY else p1);
          header = [0x00, U2F_SIGN, p1, 0x00, 0x00, 0x00, word_of_nat apduDataLen]
      in header @ challengeHash @ appIdHash
         @ (if version \<noteq> U2F_V1 then [word_of_nat (length keyHandle)] else []) @ keyHandle @ [0, 0])"

definition version_apdu :: bytes where
  "version_apdu = [0x00, U2F_VERSION, 0x00, 0x00, 0x00, 0x00, 0x00]"

definition version_apdu_draft :: bytes where
  "version_apdu_draft = [0x00, U2F_VERSION, 0x00, 0x00, 0x00, 0x00, 0x00, 0x00, 0x00]"

text \<open>
  The argument and the first result are the client's \<open>version_\<close>: the cached reply, \<open>None\<close> while
  there is none.
\<close>

definition gotResponse :: "bytes option \<Rightarrow> rc \<times> bytes option \<Rightarrow> bytes option \<times> rc \<times> bytes option" where
  "gotResponse cached r = (if \<not> failed (fst r) then (snd r, r) else (cached, r))"

definition version :: "bytes option \<Rightarrow> (bytes option \<times> rc \<times> bytes option) prog" where
  "version cached =
     (case cached of Some v \<Rightarrow> Ret (cached, Rc (- OK), Some v)
      | None \<Rightarrow> andThen (apduReply version_apdu False) (\<lambda>(rc, data).
          if rc = Rc 0x6d00
          then (let v1 = UTIL_StringToBytes U2F_V1 in Ret (Some v1, Rc (- OK), Some v1))
          else if rc = Rc 0x6700
          then andThen (apduReply version_apdu_draft False) (\<lambda>r. Ret (gotResponse cached r))
          else Ret (gotResponse cached (rc, data))))"

definition sign :: "bytes \<Rightarrow> bytes \<Rightarrow> bytes \<Rightarrow> bool \<Rightarrow> bytes option \<Rightarrow> (bytes option \<times> rc \<times> bytes option) prog" where
  "sign challengeHash appIdHash keyHandle opt_nowink cached =
     andThen (version cached) (\<lambda>(version', rc, opt_data).
       if failed rc then Ret (version', rc, None)
       else (let v = UTIL_BytesToString (case opt_data of Some d \<Rightarrow> d | None \<Rightarrow> []) in
             andThen (apduReply (sign_apdu v challengeHash appIdHash keyHandle opt_nowink) opt_nowink)
               (\<lambda>r. Ret (version', r))))"

subsection \<open>exchange_ answers once, with the first reply that counts\<close>

declare ex_step.simps [simp del]

text \<open>The reply that counts in a history with \<open>k\<close> ticks before it, and the busy replies before that one.\<close>

fun first_final :: "rat \<Rightarrow> nat \<Rightarrow> ex_event list \<Rightarrow> (int \<times> bytes option) option" where
  "first_final T k [] = None"
| "first_final T k (ExTick # es) = first_final T (Suc k) es"
| "first_final T k (ExReply rc d # es) =
     (if rc = - BUSY \<and> 200 * of_nat k < T then first_final T k es else Some (rc, d))"

fun busy_before :: "rat \<Rightarrow> nat \<Rightarrow> ex_event list \<Rightarrow> nat" where
  "busy_before T k [] = 0"
| "busy_before T k (ExTick # es) = busy_before T (Suc k) es"
| "busy_before T k (ExReply rc d # es) =
     (if rc = - BUSY \<and> 200 * of_nat k < T then Suc (busy_before T k es) else 0)"

definition busy_waiting :: "systimer \<Rightarrow> rat \<Rightarrow> nat \<Rightarrow> exchange \<Rightarrow> bool" where
  "busy_waiting sys T k x \<longleftrightarrow> ex_results x = []
     \<and> (if T \<le> 200 * of_nat k then spent sys (ex_sys x) (busyWait x)
        else counting sys T k None (ex_sys x) (busyWait x))"

lemma busy_expired: "busy_waiting sys T k x \<Longrightarrow> expired (busyWait x) \<longleftrightarrow> \<not> 200 * of_nat k < T"
  by (auto simp: busy_waiting_def spent_def counting_def expired_def split: if_splits)

lemma busy_tick:
  assumes "busy_waiting sys T k x" "sys_ok sys"
  shows "busy_waiting sys T (Suc k) (ex_step ExTick x) \<and> ex_writes (ex_step ExTick x) = ex_writes x"
proof (cases "T \<le> 200 * of_nat k")
  case True
  moreover have "(200 * of_nat k :: rat) \<le> 200 * of_nat (Suc k)" by simp
  ultimately have "T \<le> 200 * of_nat (Suc k)" by (rule order_trans)
  with True assms show ?thesis
    by (auto simp: busy_waiting_def ex_step.simps cd_fire_def spent_def)
next
  case False
  obtain sys' t cs where f: "cd_fire (ex_sys x) (busyWait x) = (sys', t, cs)" by (metis prod_cases3)
  have "counting sys T k None (ex_sys x) (busyWait x)" using False assms(1) by (simp add: busy_waiting_def)
  from counting_fire [OF this assms(2) f] assms(1) f show ?thesis
    by (auto simp: busy_waiting_def ex_step.simps)
qed

lemma answered_stays: "ex_results x \<noteq> [] \<Longrightarrow> ex_results (ex_step e x) = ex_results x \<and> ex_writes (ex_step e x) = ex_writes x"
  by (cases e) (auto simp: ex_step.simps split: prod.split)

lemma answered_run:
  "ex_results x \<noteq> [] \<Longrightarrow> ex_results (fold ex_step es x) = ex_results x \<and> ex_writes (fold ex_step es x) = ex_writes x"
  by (induction es arbitrary: x) (auto simp: answered_stays)

lemma busy_run:
  assumes "busy_waiting sys T k x" "sys_ok sys"
  shows "ex_results (fold ex_step es x) = (case first_final T k es of None \<Rightarrow> [] | Some r \<Rightarrow> [r])
    \<and> ex_writes (fold ex_step es x) = ex_writes x + busy_before T k es"
  using assms(1)
proof (induction es arbitrary: k x)
  case Nil
  then show ?case by (simp add: busy_waiting_def)
next
  case (Cons e es)
  show ?case
  proof (cases e)
    case ExTick
    with Cons.IH [of "Suc k" "ex_step e x"] busy_tick [OF Cons.prems assms(2)] show ?thesis by simp
  next
    case (ExReply rc d)
    show ?thesis
    proof (cases "rc = - BUSY \<and> 200 * of_nat k < T")
      case True
      with Cons.prems busy_expired [OF Cons.prems] ExReply
      have "busy_waiting sys T k (ex_step e x)" "ex_writes (ex_step e x) = Suc (ex_writes x)"
        by (auto simp: ex_step.simps retryBusy_def busy_waiting_def)
      with Cons.IH [of k "ex_step e x"] True ExReply show ?thesis by simp
    next
      case False
      with Cons.prems busy_expired [OF Cons.prems] ExReply
      have "ex_results (ex_step e x) = [(rc, d)]" "ex_writes (ex_step e x) = ex_writes x"
        by (auto simp: ex_step.simps retryBusy_def busy_waiting_def Let_def split: prod.split)
      with answered_run [of "ex_step e x" es] False ExReply show ?thesis by auto
    qed
  qed
qed

text \<open>
  C20. \<open>exchange_\<close> calls back exactly once: with the first reply that is not \<open>BUSY\<close>, or with the first
  busy one that arrives when \<open>busyMillis\<close> have passed (in ticks of 200 milliseconds), whatever comes
  later. The command is written once at the start and once more for each busy reply before.
\<close>

theorem exchange_retries:
  assumes "0 < millis" "sys_ok sys"
  shows "ex_results (fold ex_step es (exchange_start sys millis))
      = (case first_final millis 0 es of None \<Rightarrow> [] | Some r \<Rightarrow> [r])
    \<and> ex_writes (fold ex_step es (exchange_start sys millis)) = 1 + busy_before millis 0 es"
proof -
  let ?c = "CountdownTimer sys (Some millis) None :: systimer \<times> unit countdown"
  have "counting sys millis 0 None (fst ?c) (snd ?c)"
    by (rule counting_start [OF assms(1)])
  then have "busy_waiting sys millis 0 (exchange_start sys millis)" "ex_writes (exchange_start sys millis) = 1"
    using assms(1) by (auto simp: exchange_start_def retryBusy_def busy_waiting_def counting_def expired_def
        split: prod.split)
  from busy_run [OF this(1) assms(2), of es] this(2) show ?thesis by simp
qed

theorem exchange_retries_witness:
  "ex_results (fold ex_step [ExReply (- BUSY) None, ExTick, ExTick, ExReply (- BUSY) None]
     (exchange_start \<lparr>sys_last = 0, sys_armed = []\<rparr> 300)) = [(- BUSY, None)]"
  using exchange_retries [of 300 "\<lparr>sys_last = 0, sys_armed = []\<rparr>"
      "[ExReply (- BUSY) None, ExTick, ExTick, ExReply (- BUSY) None]"]
  by (simp add: sys_ok_def)

subsection \<open>The APDUs\<close>

text \<open>
  What an applet reads in an extended-length APDU of ISO 7816-4: the class, the instruction, the
  parameters, a zero byte, two bytes of length, that many bytes of data, and the two bytes of the expected
  length of the response.
\<close>

definition parse_apdu :: "bytes \<Rightarrow> (byte \<times> byte \<times> byte \<times> byte \<times> bytes) option" where
  "parse_apdu a =
     (case a of cla # ins # p1 # p2 # z # hi # lo # rest \<Rightarrow>
        (let n = unat hi * 256 + unat lo in
         if z = 0 \<and> length rest = n + 2 then Some (cla, ins, p1, p2, take n rest) else None)
      | _ \<Rightarrow> None)"

text \<open>The parts of the data of a sign request, as version 2 of the applet reads them.\<close>

definition parse_sign :: "bytes \<Rightarrow> (bytes \<times> bytes \<times> bytes) option" where
  "parse_sign d =
     (if length d < 65 \<or> length d \<noteq> 65 + unat (d ! 64) then None
      else Some (take 32 d, take 32 (drop 32 d), drop 65 d))"

lemma word_of_nat_byte: "n < 256 \<Longrightarrow> unat (word_of_nat n :: byte) = n"
  by (simp only: unat_of_nat) simp

lemma unat_length_byte: "unat (word_of_nat n :: byte) = n \<longleftrightarrow> n < 256"
  using unat_lt_256 [of "word_of_nat n"] word_of_nat_byte [of n] by (metis)

lemma parse_header:
  "parse_apdu ([0x00, ins, p1, 0x00, 0x00, 0x00, word_of_nat n] @ d @ [0, 0])
     = (if unat (word_of_nat n :: byte) = length d then Some (0, ins, p1, 0, d) else None)"
  by (auto simp: parse_apdu_def Let_def)

text \<open>
  C21. The requests are what the applet parses. An enroll request of two 32-byte hashes parses to its
  instruction, its flags and the hashes; a version 2 sign request parses to the two hashes and the key
  handle if and only if the key handle has at most 190 bytes: the length is written in one byte, and
  for longer handles it wraps and the request does not parse.
\<close>

theorem apdus_parse:
  assumes "length challenge = 32" "length appId = 32"
  shows "parse_apdu (enroll_apdu challenge appId ind) =
      Some (0, U2F_ENROLL, if ind then 0x83 else 0x03, 0, challenge @ appId)
    \<and> (case parse_apdu (sign_apdu U2F_V2 challenge appId kh nowink) of None \<Rightarrow> None
       | Some (cla, ins, p1, p2, d) \<Rightarrow> map_option (Pair (cla, ins, p1, p2)) (parse_sign d))
      = (if length kh \<le> 190 then Some ((0, U2F_SIGN, if nowink then 0x07 else 0x03, 0), challenge, appId, kh)
         else None)"
proof
  show "parse_apdu (enroll_apdu challenge appId ind) =
      Some (0, U2F_ENROLL, if ind then 0x83 else 0x03, 0, challenge @ appId)"
    using assms parse_header [of U2F_ENROLL _ 64 "challenge @ appId"]
    by (auto simp: enroll_apdu_def Let_def u2f_consts)
  let ?p1 = "if nowink then 0x07 else 0x03 :: byte"
  let ?d = "challenge @ appId @ word_of_nat (length kh) # kh"
  have "sign_apdu U2F_V2 challenge appId kh nowink
      = [0x00, U2F_SIGN, ?p1, 0x00, 0x00, 0x00, word_of_nat (65 + length kh)] @ ?d @ [0, 0]"
    using assms by (auto simp: sign_apdu_def Let_def u2f_consts U2F_V1_def U2F_V2_def)
  moreover have len: "length ?d = 65 + length kh" using assms by simp
  ultimately have *: "parse_apdu (sign_apdu U2F_V2 challenge appId kh nowink)
      = (if 65 + length kh < 256 then Some (0, U2F_SIGN, ?p1, 0, ?d) else None)"
    by (simp only: parse_header len unat_length_byte)
  have "parse_sign ?d = Some (challenge, appId, kh)" if "length kh < 256"
    using that assms by (simp add: parse_sign_def nth_append word_of_nat_byte)
  with * show "(case parse_apdu (sign_apdu U2F_V2 challenge appId kh nowink) of None \<Rightarrow> None
       | Some (cla, ins, p1, p2, d) \<Rightarrow> map_option (Pair (cla, ins, p1, p2)) (parse_sign d))
      = (if length kh \<le> 190 then Some ((0, U2F_SIGN, if nowink then 0x07 else 0x03, 0), challenge, appId, kh)
         else None)"
    by auto
qed

theorem apdus_parse_witness:
  "parse_apdu (enroll_apdu (replicate 32 1) (replicate 32 2) True) =
      Some (0, U2F_ENROLL, 0x83, 0, replicate 32 1 @ replicate 32 2)"
  using apdus_parse [of "replicate 32 1" "replicate 32 2" True] by simp

subsection \<open>The version of the applet\<close>

text \<open>The device answers one APDU; only the applet's part of a run matters here.\<close>

lemma run_andThen:
  "run_prog dev (andThen p h) s =
     (let (a, s1, tr) = run_prog dev p s; (b, s2, tr') = run_prog dev (h a) s1 in (b, s2, tr @ tr'))"
  by (induction p arbitrary: s) (auto simp: Let_def split: prod.split)

lemma run_version_cached: "run_prog dev (version (Some v)) s = ((Some v, Rc 0, Some v), s, [])"
  by (simp add: version_def OK_def)

lemma apduReply_branches_lemma:
  assumes "dev s CMD_APDU request = (s1, rc, data)"
  shows "run_prog dev (apduReply request nowink) s =
    (if rc \<noteq> Rc 0 then ((rc, None), s1, [(CMD_APDU, request)])
     else (let r = (case data of Some d \<Rightarrow> d | None \<Rightarrow> []) in
       if drop (length r - 2) r = [0x90, 0x00]
       then ((Rc 0, Some (take (length r - 2) r)), s1, [(CMD_APDU, request)])
       else if status_word r = Rc 0x6985 \<and> \<not> nowink
       then ((Rc 0x6985, None), fst (dev s1 CMD_WINK []), [(CMD_APDU, request), (CMD_WINK, [])])
       else ((status_word r, None), s1, [(CMD_APDU, request)])))"
proof -
  have last2: "drop (length r - 2) r = [a, b] \<longleftrightarrow> length r \<ge> 2 \<and> r ! (length r - 2) = a \<and> r ! (length r - 1) = b"
    for r :: bytes and a b
  proof (cases "length r \<ge> 2")
    case True
    then have "drop (length r - 2) r = [r ! (length r - 2), r ! (length r - 1)]"
      by (intro nth_equalityI) (auto simp: less_Suc_eq numeral_2_eq_2)
    with True show ?thesis by simp
  next
    case False
    then show ?thesis by (cases r; cases "tl r") auto
  qed
  show ?thesis
    using assms
    by (auto simp: apduReply_def apdu_def wink_def exchange_cmd_def last2 OK_def Let_def run_andThen split: prod.split)
qed


definition untouched_device :: "nat \<Rightarrow> nat \<Rightarrow> bytes \<Rightarrow> nat \<times> rc \<times> bytes option" where
  "untouched_device s c d = (7, Rc 0, Some [0x69, 0x85])"


lemma run_apduReply_trace:
  "snd (snd (run_prog dev (apduReply q nowink) s)) \<in> {[(CMD_APDU, q)], [(CMD_APDU, q), (CMD_WINK, [])]}"
proof -
  obtain s1 rc d where "dev s CMD_APDU q = (s1, rc, d)" by (metis prod_cases3)
  then show ?thesis
    by (auto simp: apduReply_def apdu_def wink_def exchange_cmd_def run_andThen Let_def split: prod.split)
qed

lemma v1_roundtrip: "UTIL_BytesToString (UTIL_StringToBytes U2F_V1) = U2F_V1"
  by code_simp

lemma version_on_v1:
  assumes "dev s CMD_APDU version_apdu = (s1, Rc 0, Some [0x6d, 0x00])"
  shows "run_prog dev (version None) s
    = ((Some (UTIL_StringToBytes U2F_V1), Rc 0, Some (UTIL_StringToBytes U2F_V1)), s1, [(CMD_APDU, version_apdu)])"
  using apduReply_branches_lemma [where dev = dev and nowink = False, OF assms]
  by (simp add: version_def run_andThen status_word_def OK_def Let_def)

text \<open>
  The version is asked once. A device that does not know the version instruction (\<open>6d00\<close>) counts as
  version 1: \<open>sign\<close> then sends the layout without the key handle's length and remembers the version,
  and every later \<open>sign\<close> of the client, on a device in any state, sends its own request in that layout
  and at most a wink, and no version request.
\<close>

theorem sign_version_once:
  assumes "dev s CMD_APDU version_apdu = (s1, Rc 0, Some [0x6d, 0x00])"
  shows "(case run_prog dev (sign ch app kh nowink None) s of ((ver, r), s2, tr) \<Rightarrow>
      tr \<in> {[(CMD_APDU, version_apdu), (CMD_APDU, sign_apdu U2F_V1 ch app kh nowink)],
            [(CMD_APDU, version_apdu), (CMD_APDU, sign_apdu U2F_V1 ch app kh nowink), (CMD_WINK, [])]}
      \<and> snd (snd (run_prog dev (sign ch' app' kh' nowink' ver) s3)) \<in>
           {[(CMD_APDU, sign_apdu U2F_V1 ch' app' kh' nowink')],
            [(CMD_APDU, sign_apdu U2F_V1 ch' app' kh' nowink'), (CMD_WINK, [])]})"
  using run_apduReply_trace [of dev "sign_apdu U2F_V1 ch app kh nowink" nowink s1]
    run_apduReply_trace [of dev "sign_apdu U2F_V1 ch' app' kh' nowink'" nowink' s3]
  by (simp add: sign_def run_andThen version_on_v1 [where dev = dev, OF assms] run_version_cached v1_roundtrip
      Let_def split: prod.splits) auto

definition v1_device :: "nat \<Rightarrow> nat \<Rightarrow> bytes \<Rightarrow> nat \<times> rc \<times> bytes option" where
  "v1_device s c d = (Suc s, Rc 0, Some (if d = version_apdu then [0x6d, 0x00] else [1, 0x90, 0x00]))"

theorem sign_version_once_witness:
  "(case run_prog v1_device (sign [1] [2] [3] True None) 0 of ((ver, r), s2, tr) \<Rightarrow> (CMD_APDU, version_apdu) \<in> set tr)"
proof -
  have "v1_device 0 CMD_APDU version_apdu = (1, Rc 0, Some [0x6d, 0x00])" by (simp add: v1_device_def)
  from sign_version_once [where dev = v1_device, OF this, of "[1]" "[2]" "[3]" True "[]" "[]" "[]" True 0]
  show ?thesis by (auto split: prod.splits)
qed

end
