(* ===== verification/B64.thy ===== *)
theory B64
  imports Util
begin

unbundle bit_operations_syntax

text \<open>
  b64.js: the web-safe Base64 encoding without padding (\<open>B64_encode\<close>), the ordinary one
  with padding (\<open>base64_encode\<close>), and the web-safe decoder. Both encoders share one loop,
  which keeps its pending bits in the low \<open>shift\<close> bits of a 32-bit accumulator that is
  shifted and never masked. \<open>codec\<close> is the contract of an encoding with a decoder.
\<close>

subsection \<open>The encoders\<close>

definition b64out :: string where
  "b64out = ''ABCDEFGHIJKLMNOPQRSTUVWXYZabcdefghijklmnopqrstuvwxyz0123456789-_''"

definition b64out_std :: string where
  "b64out_std = ''ABCDEFGHIJKLMNOPQRSTUVWXYZabcdefghijklmnopqrstuvwxyz0123456789+/''"

text \<open>\<open>(accu >> n) & 63\<close> and \<open>(accu >> n) & 255\<close>.\<close>

definition sextet :: "int32 \<Rightarrow> nat \<Rightarrow> nat" where
  "sextet accu n = unat (signed_drop_bit n accu AND 63)"

definition octet :: "int32 \<Rightarrow> nat \<Rightarrow> byte" where
  "octet accu n = ucast (signed_drop_bit n accu AND 255)"

text \<open>The inner loop \<open>while (shift >= 6)\<close>: the characters appended, and the last \<open>shift\<close>.\<close>

fun emit_loop :: "string \<Rightarrow> int32 \<Rightarrow> nat \<Rightarrow> string \<times> nat" where
  "emit_loop alpha accu shift =
     (if shift \<ge> 6
      then (let (rest, shift') = emit_loop alpha accu (shift - 6)
            in (alpha ! sextet accu (shift - 6) # rest, shift'))
      else ([], shift))"

declare emit_loop.simps [simp del]

text \<open>
  The outer loop \<open>while (opt_length--)\<close> from \<open>inputIndex\<close> on, and what follows it: the
  last \<open>if (shift)\<close>. An index past the end reads \<open>undefined\<close>, which \<open>|=\<close> takes as 0.
\<close>

definition b64_push :: "int32 \<Rightarrow> byte \<Rightarrow> int32" where
  "b64_push accu b = push_bit 8 accu OR ucast b"

fun b64_loop :: "string \<Rightarrow> bytes \<Rightarrow> nat \<Rightarrow> nat \<Rightarrow> int32 \<Rightarrow> nat \<Rightarrow> string" where
  "b64_loop alpha bytes inputIndex 0 accu shift =
     (if shift \<noteq> 0
      then [alpha ! sextet (push_bit 8 accu) (shift + 8 - 6)]
      else [])"
| "b64_loop alpha bytes inputIndex (Suc opt_length) accu shift =
     (let accu' = b64_push accu (byte_at bytes inputIndex);
          (out, shift') = emit_loop alpha accu' (shift + 8)
      in out @ b64_loop alpha bytes (Suc inputIndex) opt_length accu' shift')"

text \<open>\<open>if (!opt_length) opt_length = bytes.length\<close>: 0 counts as absent.\<close>

definition encode_length :: "nat option \<Rightarrow> bytes \<Rightarrow> nat" where
  "encode_length opt bytes =
     (case opt of None \<Rightarrow> length bytes | Some n \<Rightarrow> if n = 0 then length bytes else n)"

definition B64_encode :: "bytes \<Rightarrow> nat option \<Rightarrow> string" where
  "B64_encode bytes opt_length = b64_loop b64out bytes 0 (encode_length opt_length bytes) 0 0"

text \<open>\<open>while (result.length % 4) result += '='\<close>.\<close>

function pad4 :: "string \<Rightarrow> string" where
  "pad4 result = (if length result mod 4 \<noteq> 0 then pad4 (result @ ''='') else result)"
  by pat_completeness auto
termination
  by (relation "measure (\<lambda>r. (4 - length r mod 4) mod 4)") (auto simp: mod_Suc)

declare pad4.simps [simp del]

definition base64_encode :: "bytes \<Rightarrow> nat option \<Rightarrow> string" where
  "base64_encode bytes opt_length =
     pad4 (b64_loop b64out_std bytes 0 (encode_length opt_length bytes) 0 0)"

subsection \<open>The decoder\<close>

definition B64_inmap :: "nat list" where
  "B64_inmap =
    [ 0, 0, 0, 0, 0, 0, 0, 0, 0, 0, 0, 0, 0, 63, 0, 0,
     53, 54, 55, 56, 57, 58, 59, 60, 61, 62, 0, 0, 0, 0, 0, 0,
      0, 1, 2, 3, 4, 5, 6, 7, 8, 9, 10, 11, 12, 13, 14, 15,
     16, 17, 18, 19, 20, 21, 22, 23, 24, 25, 26, 0, 0, 0, 0, 64,
      0, 27, 28, 29, 30, 31, 32, 33, 34, 35, 36, 37, 38, 39, 40, 41,
     42, 43, 44, 45, 46, 47, 48, 49, 50, 51, 52, 0, 0, 0, 0, 0]"

text \<open>The value of a character, \<open>None\<close> where the decoder gives up.\<close>

definition b64_value :: "char \<Rightarrow> nat option" where
  "b64_value ch =
     (let c = (of_char ch :: nat) in
      if c < 32 \<or> c > 127 \<or> B64_inmap ! (c - 32) = 0 then None
      else Some (B64_inmap ! (c - 32) - 1))"

text \<open>The loop from \<open>accu\<close> and \<open>shift\<close> on; \<open>None\<close> is \<open>return []\<close>.\<close>

fun b64_decode_loop :: "string \<Rightarrow> int32 \<Rightarrow> nat \<Rightarrow> bytes \<Rightarrow> bytes option" where
  "b64_decode_loop [] accu shift bytes = Some bytes"
| "b64_decode_loop (ch # s) accu shift bytes =
     (case b64_value ch of None \<Rightarrow> None
      | Some v \<Rightarrow>
        (let accu' = push_bit 6 accu OR word_of_nat v; shift' = shift + 6 in
         if shift' \<ge> 8
         then b64_decode_loop s accu' (shift' - 8) (bytes @ [octet accu' (shift' - 8)])
         else b64_decode_loop s accu' shift' bytes))"

definition B64_decode :: "string \<Rightarrow> bytes" where
  "B64_decode s = (case b64_decode_loop s 0 0 [] of None \<Rightarrow> [] | Some bytes \<Rightarrow> bytes)"


subsection \<open>The accumulators, read as numbers\<close>

lemma signed_drop_and_mask:
  assumes "n + k \<le> 32"
  shows "signed_drop_bit n (accu :: int32) AND mask k = drop_bit n accu AND mask k"
  using assms
  by (intro bit_word_eqI) (auto simp: bit_simps)

lemma sextet_eq: "n \<le> 26 \<Longrightarrow> sextet accu n = unat accu div 2 ^ n mod 64"
proof -
  assume n: "n \<le> 26"
  have m: "(63 :: int32) = mask 6" by (simp add: mask_eq_exp_minus_1)
  have "sextet accu n = unat (drop_bit n accu AND mask 6)"
    using signed_drop_and_mask [of n 6 accu] n by (simp only: sextet_def m)
  also have "\<dots> = unat accu div 2 ^ n mod 2 ^ 6" by (simp only: unat_and_mask unat_drop_bit)
  finally show ?thesis by simp
qed

lemma octet_eq: "n \<le> 24 \<Longrightarrow> unat (octet accu n) = unat accu div 2 ^ n mod 256"
proof -
  assume n: "n \<le> 24"
  have m: "(255 :: int32) = mask 8" by (simp add: mask_eq_exp_minus_1)
  have "octet accu n = ucast (drop_bit n accu AND mask 8)"
    using signed_drop_and_mask [of n 8 accu] n by (simp only: octet_def m)
  moreover have "unat (drop_bit n accu AND mask 8) = unat accu div 2 ^ n mod 2 ^ 8"
    by (simp only: unat_and_mask unat_drop_bit)
  ultimately show ?thesis by (simp add: unsigned_ucast_eq take_bit_eq_mod)
qed

lemma push_or_eq:
  fixes accu v :: int32
  assumes v: "unat v < 2 ^ k"
  shows "unat (push_bit k accu OR v) = (unat accu * 2 ^ k + unat v) mod 2 ^ 32"
proof -
  have "unat (take_bit k v) = unat v"
    using v by (simp add: unsigned_take_bit_eq take_bit_nat_eq_self)
  then have tv: "take_bit k v = v" by (simp add: word_unat_eq_iff)
  have "\<not> bit v n" if "k \<le> n" for n
    using that by (subst tv [symmetric]) (simp add: bit_take_bit_iff)
  then have "push_bit k accu AND v = 0"
    by (intro bit_word_eqI) (auto simp: bit_simps)
  then have "push_bit k accu OR v = push_bit k accu + v"
    by (rule disjunctive_add_eq_or [symmetric])
  also have "\<dots> = word_of_nat (unat accu * 2 ^ k + unat v)"
    by (simp add: push_bit_eq_mult)
  finally have "push_bit k accu OR v = word_of_nat (unat accu * 2 ^ k + unat v)" .
  then show ?thesis by (simp only: unat_of_nat) simp
qed

lemma unat_b64_push: "unat (b64_push accu b) = (unat accu * 256 + unat b) mod 2 ^ 32"
proof -
  have u: "unat (ucast b :: int32) = unat b"
    by (simp add: unsigned_ucast_eq take_bit_nat_eq_self less_trans [OF unat_lt_256])
  then have "unat (ucast b :: int32) < 2 ^ 8" using unat_lt_256 [of b] by simp
  from push_or_eq [OF this, of accu] show ?thesis by (simp add: b64_push_def u)
qed

lemma div_mod_pow: "(x :: nat) div 2 ^ n mod 2 ^ k = x mod 2 ^ (n + k) div 2 ^ n"
  by (simp add: power_add mod_mult2_eq)

lemma mod_pow_mod: "k \<le> m \<Longrightarrow> (x :: nat) mod 2 ^ m mod 2 ^ k = x mod 2 ^ k"
  by (simp add: mod_mod_cancel le_imp_power_dvd)

text \<open>
  With \<open>P\<close> the pending \<open>s\<close> bits of the accumulator, a step of the encoder sees the number
  \<open>P * 256 + b\<close>, whatever is above the pending bits.
\<close>

lemma push_pending:
  assumes "s \<le> 24"
  shows "unat (b64_push accu b) mod 2 ^ (s + 8) = (unat accu mod 2 ^ s) * 256 + unat b"
proof -
  have b: "unat b < 256" by simp
  have "unat (b64_push accu b) mod 2 ^ (s + 8) = (unat accu * 256 + unat b) mod 2 ^ (s + 8)"
    using mod_pow_mod [of "s + 8" 32] assms unfolding unat_b64_push by simp
  also have "\<dots> = (unat accu * 256 + unat b) mod (256 * 2 ^ s)" by (simp add: power_add mult.commute)
  also have "\<dots> = 256 * ((unat accu * 256 + unat b) div 256 mod 2 ^ s) + (unat accu * 256 + unat b) mod 256"
    by (simp only: mod_mult2_eq)
  also have "\<dots> = 256 * (unat accu mod 2 ^ s) + unat b"
    using b by simp
  finally show ?thesis by simp
qed

lemma pending_drop: "k \<le> s \<Longrightarrow> (x :: nat) mod 2 ^ k = x mod 2 ^ s mod 2 ^ k"
  by (simp add: mod_pow_mod)

declare add_2_eq_Suc [simp del] add_2_eq_Suc' [simp del]

subsection \<open>The encoder and the decoder on lists of 6-bit values\<close>

fun enc6 :: "bytes \<Rightarrow> nat \<Rightarrow> nat \<Rightarrow> nat list" where
  "enc6 [] P s = (if s = 0 then [] else [P * 2 ^ (6 - s)])"
| "enc6 (b # bs) P s =
     (let V = P * 256 + unat b in
      V div 2 ^ (s + 2) #
      (if s \<ge> 4 then V mod 2 ^ (s + 2) div 2 ^ (s - 4) # enc6 bs (V mod 2 ^ (s - 4)) (s - 4)
       else enc6 bs (V mod 2 ^ (s + 2)) (s + 2)))"

fun dec6 :: "nat list \<Rightarrow> nat \<Rightarrow> nat \<Rightarrow> nat list" where
  "dec6 [] P t = []"
| "dec6 (v # vs) P t =
     (let V = P * 64 + v in
      if t \<ge> 2 then V div 2 ^ (t - 2) # dec6 vs (V mod 2 ^ (t - 2)) (t - 2)
      else dec6 vs V (t + 6))"

lemma dec6_enc6:
  "dec6 (enc6 bs 0 0) 0 0 = map unat bs"
  "P < 4 \<Longrightarrow> dec6 (enc6 bs P 2) Q 6 = (Q * 4 + P) # map unat bs"
  "P < 16 \<Longrightarrow> dec6 (enc6 bs P 4) Q 4 = (Q * 16 + P) # map unat bs"
proof (induction bs arbitrary: P Q)
  case Nil
  { case 1 show ?case by simp }
  { case 2 then show ?case by simp }
  { case 3 then show ?case by simp }
next
  case (Cons b bs)
  have b: "unat b < 256" by simp
  have b4: "unat b div 16 < 16" "unat b div 64 < 4" using b by linarith+
  have split: "P * 256 + unat b = unat b + (P * 16) * 16" "P * 256 + unat b = unat b + (P * 4) * 64"
    "Q * 64 + (P * 16 + unat b div 16) = (Q * 4 + P) * 16 + unat b div 16"
    "Q * 64 + (P * 4 + unat b div 64) = (Q * 16 + P) * 4 + unat b div 64" for P Q
    by (simp_all add: algebra_simps)
  have digit: "x < n \<Longrightarrow> (y * n + x) div n = y \<and> (y * n + x) mod n = x" for x n y :: nat by simp
  { case 1
    have "unat b div 4 * 4 + unat b mod 4 = unat b" by simp
    with Cons.IH(2) [of "unat b mod 4" "unat b div 4"] show ?case
      by (simp add: Let_def) }
  { case 2
    have "(P * 256 + unat b) div 16 = P * 16 + unat b div 16"
      "(P * 256 + unat b) mod 16 = unat b mod 16"
      "(Q * 64 + (P * 16 + unat b div 16)) div 16 = Q * 4 + P"
      "(Q * 64 + (P * 16 + unat b div 16)) mod 16 = unat b div 16"
      using digit [of "unat b div 16" 16 "Q * 4 + P"] b4
      unfolding split(1,3) by (simp_all only: mod_mult_self1 div_mult_self1)
    with Cons.IH(3) [of "unat b mod 16" "unat b div 16"] show ?case by simp }
  { case 3
    have "(P * 256 + unat b) div 64 = P * 4 + unat b div 64"
      "(P * 256 + unat b) mod 64 = unat b mod 64"
      "(Q * 64 + (P * 4 + unat b div 64)) div 4 = Q * 16 + P"
      "(Q * 64 + (P * 4 + unat b div 64)) mod 4 = unat b div 64"
      using digit [of "unat b div 64" 4 "Q * 16 + P"] b4
      unfolding split(2,4) by (simp_all only: mod_mult_self1 div_mult_self1)
    with Cons.IH(1) show ?case by simp }
qed

lemma enc6_range: "s \<in> {0, 2, 4} \<Longrightarrow> P < 2 ^ s \<Longrightarrow> \<forall>v \<in> set (enc6 bs P s). v < 64"
proof (induction bs arbitrary: P s)
  case Nil
  then show ?case by auto
next
  case (Cons b bs)
  have b: "unat b < 256" by simp
  from Cons.prems consider "s = 0" | "s = 2" | "s = 4" by blast
  then show ?case
  proof cases
    case 1
    moreover have "unat b mod 4 < 4" "unat b div 4 < 64" using b by linarith+
    ultimately show ?thesis using Cons.IH [of 2 "unat b mod 4"] Cons.prems b
      by (auto simp: Let_def)
  next
    case 2
    with Cons.prems have "P < 4" by simp
    moreover from this have "(P * 256 + unat b) div 16 < 64" using b by linarith
    moreover have "(P * 256 + unat b) mod 16 < 16" by simp
    ultimately show ?thesis using Cons.IH [of 4 "(P * 256 + unat b) mod 16"] 2 by (simp add: Let_def)
  next
    case 3
    with Cons.prems have "P < 16" by simp
    moreover from this have "(P * 256 + unat b) div 64 < 64" using b by linarith
    ultimately show ?thesis using Cons.IH [of 0 0] 3 by (simp add: Let_def)
  qed
qed

lemma length_enc6: "s \<in> {0, 2, 4} \<Longrightarrow> length (enc6 bs P s) = (8 * length bs + s + 5) div 6"
proof (induction bs arbitrary: P s)
  case Nil
  then show ?case by auto
next
  case (Cons b bs)
  then show ?case
    using Cons.IH [of 0] Cons.IH [of 2] Cons.IH [of 4]
    by (auto simp: Let_def)
qed

subsection \<open>The code's loops are these functions\<close>

lemma sextet_pending:
  "n + 6 \<le> m \<Longrightarrow> n \<le> 26 \<Longrightarrow> sextet accu n = unat accu mod 2 ^ m div 2 ^ n mod 64"
  using div_mod_pow [of "unat accu" n 6] div_mod_pow [of "unat accu mod 2 ^ m" n 6]
    mod_pow_mod [of "n + 6" m "unat accu"]
  by (simp add: sextet_eq)

lemma sextet_top:
  assumes "n \<le> 26" shows "sextet accu n = unat accu mod 2 ^ (n + 6) div 2 ^ n"
  using div_mod_pow [of "unat accu" n 6] assms by (simp add: sextet_eq)

lemma pending_less: "s \<le> 24 \<Longrightarrow> unat (b64_push accu b) mod 2 ^ (s + 8) < 2 ^ (s + 8)"
  by simp

lemma enc_tail:
  assumes "s \<in> {2, 4}"
  shows "sextet (push_bit 8 accu) (s + 8 - 6) = unat accu mod 2 ^ s * 2 ^ (6 - s)"
proof -
  have e: "push_bit 8 accu = b64_push accu 0" by (simp add: b64_push_def)
  have "sextet (push_bit 8 accu) (s + 2) = unat accu mod 2 ^ s * 256 div 2 ^ (s + 2)"
    using push_pending [of s accu 0] assms
    by (auto simp: e sextet_top)
  also have "\<dots> = unat accu mod 2 ^ s * 2 ^ (6 - s)"
    using assms by auto
  finally show ?thesis by (simp add: add.commute)
qed

lemma enc_step:
  assumes s: "s \<in> {0, 2, 4}"
  defines "V accu b \<equiv> unat accu mod 2 ^ s * 256 + unat b"
  shows "emit_loop alpha (b64_push accu b) (s + 8) =
    (if s = 4 then ([alpha ! (V accu b div 2 ^ (s + 2)), alpha ! (V accu b mod 2 ^ (s + 2) div 2 ^ (s - 4))], s - 4)
     else ([alpha ! (V accu b div 2 ^ (s + 2))], s + 2))"
    "unat (b64_push accu b) mod 2 ^ (s + 2) = V accu b mod 2 ^ (s + 2)"
    "unat (b64_push accu b) mod 2 ^ (s - 4) = V accu b mod 2 ^ (s - 4)"
proof -
  let ?a = "b64_push accu b"
  have p: "unat ?a mod 2 ^ (s + 8) = V accu b"
    using push_pending [of s accu b] s by (auto simp: V_def)
  show m: "unat ?a mod 2 ^ (s + 2) = V accu b mod 2 ^ (s + 2)"
    using pending_drop [of "s + 2" "s + 8" "unat ?a"] p by simp
  show "unat ?a mod 2 ^ (s - 4) = V accu b mod 2 ^ (s - 4)"
    using pending_drop [of "s - 4" "s + 8" "unat ?a"] p by simp
  have "sextet ?a (s + 2) = V accu b div 2 ^ (s + 2)"
    using s p by (subst sextet_top) (auto simp: add.commute add.left_commute)
  moreover have "s = 4 \<Longrightarrow> sextet ?a 0 = V accu b mod 64"
    using m by (simp add: sextet_top)
  ultimately show "emit_loop alpha ?a (s + 8) =
    (if s = 4 then ([alpha ! (V accu b div 2 ^ (s + 2)), alpha ! (V accu b mod 2 ^ (s + 2) div 2 ^ (s - 4))], s - 4)
     else ([alpha ! (V accu b div 2 ^ (s + 2))], s + 2))"
    using s by (subst emit_loop.simps, subst emit_loop.simps, subst emit_loop.simps) auto
qed

lemma b64_loop_enc6:
  "s \<in> {0, 2, 4} \<Longrightarrow> b64_loop alpha bytes i n accu s
     = map ((!) alpha) (enc6 (map (byte_at bytes) [i..<i + n]) (unat accu mod 2 ^ s) s)"
proof (induction n arbitrary: i accu s)
  case 0
  then show ?case using enc_tail [of s accu] by auto
next
  case (Suc n)
  have l: "[i..<i + Suc n] = i # [Suc i..<Suc i + n]" by (simp add: upt_conv_Cons)
  show ?case
    using enc_step [OF Suc.prems] Suc.prems
      Suc.IH [of 0] Suc.IH [of 2] Suc.IH [of 4]
    unfolding l by (auto simp: Let_def)
qed

text \<open>The decoder's step, in the same way.\<close>

lemma dec_step:
  assumes t: "t \<in> {0, 2, 4, 6}" and v: "v < 64"
  defines "V accu \<equiv> unat accu mod 2 ^ t * 64 + v"
  shows "unat (push_bit 6 accu OR word_of_nat v :: int32) mod 2 ^ (t + 6) = V accu"
proof -
  have v': "unat (word_of_nat v :: int32) = v" using v by (simp add: unat_of_nat)
  have "unat (push_bit 6 accu OR word_of_nat v :: int32) mod 2 ^ (t + 6)
      = (unat accu * 64 + v) mod 2 ^ (t + 6)"
    using push_or_eq [of "word_of_nat v :: int32" 6 accu] v t mod_pow_mod [of "t + 6" 32]
    by (auto simp: v')
  also have "\<dots> = (unat accu * 64 + v) mod (64 * 2 ^ t)" by (simp add: power_add mult.commute)
  also have "\<dots> = 64 * ((unat accu * 64 + v) div 64 mod 2 ^ t) + (unat accu * 64 + v) mod 64"
    by (simp only: mod_mult2_eq)
  also have "\<dots> = V accu" using v by (simp add: V_def)
  finally show ?thesis .
qed

lemma octet_pending:
  assumes "n \<le> 24" shows "octet accu n = word_of_nat (unat accu mod 2 ^ (n + 8) div 2 ^ n)"
proof -
  have "unat (octet accu n) = unat accu mod 2 ^ (n + 8) div 2 ^ n"
    using div_mod_pow [of "unat accu" n 8] assms by (simp add: octet_eq)
  then show ?thesis by (metis of_nat_unat ucast_id)
qed

lemma decode_loop_dec6:
  "\<lbrakk>t \<in> {0, 2, 4, 6}; \<forall>v \<in> set vs. v < 64; map b64_value s = map Some vs\<rbrakk> \<Longrightarrow>
   b64_decode_loop s accu t bytes
     = Some (bytes @ map word_of_nat (dec6 vs (unat accu mod 2 ^ t) t))"
proof (induction vs arbitrary: s accu t bytes)
  case Nil
  then show ?case by simp
next
  case (Cons v vs)
  then obtain c s' where s: "s = c # s'" "b64_value c = Some v" "map b64_value s' = map Some vs"
    by (cases s) auto
  let ?a = "push_bit 6 accu OR word_of_nat v :: int32"
  from Cons.prems have v: "v < 64" and vs: "\<forall>v \<in> set vs. v < 64" by auto
  have V: "unat ?a mod 2 ^ (t + 6) = unat accu mod 2 ^ t * 64 + v"
    by (rule dec_step [OF Cons.prems(1) v])
  show ?case
  proof (cases "t = 0")
    case True
    then show ?thesis
      using Cons.IH [OF _ vs s(3), of 6 ?a bytes] V s(2) by (simp add: s(1) Let_def)
  next
    case False
    with Cons.prems(1) have t: "t - 2 \<in> {0, 2, 4, 6}" "t \<ge> 2" "t - 2 + 8 = t + 6" "t - 2 \<le> 24" by auto
    have o: "octet ?a (t - 2) = word_of_nat ((unat accu mod 2 ^ t * 64 + v) div 2 ^ (t - 2))"
      using octet_pending [OF t(4), of ?a] V by (simp only: t(3))
    have p: "unat ?a mod 2 ^ (t - 2) = (unat accu mod 2 ^ t * 64 + v) mod 2 ^ (t - 2)"
      using pending_drop [of "t - 2" "t + 6" "unat ?a"] V by simp
    have k: "t + 6 \<ge> 8" "t + 6 - 8 = t - 2" using t(2) by simp_all
    show ?thesis
      using Cons.IH [OF t(1) vs s(3), of ?a "bytes @ [octet ?a (t - 2)]"] s(2) t(2)
      by (simp add: s(1) Let_def k o p)
  qed
qed

lemma length_b64out: "length b64out = 64"
  by (simp add: b64out_def)

lemma b64_value_out: "v < 64 \<Longrightarrow> b64_value (b64out ! v) = Some v"
proof -
  assume v: "v < 64"
  have "map b64_value b64out = map Some [0..<64]"
    by (simp add: b64_value_def b64out_def B64_inmap_def upt_conv_Cons)
  then have "map b64_value b64out ! v = map Some [0..<64] ! v" by simp
  then show ?thesis using v length_b64out by (simp del: upt_conv_Cons)
qed

lemma b64_decode_loop_invalid:
  "\<exists>c \<in> set s. b64_value c = None \<Longrightarrow> b64_decode_loop s accu t bytes = None"
  by (induction s arbitrary: accu t bytes) (auto simp: Let_def split: option.split)

lemma map_byte_at: "map (byte_at bytes) [0..<length bytes] = bytes"
  by (rule nth_equalityI) (simp_all add: byte_at_def)

lemma B64_encode_enc6: "B64_encode bytes None = map ((!) b64out) (enc6 bytes 0 0)"
  using b64_loop_enc6 [of 0 b64out bytes 0 "length bytes" 0]
  by (simp add: B64_encode_def encode_length_def map_byte_at)

lemma length_pad4: "length (pad4 r) = 4 * ((length r + 3) div 4)"
proof (induction r rule: pad4.induct)
  case (1 r)
  show ?case
  proof (cases "length r mod 4 = 0")
    case True
    then show ?thesis by (subst pad4.simps) auto
  next
    case False
    with 1 have "length (pad4 r) = 4 * ((length r + 4) div 4)" by (subst pad4.simps) simp
    with False show ?thesis by presburger
  qed
qed

lemma pad4_pad: "\<exists>n < 4. pad4 r = r @ replicate n (CHR ''='')"
proof -
  have "\<exists>n. pad4 r = r @ replicate n (CHR ''='')"
  proof (induction r rule: pad4.induct)
    case (1 r)
    show ?case
    proof (cases "length r mod 4 = 0")
      case True
      then show ?thesis by (subst pad4.simps) auto
    next
      case False
      then have "pad4 r = pad4 (r @ ''='')" by (subst pad4.simps) simp
      moreover from 1 False obtain n where "pad4 (r @ ''='') = (r @ ''='') @ replicate n (CHR ''='')"
        by blast
      ultimately have "pad4 r = r @ replicate (Suc n) (CHR ''='')" by simp
      then show ?thesis by blast
    qed
  qed
  then obtain n where n: "pad4 r = r @ replicate n (CHR ''='')" by blast
  then have "n < 4" using length_pad4 [of r] by simp
  with n show ?thesis by blast
qed

text \<open>
  The web-safe text has \<open>\<lceil>8 n / 6\<rceil>\<close> characters for \<open>n\<close> bytes and uses the 64 characters of the
  alphabet only, and the ordinary encoding is the same sextets in the other alphabet followed by at
  most three \<open>=\<close>, up to a multiple of four.
\<close>

theorem B64_encode_shape:
  "length (B64_encode bytes None) = (8 * length bytes + 5) div 6
   \<and> set (B64_encode bytes None) \<subseteq> set b64out
   \<and> (\<exists>idx n. n < 4 \<and> B64_encode bytes None = map ((!) b64out) idx
        \<and> base64_encode bytes None = map ((!) b64out_std) idx @ replicate n (CHR ''='')
        \<and> length (base64_encode bytes None) mod 4 = 0)"
proof (intro conjI)
  have r: "\<forall>v \<in> set (enc6 bytes 0 0). v < 64" by (rule enc6_range) simp_all
  show "length (B64_encode bytes None) = (8 * length bytes + 5) div 6"
    by (simp add: B64_encode_enc6 length_enc6)
  have "b64out ! v \<in> set b64out" if "v \<in> set (enc6 bytes 0 0)" for v
  proof (rule nth_mem)
    show "v < length b64out" using r that unfolding length_b64out by blast
  qed
  then show "set (B64_encode bytes None) \<subseteq> set b64out"
    unfolding B64_encode_enc6 set_map by blast
  have "base64_encode bytes None = pad4 (map ((!) b64out_std) (enc6 bytes 0 0))"
    using b64_loop_enc6 [of 0 b64out_std bytes 0 "length bytes" 0]
    by (simp add: base64_encode_def encode_length_def map_byte_at)
  moreover have "length (pad4 (map ((!) b64out_std) (enc6 bytes 0 0))) mod 4 = 0"
    by (simp add: length_pad4)
  moreover obtain n where "n < 4" "pad4 (map ((!) b64out_std) (enc6 bytes 0 0))
      = map ((!) b64out_std) (enc6 bytes 0 0) @ replicate n (CHR ''='')"
    using pad4_pad by blast
  ultimately show "\<exists>idx n. n < 4 \<and> B64_encode bytes None = map ((!) b64out) idx
        \<and> base64_encode bytes None = map ((!) b64out_std) idx @ replicate n (CHR ''='')
        \<and> length (base64_encode bytes None) mod 4 = 0"
    using B64_encode_enc6 [of bytes] by metis
qed

lemma B64_decode_invalid: "\<exists>c \<in> set s. b64_value c = None \<Longrightarrow> B64_decode s = []"
  by (simp add: B64_decode_def b64_decode_loop_invalid)

subsection \<open>Encodings with a decoder\<close>

locale codec =
  fixes enc :: "'a \<Rightarrow> 'b" and dec :: "'b \<Rightarrow> 'a"
  assumes dec_enc [simp]: "dec (enc x) = x"
begin

lemma enc_inject: "enc x = enc y \<longleftrightarrow> x = y"
  by (metis dec_enc)

lemma dec_surj: "\<exists>y. dec y = x"
  by (metis dec_enc)

lemma enc_map_inject: "map enc xs = map enc ys \<longleftrightarrow> xs = ys"
  by (metis (no_types, lifting) enc_inject list.inj_map_strong)

end

lemma B64_codec: "codec (\<lambda>b. B64_encode b None) B64_decode"
proof
  fix x
  have r: "\<forall>v \<in> set (enc6 x 0 0). v < 64" by (rule enc6_range) simp_all
  then have "map b64_value (B64_encode x None) = map Some (enc6 x 0 0)"
    by (simp add: B64_encode_enc6 b64_value_out)
  then have "b64_decode_loop (B64_encode x None) 0 0 []
      = Some (map word_of_nat (dec6 (enc6 x 0 0) 0 0))"
    using decode_loop_dec6 [of 0 "enc6 x 0 0" _ 0 "[]"] r by simp
  then show "B64_decode (B64_encode x None) = x" by (simp add: B64_decode_def dec6_enc6(1) comp_def)
qed

interpretation b64: codec "\<lambda>b. B64_encode b None" B64_decode
  by (rule B64_codec)

text \<open>
  C13. Base64 round trip: for every byte array, decoding the text that \<open>B64_encode\<close> writes
  gives the array back, although the encoder's 32-bit accumulator keeps shifting old bits out
  of its top and both loops read only its low bits.
\<close>

theorem B64_decode_encode: "B64_decode (B64_encode bytes None) = bytes"
  by (rule b64.dec_enc)

interpretation hex: codec "\<lambda>b. UTIL_BytesToHex (Some b)" UTIL_HexToBytes
  by unfold_locales (rule HexToBytes_hex)

interpretation str: codec UTIL_StringToBytes UTIL_BytesToString
  by unfold_locales simp

end
