(* ===== verification/SingleSigner.thy ===== *)
theory SingleSigner
  imports Applet B64
begin

text \<open>
  singlesigner.js: opening one token and trying challenges on it until one settles the outcome. The state
  is the object's; \<open>ss_out\<close> lists its calls of the token factory, of the token and of the completion
  callback, in order, and \<open>ss_pending\<close> the callbacks and timeouts that were handed out and have not come
  back. An event is the coming back of one of these, a call of \<open>doSign\<close> or \<open>close\<close>, or the expiry of the
  advisory timer, which the signer shares with its caller.
\<close>

subsection \<open>Status codes\<close>

definition OK_STATUS :: int where "OK_STATUS = 0"
definition WRONG_LENGTH_STATUS :: int where "WRONG_LENGTH_STATUS = 0x6700"
definition WAIT_TOUCH_STATUS :: int where "WAIT_TOUCH_STATUS = 0x6985"
definition INVALID_DATA_STATUS :: int where "INVALID_DATA_STATUS = 0x6984"
definition WRONG_DATA_STATUS :: int where "WRONG_DATA_STATUS = 0x6a80"
definition TIMEOUT_STATUS :: int where "TIMEOUT_STATUS = -5"
definition BUSY_STATUS :: int where "BUSY_STATUS = -6"
definition GONE_STATUS :: int where "GONE_STATUS = -8"

lemmas status_codes = OK_STATUS_def WRONG_LENGTH_STATUS_def WAIT_TOUCH_STATUS_def INVALID_DATA_STATUS_def
  WRONG_DATA_STATUS_def TIMEOUT_STATUS_def BUSY_STATUS_def GONE_STATUS_def

subsection \<open>The signer\<close>

record sign_challenge =
  sc_challengeHash :: bytes
  sc_appIdHash :: bytes
  sc_keyHandle :: bytes
  sc_version :: "string option"

datatype ss_state = SsInit | OPENING | BUSY_STATE | IDLE | SIGNING | COMPLETE | CLOSING | CLOSED

record signer_result =
  sr_code :: int
  sr_gnubby :: "nat option"
  sr_challenge :: "sign_challenge option"
  sr_info :: "bytes option"

datatype ss_effect =
    OpenGnubby "string option"
  | CancelOpen
  | AskVersion
  | Resync
  | Sign sign_challenge
  | CloseWhenIdle
  | SetTimeout nat
  | CompleteCb signer_result

datatype ss_wait = WOpen | WReopen | WVersion | WVersionSync | WSign nat | WTouch | WSynced | WEmpty | WClosed

text \<open>
  The errors that the signer caches are those \<open>signErrorIndicatesInvalidKeyHandle\<close> accepts; the cache is
  a dictionary from key handles to them.
\<close>

datatype invalid_code = InvWrongData | InvWrongLength | InvInvalidData

fun code_of :: "invalid_code \<Rightarrow> int" where
  "code_of InvWrongData = WRONG_DATA_STATUS"
| "code_of InvWrongLength = WRONG_LENGTH_STATUS"
| "code_of InvInvalidData = INVALID_DATA_STATUS"

definition signErrorIndicatesInvalidKeyHandle :: "int \<Rightarrow> invalid_code option" where
  "signErrorIndicatesInvalidKeyHandle code =
     (if code = WRONG_DATA_STATUS then Some InvWrongData
      else if code = WRONG_LENGTH_STATUS then Some InvWrongLength
      else if code = INVALID_DATA_STATUS then Some InvInvalidData else None)"

record single_signer =
  ss_state :: ss_state
  ss_forEnroll :: bool
  ss_timer :: "bool option"
  ss_challenges :: "sign_challenge list"
  ss_challengeIndex :: nat
  ss_challengesSet :: bool
  ss_cachedError :: "(bytes \<times> invalid_code) list"
  ss_gnubby :: "nat option"
  ss_version :: string
  ss_canceller :: bool
  ss_pending :: "ss_wait list"
  ss_out :: "ss_effect list"

definition SingleGnubbySigner :: "bool \<Rightarrow> bool option \<Rightarrow> single_signer" where
  "SingleGnubbySigner forEnroll timer =
     \<lparr>ss_state = SsInit, ss_forEnroll = forEnroll, ss_timer = timer, ss_challenges = [], ss_challengeIndex = 0,
      ss_challengesSet = False, ss_cachedError = [], ss_gnubby = None, ss_version = [], ss_canceller = False,
      ss_pending = [], ss_out = []\<rparr>"

definition ss_emit :: "ss_effect \<Rightarrow> single_signer \<Rightarrow> single_signer" where
  "ss_emit e s = s\<lparr>ss_out := ss_out s @ [e]\<rparr>"

definition await :: "ss_wait \<Rightarrow> single_signer \<Rightarrow> single_signer" where
  "await w s = s\<lparr>ss_pending := ss_pending s @ [w]\<rparr>"

definition ss_expired :: "single_signer \<Rightarrow> bool" where
  "ss_expired s \<longleftrightarrow> ss_timer s = Some True"

definition ss_close :: "single_signer \<Rightarrow> single_signer" where
  "ss_close s =
     (let s1 = (if ss_state s = OPENING \<and> ss_canceller s then ss_emit CancelOpen s else s) in
      if ss_gnubby s1 = None then s1
      else await WClosed (ss_emit CloseWhenIdle (s1\<lparr>ss_state := CLOSING\<rparr>)))"

definition ss_closed :: "single_signer \<Rightarrow> single_signer" where
  "ss_closed s = s\<lparr>ss_gnubby := None, ss_state := CLOSED\<rparr>"

definition goToError :: "int \<Rightarrow> single_signer \<Rightarrow> single_signer" where
  "goToError code s =
     (let s1 = s\<lparr>ss_state := COMPLETE\<rparr> in
      if \<not> ss_forEnroll s1 \<and> code = WRONG_DATA_STATUS
      then ss_emit (CompleteCb \<lparr>sr_code = code, sr_gnubby = ss_gnubby s1, sr_challenge = None, sr_info = None\<rparr>) s1
      else ss_emit (CompleteCb \<lparr>sr_code = code, sr_gnubby = None, sr_challenge = None, sr_info = None\<rparr>) (ss_close s1))"

definition goToSuccess :: "int \<Rightarrow> sign_challenge option \<Rightarrow> bytes option \<Rightarrow> single_signer \<Rightarrow> single_signer" where
  "goToSuccess code opt_challenge opt_info s =
     (let s1 = s\<lparr>ss_state := COMPLETE\<rparr> in
      (ss_emit (CompleteCb \<lparr>sr_code = code, sr_gnubby = ss_gnubby s1, sr_challenge = opt_challenge, sr_info = opt_info\<rparr>)
         s1)\<lparr>ss_gnubby := None\<rparr>)"

text \<open>Commands on the token; with none at hand the call is an exception, which ends the callback.\<close>

definition ask :: "ss_effect \<Rightarrow> ss_wait \<Rightarrow> single_signer \<Rightarrow> single_signer" where
  "ask e w s = (if ss_gnubby s = None then s else await w (ss_emit e s))"

text \<open>\<open>doSign_\<close> and \<open>signCallback_\<close> call each other while the answers need no device.\<close>

definition cache_error :: "nat \<Rightarrow> int \<Rightarrow> single_signer \<Rightarrow> single_signer" where
  "cache_error i code s =
     (case signErrorIndicatesInvalidKeyHandle code of None \<Rightarrow> s
      | Some c \<Rightarrow>
        if i < length (ss_challenges s) \<and> map_of (ss_cachedError s) (sc_keyHandle (ss_challenges s ! i)) = None
        then s\<lparr>ss_cachedError := AList.update (sc_keyHandle (ss_challenges s ! i)) c (ss_cachedError s)\<rparr> else s)"

definition next_index :: "single_signer \<Rightarrow> single_signer" where
  "next_index s = s\<lparr>ss_challengeIndex := ss_challengeIndex s + 1\<rparr>"

definition more_challenges :: "single_signer \<Rightarrow> bool" where
  "more_challenges s \<longleftrightarrow> int (ss_challengeIndex s) < int (length (ss_challenges s)) - 1"

lemma cache_error_simps [simp]:
  "ss_challenges (cache_error i c s) = ss_challenges s"
  "ss_challengeIndex (cache_error i c s) = ss_challengeIndex s"
  "more_challenges (cache_error i c s) = more_challenges s"
  by (auto simp: cache_error_def more_challenges_def split: option.split)

lemma next_index_simps [simp]:
  "ss_challenges (next_index s) = ss_challenges s"
  "ss_challengeIndex (next_index s) = Suc (ss_challengeIndex s)"
  by (simp_all add: next_index_def)

lemma invalid_codes [simp]:
  "signErrorIndicatesInvalidKeyHandle (code_of c) = Some c"
  "signErrorIndicatesInvalidKeyHandle WRONG_DATA_STATUS = Some InvWrongData"
  "signErrorIndicatesInvalidKeyHandle BUSY_STATUS = None"
  by (cases c) (simp_all add: signErrorIndicatesInvalidKeyHandle_def status_codes)

definition left_to_try :: "single_signer \<Rightarrow> nat" where
  "left_to_try s = length (ss_challenges s) - ss_challengeIndex s"

function (sequential) ss_signNext :: "nat \<Rightarrow> single_signer \<Rightarrow> single_signer"
  and signCallback :: "nat \<Rightarrow> int \<Rightarrow> bytes option \<Rightarrow> single_signer \<Rightarrow> single_signer" where
  "ss_signNext i s =
     (if ss_gnubby s = None then s
      else if ss_expired s then goToError TIMEOUT_STATUS s
      else if \<not> ss_challengesSet s then s\<lparr>ss_state := IDLE\<rparr>
      else (let s1 = s\<lparr>ss_state := SIGNING\<rparr> in
        if i \<ge> length (ss_challenges s1) then signCallback i WRONG_DATA_STATUS None s1
        else (let ch = ss_challenges s1 ! i in
          case map_of (ss_cachedError s1) (sc_keyHandle ch) of
            Some c \<Rightarrow> signCallback i (code_of c) None s1
          | None \<Rightarrow>
              if (case sc_version ch of None \<Rightarrow> False | Some v \<Rightarrow> v \<noteq> [] \<and> v \<noteq> ss_version s1)
              then signCallback i WRONG_DATA_STATUS None s1
              else await (WSign i) (ss_emit (Sign ch) s1))))"
| "signCallback i code opt_info s =
     (if ss_state s \<noteq> SIGNING then s
      else (let s1 = cache_error i code s in
        if code = GONE_STATUS then goToError code s1
        else if code = TIMEOUT_STATUS then ask Resync WSynced s1
        else if code = BUSY_STATUS then ss_signNext (ss_challengeIndex s1) s1
        else if code = OK_STATUS
        then (if ss_forEnroll s1 then goToError code s1
              else goToSuccess code (if i < length (ss_challenges s1) then Some (ss_challenges s1 ! i) else None) opt_info s1)
        else if code = WAIT_TOUCH_STATUS then await WTouch (ss_emit (SetTimeout 200) s1)
        else if signErrorIndicatesInvalidKeyHandle code \<noteq> None
        then (if more_challenges s1 then ss_signNext (ss_challengeIndex s1 + 1) (next_index s1)
              else if ss_forEnroll s1 then goToSuccess code None None s1
              else goToError code s1)
        else if ss_forEnroll s1 then goToError code s1
        else if more_challenges s1 then ss_signNext (ss_challengeIndex s1 + 1) (next_index s1)
        else goToError code s1))"
  by pat_completeness auto
termination
  by (relation "measure (\<lambda>x. case x of Inl (i, s) \<Rightarrow> 2 * left_to_try s + 1
      | Inr (i, code, info, s) \<Rightarrow> 2 * left_to_try s + (if signErrorIndicatesInvalidKeyHandle code \<noteq> None then 0 else 2))")
    (auto simp: left_to_try_def more_challenges_def less_diff_conv)

declare ss_signNext.simps [simp del] signCallback.simps [simp del]

definition ss_open :: "single_signer \<Rightarrow> single_signer" where
  "ss_open s =
     (if ss_state s = SsInit
      then await WOpen (ss_emit (OpenGnubby (case ss_challenges s of [] \<Rightarrow> None
             | c # _ \<Rightarrow> Some (B64_encode (sc_appIdHash c) None))) (s\<lparr>ss_state := OPENING\<rparr>))
      else s)"

definition ss_doSign :: "sign_challenge list \<Rightarrow> single_signer \<Rightarrow> single_signer \<times> bool" where
  "ss_doSign challenges s =
     (if ss_challengesSet s then (s, False)
      else (let s1 = s\<lparr>ss_challenges := ss_challenges s @ challenges, ss_challengesSet := True\<rparr> in
        case ss_state s1 of
          SsInit \<Rightarrow> (ss_open s1, True)
        | OPENING \<Rightarrow> (s1, True)
        | IDLE \<Rightarrow>
            (if ss_challengeIndex s1 < length challenges then (ss_signNext (ss_challengeIndex s1) s1, True)
             else (await WEmpty (ss_emit (SetTimeout 0) s1), True))
        | SIGNING \<Rightarrow> (s1, True)
        | _ \<Rightarrow> (s1, False)))"

definition OPEN_DELAY_MILLIS :: nat where "OPEN_DELAY_MILLIS = 200"

definition openCallback :: "int \<Rightarrow> nat option \<Rightarrow> single_signer \<Rightarrow> single_signer" where
  "openCallback rc gnubby s =
     (if ss_state s \<noteq> OPENING \<and> ss_state s \<noteq> BUSY_STATE then s
      else if rc = OK_STATUS
      then (if gnubby = None then s else ask AskVersion WVersion (s\<lparr>ss_gnubby := gnubby\<rparr>))
      else if rc = BUSY_STATUS
      then (let s1 = s\<lparr>ss_gnubby := gnubby, ss_state := BUSY_STATE\<rparr> in
            if \<not> ss_expired s1 then await WReopen (ss_emit (SetTimeout OPEN_DELAY_MILLIS) s1)
            else goToError BUSY_STATUS s1)
      else goToError rc s)"

text \<open>
  The retry passes the log URL where \<open>openGnubby\<close> expects the hash of the app id; the URL is not part of
  the model, so that the argument is \<open>None\<close>. It also assigns the canceller to the \<open>this\<close> of a plain
  function, not to the signer's.
\<close>

definition reopen :: "single_signer \<Rightarrow> single_signer" where
  "reopen s = (if ss_gnubby s \<noteq> None then await WOpen (ss_emit (OpenGnubby None) s) else s)"

definition versionCallback :: "int \<Rightarrow> bytes option \<Rightarrow> single_signer \<Rightarrow> single_signer" where
  "versionCallback rc opt_data s =
     (if rc = BUSY_STATUS
      then (if ss_expired s then goToError TIMEOUT_STATUS s
            else ask Resync WVersionSync s)
      else if rc \<noteq> 0 then goToError rc s
      else (let s1 = s\<lparr>ss_state := IDLE, ss_version := UTIL_BytesToString (case opt_data of Some d \<Rightarrow> d | None \<Rightarrow> [])\<rparr>
            in ss_signNext (ss_challengeIndex s1) s1))"

definition versionSynced :: "int \<Rightarrow> single_signer \<Rightarrow> single_signer" where
  "versionSynced code s =
     (if code \<noteq> 0 then goToError code s else ask AskVersion WVersion s)"

definition synced :: "int \<Rightarrow> single_signer \<Rightarrow> single_signer" where
  "synced code s = (if code \<noteq> 0 then goToError code s else ss_signNext (ss_challengeIndex s) s)"

text \<open>What comes back, and with what.\<close>

datatype ss_event =
    SsDoSign "sign_challenge list"
  | SsClose
  | SsExpire
  | SsBack ss_wait int "bytes option" "nat option"

fun come_back :: "ss_wait \<Rightarrow> int \<Rightarrow> bytes option \<Rightarrow> nat option \<Rightarrow> single_signer \<Rightarrow> single_signer" where
  "come_back WOpen rc d g s = openCallback rc g s"
| "come_back WReopen rc d g s = reopen s"
| "come_back WVersion rc d g s = versionCallback rc d s"
| "come_back WVersionSync rc d g s = versionSynced rc s"
| "come_back (WSign i) rc d g s = signCallback i rc d s"
| "come_back WTouch rc d g s = ss_signNext (ss_challengeIndex s) s"
| "come_back WSynced rc d g s = synced rc s"
| "come_back WEmpty rc d g s = goToError WRONG_DATA_STATUS s"
| "come_back WClosed rc d g s = ss_closed s"

fun ss_step :: "ss_event \<Rightarrow> single_signer \<Rightarrow> single_signer" where
  "ss_step (SsDoSign cs) s = fst (ss_doSign cs s)"
| "ss_step SsClose s = ss_close s"
| "ss_step SsExpire s = s\<lparr>ss_timer := map_option (\<lambda>_. True) (ss_timer s)\<rparr>"
| "ss_step (SsBack w rc d g) s =
     (if w \<in> set (ss_pending s) then come_back w rc d g (s\<lparr>ss_pending := remove1 w (ss_pending s)\<rparr>) else s)"

subsection \<open>The signer completes at most once\<close>

text \<open>
  One thread of control: at most one callback that can make progress is out at any time (\<open>closeWhenIdle\<close>
  aside), and after the completion there is none, nor a state from which \<open>doSign\<close> would start one.
\<close>

definition active :: "single_signer \<Rightarrow> nat" where
  "active s = length (filter (\<lambda>w. w \<noteq> WClosed) (ss_pending s))"

definition completions :: "single_signer \<Rightarrow> nat" where
  "completions s = length (filter (\<lambda>e. case e of CompleteCb r \<Rightarrow> True | _ \<Rightarrow> False) (ss_out s))"

text \<open>\<open>thread_ok n s\<close>: \<open>n\<close> is 1 while an event of the thread is being handled.\<close>

definition thread_ok :: "nat \<Rightarrow> single_signer \<Rightarrow> bool" where
  "thread_ok n s \<longleftrightarrow> active s + n + completions s \<le> 1
     \<and> (ss_state s = SsInit \<longrightarrow> active s + n + completions s = 0 \<and> \<not> ss_challengesSet s)
     \<and> (ss_state s = IDLE \<and> \<not> ss_challengesSet s \<longrightarrow> active s + completions s = 0)"

lemma active_simps [simp]:
  "active (ss_emit e s) = active s"
  "active (await w s) = active s + (if w = WClosed then 0 else 1)"
  "completions (await w s) = completions s"
  "completions (ss_emit e s) = completions s + (case e of CompleteCb r \<Rightarrow> 1 | _ \<Rightarrow> 0)"
  "ss_state (ss_emit e s) = ss_state s" "ss_state (await w s) = ss_state s"
  "ss_gnubby (ss_emit e s) = ss_gnubby s" "ss_gnubby (await w s) = ss_gnubby s"
  "ss_challengesSet (ss_emit e s) = ss_challengesSet s" "ss_challengesSet (await w s) = ss_challengesSet s"
  by (auto simp: active_def completions_def ss_emit_def await_def split: ss_effect.split)

lemma active_updates [simp]:
  "active (s\<lparr>ss_state := x\<rparr>) = active s" "completions (s\<lparr>ss_state := x\<rparr>) = completions s"
  "active (s\<lparr>ss_gnubby := g\<rparr>) = active s" "completions (s\<lparr>ss_gnubby := g\<rparr>) = completions s"
  "active (s\<lparr>ss_version := v\<rparr>) = active s" "completions (s\<lparr>ss_version := v\<rparr>) = completions s"
  "active (s\<lparr>ss_challenges := c\<rparr>) = active s" "completions (s\<lparr>ss_challenges := c\<rparr>) = completions s"
  "active (s\<lparr>ss_challengesSet := b\<rparr>) = active s" "completions (s\<lparr>ss_challengesSet := b\<rparr>) = completions s"
  "active (s\<lparr>ss_timer := t\<rparr>) = active s" "completions (s\<lparr>ss_timer := t\<rparr>) = completions s"
  "active (next_index s) = active s" "completions (next_index s) = completions s"
  "ss_state (next_index s) = ss_state s" "ss_challengesSet (next_index s) = ss_challengesSet s"
  by (auto simp: active_def completions_def next_index_def)

lemma cache_simps [simp]:
  "active (cache_error i c s) = active s" "completions (cache_error i c s) = completions s"
  "ss_state (cache_error i c s) = ss_state s" "ss_challengesSet (cache_error i c s) = ss_challengesSet s"
  by (auto simp: cache_error_def active_def completions_def split: option.split)

lemma thread_close: "thread_ok n s \<Longrightarrow> ss_state s \<noteq> SsInit \<Longrightarrow> thread_ok n (ss_close s)"
  by (auto simp: thread_ok_def ss_close_def Let_def)

lemma thread_error: "thread_ok 1 s \<Longrightarrow> thread_ok 0 (goToError c s)"
  by (auto simp: thread_ok_def goToError_def ss_close_def Let_def)

lemma thread_success: "thread_ok 1 s \<Longrightarrow> thread_ok 0 (goToSuccess c ch i s)"
  by (auto simp: thread_ok_def goToSuccess_def Let_def)

lemma thread_drop: "thread_ok 1 s \<Longrightarrow> thread_ok 0 s"
  by (auto simp: thread_ok_def)

lemma thread_await:
  "thread_ok 1 s \<Longrightarrow> ss_state s \<noteq> IDLE \<or> ss_challengesSet s \<Longrightarrow> w \<noteq> WClosed \<Longrightarrow> (\<And>r. e \<noteq> CompleteCb r)
     \<Longrightarrow> thread_ok 0 (await w (ss_emit e s))"
  by (cases e) (auto simp: thread_ok_def)

lemma thread_sign:
  "thread_ok 1 s \<Longrightarrow> thread_ok 0 (ss_signNext i s)"
  "thread_ok 1 s \<Longrightarrow> thread_ok 0 (signCallback j code info s)"
proof (induction i s and j code info s rule: ss_signNext_signCallback.induct)
  case (1 i s)
  have s1: "thread_ok 1 (s\<lparr>ss_state := SIGNING\<rparr>)" "thread_ok 0 (s\<lparr>ss_state := IDLE\<rparr>)"
    using "1.prems" by (auto simp: thread_ok_def)
  show ?case
    using "1.IH" "1.prems" s1
    by (subst ss_signNext.simps) (auto simp: Let_def thread_error thread_drop intro!: thread_await split: option.splits)
next
  case (2 i code info s)
  define s1 where "s1 = cache_error i code s"
  have s1: "thread_ok 1 s1" "thread_ok 1 (next_index s1)"
    using "2.prems" by (auto simp: thread_ok_def s1_def)
  show ?case
  proof (cases "ss_state s = SIGNING")
    case False
    with "2.prems" show ?thesis by (simp add: signCallback.simps thread_drop)
  next
    case True
    then have st: "ss_state s1 = SIGNING" by (simp add: s1_def)
    have timeout: "thread_ok 0 (ask Resync WSynced s1)"
      using s1 st by (auto simp: ask_def thread_drop intro!: thread_await)
    have touch: "thread_ok 0 (await WTouch (ss_emit (SetTimeout 200) s1))"
      using s1 st by (auto intro!: thread_await)
    note IH = "2.IH" [folded s1_def]
    show ?thesis
      unfolding signCallback.simps [of i code info s] Let_def s1_def [symmetric]
      using True timeout touch thread_error [OF s1(1)] thread_success [OF s1(1)] IH s1
      by (simp split del: if_split) (simp split: if_split)
  qed
qed

lemma thread_open: "thread_ok 1 s \<Longrightarrow> thread_ok 0 (openCallback rc g s)"
  by (auto simp: openCallback_def Let_def ask_def thread_drop OK_STATUS_def BUSY_STATUS_def
      intro!: thread_await thread_error) (auto simp: thread_ok_def)

lemma pending_updates [simp]:
  "completions (s\<lparr>ss_pending := p\<rparr>) = completions s"
  by (simp add: completions_def)

lemma filter_remove1_length:
  "w \<in> set ws \<Longrightarrow> P w \<Longrightarrow> Suc (length (filter P (remove1 w ws))) = length (filter P ws)"
  by (induction ws) auto

lemma thread_take:
  assumes "thread_ok 0 s" "w \<in> set (ss_pending s)" "w \<noteq> WClosed"
  shows "thread_ok 1 (s\<lparr>ss_pending := remove1 w (ss_pending s)\<rparr>)
     \<and> (ss_state s \<noteq> IDLE \<or> ss_challengesSet s)"
proof -
  have "Suc (active (s\<lparr>ss_pending := remove1 w (ss_pending s)\<rparr>)) = active s"
    using filter_remove1_length [OF assms(2), of "\<lambda>w. w \<noteq> WClosed"] assms(3) by (simp add: active_def)
  with assms(1) show ?thesis by (auto simp: thread_ok_def)
qed

lemma thread_closed: "thread_ok 0 s \<Longrightarrow> thread_ok 0 (ss_closed (s\<lparr>ss_pending := remove1 WClosed (ss_pending s)\<rparr>))"
proof -
  have "filter (\<lambda>w. w \<noteq> WClosed) (remove1 WClosed ws) = filter (\<lambda>w. w \<noteq> WClosed) ws" for ws
    by (induction ws) auto
  then show "thread_ok 0 s \<Longrightarrow> ?thesis" by (auto simp: thread_ok_def ss_closed_def active_def completions_def)
qed

lemma thread_back:
  assumes "thread_ok 1 s" "ss_state s \<noteq> IDLE \<or> ss_challengesSet s" "w \<noteq> WClosed"
  shows "thread_ok 0 (come_back w rc d g s)"
proof -
  have "thread_ok 1 (s\<lparr>ss_state := IDLE, ss_version := v\<rparr>)" for v
    using assms by (auto simp: thread_ok_def)
  then show ?thesis
    using assms
    by (cases w)
      (auto simp: thread_open reopen_def versionCallback_def versionSynced_def synced_def ask_def Let_def
        intro!: thread_await thread_error thread_sign intro: thread_drop)
qed

lemma thread_doSign: "thread_ok 0 s \<Longrightarrow> thread_ok 0 (fst (ss_doSign cs s))"
proof -
  assume ok: "thread_ok 0 s"
  let ?s1 = "s\<lparr>ss_challenges := ss_challenges s @ cs, ss_challengesSet := True\<rparr>"
  have "ss_state s = IDLE \<Longrightarrow> \<not> ss_challengesSet s \<Longrightarrow> thread_ok 1 ?s1"
    using ok by (auto simp: thread_ok_def)
  then show ?thesis
    using ok unfolding ss_doSign_def
    by (cases "ss_state s") (auto simp: Let_def ss_open_def intro!: thread_sign thread_await, auto simp: thread_ok_def)
qed

lemma thread_step: "thread_ok 0 s \<Longrightarrow> thread_ok 0 (ss_step e s)"
proof (cases e)
  case SsClose
  assume "thread_ok 0 s"
  then show ?thesis using SsClose by (auto simp: thread_ok_def ss_close_def Let_def)
next
  case (SsBack w rc d g)
  assume ok: "thread_ok 0 s"
  show ?thesis
  proof (cases "w = WClosed")
    case True
    with ok thread_closed [OF ok] SsBack show ?thesis by simp
  next
    case False
    have "thread_ok 0 (come_back w rc d g (s\<lparr>ss_pending := remove1 w (ss_pending s)\<rparr>))"
      if "w \<in> set (ss_pending s)"
      using thread_take [OF ok that False] False by (intro thread_back) auto
    with ok SsBack show ?thesis by simp
  qed
qed (simp_all add: thread_doSign, simp add: thread_ok_def)

text \<open>
  A signer calls its completion callback at most once, in every history of openings, replies,
  timeouts, \<open>doSign\<close> and \<open>close\<close>, the late ones included; at any time at most one callback that can make
  it go on is out, and none once it has completed.
\<close>

theorem single_signer_once:
  "completions (fold ss_step es (SingleGnubbySigner forEnroll timer))
    + active (fold ss_step es (SingleGnubbySigner forEnroll timer)) \<le> 1"
proof -
  have "thread_ok 0 (SingleGnubbySigner forEnroll timer)"
    by (simp add: thread_ok_def SingleGnubbySigner_def active_def completions_def)
  then have "thread_ok 0 (fold ss_step es (SingleGnubbySigner forEnroll timer))"
    by (rule fold_invariant [where Q = "\<lambda>_. True", rotated]) (simp_all add: thread_step)
  then show ?thesis by (simp add: thread_ok_def)
qed

subsection \<open>The outcome is that of the first challenge the token accepts\<close>

text \<open>A token that answers each challenge with the code and data of \<open>dev\<close>.\<close>

fun drive :: "(sign_challenge \<Rightarrow> int \<times> bytes option) \<Rightarrow> nat \<Rightarrow> single_signer \<Rightarrow> single_signer" where
  "drive dev 0 s = s"
| "drive dev (Suc n) s =
     (case ss_pending s of
        [WSign i] \<Rightarrow> drive dev n (let (rc, d) = dev (ss_challenges s ! i) in ss_step (SsBack (WSign i) rc d None) s)
      | _ \<Rightarrow> s)"

definition version_fits :: "string \<Rightarrow> sign_challenge \<Rightarrow> bool" where
  "version_fits v c = (case sc_version c of None \<Rightarrow> True | Some w \<Rightarrow> w = [] \<or> w = v)"

definition accepts :: "(sign_challenge \<Rightarrow> int \<times> bytes option) \<Rightarrow> string \<Rightarrow> sign_challenge \<Rightarrow> bool" where
  "accepts dev v c \<longleftrightarrow> version_fits v c \<and> fst (dev c) = OK_STATUS"

definition outcome :: "(sign_challenge \<Rightarrow> int \<times> bytes option) \<Rightarrow> string \<Rightarrow> nat \<Rightarrow> bool \<Rightarrow> sign_challenge list
    \<Rightarrow> signer_result \<Rightarrow> bool" where
  "outcome dev v g forEnroll cs r =
     (case find (accepts dev v) cs of
        Some c \<Rightarrow> (if forEnroll then sr_code r = OK_STATUS \<and> sr_gnubby r = None \<and> sr_challenge r = None
                  else r = \<lparr>sr_code = OK_STATUS, sr_gnubby = Some g, sr_challenge = Some c, sr_info = snd (dev c)\<rparr>)
      | None \<Rightarrow> signErrorIndicatesInvalidKeyHandle (sr_code r) \<noteq> None \<and> sr_challenge r = None
          \<and> (forEnroll \<longrightarrow> sr_gnubby r = Some g))"

text \<open>
  The signer remembers refused key handles, whatever their version and app id: it asks the right questions
  only if equal key handles are accepted or refused together.
\<close>

definition key_decides :: "(sign_challenge \<Rightarrow> int \<times> bytes option) \<Rightarrow> string \<Rightarrow> sign_challenge list \<Rightarrow> bool" where
  "key_decides dev v cs \<longleftrightarrow> (\<forall>c \<in> set cs. \<forall>c' \<in> set cs.
     sc_keyHandle c = sc_keyHandle c' \<longrightarrow> accepts dev v c = accepts dev v c')"

text \<open>The signer is about to try challenge \<open>k\<close>, after refusals only.\<close>

definition trying :: "(sign_challenge \<Rightarrow> int \<times> bytes option) \<Rightarrow> string \<Rightarrow> nat \<Rightarrow> bool \<Rightarrow> sign_challenge list
    \<Rightarrow> nat \<Rightarrow> single_signer \<Rightarrow> bool" where
  "trying dev v g forEnroll cs k s \<longleftrightarrow> ss_gnubby s = Some g \<and> \<not> ss_expired s \<and> ss_challengesSet s
     \<and> ss_challenges s = cs \<and> ss_challengeIndex s = k \<and> ss_version s = v \<and> ss_forEnroll s = forEnroll
     \<and> ss_pending s = [] \<and> (\<forall>j < k. j < length cs \<longrightarrow> \<not> accepts dev v (cs ! j))
     \<and> (\<forall>c \<in> set cs. map_of (ss_cachedError s) (sc_keyHandle c) \<noteq> None \<longrightarrow> \<not> accepts dev v c)"

lemma drive_done: "ss_pending s = [] \<or> ss_pending s = [WClosed] \<Longrightarrow> drive dev n s = s"
  by (cases n) auto

lemma drive_result:
  "ss_pending s = [] \<Longrightarrow> last (ss_out (drive dev n (goToSuccess c ch i s))) = CompleteCb
     \<lparr>sr_code = c, sr_gnubby = ss_gnubby s, sr_challenge = ch, sr_info = i\<rparr>"
  "ss_pending s = [] \<Longrightarrow> last (ss_out (drive dev n (goToError c s))) = CompleteCb
     \<lparr>sr_code = c, sr_gnubby = (if \<not> ss_forEnroll s \<and> c = WRONG_DATA_STATUS then ss_gnubby s else None),
      sr_challenge = None, sr_info = None\<rparr>"
proof -
  assume p: "ss_pending s = []"
  have "ss_pending (goToSuccess c ch i s) = []"
    using p by (simp add: goToSuccess_def ss_emit_def Let_def)
  then show "last (ss_out (drive dev n (goToSuccess c ch i s))) = CompleteCb
     \<lparr>sr_code = c, sr_gnubby = ss_gnubby s, sr_challenge = ch, sr_info = i\<rparr>"
    by (simp add: drive_done) (simp add: goToSuccess_def ss_emit_def Let_def)
  have "ss_pending (goToError c s) = [] \<or> ss_pending (goToError c s) = [WClosed]"
    using p by (auto simp: goToError_def ss_close_def ss_emit_def await_def Let_def)
  then show "last (ss_out (drive dev n (goToError c s))) = CompleteCb
     \<lparr>sr_code = c, sr_gnubby = (if \<not> ss_forEnroll s \<and> c = WRONG_DATA_STATUS then ss_gnubby s else None),
      sr_challenge = None, sr_info = None\<rparr>"
    by (simp only: drive_done) (simp add: goToError_def ss_emit_def Let_def)
qed

lemma invalid_not_special:
  "signErrorIndicatesInvalidKeyHandle code = Some c \<Longrightarrow> code = code_of c"
  "code_of c \<noteq> OK_STATUS" "code_of c \<noteq> GONE_STATUS" "code_of c \<noteq> TIMEOUT_STATUS" "code_of c \<noteq> BUSY_STATUS"
  "code_of c \<noteq> WAIT_TOUCH_STATUS"
  by (auto simp: signErrorIndicatesInvalidKeyHandle_def split: if_splits)
    (cases c, simp_all add: status_codes)+

lemma signCallback_invalid:
  assumes "ss_state s = SIGNING"
  shows "signCallback k (code_of c) d s = (let s1 = cache_error k (code_of c) s in
    if more_challenges s1 then ss_signNext (ss_challengeIndex s1 + 1) (next_index s1)
    else if ss_forEnroll s1 then goToSuccess (code_of c) None None s1 else goToError (code_of c) s1)"
  using assms by (simp add: signCallback.simps [of k "code_of c"] invalid_not_special Let_def del: code_of.simps)

lemma cache_error_more [simp]:
  "ss_gnubby (cache_error i c s) = ss_gnubby s" "ss_expired (cache_error i c s) = ss_expired s"
  "ss_version (cache_error i c s) = ss_version s" "ss_forEnroll (cache_error i c s) = ss_forEnroll s"
  "ss_pending (cache_error i c s) = ss_pending s" "ss_timer (cache_error i c s) = ss_timer s"
  by (auto simp: cache_error_def ss_expired_def split: option.split)

lemma next_index_more [simp]:
  "ss_gnubby (next_index s) = ss_gnubby s" "ss_expired (next_index s) = ss_expired s"
  "ss_version (next_index s) = ss_version s" "ss_forEnroll (next_index s) = ss_forEnroll s"
  "ss_pending (next_index s) = ss_pending s" "ss_cachedError (next_index s) = ss_cachedError s"
  by (simp_all add: next_index_def ss_expired_def)

lemma cached_in:
  "map_of (ss_cachedError (cache_error k c s)) kh \<noteq> None \<Longrightarrow>
     map_of (ss_cachedError s) kh \<noteq> None \<or> kh = sc_keyHandle (ss_challenges s ! k)"
  by (auto simp: cache_error_def update_conv' split: option.splits if_splits)

lemma signCallback_ok:
  "ss_state s = SIGNING \<Longrightarrow> signCallback k OK_STATUS d s =
     (if ss_forEnroll s then goToError OK_STATUS s
      else goToSuccess OK_STATUS (if k < length (ss_challenges s) then Some (ss_challenges s ! k) else None) d s)"
  by (subst signCallback.simps) (simp add: cache_error_def status_codes signErrorIndicatesInvalidKeyHandle_def Let_def)

lemma trying_cached:
  assumes t: "trying dev v g fe cs k s" and k: "k < length cs" and no: "\<not> accepts dev v (cs ! k)"
    and same: "key_decides dev v cs"
  shows "trying dev v g fe cs (Suc k) (next_index (cache_error k (code_of c) s))"
proof -
  let ?s' = "next_index (cache_error k (code_of c) s)"
  have "\<not> accepts dev v c'" if "c' \<in> set cs" "map_of (ss_cachedError ?s') (sc_keyHandle c') \<noteq> None" for c'
  proof -
    have cs: "ss_challenges s = cs" using t by (simp add: trying_def)
    from that(2) cached_in [of k "code_of c" s "sc_keyHandle c'"]
    have "map_of (ss_cachedError s) (sc_keyHandle c') \<noteq> None \<or> sc_keyHandle c' = sc_keyHandle (cs ! k)"
      by (simp add: cs)
    then show ?thesis
    proof
      assume "map_of (ss_cachedError s) (sc_keyHandle c') \<noteq> None"
      with t that(1) show ?thesis by (auto simp: trying_def)
    next
      assume "sc_keyHandle c' = sc_keyHandle (cs ! k)"
      with same that(1) k no show ?thesis unfolding key_decides_def by (metis nth_mem)
    qed
  qed
  moreover have "\<forall>j < Suc k. j < length cs \<longrightarrow> \<not> accepts dev v (cs ! j)"
    using t no by (auto simp: trying_def less_Suc_eq)
  ultimately show ?thesis using t unfolding trying_def by simp
qed

lemma find_none_upto: "(\<forall>j < length cs. \<not> P (cs ! j)) \<Longrightarrow> find P cs = None"
  by (auto simp: find_None_iff in_set_conv_nth)

lemma refused:
  assumes t: "trying dev v g fe cs k s" and k: "k < length cs" and no: "\<not> accepts dev v (cs ! k)"
    and same: "key_decides dev v cs"
    and st: "ss_state s = SIGNING"
  shows "(Suc k < length cs \<and> (\<exists>s'. signCallback k (code_of c) d s = ss_signNext (Suc k) s' \<and> trying dev v g fe cs (Suc k) s'))
    \<or> (\<exists>r. (\<forall>n. last (ss_out (drive dev n (signCallback k (code_of c) d s))) = CompleteCb r) \<and> outcome dev v g fe cs r)"
proof -
  let ?s1 = "cache_error k (code_of c) s"
  have nx: "trying dev v g fe cs (Suc k) (next_index ?s1)" by (rule trying_cached [OF t k no same])
  then have s1: "ss_pending ?s1 = []" "ss_forEnroll ?s1 = fe" "ss_gnubby ?s1 = Some g" "ss_challengeIndex ?s1 = k"
    "ss_challenges ?s1 = cs"
    using t by (auto simp: trying_def next_index_def)
  show ?thesis
  proof (cases "Suc k < length cs")
    case True
    then have "more_challenges ?s1" using t by (auto simp: more_challenges_def trying_def)
    with nx s1 True show ?thesis by (auto simp: signCallback_invalid [OF st] Let_def)
  next
    case False
    then have m: "\<not> more_challenges ?s1" using t k by (auto simp: more_challenges_def trying_def)
    have "find (accepts dev v) cs = None"
      using nx False by (intro find_none_upto) (auto simp: trying_def)
    then have o: "outcome dev v g fe cs (if fe then \<lparr>sr_code = code_of c, sr_gnubby = Some g, sr_challenge = None, sr_info = None\<rparr>
        else \<lparr>sr_code = code_of c, sr_gnubby = (if code_of c = WRONG_DATA_STATUS then Some g else None), sr_challenge = None, sr_info = None\<rparr>)"
      by (simp add: outcome_def del: code_of.simps)
    have "last (ss_out (drive dev n (signCallback k (code_of c) d s))) = CompleteCb (if fe then
        \<lparr>sr_code = code_of c, sr_gnubby = Some g, sr_challenge = None, sr_info = None\<rparr>
        else \<lparr>sr_code = code_of c, sr_gnubby = (if code_of c = WRONG_DATA_STATUS then Some g else None), sr_challenge = None, sr_info = None\<rparr>)" for n
      using m s1 drive_result [OF s1(1), where n = n and dev = dev]
      by (simp add: signCallback_invalid [OF st] Let_def del: code_of.simps)
    with o show ?thesis by blast
  qed
qed

lemma trying_outcome:
  assumes same: "key_decides dev v cs"
    and dev: "\<And>c. c \<in> set cs \<Longrightarrow> fst (dev c) = OK_STATUS \<or> signErrorIndicatesInvalidKeyHandle (fst (dev c)) \<noteq> None"
  shows "trying dev v g fe cs k s \<Longrightarrow> k < length cs \<Longrightarrow> length cs - k \<le> n
    \<Longrightarrow> \<exists>r. last (ss_out (drive dev n (ss_signNext k s))) = CompleteCb r \<and> outcome dev v g fe cs r"
proof (induction "length cs - k" arbitrary: k s n rule: less_induct)
  case less
  let ?s1 = "s\<lparr>ss_state := SIGNING\<rparr>" and ?ch = "cs ! k"
  have t1: "trying dev v g fe cs k ?s1" using less.prems(1) by (auto simp: trying_def ss_expired_def)
  have go: ?case if "\<not> accepts dev v ?ch" "drive dev n (ss_signNext k s) = drive dev m (signCallback k (code_of c) d s')"
    "trying dev v g fe cs k s'" "ss_state s' = SIGNING" "length cs - Suc k \<le> m" for c d s' m
  proof -
    from refused [OF that(3) less.prems(2) that(1) same that(4), of c d] show ?thesis
    proof (elim disjE conjE exE)
      fix s'' assume *: "Suc k < length cs" "signCallback k (code_of c) d s' = ss_signNext (Suc k) s''"
        "trying dev v g fe cs (Suc k) s''"
      have "length cs - Suc k < length cs - k" using less.prems(2) by simp
      from less.hyps [OF this *(3,1) that(5)] show ?thesis by (simp only: that(2) *(2))
    next
      fix r assume *: "\<forall>n. last (ss_out (drive dev n (signCallback k (code_of c) d s'))) = CompleteCb r"
        "outcome dev v g fe cs r"
      show ?thesis unfolding that(2) using * by blast
    qed
  qed
  have sn: "ss_signNext k s = (case map_of (ss_cachedError s) (sc_keyHandle ?ch) of
        Some c \<Rightarrow> signCallback k (code_of c) None ?s1
      | None \<Rightarrow> if version_fits v ?ch then await (WSign k) (ss_emit (Sign ?ch) ?s1)
                else signCallback k WRONG_DATA_STATUS None ?s1)"
    using less.prems(1,2) unfolding ss_signNext.simps [of k s]
    by (auto simp: trying_def Let_def version_fits_def ss_expired_def split: option.split)
  show ?case
  proof (cases "map_of (ss_cachedError s) (sc_keyHandle ?ch)")
    case (Some c)
    then have "\<not> accepts dev v ?ch" using less.prems(1,2) by (auto simp: trying_def)
    then show ?thesis using Some sn less.prems(3) t1 by (intro go [where m = n and c = c and s' = ?s1]) auto
  next
    case None
    show ?thesis
    proof (cases "version_fits v ?ch")
      case False
      then show ?thesis
        using None sn less.prems(3) t1
        by (intro go [where m = n and c = InvWrongData and s' = ?s1]) (auto simp: accepts_def)
    next
      case True
      let ?w = "await (WSign k) (ss_emit (Sign ?ch) ?s1)"
      let ?s' = "?w\<lparr>ss_pending := []\<rparr>"
      have t': "trying dev v g fe cs k ?s'" "ss_state ?s' = SIGNING"
        using t1 by (auto simp: trying_def await_def ss_emit_def ss_expired_def)
      obtain m where n: "n = Suc m" using less.prems(2,3) by (cases n) auto
      have dr: "drive dev n (ss_signNext k s) = drive dev m (signCallback k (fst (dev ?ch)) (snd (dev ?ch)) ?s')"
        using None sn True less.prems(1)
        by (simp add: n trying_def await_def ss_emit_def Let_def split: prod.split)
      show ?thesis
      proof (cases "fst (dev ?ch) = OK_STATUS")
        case ok: True
        then have "find (accepts dev v) cs = Some ?ch"
          using t' True less.prems(2)
          by (auto simp: find_Some_iff trying_def accepts_def intro!: exI [of _ k])
        moreover have "signCallback k OK_STATUS (snd (dev ?ch)) ?s' =
            (if fe then goToError OK_STATUS ?s' else goToSuccess OK_STATUS (Some ?ch) (snd (dev ?ch)) ?s')"
          using signCallback_ok [OF t'(2), of k "snd (dev ?ch)"] t'(1) less.prems(2) by (simp add: trying_def)
        ultimately show ?thesis
          using drive_result [where s = ?s' and n = m and dev = dev] t'
          by (auto simp: dr ok outcome_def trying_def OK_STATUS_def WRONG_DATA_STATUS_def)
      next
        case False
        then obtain c where "fst (dev ?ch) = code_of c"
          using dev [of ?ch] less.prems(2) invalid_not_special(1) by fastforce
        then show ?thesis
          using dr t' False less.prems(3) n
          by (intro go [where m = m and c = c and s' = ?s' and d = "snd (dev ?ch)"]) (auto simp: accepts_def)
      qed
    qed
  qed
qed


definition two_challenges :: "sign_challenge list" where
  "two_challenges = [\<lparr>sc_challengeHash = [1], sc_appIdHash = [2], sc_keyHandle = [3], sc_version = Some ''U2F_V2''\<rparr>,
     \<lparr>sc_challengeHash = [1], sc_appIdHash = [2], sc_keyHandle = [4], sc_version = None\<rparr>]"

definition knows_4 :: "sign_challenge \<Rightarrow> int \<times> bytes option" where
  "knows_4 c = (if sc_keyHandle c = [4] then (0, Some [9]) else (WRONG_DATA_STATUS, None))"

definition opened_signer :: single_signer where
  "opened_signer = (fold ss_step [SsDoSign two_challenges, SsBack WOpen 0 None (Some 5)]
     (SingleGnubbySigner False None))\<lparr>ss_pending := []\<rparr>"


text \<open>
  Without the condition the second of two challenges with one key handle is refused unasked: the first,
  meant for another version of the token, has put the key handle into the cache.
\<close>

theorem cache_hides_version:
  "(let c = \<lparr>sc_challengeHash = [1], sc_appIdHash = [2], sc_keyHandle = [4], sc_version = Some ''U2F_V1''\<rparr>;
        s = opened_signer\<lparr>ss_challenges := [c, c\<lparr>sc_version := Some ''U2F_V2''\<rparr>]\<rparr>
    in accepts knows_4 ''U2F_V2'' (c\<lparr>sc_version := Some ''U2F_V2''\<rparr>)
       \<and> last (ss_out (versionCallback 0 (Some (UTIL_StringToBytes ''U2F_V2'')) s)) = CompleteCb
           \<lparr>sr_code = WRONG_DATA_STATUS, sr_gnubby = Some 5, sr_challenge = None, sr_info = None\<rparr>)"
  by code_simp

text \<open>
  Closing a signer that is still opening its token, with a factory that gives no canceller, does not keep it
  from going on: the open that completes later is not ignored, and the token is asked for its version.
\<close>

theorem close_while_opening:
  "last (ss_out (fold ss_step [SsDoSign two_challenges, SsClose, SsBack WOpen 0 None (Some 5)]
     (SingleGnubbySigner False None))) = AskVersion"
  by code_simp

end
