(* ===== verification/Opening.thy ===== *)
theory Opening
  imports HidDevice UsbDevice GnubbySync Gnubbies SingleSigner
begin

text \<open>
  How a client gets its device: \<open>open\<close> and \<open>cancelOpen\<close> of gnubby.js, usbgnubbyfactory.js, which opens a new
  client and then synchronises it, and the registration and enumeration of the drivers. The manager of the
  devices is asked by \<open>AskEnumerate\<close> and \<open>AskAdd\<close>, and its answers are events; the \<open>k\<close>-th call of \<open>open\<close> on a
  client keeps its variables in the \<open>k\<close>-th \<open>open_call\<close>.
\<close>

subsection \<open>The drivers register with the manager\<close>

definition HID_NAMESPACE :: string where "HID_NAMESPACE = ''hid''"
definition USB_NAMESPACE :: string where "USB_NAMESPACE = ''usb''"

definition hid_deviceToDeviceId :: "nat \<Rightarrow> string \<times> nat" where
  "hid_deviceToDeviceId dev = (HID_NAMESPACE, dev)"

definition usb_deviceToDeviceId :: "nat \<Rightarrow> string \<times> nat" where
  "usb_deviceToDeviceId dev = (USB_NAMESPACE, dev)"

definition hid_register :: "gnubbies \<Rightarrow> gnubbies" where
  "hid_register g = registerNamespace HID_NAMESPACE \<lparr>im_isSharedAccess = True, im_cancelOpen = False\<rparr> g"

definition usb_register :: "gnubbies \<Rightarrow> gnubbies" where
  "usb_register g = registerNamespace USB_NAMESPACE \<lparr>im_isSharedAccess = False, im_cancelOpen = False\<rparr> g"

text \<open>The background page registers HID first, if the browser has it.\<close>

definition register_drivers :: "bool \<Rightarrow> gnubbies \<Rightarrow> gnubbies" where
  "register_drivers has_hid g = usb_register (if has_hid then hid_register g else g)"

subsection \<open>Enumerating USB devices\<close>

definition WINUSB_VID_PIDS :: "(nat \<times> nat) list" where
  "WINUSB_VID_PIDS = [(4176, 529)]"

text \<open>What is asked of the browser, and what the callback gets at once.\<close>

definition usb_enumerate :: "enumeration_type option \<Rightarrow> (nat \<times> nat) list \<times> nat list option" where
  "usb_enumerate opt_type = (if opt_type = Some FIDO_U2F then ([], Some []) else (WINUSB_VID_PIDS, None))"

text \<open>An answer of the browser; the state is \<open>numEnumerated\<close> and \<open>allDevs\<close>.\<close>

definition usb_enumerated :: "nat list \<Rightarrow> nat \<times> nat list \<Rightarrow> (nat \<times> nat list) \<times> nat list option" where
  "usb_enumerated devs s =
     (let allDevs = snd s @ devs; n = fst s + 1
      in ((n, allDevs), if n = length WINUSB_VID_PIDS then Some allDevs else None))"

lemma usb_enumerates_once:
  "length browser = length (fst (usb_enumerate ty)) \<Longrightarrow>
   (case browser of [] \<Rightarrow> snd (usb_enumerate ty) = Some []
    | [devs] \<Rightarrow> usb_enumerated devs (0, []) = ((1, devs), Some devs) | _ \<Rightarrow> False)"
  by (cases "ty = Some FIDO_U2F") (auto simp: usb_enumerate_def usb_enumerated_def WINUSB_VID_PIDS_def length_Suc_conv)

lemma registered_drivers:
  "namespaces (register_drivers b (Gnubbies sys)) = (if b then [HID_NAMESPACE, USB_NAMESPACE] else [USB_NAMESPACE])"
  "isSharedAccess (usb_deviceToDeviceId d) (register_drivers b (Gnubbies sys)) = False"
  "isSharedAccess (hid_deviceToDeviceId d) (register_drivers b (Gnubbies sys)) = b"
  by (simp_all add: register_drivers_def usb_register_def hid_register_def registerNamespace_def Gnubbies_def
      isSharedAccess_def usb_deviceToDeviceId_def hid_deviceToDeviceId_def USB_NAMESPACE_def HID_NAMESPACE_def Let_def)

subsection \<open>Opening a client\<close>

datatype open_phase = Enumerating | Adding | Answered

record open_call =
  oc_first :: bool
  enumerateRetriesRemaining :: int
  oc_phase :: open_phase

datatype open_effect =
    AskEnumerate nat
  | AskAdd "string \<times> nat" nat
  | CancelAdd "string \<times> nat"
  | OpenResult nat int

record opener =
  op_g :: gnubby
  op_which :: "(string \<times> nat) option"
  op_calls :: "open_call list"
  op_out :: "open_effect list"

definition new_opener :: "nat \<Rightarrow> rat option \<Rightarrow> opener" where
  "new_opener inst opt_busySeconds = \<lparr>op_g = Gnubby inst opt_busySeconds, op_which = None, op_calls = [], op_out = []\<rparr>"

definition op_emit :: "open_effect \<Rightarrow> opener \<Rightarrow> opener" where
  "op_emit e s = s\<lparr>op_out := op_out s @ [e]\<rparr>"

definition set_phase :: "nat \<Rightarrow> open_phase \<Rightarrow> opener \<Rightarrow> opener" where
  "set_phase k ph s = s\<lparr>op_calls := (op_calls s)[k := (op_calls s ! k)\<lparr>oc_phase := ph\<rparr>]\<rparr>"

definition answer_open :: "nat \<Rightarrow> int \<Rightarrow> opener \<Rightarrow> opener" where
  "answer_open k rc s = op_emit (OpenResult k rc) (set_phase k Answered s)"

text \<open>\<open>setCid(which)\<close>, then \<open>this.which = which\<close>, then \<open>addClient\<close>\<close>

definition add_to :: "string \<times> nat \<Rightarrow> nat \<Rightarrow> opener \<Rightarrow> opener" where
  "add_to w k s =
     op_emit (AskAdd w k) (set_phase k Adding
       (s\<lparr>op_g := (op_g s)\<lparr>g_cid := defaultChannelId (gnubbyInstance (op_g s)) (snd w), which := snd w\<rparr>, op_which := Some w\<rparr>))"

definition g_open :: "(string \<times> nat) option \<Rightarrow> opener \<Rightarrow> opener" where
  "g_open opt_which s0 =
     (let k = length (op_calls s0);
          s = s0\<lparr>op_calls := op_calls s0 @ [\<lparr>oc_first = (opt_which = None), enumerateRetriesRemaining = 3, oc_phase = Enumerating\<rparr>]\<rparr>
      in if g_closed (op_g s) then answer_open k (- NODEVICE) s
         else (let s1 = s\<lparr>op_g := (op_g s)\<lparr>closingWhenIdle := False\<rparr>\<rparr> in
           case opt_which of Some w \<Rightarrow> add_to w k s1 | None \<Rightarrow> op_emit (AskEnumerate k) s1))"

definition open_enumerated :: "nat \<Rightarrow> int \<Rightarrow> (string \<times> nat) list \<Rightarrow> opener \<Rightarrow> opener" where
  "open_enumerated k rc devs s =
     (let rc' = (if devs = [] then - NODEVICE else rc) in
      if rc' \<noteq> 0 then answer_open k rc' s else add_to (hd devs) k s)"

text \<open>The callback of \<open>addClient\<close>: \<open>device\<close> when the manager gives one.\<close>

definition open_added :: "nat \<Rightarrow> int \<Rightarrow> bool \<Rightarrow> opener \<Rightarrow> opener" where
  "open_added k rc device s =
     (let c = op_calls s ! k in
      if oc_first c \<and> rc = - NODEVICE
      then (let s1 = s\<lparr>op_calls := (op_calls s)[k := c\<lparr>enumerateRetriesRemaining := enumerateRetriesRemaining c - 1\<rparr>]\<rparr> in
        if enumerateRetriesRemaining c > 0 then op_emit (AskEnumerate k) (set_phase k Enumerating s1)
        else answer_open k rc (s1\<lparr>op_g := (op_g s1)\<lparr>g_dev := device\<rparr>\<rparr>))
      else answer_open k rc (s\<lparr>op_g := (op_g s)\<lparr>g_dev := device\<rparr>\<rparr>))"

definition cancelOpen :: "opener \<Rightarrow> opener" where
  "cancelOpen s = (case op_which s of Some w \<Rightarrow> op_emit (CancelAdd w) s | None \<Rightarrow> s)"

text \<open>The manager answers each question once; any other change of the client is \<open>OpOther\<close>.\<close>

datatype open_event =
    OpOpen "(string \<times> nat) option"
  | OpEnumerated nat int "(string \<times> nat) list"
  | OpAdded nat int bool
  | OpCancel
  | OpOther "gnubby \<Rightarrow> gnubby"

definition in_phase :: "nat \<Rightarrow> open_phase \<Rightarrow> opener \<Rightarrow> bool" where
  "in_phase k ph s \<longleftrightarrow> k < length (op_calls s) \<and> oc_phase (op_calls s ! k) = ph"

fun op_step :: "open_event \<Rightarrow> opener \<Rightarrow> opener" where
  "op_step (OpOpen w) s = g_open w s"
| "op_step (OpEnumerated k rc devs) s = (if in_phase k Enumerating s then open_enumerated k rc devs s else s)"
| "op_step (OpAdded k rc device) s = (if in_phase k Adding s then open_added k rc device s else s)"
| "op_step OpCancel s = cancelOpen s"
| "op_step (OpOther f) s = s\<lparr>op_g := f (op_g s)\<rparr>"

subsection \<open>Questions and answers\<close>

definition asks_enumerate :: "nat \<Rightarrow> opener \<Rightarrow> nat" where
  "asks_enumerate k s = length (filter (\<lambda>e. e = AskEnumerate k) (op_out s))"

definition asks_add :: "nat \<Rightarrow> opener \<Rightarrow> nat" where
  "asks_add k s = length (filter (\<lambda>e. case e of AskAdd w j \<Rightarrow> j = k | _ \<Rightarrow> False) (op_out s))"

definition open_results :: "nat \<Rightarrow> opener \<Rightarrow> int list" where
  "open_results k s = concat (map (\<lambda>e. case e of OpenResult j rc \<Rightarrow> if j = k then [rc] else [] | _ \<Rightarrow> []) (op_out s))"

text \<open>The events of a run that answer the \<open>k\<close>-th call.\<close>

fun answers_call :: "nat \<Rightarrow> open_event \<Rightarrow> opener \<Rightarrow> bool" where
  "answers_call k (OpEnumerated j rc devs) s = (j = k \<and> in_phase k Enumerating s)"
| "answers_call k (OpAdded j rc device) s = (j = k \<and> in_phase k Adding s)"
| "answers_call k _ s = False"

fun answers_to :: "nat \<Rightarrow> open_event list \<Rightarrow> opener \<Rightarrow> nat" where
  "answers_to k [] s = 0"
| "answers_to k (e # es) s = (if answers_call k e s then 1 else 0) + answers_to k es (op_step e s)"

lemma out_emit [simp]:
  "asks_enumerate k (op_emit e s) = asks_enumerate k s + (if e = AskEnumerate k then 1 else 0)"
  "asks_add k (op_emit e s) = asks_add k s + (case e of AskAdd w j \<Rightarrow> if j = k then 1 else 0 | _ \<Rightarrow> 0)"
  "open_results k (op_emit e s) = open_results k s @ (case e of OpenResult j rc \<Rightarrow> if j = k then [rc] else [] | _ \<Rightarrow> [])"
  "op_calls (op_emit e s) = op_calls s" "op_g (op_emit e s) = op_g s"
  by (auto simp: asks_enumerate_def asks_add_def open_results_def op_emit_def split: open_effect.split)

lemma out_updates [simp]:
  "asks_enumerate k (s\<lparr>op_calls := cs\<rparr>) = asks_enumerate k s" "asks_add k (s\<lparr>op_calls := cs\<rparr>) = asks_add k s"
  "open_results k (s\<lparr>op_calls := cs\<rparr>) = open_results k s"
  "asks_enumerate k (s\<lparr>op_g := g\<rparr>) = asks_enumerate k s" "asks_add k (s\<lparr>op_g := g\<rparr>) = asks_add k s"
  "open_results k (s\<lparr>op_g := g\<rparr>) = open_results k s"
  "asks_enumerate k (s\<lparr>op_which := w\<rparr>) = asks_enumerate k s" "asks_add k (s\<lparr>op_which := w\<rparr>) = asks_add k s"
  "open_results k (s\<lparr>op_which := w\<rparr>) = open_results k s"
  by (simp_all add: asks_enumerate_def asks_add_def open_results_def)

text \<open>Where a call is: what it has asked, what it was answered (\<open>n\<close>), and that it has a question out or its result.\<close>

definition call_of :: "nat \<Rightarrow> opener \<Rightarrow> open_call option" where
  "call_of k s = (if k < length (op_calls s) then Some (op_calls s ! k) else None)"

fun course_ok :: "nat \<Rightarrow> open_call option \<Rightarrow> int \<Rightarrow> int \<Rightarrow> int list \<Rightarrow> bool" where
  "course_ok n None e a rs \<longleftrightarrow> n = 0 \<and> e = 0 \<and> a = 0 \<and> rs = []"
| "course_ok n (Some c) e a rs \<longleftrightarrow>
     int n + (if oc_phase c = Answered then 0 else 1) = e + a \<and> length rs = (if oc_phase c = Answered then 1 else 0)
     \<and> (oc_phase c = Enumerating \<longrightarrow> oc_first c \<and> 0 \<le> enumerateRetriesRemaining c \<and> enumerateRetriesRemaining c \<le> 3
          \<and> e = 4 - enumerateRetriesRemaining c \<and> a = 3 - enumerateRetriesRemaining c)
     \<and> (oc_phase c = Adding \<and> oc_first c \<longrightarrow> 0 \<le> enumerateRetriesRemaining c \<and> enumerateRetriesRemaining c \<le> 3
          \<and> e = 4 - enumerateRetriesRemaining c \<and> a = 4 - enumerateRetriesRemaining c)
     \<and> (oc_phase c = Adding \<and> \<not> oc_first c \<longrightarrow> e = 0 \<and> a = 1)
     \<and> (oc_phase c = Answered \<longrightarrow> e \<le> 4 \<and> a \<le> 4)"

definition course :: "nat \<Rightarrow> nat \<Rightarrow> opener \<Rightarrow> bool" where
  "course k n s = course_ok n (call_of k s) (int (asks_enumerate k s)) (int (asks_add k s)) (open_results k s)"

lemmas open_defs = g_open_def open_enumerated_def open_added_def answer_open_def add_to_def set_phase_def cancelOpen_def Let_def

definition same_call :: "nat \<Rightarrow> opener \<Rightarrow> opener \<Rightarrow> bool" where
  "same_call k s s' \<longleftrightarrow> call_of k s' = call_of k s \<and> asks_enumerate k s' = asks_enumerate k s \<and> asks_add k s' = asks_add k s
     \<and> open_results k s' = open_results k s"

lemma course_other:
  assumes "\<not> answers_call k e s" "\<not> (\<exists>w. e = OpOpen w \<and> k = length (op_calls s))"
  shows "same_call k s (op_step e s)"
proof (cases e)
  case (OpOpen w)
  with assms show ?thesis
    by (auto simp: same_call_def open_defs call_of_def nth_append nth_list_update less_Suc_eq split: option.split)
qed (use assms in \<open>auto simp: same_call_def open_defs call_of_def in_phase_def nth_list_update split: option.split\<close>)

lemma course_answer:
  assumes "course k n s" "answers_call k e s"
  shows "course k (Suc n) (op_step e s)"
proof (cases e)
  case (OpEnumerated j rc devs)
  with assms show ?thesis by (auto simp: course_def call_of_def open_defs in_phase_def)
next
  case (OpAdded j rc device)
  with assms show ?thesis by (auto simp: course_def call_of_def open_defs in_phase_def)
qed (use assms in auto)

lemma course_opened:
  "course k n s \<Longrightarrow> k = length (op_calls s) \<Longrightarrow> course k n (op_step (OpOpen w) s)"
  by (cases w) (auto simp: course_def call_of_def open_defs)

lemma course_step:
  assumes "course k n s"
  shows "course k (if answers_call k e s then Suc n else n) (op_step e s)"
proof (cases "answers_call k e s \<or> (\<exists>w. e = OpOpen w \<and> k = length (op_calls s))")
  case True
  with assms show ?thesis using course_answer [of k n s e] course_opened [of k n s] by auto
next
  case False
  with assms course_other [of k e s] show ?thesis by (auto simp: same_call_def course_def)
qed

lemma course_run: "course k n s \<Longrightarrow> course k (n + answers_to k es s) (fold op_step es s)"
proof (induction es arbitrary: n s)
  case (Cons e es)
  from Cons.IH [OF course_step [OF Cons.prems, of e]] show ?case by (simp split: if_splits)
qed simp

text \<open>
  C9. Every call of \<open>open\<close> ends: it asks the manager at most four times for the devices and at most four times for
  one of them, each answer is followed by the next question or by the result, and the result is given once. So
  after at most eight answers the caller has it, whatever the answers are and whatever else happens to the client.
\<close>

theorem open_ends:
  "let s = fold op_step es (new_opener inst busy); results = length (open_results k s) in
    asks_enumerate k s \<le> 4 \<and> asks_add k s \<le> 4 \<and> results \<le> 1
    \<and> answers_to k es (new_opener inst busy) + (if k < length (op_calls s) then 1 - results else 0) = asks_enumerate k s + asks_add k s"
proof -
  have "course k 0 (new_opener inst busy)"
    by (simp add: course_def call_of_def new_opener_def asks_enumerate_def asks_add_def open_results_def)
  from course_run [OF this, of es] show ?thesis
    by (cases "oc_phase (op_calls (fold op_step es (new_opener inst busy)) ! k)")
      (auto simp: course_def call_of_def Let_def split: if_splits)
qed

subsection \<open>Opening and synchronising (usbgnubbyfactory.js)\<close>

text \<open>
  \<open>openGnubby\<close>: the opening of a new client for a given device and, once it succeeded, the run of its \<open>sync\<close>, which
  then holds the client. \<open>go_cb\<close> lists the results the caller's callback gets with the client.
\<close>

record gnubby_opening =
  go_open :: opener
  go_sync :: "syncer option"
  go_cb :: "int list"

definition openGnubby :: "nat \<Rightarrow> string \<times> nat \<Rightarrow> gnubby_opening" where
  "openGnubby inst w = \<lparr>go_open = g_open (Some w) (new_opener inst None), go_sync = None, go_cb = []\<rparr>"

text \<open>The callback of \<open>open\<close>; \<open>shared\<close> is \<open>isSharedAccess\<close> of the device, the others are random bytes.\<close>

definition go_opened :: "bool \<Rightarrow> bytes \<Rightarrow> byte \<times> byte \<Rightarrow> int \<Rightarrow> gnubby_opening \<Rightarrow> gnubby_opening" where
  "go_opened shared nonce rnd rc o' =
     (if rc \<noteq> 0 then o'\<lparr>go_cb := go_cb o' @ [rc]\<rparr>
      else (let s = sync shared nonce rnd (op_g (go_open o'))
            in o'\<lparr>go_sync := Some s, go_cb := go_cb o' @ sy_results s\<rparr>))"

definition go_added :: "bool \<Rightarrow> bytes \<Rightarrow> byte \<times> byte \<Rightarrow> int \<Rightarrow> bool \<Rightarrow> gnubby_opening \<Rightarrow> gnubby_opening" where
  "go_added shared nonce rnd rc device o' =
     (let p = op_step (OpAdded 0 rc device) (go_open o'); results = drop (length (open_results 0 (go_open o'))) (open_results 0 p)
      in fold (go_opened shared nonce rnd) results (o'\<lparr>go_open := p\<rparr>))"

definition go_syncing :: "sync_event \<Rightarrow> gnubby_opening \<Rightarrow> gnubby_opening" where
  "go_syncing e o' =
     (case go_sync o' of None \<Rightarrow> o'
      | Some s \<Rightarrow> (let s' = sync_step e s in o'\<lparr>go_sync := Some s', go_cb := go_cb o' @ drop (length (sy_results s)) (sy_results s')\<rparr>))"

definition factory_enumerate :: "nat \<Rightarrow> gnubbies \<Rightarrow> gnubbies" where
  "factory_enumerate cb g = enumerate cb g"

text \<open>The check of a token that is not enrolled always succeeds, with the token.\<close>

definition notEnrolledPrerequisiteCheck :: "nat \<Rightarrow> int \<times> nat" where
  "notEnrolledPrerequisiteCheck g = (OK_STATUS, g)"

text \<open>The client when \<open>open\<close> has succeeded: on the default channel of the device, and not closed.\<close>

definition opened_client :: "nat \<Rightarrow> string \<times> nat \<Rightarrow> gnubby" where
  "opened_client inst w = (Gnubby inst None)\<lparr>g_dev := True, which := snd w, g_cid := defaultChannelId inst (snd w)\<rparr>"

lemma opening_answered:
  "go_added shared nonce rnd rc (rc = 0) (openGnubby inst w) =
     (let o' = go_added shared nonce rnd rc (rc = 0) (openGnubby inst w) in
      if rc \<noteq> 0 then o'\<lparr>go_sync := None, go_cb := [rc]\<rparr>
      else o'\<lparr>go_sync := Some (sync shared nonce rnd (opened_client inst w)), go_cb := sy_results (sync shared nonce rnd (opened_client inst w))\<rparr>)"
  by (auto simp: go_added_def openGnubby_def g_open_def new_opener_def Gnubby_def add_to_def set_phase_def op_emit_def in_phase_def
      open_added_def answer_open_def open_results_def go_opened_def opened_client_def Let_def)

lemma sync_first:
  "sy_sent (sync shared nonce rnd (opened_client inst w)) =
     [if shared then (BROADCAST_CID, CMD_INIT, nonce) else (defaultChannelId inst (snd w), CMD_SYNC, [1])]"
  by (simp add: sync_def opened_client_def Gnubby_def timeoutLoop_def try_again_def sendSentinel_def sendInitSentinel_def
      sendSyncSentinel_def on_g_def default_cid_def notifyFrame_def Let_def)

text \<open>Synchronising only appends results, so the callback has got exactly what \<open>sync\<close> reported.\<close>

definition more_results :: "syncer \<Rightarrow> syncer \<Rightarrow> bool" where
  "more_results s s' \<longleftrightarrow> (\<exists>rcs. sy_results s' = sy_results s @ rcs)"

lemma more_results_step: "more_results s (sync_step e s)"
proof -
  have cb: "more_results s (callback rc f s')" if "sy_results s' = sy_results s" for rc f s'
    using that by (auto simp: more_results_def callback_def sync_callback_def initCompletionAction_def returnValue_def end_command_def
        on_g_def sync_timeoutLoop_def setSync_def try_again_def sendSentinel_def sendInitSentinel_def sendSyncSentinel_def Let_def
        split: option.split sync_mode.split)
  have again: "sy_results (try_again s') = sy_results s'" "sy_results (sendSentinel s') = sy_results s'" for s'
    by (auto simp: try_again_def sendSentinel_def sendInitSentinel_def sendSyncSentinel_def on_g_def Let_def split: sync_mode.split)
  have loop: "more_results s (timeoutLoop s')" if "sy_results s' = sy_results s" for s'
    using that cb [of s'] by (auto simp: timeoutLoop_def again more_results_def)
  have check: "more_results s s2" if c: "checkSentinel s1 = Some s2" and q: "sy_results s1 = sy_results s" for s1 s2
  proof -
    obtain f g1 where r: "readFrame (sy_g s1) = Some (f, g1)" using c by (cases "readFrame (sy_g s1)") (auto simp: checkSentinel_def)
    let ?s = "s1\<lparr>sy_g := g1\<rparr>"
    have "more_results s (callback rc f' ?s)" "more_results s (callback rc f' (on_g h ?s))" for rc f' h
      by (rule cb; use q in \<open>simp add: on_g_def\<close>)+
    then show ?thesis
      using c q r by (auto simp: checkSentinel_def again on_g_def more_results_def Let_def split: if_splits)
  qed
  show ?thesis
  proof (cases e)
    case STask
    then show ?thesis using check
      by (auto simp: sync_step.simps on_g_def Let_def more_results_def split: list.split frame_cb.split option.split)
  next
    case STimer
    then show ?thesis using loop [of "s\<lparr>sy_tid := False\<rparr>"] by (simp add: sync_step.simps more_results_def)
  qed (simp add: sync_step.simps on_g_def more_results_def)
qed

lemma go_syncing_run:
  "go_sync o' = Some s \<Longrightarrow> go_cb o' = sy_results s \<Longrightarrow>
   go_sync (fold go_syncing es o') = Some (fold sync_step es s) \<and> go_cb (fold go_syncing es o') = sy_results (fold sync_step es s)"
proof (induction es arbitrary: o' s)
  case (Cons e es)
  obtain rcs where "sy_results (sync_step e s) = sy_results s @ rcs" using more_results_step by (auto simp: more_results_def)
  then have "go_sync (go_syncing e o') = Some (sync_step e s)" "go_cb (go_syncing e o') = sy_results (sync_step e s)"
    using Cons.prems by (simp_all add: go_syncing_def Let_def)
  from Cons.IH [OF this] show ?case by simp
qed simp

definition open_and_sync :: "bool \<Rightarrow> bytes \<Rightarrow> byte \<times> byte \<Rightarrow> nat \<Rightarrow> string \<times> nat \<Rightarrow> int \<Rightarrow> sync_event list \<Rightarrow> gnubby_opening" where
  "open_and_sync shared nonce rnd inst w rc es = fold go_syncing es (go_added shared nonce rnd rc (rc = 0) (openGnubby inst w))"

lemma open_failed:
  assumes "rc \<noteq> 0"
  shows "go_cb (open_and_sync shared nonce rnd inst w rc es) = [rc] \<and> go_sync (open_and_sync shared nonce rnd inst w rc es) = None"
proof -
  have idle: "fold go_syncing es' o' = o'" if "go_sync o' = None" for es' o'
    using that by (induction es' arbitrary: o') (simp_all add: go_syncing_def)
  have "go_sync (go_added shared nonce rnd rc (rc = 0) (openGnubby inst w)) = None \<and> go_cb (go_added shared nonce rnd rc (rc = 0) (openGnubby inst w)) = [rc]"
    by (subst (1 2) opening_answered) (use assms in \<open>simp add: Let_def\<close>)
  with idle show ?thesis by (simp add: open_and_sync_def)
qed

lemma open_synced:
  "go_sync (open_and_sync shared nonce rnd inst w 0 es) = Some (fold sync_step es (sync shared nonce rnd (opened_client inst w)))
   \<and> go_cb (open_and_sync shared nonce rnd inst w 0 es) = sy_results (fold sync_step es (sync shared nonce rnd (opened_client inst w)))"
proof -
  let ?o = "go_added shared nonce rnd 0 (0 = (0 :: int)) (openGnubby inst w)"
  let ?s = "sync shared nonce rnd (opened_client inst w)"
  have "go_sync ?o = Some ?s \<and> go_cb ?o = sy_results ?s"
    by (subst (1 2) opening_answered) (simp add: Let_def)
  then show ?thesis using go_syncing_run [of ?o ?s es] by (simp add: open_and_sync_def)
qed

lemma sync_init_answered:
  assumes "frame_cid f = BROADCAST_CID" "frame_cmd f = CMD_INIT" "length nonce + 11 \<le> length f" "take (length nonce) (drop 7 f) = nonce"
  shows "sy_results (fold sync_step [SDeliver f, STask] (sync True nonce rnd (opened_client inst w))) = [0]
    \<and> g_cid (sy_g (fold sync_step [SDeliver f, STask] (sync True nonce rnd (opened_client inst w)))) = frame_cid (drop (7 + length nonce) f)"
  using assms
  by (simp add: sync_def opened_client_def Gnubby_def timeoutLoop_def try_again_def sendSentinel_def sendInitSentinel_def on_g_def
      default_cid_def notifyFrame_def Let_def sync_step.simps receivedFrame_def checkCID_def checkSentinel_def readFrame_def
      is_error_frame_def command_codes sentinelEquals_def initSentinelEquals_def equalArrays_Some callback_def initCompletionAction_def
      returnValue_def end_command_def assigned_cid_def OK_def del: UTIL_equalArrays.simps)

text \<open>
  C10. Opening a token through the factory: when the manager reports an error, the callback gets it and no command
  is sent. Otherwise the client of the device is synchronised, beginning with \<open>INIT\<close> and the nonce on the
  broadcast channel of a shared device, or \<open>SYNC\<close> on the default channel; the callback gets exactly what \<open>sync\<close>
  reports: a timeout once if the device stays silent, success with the channel of the reply if the \<open>INIT\<close> is
  answered.
\<close>

theorem open_gnubby_outcome:
  assumes "frame_cid f = BROADCAST_CID" "frame_cmd f = CMD_INIT" "length nonce + 11 \<le> length f" "take (length nonce) (drop 7 f) = nonce"
  shows "(rc \<noteq> 0 \<longrightarrow> go_cb (open_and_sync shared nonce rnd inst w rc es) = [rc] \<and> go_sync (open_and_sync shared nonce rnd inst w rc es) = None)
    \<and> (\<exists>s. go_sync (open_and_sync shared nonce rnd inst w 0 es) = Some s \<and> go_cb (open_and_sync shared nonce rnd inst w 0 es) = sy_results s)
    \<and> map_option sy_sent (go_sync (open_and_sync shared nonce rnd inst w 0 [])) =
        Some [if shared then (BROADCAST_CID, CMD_INIT, nonce) else (defaultChannelId inst (snd w), CMD_SYNC, [1])]
    \<and> go_cb (open_and_sync shared nonce rnd inst w 0 (replicate n STimer)) = (if n < 6 then [] else [- TIMEOUT])
    \<and> go_cb (open_and_sync True nonce rnd inst w 0 [SDeliver f, STask]) = [0]
    \<and> map_option (\<lambda>s. g_cid (sy_g s)) (go_sync (open_and_sync True nonce rnd inst w 0 [SDeliver f, STask])) = Some (frame_cid (drop (7 + length nonce) f))"
proof -
  have timers: "fold sync_step (replicate n STimer) s = (sync_step STimer ^^ n) s" for s
    by (induction n arbitrary: s) (simp_all add: funpow_swap1)
  have "\<not> g_closed (opened_client inst w)" by (simp add: opened_client_def Gnubby_def)
  from sync_gives_up [OF this, of n shared nonce rnd] show ?thesis
    using open_failed [of rc shared nonce rnd inst w es] sync_init_answered [OF assms, of rnd inst w]
    by (simp add: open_synced sync_first timers Let_def)
qed

theorem open_gnubby_outcome_witness:
  "go_cb (open_and_sync True [1, 2, 3, 4, 5, 6, 7, 8] (9, 10) 1 (''hid'', 5) 0
     [SDeliver [255, 255, 255, 255, 0x86, 0, 12, 1, 2, 3, 4, 5, 6, 7, 8, 0, 0, 7, 1], STask]) = [0]"
proof -
  let ?f = "[255, 255, 255, 255, 0x86, 0, 12, 1, 2, 3, 4, 5, 6, 7, 8, 0, 0, 7, 1] :: bytes"
  have "frame_cid ?f = BROADCAST_CID" "frame_cmd ?f = CMD_INIT" by code_simp+
  from open_gnubby_outcome [OF this, of "[1, 2, 3, 4, 5, 6, 7, 8]"] show ?thesis by simp
qed

text \<open>
  A client that is closed while it is being opened is still registered when the manager answers: it has a device,
  is closed, and nothing will remove it; so the device stays open until all devices are closed for inactivity.
\<close>

theorem closed_while_opened:
  "(let s = fold op_step [OpOpen (Some (''usb'', 5)), OpOther g_close, OpAdded 0 0 True] (new_opener 1 None) in
      g_closed (op_g s) \<and> g_dev (op_g s) \<and> g_removes (op_g s) = 0 \<and> open_results 0 s = [0])"
  by code_simp

end
