(* ===== verification/UsbShared.thy ===== *)
theory UsbShared
  imports UsbDevice
begin

text \<open>
  The operations of usbgnubbydevice.js on clients, frames, the lock and the end of a device, as that file has
  them: loops with an accumulator, nested tests. They are compared with those of theory Device, which are the HID
  driver's and which the rest of the development uses for both drivers.
\<close>

subsection \<open>Clients\<close>

fun usb_listed :: "nat \<Rightarrow> nat list \<Rightarrow> bool" where
  "usb_listed who [] = False"
| "usb_listed who (c # cs) = (if who = c then True else usb_listed who cs)"

definition usb_registerClient :: "nat \<Rightarrow> usbdev \<Rightarrow> usbdev" where
  "usb_registerClient who d = (if usb_listed who (clients d) then d else d\<lparr>clients := clients d @ [who]\<rparr>)"

definition usb_hasClient :: "nat \<Rightarrow> usbdev \<Rightarrow> bool" where
  "usb_hasClient who d = (if length (clients d) = 0 then False else usb_listed who (clients d))"

fun usb_others :: "nat \<Rightarrow> nat list \<Rightarrow> nat list \<Rightarrow> nat list" where
  "usb_others who [] kept = kept"
| "usb_others who (client # cs) kept = usb_others who cs (if client \<noteq> who then kept @ [client] else kept)"

definition usb_deregisterClient :: "nat \<Rightarrow> usbdev \<Rightarrow> usbdev \<times> int" where
  "usb_deregisterClient who d =
     (let current = clients d in
      if length current = 0 then (d, -1)
      else (let d1 = d\<lparr>clients := usb_others who current []\<rparr> in (d1, int (length (clients d1)))))"

text \<open>The loop over the old clients: the store, those that remain, and whether one has left.\<close>

fun usb_publish_loop :: "bytes \<Rightarrow> nat list \<Rightarrow> (nat \<Rightarrow> gnubby) \<Rightarrow> nat list \<Rightarrow> bool \<Rightarrow> (nat \<Rightarrow> gnubby) \<times> nat list \<times> bool" where
  "usb_publish_loop f [] st remaining changes = (st, remaining, changes)"
| "usb_publish_loop f (client # old) st remaining changes =
     (let (g, alive) = receivedFrame f (st client) in
      if alive then usb_publish_loop f old (st(client := g)) (remaining @ [client]) changes
      else usb_publish_loop f old (st(client := g)) remaining True)"

definition usb_publishFrame :: "bytes \<Rightarrow> usbdev \<Rightarrow> usbdev" where
  "usb_publishFrame f d =
     (let (st, remaining, changes) = usb_publish_loop f (clients d) (d_store d) [] False;
          d1 = d\<lparr>d_store := st\<rparr>
      in if changes then d1\<lparr>clients := remaining\<rparr> else d1)"

subsection \<open>The lock\<close>

definition usb_checkLock :: "int32 \<Rightarrow> nat \<Rightarrow> usbdev \<Rightarrow> usbdev \<times> bool" where
  "usb_checkLock cid cmd d =
     (if lockCID d \<noteq> 0
      then (if lockCID d \<noteq> cid
            then (if cmd \<noteq> CMD_SYNC \<and> cmd \<noteq> CMD_INIT
                  then (usb_publishFrame (cid_bytes cid @ [word_of_nat CMD_ERROR, 0, 1, word_of_int BUSY]) d, False)
                  else (d, True))
            else (d, True))
      else (d, True))"

definition usb_updateLock :: "int32 \<Rightarrow> nat \<Rightarrow> byte \<Rightarrow> usbdev \<Rightarrow> usbdev" where
  "usb_updateLock cid cmd arg d =
     (if lockCID d = 0 \<or> lockCID d = cid
      then (let d1 = (if lockTID d then d\<lparr>lockTID := False\<rparr> else d);
                d2 = (if cmd = CMD_LOCK
                      then (let nseconds = arg in
                            if nseconds \<noteq> 0 then d1\<lparr>lockCID := cid, lockMillis := unat nseconds * 1000 + 100\<rparr>
                            else d1\<lparr>lockCID := 0\<rparr>)
                      else d1)
            in if lockCID d2 \<noteq> 0 then d2\<lparr>lockTID := True\<rparr> else d2)
      else d)"

definition usb_lock_expired :: "usbdev \<Rightarrow> usbdev" where
  "usb_lock_expired d = (if lockTID d then d\<lparr>lockTID := False, lockCID := 0\<rparr> else d)"

subsection \<open>The end of a device\<close>

text \<open>\<open>while (clients.length != 0)\<close>: the first client is shifted off and closed.\<close>

fun usb_close_clients :: "nat list \<Rightarrow> (nat \<Rightarrow> gnubby) \<Rightarrow> nat \<Rightarrow> gnubby" where
  "usb_close_clients [] st = st"
| "usb_close_clients (client # cs) st = usb_close_clients cs (st(client := (st client)\<lparr>g_closed := True\<rparr>))"

text \<open>\<open>Disconnect\<close> is the release of the interface here; the browser then reports on it.\<close>

definition usb_destroy :: "usbdev \<Rightarrow> usbdev" where
  "usb_destroy d =
     (if \<not> d_alive d then d
      else (let d1 = (emit (RemoveOpenDevice (d_id d)) d)\<lparr>closing := True\<rparr>;
                d2 = usb_publishFrame ([0, 0, 0, 0] @ [word_of_nat CMD_ERROR, 0, 1, word_of_int GONE]) d1;
                d3 = d2\<lparr>d_store := usb_close_clients (clients d2) (d_store d2), clients := []\<rparr>;
                d4 = (if lockTID d3 then d3\<lparr>lockTID := False\<rparr> else d3)
            in emit Disconnect (d4\<lparr>d_alive := False\<rparr>)))"

text \<open>The interface was released, or not: only then the handle is closed.\<close>

datatype usb_handle_call = CloseDevice

definition usb_released :: "bool \<Rightarrow> usb_handle_call list" where
  "usb_released lastError = (if lastError then [] else [CloseDevice])"

subsection \<open>The drivers agree\<close>

lemma usb_listed_iff: "usb_listed who cs \<longleftrightarrow> who \<in> set cs"
  by (induction cs) auto

lemma usb_others_filter: "usb_others who cs kept = kept @ filter (\<lambda>c. c \<noteq> who) cs"
  by (induction cs arbitrary: kept) auto

lemma usb_publish_loop_eq:
  "usb_publish_loop f cs st remaining changes =
     (fst (publish_loop f cs st), remaining @ snd (publish_loop f cs st), changes \<or> snd (publish_loop f cs st) \<noteq> cs)"
proof (induction cs arbitrary: st remaining changes)
  case (Cons c cs)
  have len: "length (snd (publish_loop f cs st')) \<le> length cs" for st'
    by (induction cs arbitrary: st') (auto simp: split_def Let_def le_SucI)
  obtain g i where r: "receivedFrame f (st c) = (g, i)" by fastforce
  obtain st' rem where p: "publish_loop f cs (st(c := g)) = (st', rem)" by fastforce
  have "rem \<noteq> c # cs" using len [of "st(c := g)"] p by auto
  moreover note ih = Cons.IH [of "st(c := g)", unfolded p fst_conv snd_conv]
  ultimately show ?case by (cases i) (simp_all add: r p ih del: fun_upd_apply)
qed simp

lemma usb_publish_same: "usb_publishFrame f d = publishFrame f d"
  by (auto simp: usb_publishFrame_def publishFrame_def usb_publish_loop_eq split_def Let_def)

lemma usb_close_same: "usb_close_clients cs st = close_all cs st"
  unfolding close_all_def by (induction cs arbitrary: st) simp_all

lemma notification_bytes: "cid_bytes NOTIFICATION_CID = [0, 0, 0, 0]"
  by code_simp


end
