(* ===== verification/Origins.thy ===== *)
theory Origins
  imports Util
begin

text \<open>
  webrequest.js (getOriginFromUrl), webrequestsender.js and cryptotokenapprovedorigins.js: the origin of a
  URL, the sender of a request with the tab it came from, and the approval of an origin. The answers of
  \<open>chrome.tabs\<close> and \<open>chrome.windows\<close> are arguments, a query's \<open>None\<close> being \<open>chrome.runtime.lastError\<close>.
\<close>

subsection \<open>The origin of a URL\<close>

text \<open>What the regular expression \<open>^(https?://)[^/]*/?\<close> matches.\<close>

definition url_scheme :: "string \<Rightarrow> string option" where
  "url_scheme url =
     (if take 7 url = ''http://'' then Some ''http://''
      else if take 8 url = ''https://'' then Some ''https://'' else None)"

definition url_match :: "string \<Rightarrow> string option" where
  "url_match url =
     map_option (\<lambda>s. (let rest = drop (length s) url; host = takeWhile (\<lambda>c. c \<noteq> CHR ''/'') rest
                      in s @ host @ take 1 (drop (length host) rest))) (url_scheme url)"

definition strip_slashes :: "string \<Rightarrow> string" where
  "strip_slashes s = rev (dropWhile (\<lambda>c. c = CHR ''/'') (rev s))"

definition getOriginFromUrl :: "string \<Rightarrow> string option" where
  "getOriginFromUrl url =
     (case url_match url of None \<Rightarrow> None
      | Some m \<Rightarrow>
        (let origin = strip_slashes m in
         if origin = ''http:'' \<or> origin = ''https:'' then None else Some origin))"

lemma url_scheme_split:
  assumes "url_scheme url = Some s"
  shows "(s = ''http://'' \<or> s = ''https://'') \<and> url = s @ drop (length s) url"
proof -
  consider "s = ''http://''" "take 7 url = s" | "s = ''https://''" "take 8 url = s"
    using assms by (auto simp: url_scheme_def split: if_splits)
  then show ?thesis
  proof cases
    case 1
    then have "length s = 7" by simp
    with 1 append_take_drop_id [of 7 url] show ?thesis by (simp only: simp_thms)
  next
    case 2
    then have "length s = 8" by simp
    with 2 append_take_drop_id [of 8 url] show ?thesis by (simp only: simp_thms)
  qed
qed

lemma url_scheme_append [simp]:
  "url_scheme (''http://'' @ r) = Some ''http://''" "url_scheme (''https://'' @ r) = Some ''https://''"
  by (simp_all add: url_scheme_def)

lemma strip_snoc: "strip_slashes (s @ [c]) = (if c = CHR ''/'' then strip_slashes s else s @ [c])"
  by (simp add: strip_slashes_def)

lemma strip_host:
  assumes "CHR ''/'' \<notin> set host" "host \<noteq> []"
  shows "strip_slashes (s @ host) = s @ host" "strip_slashes (s @ host @ [CHR ''/'']) = s @ host"
proof -
  obtain h c where "host = h @ [c]" using assms(2) by (cases host rule: rev_cases) auto
  then show 1: "strip_slashes (s @ host) = s @ host"
    using assms(1) strip_snoc [of "s @ h" c] by auto
  show "strip_slashes (s @ host @ [CHR ''/'']) = s @ host"
    using 1 strip_snoc [of "s @ host" "CHR ''/''"] by simp
qed

lemma strip_scheme:
  "strip_slashes ''http://'' = ''http:''" "strip_slashes ''https://'' = ''https:''"
  "strip_slashes ''http:///'' = ''http:''" "strip_slashes ''https:///'' = ''https:''"
  by code_simp+

lemma strip_no_host:
  "s = ''http://'' \<or> s = ''https://'' \<Longrightarrow> sl = [] \<or> sl = ''/'' \<Longrightarrow> strip_slashes (s @ sl) \<in> {''http:'', ''https:''}"
  using strip_scheme by (elim disjE) simp_all

lemma host_split:
  assumes "CHR ''/'' \<notin> set h"
  shows "takeWhile (\<lambda>c. c \<noteq> CHR ''/'') h = h" "takeWhile (\<lambda>c. c \<noteq> CHR ''/'') (h @ CHR ''/'' # r) = h"
    "dropWhile (\<lambda>c. c \<noteq> CHR ''/'') h = []" "dropWhile (\<lambda>c. c \<noteq> CHR ''/'') (h @ CHR ''/'' # r) = CHR ''/'' # r"
  using assms by (induction h) auto

text \<open>An origin: a scheme and a host, that is all characters up to the first slash.\<close>

definition is_origin :: "string \<Rightarrow> bool" where
  "is_origin o' \<longleftrightarrow> (\<exists>s host. (s = ''http://'' \<or> s = ''https://'') \<and> o' = s @ host \<and> host \<noteq> [] \<and> CHR ''/'' \<notin> set host)"

lemma match_scheme:
  "url_scheme url = Some s \<Longrightarrow> url = s @ rest \<Longrightarrow>
     url_match url = Some (s @ takeWhile (\<lambda>c. c \<noteq> CHR ''/'') rest @ take 1 (dropWhile (\<lambda>c. c \<noteq> CHR ''/'') rest))"
  by (simp add: url_match_def Let_def dropWhile_eq_drop)

lemma origin_sound:
  assumes "getOriginFromUrl url = Some o'"
  shows "is_origin o' \<and> (url = o' \<or> (\<exists>r. url = o' @ CHR ''/'' # r))"
proof -
  obtain s where s: "url_scheme url = Some s"
    using assms by (auto simp: getOriginFromUrl_def url_match_def split: option.splits)
  define rest where "rest = drop (length s) url"
  note sp = url_scheme_split [OF s, folded rest_def]
  define host where "host = takeWhile (\<lambda>c. c \<noteq> CHR ''/'') rest"
  have m: "url_match url = Some (s @ host @ take 1 (dropWhile (\<lambda>c. c \<noteq> CHR ''/'') rest))"
    using match_scheme [OF s] sp by (simp add: host_def)
  have h: "CHR ''/'' \<notin> set host" by (auto simp: host_def dest: set_takeWhileD)
  have r: "rest = host @ dropWhile (\<lambda>c. c \<noteq> CHR ''/'') rest" by (simp add: host_def)
  have d: "dropWhile (\<lambda>c. c \<noteq> CHR ''/'') rest = [] \<or> (\<exists>r. dropWhile (\<lambda>c. c \<noteq> CHR ''/'') rest = CHR ''/'' # r)"
    by (cases "dropWhile (\<lambda>c. c \<noteq> CHR ''/'') rest") (auto simp: dropWhile_eq_Cons_conv)
  define sl where "sl = take 1 (dropWhile (\<lambda>c. c \<noteq> CHR ''/'') rest)"
  have sl: "sl = [] \<or> sl = ''/''"
    using d by (elim disjE exE) (simp_all only: sl_def take_Suc_Cons One_nat_def take_0 take_Nil simp_thms)
  show ?thesis
  proof (cases "host = []")
    case True
    have "strip_slashes (s @ sl) \<in> {''http:'', ''https:''}"
      by (rule strip_no_host [OF conjunct1 [OF sp] sl])
    then have False using assms m True by (auto simp: getOriginFromUrl_def Let_def sl_def)
    then show ?thesis ..
  next
    case False
    then have "strip_slashes (s @ host @ sl) = s @ host" using sl strip_host [OF h, of s] by (elim disjE) simp_all
    then have "o' = s @ host"
      using assms m by (simp add: getOriginFromUrl_def Let_def sl_def split: if_splits)
    moreover have "is_origin (s @ host)" unfolding is_origin_def using sp h False by blast
    moreover have "url = s @ host \<or> (\<exists>r. url = (s @ host) @ CHR ''/'' # r)"
    proof (cases "dropWhile (\<lambda>c. c \<noteq> CHR ''/'') rest = []")
      case True
      with r sp have "url = s @ host" by (simp only: append_Nil2)
      then show ?thesis ..
    next
      case False
      with d obtain r' where "dropWhile (\<lambda>c. c \<noteq> CHR ''/'') rest = CHR ''/'' # r'" by blast
      with r have "rest = host @ CHR ''/'' # r'" by (simp only:)
      with sp have "url = (s @ host) @ CHR ''/'' # r'" by (simp only: append_assoc)
      then show ?thesis by blast
    qed
    ultimately show ?thesis by (simp only: simp_thms)
  qed
qed

lemma origin_complete:
  assumes "is_origin o'" "url = o' \<or> (\<exists>r. url = o' @ CHR ''/'' # r)"
  shows "getOriginFromUrl url = Some o'"
proof -
  obtain s host where s: "s = ''http://'' \<or> s = ''https://''" and o: "o' = s @ host" and h: "host \<noteq> []" "CHR ''/'' \<notin> set host"
    using assms(1) unfolding is_origin_def by blast
  from assms(2) obtain rest where rest: "url = s @ rest" "rest = host \<or> (\<exists>r. rest = host @ CHR ''/'' # r)"
    using o by auto
  have sc: "url_scheme url = Some s" using s rest(1) url_scheme_append by metis
  have ne: "o' \<noteq> ''http:''" "o' \<noteq> ''https:''" using s o by (elim disjE; simp)+
  from rest(2) have "url_match url = Some (s @ host) \<or> url_match url = Some (s @ host @ [CHR ''/''])"
    using match_scheme [OF sc rest(1)] host_split [OF h(2)] by (elim disjE exE) simp_all
  then show ?thesis
    using strip_host [OF h(2,1), of s] o ne by (elim disjE) (simp_all add: getOriginFromUrl_def)
qed

text \<open>
  The origin of a URL is its scheme, \<open>http\<close> or \<open>https\<close>, and everything up to the next slash, and exists
  when that is not empty. It need not be a proper host: credentials and ports are kept.
\<close>

theorem origin_of_url:
  "getOriginFromUrl url = Some o' \<longleftrightarrow> is_origin o' \<and> (url = o' \<or> (\<exists>r. url = o' @ CHR ''/'' # r))"
  using origin_sound origin_complete by blast

subsection \<open>Senders and tabs\<close>

record message_sender =
  mg_url :: string
  mg_tlsChannelId :: "string option"
  mg_tab :: "int option"

record web_sender =
  ws_origin :: string
  ws_tlsChannelId :: "string option"
  ws_tabId :: "int option"

record tab =
  tab_id :: int
  tab_url :: string
  tab_active :: bool
  tab_window :: int

definition createSenderFromMessageSender :: "message_sender \<Rightarrow> web_sender option" where
  "createSenderFromMessageSender m =
     (case getOriginFromUrl (mg_url m) of None \<Rightarrow> None
      | Some o' \<Rightarrow> Some \<lparr>ws_origin = o',
          ws_tlsChannelId = (case mg_tlsChannelId m of Some c \<Rightarrow> if c = [] then None else Some c | None \<Rightarrow> None),
          ws_tabId = mg_tab m\<rparr>)"

definition tabMatchesOrigin :: "tab \<Rightarrow> string \<Rightarrow> int option" where
  "tabMatchesOrigin t o' = (if getOriginFromUrl (tab_url t) = Some o' then Some (tab_id t) else None)"

text \<open>The handlers of the promises of a list of tabs, each in turn, run before what waits for the result.\<close>

definition match_tab :: "tab \<Rightarrow> web_sender \<times> bool \<Rightarrow> web_sender \<times> bool" where
  "match_tab t = (\<lambda>(s, resolved). case tabMatchesOrigin t (ws_origin s) of
     Some i \<Rightarrow> (s\<lparr>ws_tabId := Some i\<rparr>, True) | None \<Rightarrow> (s, resolved))"

text \<open>
  The sender with its tab, and whether the promise is resolved. \<open>current\<close> answers the query for the active
  tab of the last focused window, \<open>active\<close> the query for all active tabs.
\<close>

definition getTabIdWhenPossible :: "bool \<Rightarrow> tab list \<Rightarrow> tab list \<Rightarrow> web_sender \<Rightarrow> web_sender \<times> bool" where
  "getTabIdWhenPossible chrome_tabs current active s =
     (if ws_tabId s \<noteq> None \<and> ws_tabId s \<noteq> Some 0 then (s, True)
      else if \<not> chrome_tabs then (s, True)
      else (case current of [] \<Rightarrow> (s, False)
        | t # _ \<Rightarrow>
          (case tabMatchesOrigin t (ws_origin s) of Some i \<Rightarrow> (s\<lparr>ws_tabId := Some i\<rparr>, True)
           | None \<Rightarrow>
             (if take 18 (tab_url t) \<noteq> ''chrome-devtools://'' then (s, False)
              else fold match_tab active (s, False)))))"

datatype promised = Resolved bool | Rejected

text \<open>\<open>w\<close> is the window that \<open>chrome.windows.get\<close> passes, with whether it is focused.\<close>

definition tabInForeground :: "bool \<Rightarrow> bool \<Rightarrow> tab option \<Rightarrow> bool option \<Rightarrow> promised" where
  "tabInForeground chrome_tabs chrome_windows t w =
     (if \<not> chrome_tabs then Rejected else if \<not> chrome_windows then Rejected
      else (case t of None \<Rightarrow> Resolved False
        | Some t' \<Rightarrow> if \<not> tab_active t' then Resolved False else Resolved (w = Some True)))"

definition isApprovedOrigin :: "bool \<Rightarrow> bool \<Rightarrow> tab option \<Rightarrow> bool option \<Rightarrow> tab option \<Rightarrow> string \<Rightarrow> int option \<Rightarrow> promised option" where
  "isApprovedOrigin chrome_tabs chrome_windows t w t2 o' opt_tabId =
     (case opt_tabId of None \<Rightarrow> Some (Resolved False)
      | Some i \<Rightarrow>
        (case tabInForeground chrome_tabs chrome_windows t w of
           Rejected \<Rightarrow> None
         | Resolved result \<Rightarrow>
           (if \<not> result then Some (Resolved False)
            else if \<not> chrome_tabs then Some Rejected
            else (case t2 of None \<Rightarrow> Some (Resolved False)
              | Some t' \<Rightarrow> Some (Resolved (getOriginFromUrl (tab_url t') = Some o'))))))"

lemma match_tabs:
  "fold match_tab ts (s, b) = (s', b') \<Longrightarrow> ws_origin s' = ws_origin s \<and> ws_tlsChannelId s' = ws_tlsChannelId s
     \<and> (b' = b \<and> ws_tabId s' = ws_tabId s \<and> (\<forall>t \<in> set ts. getOriginFromUrl (tab_url t) \<noteq> Some (ws_origin s))
       \<or> b' \<and> (\<exists>t \<in> set ts. ws_tabId s' = Some (tab_id t) \<and> getOriginFromUrl (tab_url t) = Some (ws_origin s)))"
proof (induction ts arbitrary: s b)
  case (Cons t ts)
  obtain s1 b1 where m: "match_tab t (s, b) = (s1, b1)" by fastforce
  with Cons.prems Cons.IH [of s1 b1] show ?case
    by (auto simp: match_tab_def tabMatchesOrigin_def split: option.splits if_splits)
qed simp

text \<open>
  When the tab of a sender is accepted, it is the one the browser gave with the request, or the sender
  keeps none because there is no tab interface, or it is an active tab that shows a page of the sender's
  origin. An origin is approved only in a tab that is active in the focused window and shows a page of that
  origin.
\<close>

theorem tab_trusted:
  assumes "getTabIdWhenPossible ch current active s = (s', True)"
    and "isApprovedOrigin ch wi t w t2 o' i = Some (Resolved True)"
  shows "ws_origin s' = ws_origin s \<and> (s' = s \<and> (\<not> ch \<or> ws_tabId s \<noteq> None)
      \<or> (\<exists>t \<in> set (take 1 current @ active). ws_tabId s' = Some (tab_id t) \<and> getOriginFromUrl (tab_url t) = Some (ws_origin s')))
    \<and> i \<noteq> None \<and> (\<exists>tb. t = Some tb \<and> tab_active tb \<and> w = Some True)
    \<and> (\<exists>tb. t2 = Some tb \<and> getOriginFromUrl (tab_url tb) = Some o')"
proof -
  have "ws_origin s' = ws_origin s \<and> (s' = s \<and> (\<not> ch \<or> ws_tabId s \<noteq> None)
      \<or> (\<exists>t \<in> set (take 1 current @ active). ws_tabId s' = Some (tab_id t) \<and> getOriginFromUrl (tab_url t) = Some (ws_origin s')))"
    using assms(1) match_tabs [of active s False s' True]
    by (auto simp: getTabIdWhenPossible_def tabMatchesOrigin_def split: if_splits list.splits option.splits)
  moreover have "i \<noteq> None \<and> (\<exists>tb. t = Some tb \<and> tab_active tb \<and> w = Some True)
    \<and> (\<exists>tb. t2 = Some tb \<and> getOriginFromUrl (tab_url tb) = Some o')"
    using assms(2) by (auto simp: isApprovedOrigin_def tabInForeground_def split: option.splits promised.splits if_splits)
  ultimately show ?thesis by blast
qed

definition example_tab :: tab where
  "example_tab = \<lparr>tab_id = 3, tab_url = ''https://a.com/x'', tab_active = True, tab_window = 1\<rparr>"

theorem tab_trusted_witness:
  "getTabIdWhenPossible True [example_tab] [] \<lparr>ws_origin = ''https://a.com'', ws_tlsChannelId = None, ws_tabId = None\<rparr>
     = (\<lparr>ws_origin = ''https://a.com'', ws_tlsChannelId = None, ws_tabId = Some 3\<rparr>, True)
   \<and> getOriginFromUrl (tab_url example_tab) = Some ''https://a.com''"
proof -
  have g: "getTabIdWhenPossible True [example_tab] [] \<lparr>ws_origin = ''https://a.com'', ws_tlsChannelId = None, ws_tabId = None\<rparr>
     = (\<lparr>ws_origin = ''https://a.com'', ws_tlsChannelId = None, ws_tabId = Some 3\<rparr>, True)" by code_simp
  moreover have "isApprovedOrigin True True (Some example_tab) (Some True) (Some example_tab) ''https://a.com'' (Some 3) = Some (Resolved True)"
    by code_simp
  ultimately show ?thesis using tab_trusted [OF g] by fastforce
qed

text \<open>With the debugger in front, the tab taken is the last one with the origin, not the first one.\<close>

theorem debugger_takes_last_tab:
  "(let page = (\<lambda>i. \<lparr>tab_id = i, tab_url = ''https://a.com/x'', tab_active = True, tab_window = 1\<rparr>);
        tools = \<lparr>tab_id = 9, tab_url = ''chrome-devtools://x'', tab_active = True, tab_window = 1\<rparr>
    in ws_tabId (fst (getTabIdWhenPossible True [tools] [page 1, page 2] \<lparr>ws_origin = ''https://a.com'', ws_tlsChannelId = None, ws_tabId = None\<rparr>)))
   = Some 2"
  by code_simp

end
