(* ===== verification/AppId.thy ===== *)
theory AppId
  imports Origins
begin

text \<open>
  appid.js, etld.js and etldorigincheck.js: the two halves of the app id policy. An origin may claim an app
  id when both have the same effective top level domain plus one, and the app id must list the origin in a
  document that is fetched. What a fetch returns is an argument, as are the parser \<open>JSON.parse\<close>, whose
  results are the values of type \<open>jsval\<close>, and the list of top level domains (etld_names_list.js).
\<close>

subsection \<open>Effective top level domains\<close>

text \<open>The part behind the first dot.\<close>

definition after_dot :: "string \<Rightarrow> string option" where
  "after_dot s = (case dropWhile (\<lambda>c. c \<noteq> CHR ''.'') s of [] \<Rightarrow> None | _ # r \<Rightarrow> Some r)"

lemma after_dot_split:
  "after_dot s = Some r \<longleftrightarrow> (\<exists>l. CHR ''.'' \<notin> set l \<and> s = l @ CHR ''.'' # r)"
proof
  assume a: "after_dot s = Some r"
  then obtain c where c: "dropWhile (\<lambda>c. c \<noteq> CHR ''.'') s = c # r" by (auto simp: after_dot_def split: list.splits)
  then have "c = CHR ''.''" by (simp add: dropWhile_eq_Cons_conv)
  with c have "s = takeWhile (\<lambda>c. c \<noteq> CHR ''.'') s @ CHR ''.'' # r"
    using takeWhile_dropWhile_id [of "\<lambda>c. c \<noteq> CHR ''.''" s] by simp
  moreover have "CHR ''.'' \<notin> set (takeWhile (\<lambda>c. c \<noteq> CHR ''.'') s)" by (blast dest: set_takeWhileD)
  ultimately show "\<exists>l. CHR ''.'' \<notin> set l \<and> s = l @ CHR ''.'' # r" by blast
next
  assume "\<exists>l. CHR ''.'' \<notin> set l \<and> s = l @ CHR ''.'' # r"
  then obtain l where "CHR ''.'' \<notin> set l" "s = l @ CHR ''.'' # r" by blast
  moreover from this(1) have "dropWhile (\<lambda>c. c \<noteq> CHR ''.'') (l @ CHR ''.'' # r) = CHR ''.'' # r" by (induction l) auto
  ultimately show "after_dot s = Some r" by (simp add: after_dot_def)
qed

lemma after_dot_shorter: "after_dot s = Some r \<Longrightarrow> length r < length s"
  by (auto simp: after_dot_split)

function etld_loop :: "string list \<Rightarrow> string \<Rightarrow> string option" where
  "etld_loop eTlds next =
     (case after_dot next of None \<Rightarrow> None
      | Some r \<Rightarrow> if r \<in> set eTlds then Some next else etld_loop eTlds r)"
  by pat_completeness auto
termination
  by (relation "measure (\<lambda>(_, s). length s)") (auto simp: after_dot_shorter)

declare etld_loop.simps [simp del]

definition etld_host :: "string \<Rightarrow> string" where
  "etld_host origin =
     (let host = (if take 7 origin = ''http://'' then drop 7 origin
                  else if take 8 origin = ''https://'' then drop 8 origin else origin)
      in takeWhile (\<lambda>c. c \<noteq> CHR '':'') host)"

definition getEffectiveTldPlusOneIn :: "string \<Rightarrow> string list \<Rightarrow> string option" where
  "getEffectiveTldPlusOneIn origin eTlds =
     (let host = etld_host origin in
      if host = ''localhost'' then Some host else etld_loop eTlds host)"

definition getEffectiveTldPlusOne :: "string list \<Rightarrow> string list \<Rightarrow> string \<Rightarrow> string option" where
  "getEffectiveTldPlusOne fixed_tld_list eTlds origin =
     (case getEffectiveTldPlusOneIn origin fixed_tld_list of
        Some e \<Rightarrow> if e \<noteq> [] then Some e else getEffectiveTldPlusOneIn origin eTlds
      | None \<Rightarrow> getEffectiveTldPlusOneIn origin eTlds)"

text \<open>\<open>tld\<close> is the fetcher's \<open>getEffectiveTldPlusOne\<close>.\<close>

definition etld_checkAppId :: "(string \<Rightarrow> string option) \<Rightarrow> string \<Rightarrow> string \<Rightarrow> string \<Rightarrow> bool" where
  "etld_checkAppId tld origin originEtldPlusOne appId =
     (if appId = origin then True
      else (case getOriginFromUrl appId of None \<Rightarrow> False
        | Some o' \<Rightarrow>
          (let appIdEtldPlusOne = tld o' in
           if Some originEtldPlusOne = appIdEtldPlusOne then True
           else if originEtldPlusOne = ''google.com'' then appIdEtldPlusOne = Some ''gstatic.com''
           else False)))"

definition canClaimAppIds :: "(string \<Rightarrow> string option) \<Rightarrow> string \<Rightarrow> string list \<Rightarrow> bool" where
  "canClaimAppIds tld origin appIds =
     (case tld origin of None \<Rightarrow> False
      | Some e \<Rightarrow> if e = [] then False else list_all (etld_checkAppId tld origin e) appIds)"

text \<open>The suffixes of a host behind one of its dots, the longest first, and what the loop finds.\<close>

definition behind_dot :: "string \<Rightarrow> string \<Rightarrow> bool" where
  "behind_dot r s \<longleftrightarrow> (\<exists>l. s = l @ CHR ''.'' # r)"

lemma behind_dot_step:
  "after_dot s = Some r \<Longrightarrow> behind_dot r' s \<longleftrightarrow> r' = r \<or> behind_dot r' r"
proof -
  assume "after_dot s = Some r"
  then obtain l where l: "CHR ''.'' \<notin> set l" "s = l @ CHR ''.'' # r" by (auto simp: after_dot_split)
  show ?thesis
  proof
    assume "behind_dot r' s"
    then obtain l' where "l @ CHR ''.'' # r = l' @ CHR ''.'' # r'" using l by (auto simp: behind_dot_def)
    with l(1) show "r' = r \<or> behind_dot r' r"
      by (auto simp: append_eq_append_conv2 behind_dot_def Cons_eq_append_conv append_eq_Cons_conv)
  next
    assume "r' = r \<or> behind_dot r' r"
    then show "behind_dot r' s" using l(2) unfolding behind_dot_def by (metis append.assoc append_Cons)
  qed
qed

lemma behind_none: "after_dot s = None \<Longrightarrow> \<not> behind_dot r s"
proof
  assume "after_dot s = None" "behind_dot r s"
  then have "CHR ''.'' \<in> set s" "dropWhile (\<lambda>c. c \<noteq> CHR ''.'') s = []"
    by (auto simp: behind_dot_def after_dot_def split: list.splits)
  then show False by (simp only: dropWhile_eq_Nil_conv) blast
qed

lemma behind_shorter: "behind_dot r s \<Longrightarrow> length r < length s"
  by (auto simp: behind_dot_def)

lemma etld_loop_None: "etld_loop eTlds s = None \<longleftrightarrow> (\<forall>r. behind_dot r s \<longrightarrow> r \<notin> set eTlds)"
proof (induction eTlds s rule: etld_loop.induct)
  case (1 eTlds s)
  then show ?case
    by (subst etld_loop.simps) (auto simp: behind_none behind_dot_step split: option.split)
qed

lemma etld_loop_Some:
  "etld_loop eTlds s = Some d \<Longrightarrow> \<exists>l r. CHR ''.'' \<notin> set l \<and> d = l @ CHR ''.'' # r \<and> r \<in> set eTlds
     \<and> (d = s \<or> behind_dot d s) \<and> (\<forall>r'. behind_dot r' s \<longrightarrow> r' \<in> set eTlds \<longrightarrow> length r' \<le> length r)"
proof (induction eTlds s rule: etld_loop.induct)
  case (1 eTlds s)
  from 1(2) obtain r where r: "after_dot s = Some r"
    by (subst (asm) etld_loop.simps) (auto split: option.splits)
  show ?case
  proof (cases "r \<in> set eTlds")
    case True
    then have "d = s" using 1(2) r by (subst (asm) etld_loop.simps) simp
    moreover obtain l where "CHR ''.'' \<notin> set l" "s = l @ CHR ''.'' # r" using r by (auto simp: after_dot_split)
    moreover have "length r' \<le> length r" if "behind_dot r' s" for r'
      using that behind_shorter [of r' r] by (auto simp: behind_dot_step [OF r])
    ultimately show ?thesis using True by blast
  next
    case False
    then have "etld_loop eTlds r = Some d" using 1(2) r by (subst (asm) etld_loop.simps) simp
    from 1(1) [OF r False this] False show ?thesis
      by (auto simp: behind_dot_step [OF r])
  qed
qed

text \<open>
  The effective top level domain plus one of an origin is one label and the longest listed domain its host ends
  in; there is none exactly when the host ends in no listed domain.
\<close>

theorem etld_plus_one:
  assumes "etld_host origin \<noteq> ''localhost''"
  shows "(getEffectiveTldPlusOneIn origin eTlds = None \<longleftrightarrow> (\<forall>r. behind_dot r (etld_host origin) \<longrightarrow> r \<notin> set eTlds))
    \<and> (getEffectiveTldPlusOneIn origin eTlds = Some d \<longrightarrow>
        (\<exists>l r. CHR ''.'' \<notin> set l \<and> d = l @ CHR ''.'' # r \<and> r \<in> set eTlds
          \<and> (d = etld_host origin \<or> behind_dot d (etld_host origin))
          \<and> (\<forall>r'. behind_dot r' (etld_host origin) \<longrightarrow> r' \<in> set eTlds \<longrightarrow> length r' \<le> length r)))"
  using assms etld_loop_None etld_loop_Some by (simp add: getEffectiveTldPlusOneIn_def)

theorem etld_plus_one_witness:
  "\<exists>l r. CHR ''.'' \<notin> set l \<and> ''a.co.uk'' = l @ CHR ''.'' # r \<and> r \<in> set [''uk'', ''co.uk'']"
proof -
  have "etld_host ''https://www.a.co.uk:80'' \<noteq> ''localhost''" by code_simp
  moreover have "getEffectiveTldPlusOneIn ''https://www.a.co.uk:80'' [''uk'', ''co.uk''] = Some ''a.co.uk''"
    by (simp add: getEffectiveTldPlusOneIn_def etld_host_def etld_loop.simps after_dot_def)
  ultimately show ?thesis
    using etld_plus_one [of "''https://www.a.co.uk:80''" "[''uk'', ''co.uk'']" "''a.co.uk''"] by blast
qed

lemma etld_check_iff:
  "etld_checkAppId tld origin e a \<longleftrightarrow> a = origin \<or> (\<exists>o' e'. getOriginFromUrl a = Some o' \<and> tld o' = Some e'
     \<and> (e' = e \<or> e = ''google.com'' \<and> e' = ''gstatic.com''))"
proof (cases "getOriginFromUrl a")
  case (Some o')
  then show ?thesis by (cases "tld o'") (auto simp: etld_checkAppId_def Let_def)
qed (auto simp: etld_checkAppId_def)

text \<open>
  An origin that has an effective top level domain plus one may claim an app id exactly when the app id is the
  origin itself, or a URL with the same domain, or a gstatic.com one for google.com; and all of a list of app
  ids exactly when it may claim each. An origin without one, such as an intranet host, may claim none, not
  even itself.
\<close>

theorem etld_policy:
  "canClaimAppIds (getEffectiveTldPlusOne fixed eTlds) origin appIds \<longleftrightarrow>
     (\<exists>e. getEffectiveTldPlusOne fixed eTlds origin = Some e \<and> e \<noteq> [] \<and>
       (\<forall>a \<in> set appIds. a = origin \<or> (\<exists>o' e'. getOriginFromUrl a = Some o'
          \<and> getEffectiveTldPlusOne fixed eTlds o' = Some e'
          \<and> (e' = e \<or> e = ''google.com'' \<and> e' = ''gstatic.com''))))"
  by (auto simp: canClaimAppIds_def etld_check_iff list_all_iff split: option.split)

theorem etld_policy_witness:
  "canClaimAppIds (getEffectiveTldPlusOne [] [''com'']) ''https://www.a.com'' [''https://a.com/facets'', ''https://www.a.com'']"
proof -
  have "getEffectiveTldPlusOne [] [''com''] ''https://www.a.com'' = Some ''a.com''"
    "getEffectiveTldPlusOne [] [''com''] ''https://a.com'' = Some ''a.com''"
    by (simp_all add: getEffectiveTldPlusOne_def getEffectiveTldPlusOneIn_def etld_host_def etld_loop.simps after_dot_def)
  moreover have "getOriginFromUrl ''https://a.com/facets'' = Some ''https://a.com''" by code_simp
  ultimately show ?thesis
    by (subst etld_policy) simp
qed

text \<open>The host ends at the first colon, so credentials in a URL hide its host.\<close>

theorem credentials_hide_host:
  "getOriginFromUrl ''https://google.com:x@evil.org/f'' = Some ''https://google.com:x@evil.org''
   \<and> getEffectiveTldPlusOne [] [''com'', ''org''] ''https://google.com:x@evil.org'' = Some ''google.com''"
proof
  show "getOriginFromUrl ''https://google.com:x@evil.org/f'' = Some ''https://google.com:x@evil.org''" by code_simp
  show "getEffectiveTldPlusOne [] [''com'', ''org''] ''https://google.com:x@evil.org'' = Some ''google.com''"
    by (simp add: getEffectiveTldPlusOne_def getEffectiveTldPlusOneIn_def etld_host_def etld_loop.simps after_dot_def)
qed

subsection \<open>The document of an app id\<close>

text \<open>
  JavaScript values that a JSON document can hold, and \<open>undefined\<close>. A number is its canonical text. \<open>None\<close>
  is an exception: reading a property of \<open>undefined\<close> or \<open>null\<close>.
\<close>

datatype jsval = JUndef | JNull | JBool bool | JNum string | JStr string | JArr "jsval list" | JObj "(string \<times> jsval) list"

definition js_truthy :: "jsval \<Rightarrow> bool" where
  "js_truthy v = (case v of JUndef \<Rightarrow> False | JNull \<Rightarrow> False | JBool b \<Rightarrow> b | JNum t \<Rightarrow> t \<noteq> ''0'' | JStr s \<Rightarrow> s \<noteq> []
     | JArr _ \<Rightarrow> True | JObj _ \<Rightarrow> True)"

definition js_get :: "jsval \<Rightarrow> string \<Rightarrow> jsval option" where
  "js_get v k = (case v of JUndef \<Rightarrow> None | JNull \<Rightarrow> None
     | JObj ob \<Rightarrow> Some (case map_of ob k of None \<Rightarrow> JUndef | Some w \<Rightarrow> w) | _ \<Rightarrow> Some JUndef)"

text \<open>The elements \<open>v[0]\<close>, \<open>v[1]\<close>, ... before the first that is falsy.\<close>

definition js_items :: "jsval \<Rightarrow> jsval list option" where
  "js_items v = (case v of JUndef \<Rightarrow> None | JNull \<Rightarrow> None
     | JArr xs \<Rightarrow> Some (takeWhile js_truthy xs)
     | JStr s \<Rightarrow> Some (map (\<lambda>c. JStr [c]) s)
     | JObj ob \<Rightarrow> Some (takeWhile js_truthy
         (map (\<lambda>i. case map_of ob (nat_to_string i) of None \<Rightarrow> JUndef | Some w \<Rightarrow> w) [0..<Suc (length ob)]))
     | _ \<Rightarrow> Some [])"

text \<open>\<open>String(v)\<close>, which a regular expression applies to what it is given.\<close>

fun js_join :: "string list \<Rightarrow> string" where
  "js_join [] = []"
| "js_join [s] = s"
| "js_join (s # t # r) = s @ '','' @ js_join (t # r)"

fun js_toString :: "jsval \<Rightarrow> string" where
  "js_toString JUndef = ''undefined''"
| "js_toString JNull = ''null''"
| "js_toString (JBool b) = (if b then ''true'' else ''false'')"
| "js_toString (JNum t) = t"
| "js_toString (JStr s) = s"
| "js_toString (JArr xs) = js_join (map (\<lambda>x. if x = JUndef \<or> x = JNull then [] else js_toString x) xs)"
| "js_toString (JObj ob) = ''[object Object]''"

text \<open>
  \<open>v == n\<close> for the small number whose text is \<open>n\<close>: the conversion \<open>str_num\<close> of a string to the text of a number
  is an argument; an array is first converted to a string.
\<close>

definition loosely_equals :: "(string \<Rightarrow> string option) \<Rightarrow> jsval \<Rightarrow> string \<Rightarrow> bool" where
  "loosely_equals str_num v n = (case v of JUndef \<Rightarrow> False | JNull \<Rightarrow> False
     | JBool b \<Rightarrow> n = (if b then ''1'' else ''0'') | JNum t \<Rightarrow> t = n
     | JStr s \<Rightarrow> str_num s = Some n | JArr _ \<Rightarrow> str_num (js_toString v) = Some n | JObj _ \<Rightarrow> False)"

record json_lib =
  json_parse :: "string \<Rightarrow> jsval option"
  string_number :: "string \<Rightarrow> string option"

definition is_version_1_0 :: "json_lib \<Rightarrow> jsval \<Rightarrow> bool" where
  "is_version_1_0 J b =
     (case js_get b ''version'' of None \<Rightarrow> False
      | Some v \<Rightarrow> js_truthy v
          \<and> (case js_get v ''major'' of None \<Rightarrow> False | Some m \<Rightarrow> loosely_equals (string_number J) m ''1'')
          \<and> (case js_get v ''minor'' of None \<Rightarrow> False | Some m \<Rightarrow> loosely_equals (string_number J) m ''0''))"

text \<open>The list of URLs: \<open>None\<close> when an exception is raised.\<close>

definition facet_urls :: "json_lib \<Rightarrow> jsval \<Rightarrow> jsval option" where
  "facet_urls J appIdData =
     (case appIdData of JArr _ \<Rightarrow> Some appIdData
      | _ \<Rightarrow>
        (case js_get appIdData ''trustedFacets'' of None \<Rightarrow> None
         | Some trustedFacets \<Rightarrow>
           (let urls = (if js_truthy trustedFacets
                        then (case js_items trustedFacets of None \<Rightarrow> JUndef
                          | Some bs \<Rightarrow> (case List.find (is_version_1_0 J) bs of None \<Rightarrow> JUndef
                              | Some b \<Rightarrow> (case js_get b ''ids'' of None \<Rightarrow> JUndef | Some ids \<Rightarrow> ids)))
                        else JUndef)
            in if urls = JUndef then None else Some urls)))"

definition getOriginsFromJson :: "json_lib \<Rightarrow> string \<Rightarrow> string list" where
  "getOriginsFromJson J txt =
     (case json_parse J txt of None \<Rightarrow> []
      | Some appIdData \<Rightarrow>
        (case facet_urls J appIdData of None \<Rightarrow> []
         | Some urls \<Rightarrow>
           (case js_items urls of None \<Rightarrow> []
            | Some us \<Rightarrow> js_keys (obj_of_strings (concat (map (\<lambda>u. case getOriginFromUrl (js_toString u) of
                 None \<Rightarrow> [] | Some o' \<Rightarrow> if o' = [] then [] else [o']) us)) []))))"

definition getDistinctAppIds :: "string list \<Rightarrow> string list" where
  "getDistinctAppIds appIds = js_keys (obj_of_strings (filter (\<lambda>a. a \<noteq> []) appIds) [])"

subsection \<open>Fetching\<close>

text \<open>
  The answers of the fetcher to the attempts for one app id, each with whether the timer has expired then;
  \<open>None\<close> as long as an attempt is out.
\<close>

datatype fetch_result = Fetched string | FetchFailed int

fun fetch_attempts :: "json_lib \<Rightarrow> (fetch_result \<times> bool) list \<Rightarrow> string list option" where
  "fetch_attempts J [] = None"
| "fetch_attempts J ((Fetched txt, timedout) # as) = Some (getOriginsFromJson J txt)"
| "fetch_attempts J ((FetchFailed rc, timedout) # as) =
     (if \<not> (rc \<ge> 400 \<and> rc < 500) \<and> \<not> timedout then fetch_attempts J as else Some [])"

definition fetchAllowedOriginsForAppId :: "json_lib \<Rightarrow> bool \<Rightarrow> string \<Rightarrow> (fetch_result \<times> bool) list \<Rightarrow> string list option" where
  "fetchAllowedOriginsForAppId J allowHttp appId answers =
     (if appId = [] then Some []
      else if take 7 appId = ''http://'' \<and> \<not> allowHttp then Some []
      else (case getOriginFromUrl appId of None \<Rightarrow> Some []
        | Some o' \<Rightarrow> fetch_attempts J answers))"

definition xhr_checkAppId :: "json_lib \<Rightarrow> bool \<Rightarrow> string \<Rightarrow> (string \<Rightarrow> (fetch_result \<times> bool) list) \<Rightarrow> string \<Rightarrow> bool option" where
  "xhr_checkAppId J allowHttp origin answers appId =
     (if appId = origin then Some True
      else map_option (\<lambda>allowedOrigins. origin \<in> set allowedOrigins)
             (fetchAllowedOriginsForAppId J allowHttp appId (answers appId)))"

definition promise_all :: "bool option list \<Rightarrow> bool option" where
  "promise_all rs = (if None \<in> set rs then None else Some (list_all (\<lambda>r. r = Some True) rs))"

text \<open>\<open>used\<close>: the checker was given a timer before.\<close>

definition checkAppIds :: "json_lib \<Rightarrow> bool \<Rightarrow> bool \<Rightarrow> string \<Rightarrow> (string \<Rightarrow> (fetch_result \<times> bool) list) \<Rightarrow> string list \<Rightarrow> bool option" where
  "checkAppIds J used allowHttp origin answers appIds =
     (if used then Some False
      else (let distinctAppIds = js_keys (obj_of_strings appIds []) in
        if distinctAppIds = [] then Some False
        else if list_all (\<lambda>a. a = origin) distinctAppIds then Some True
        else promise_all (map (xhr_checkAppId J allowHttp origin answers) distinctAppIds)))"

text \<open>The first answer that is not a failure to be retried, if it is a document.\<close>

fun final_document :: "(fetch_result \<times> bool) list \<Rightarrow> string option" where
  "final_document [] = None"
| "final_document ((Fetched txt, _) # as) = Some txt"
| "final_document ((FetchFailed rc, timedout) # as) =
     (if \<not> (rc \<ge> 400 \<and> rc < 500) \<and> \<not> timedout then final_document as else None)"

lemma attempts_document:
  "fetch_attempts J as = Some os \<Longrightarrow> o' \<in> set os \<longleftrightarrow> (\<exists>txt. final_document as = Some txt \<and> o' \<in> set (getOriginsFromJson J txt))"
  by (induction as rule: final_document.induct) (auto split: if_splits)

lemma document_attempts: "final_document as = Some txt \<Longrightarrow> fetch_attempts J as = Some (getOriginsFromJson J txt)"
  by (induction as rule: final_document.induct) (auto split: if_splits)

definition lists_origin :: "json_lib \<Rightarrow> bool \<Rightarrow> string \<Rightarrow> string \<Rightarrow> (fetch_result \<times> bool) list \<Rightarrow> bool" where
  "lists_origin J allowHttp origin appId answers \<longleftrightarrow> (take 7 appId = ''http://'' \<longrightarrow> allowHttp)
     \<and> getOriginFromUrl appId \<noteq> None
     \<and> (\<exists>txt. final_document answers = Some txt \<and> origin \<in> set (getOriginsFromJson J txt))"

lemma xhr_check_iff:
  "xhr_checkAppId J allowHttp origin answers a = Some True \<longleftrightarrow> a = origin \<or> lists_origin J allowHttp origin a (answers a)"
proof (cases "a = origin \<or> take 7 a = ''http://'' \<and> \<not> allowHttp \<or> getOriginFromUrl a = None")
  case True
  moreover have "getOriginFromUrl [] = None" by code_simp
  ultimately show ?thesis
    by (auto simp: xhr_checkAppId_def lists_origin_def fetchAllowedOriginsForAppId_def)
next
  case False
  then obtain o' where "getOriginFromUrl a = Some o'" by blast
  moreover have "getOriginFromUrl [] = None" by code_simp
  ultimately have "getOriginFromUrl a = Some o'" "a \<noteq> []" by auto
  with False have "xhr_checkAppId J allowHttp origin answers a = Some True
      \<longleftrightarrow> (\<exists>os. fetch_attempts J (answers a) = Some os \<and> origin \<in> set os)"
    by (auto simp: xhr_checkAppId_def fetchAllowedOriginsForAppId_def)
  also have "\<dots> \<longleftrightarrow> (\<exists>txt. final_document (answers a) = Some txt \<and> origin \<in> set (getOriginsFromJson J txt))"
    using attempts_document [of J "answers a"] document_attempts [of "answers a"] by blast
  also have "\<dots> \<longleftrightarrow> a = origin \<or> lists_origin J allowHttp origin a (answers a)"
    using False by (simp add: lists_origin_def)
  finally show ?thesis .
qed

lemma check_iff:
  "checkAppIds J False allowHttp origin answers appIds = Some True \<longleftrightarrow>
     appIds \<noteq> [] \<and> (\<forall>a \<in> set appIds. a = origin \<or> lists_origin J allowHttp origin a (answers a))"
proof -
  define d where "d = js_keys (obj_of_strings appIds [])"
  have s: "set d = set appIds" by (simp add: d_def)
  then have e: "d = [] \<longleftrightarrow> appIds = []" by (metis set_empty)
  have p: "promise_all (map (xhr_checkAppId J allowHttp origin answers) d) = Some True
      \<longleftrightarrow> (\<forall>a \<in> set d. xhr_checkAppId J allowHttp origin answers a = Some True)"
    by (force simp: promise_all_def list_all_iff image_iff)
  show ?thesis
    unfolding checkAppIds_def d_def [symmetric] Let_def
    using p s e by (auto simp: xhr_check_iff list_all_iff)
qed

text \<open>
  C30. The app id check of a fresh checker succeeds exactly when there is an app id and each is the origin itself or,
  not being an http URL that is not allowed, a URL whose document arrived and lists the origin.
\<close>

theorem appid_check_iff:
  "checkAppIds J False allowHttp origin answers appIds = Some True \<longleftrightarrow>
     appIds \<noteq> [] \<and> (\<forall>a \<in> set appIds. a = origin \<or> lists_origin J allowHttp origin a (answers a))"
  by (rule check_iff)

text \<open>
  C31. The check always comes to an end: when for each app id some attempt succeeds, fails with a client error or
  fails after the timer expired, the check has a result.
\<close>

definition settles :: "(fetch_result \<times> bool) list \<Rightarrow> bool" where
  "settles as \<longleftrightarrow> list_ex (\<lambda>(r, timedout). case r of Fetched _ \<Rightarrow> True | FetchFailed rc \<Rightarrow> 400 \<le> rc \<and> rc < 500 \<or> timedout) as"

lemma attempts_settle: "settles as \<Longrightarrow> fetch_attempts J as \<noteq> None"
  unfolding settles_def by (induction J as rule: fetch_attempts.induct) auto

theorem appid_check_ends:
  assumes "\<And>a. a \<in> set appIds \<Longrightarrow> settles (answers a)"
  shows "checkAppIds J used allowHttp origin answers appIds \<noteq> None"
proof -
  have "xhr_checkAppId J allowHttp origin answers a \<noteq> None" if "a \<in> set appIds" for a
    using attempts_settle [OF assms [OF that], of J]
    by (auto simp: xhr_checkAppId_def fetchAllowedOriginsForAppId_def split: option.split)
  then have "None \<notin> set (map (xhr_checkAppId J allowHttp origin answers) (js_keys (obj_of_strings appIds [])))"
    by (force simp: image_iff)
  then show ?thesis by (auto simp: checkAppIds_def promise_all_def Let_def)
qed

definition facets_lib :: json_lib where
  "facets_lib = \<lparr>json_parse = (\<lambda>t. if t = ''doc'' then Some (JObj [(''trustedFacets'', JArr [JObj
      [(''version'', JObj [(''major'', JNum ''1''), (''minor'', JNum ''0'')]), (''ids'', JArr [JStr ''https://www.a.com''])]])])
      else None), string_number = (\<lambda>_. None)\<rparr>"

theorem appid_check_iff_witness:
  "checkAppIds facets_lib False False ''https://www.a.com'' (\<lambda>_. [(FetchFailed 500, False), (Fetched ''doc'', False)]) [''https://a.com/f''] = Some True"
proof -
  let ?as = "[(FetchFailed 500, False), (Fetched ''doc'', False)]"
  have "lists_origin facets_lib False ''https://www.a.com'' ''https://a.com/f'' ?as"
  proof -
    have "final_document ?as = Some ''doc''" by simp
    moreover have "''https://www.a.com'' \<in> set (getOriginsFromJson facets_lib ''doc'')" by code_simp
    moreover have "getOriginFromUrl ''https://a.com/f'' \<noteq> None" by code_simp
    ultimately show ?thesis by (auto simp: lists_origin_def)
  qed
  then show ?thesis by (subst appid_check_iff) simp
qed

theorem appid_check_ends_witness:
  "checkAppIds facets_lib False False ''https://b.com'' (\<lambda>_. [(FetchFailed 500, True)]) [''https://a.com/f''] \<noteq> None"
  by (rule appid_check_ends) (simp add: settles_def)

end
