(* ===== verification/MultipleSigner.thy ===== *)
theory MultipleSigner
  imports SingleSigner
begin

text \<open>
  multiplesigner.js: signing on every token that is or becomes present. A token's signer is an object of
  singlesigner.js, here one end of a conversation: \<open>ms_out\<close> lists what is asked of it (a new signer with
  \<open>doSign\<close>, and \<open>close\<close>), and its completion is an event. A signer may also complete before its \<open>doSign\<close>
  returns, when its open fails at once; an enumerated device therefore carries the result of such a
  completion, and what \<open>doSign\<close> returned. Trackers are keyed by the device id, whose JSON the code uses.
\<close>

text \<open>A challenge of a helper request: base64 strings.\<close>

record helper_challenge =
  hc_challengeHash :: string
  hc_appIdHash :: string
  hc_keyHandle :: string
  hc_version :: "string option"

definition decode_challenge :: "helper_challenge \<Rightarrow> sign_challenge" where
  "decode_challenge c =
     \<lparr>sc_challengeHash = B64_decode (hc_challengeHash c), sc_appIdHash = B64_decode (hc_appIdHash c),
      sc_keyHandle = B64_decode (hc_keyHandle c),
      sc_version = (case hc_version c of Some v \<Rightarrow> if v = [] then None else Some v | None \<Rightarrow> None)\<rparr>"

type_synonym device_id = "string \<times> nat"

record tracker =
  tr_stillGoing :: bool
  tr_errorStatus :: int

datatype ms_effect =
    Enumerate
  | NewSigner device_id "sign_challenge list"
  | CloseSigner device_id
  | GnubbyComplete device_id signer_result bool
  | AllComplete bool

record multi_signer =
  ms_forEnroll :: bool
  ms_challenges :: "sign_challenge list"
  ms_challengesSet :: bool
  ms_complete :: bool
  ms_numComplete :: nat
  ms_trackers :: "(device_id \<times> tracker) list"
  ms_sys :: systimer
  ms_timer :: "unit countdown"
  ms_reenumerateTimer :: "unit countdown"
  ms_intervals :: "unit countdown list"
  ms_out :: "ms_effect list"

text \<open>
  The interval timers: each call of \<open>maybeReEnumerateGnubbies_\<close> makes one and keeps it as
  \<open>reenumerateIntervalTimer_\<close>, the last of the list; those before it go on running.
\<close>

definition MultipleGnubbySigner :: "systimer \<Rightarrow> bool \<Rightarrow> rat \<Rightarrow> multi_signer" where
  "MultipleGnubbySigner sys forEnroll timeoutMillis =
     (let (sys1, t1) = createTimer sys timeoutMillis None; (sys2, t2) = createTimer sys1 timeoutMillis None in
      \<lparr>ms_forEnroll = forEnroll, ms_challenges = [], ms_challengesSet = False, ms_complete = False, ms_numComplete = 0,
       ms_trackers = [], ms_sys = sys2, ms_timer = t1, ms_reenumerateTimer = t2, ms_intervals = [], ms_out = []\<rparr>)"

definition ms_emit :: "ms_effect \<Rightarrow> multi_signer \<Rightarrow> multi_signer" where
  "ms_emit e m = m\<lparr>ms_out := ms_out m @ [e]\<rparr>"

definition clear_interval :: "multi_signer \<Rightarrow> multi_signer" where
  "clear_interval m =
     (if ms_intervals m = [] then m
      else (let (sys', t) = cd_clearTimeout (ms_sys m) (last (ms_intervals m))
            in m\<lparr>ms_sys := sys', ms_intervals := butlast (ms_intervals m) @ [t]\<rparr>))"

definition ms_close :: "multi_signer \<Rightarrow> multi_signer" where
  "ms_close m =
     (let m1 = fold (\<lambda>k. ms_emit (CloseSigner k)) (map fst (ms_trackers m)) m;
          (sys1, t1) = cd_clearTimeout (ms_sys m1) (ms_reenumerateTimer m1);
          (sys2, t2) = cd_clearTimeout sys1 (ms_timer m1)
      in clear_interval (m1\<lparr>ms_sys := sys2, ms_reenumerateTimer := t1, ms_timer := t2\<rparr>))"

definition enumerateGnubbies :: "multi_signer \<Rightarrow> multi_signer" where
  "enumerateGnubbies m = ms_emit Enumerate m"

definition ms_doSign :: "helper_challenge list \<Rightarrow> multi_signer \<Rightarrow> multi_signer \<times> bool" where
  "ms_doSign challenges m =
     (if ms_challengesSet m then (m, False)
      else (enumerateGnubbies (m\<lparr>ms_challenges := ms_challenges m @ map decode_challenge challenges,
             ms_challengesSet := True\<rparr>), True))"

definition anyPending :: "multi_signer \<Rightarrow> bool" where
  "anyPending m \<longleftrightarrow> ms_numComplete m < length (ms_trackers m)"

definition ms_timeout :: "bool \<Rightarrow> multi_signer \<Rightarrow> multi_signer" where
  "ms_timeout pending m =
     (if ms_complete m then m else ms_emit (AllComplete pending) (m\<lparr>ms_complete := True\<rparr>))"

definition ACTIVE_REENUMERATE_INTERVAL_MILLIS :: rat where
  "ACTIVE_REENUMERATE_INTERVAL_MILLIS = 200"

definition PASSIVE_REENUMERATE_INTERVAL_MILLIS :: rat where
  "PASSIVE_REENUMERATE_INTERVAL_MILLIS = 3000"

definition maybeReEnumerate :: "bool \<Rightarrow> multi_signer \<Rightarrow> multi_signer" where
  "maybeReEnumerate activeScan m =
     (if expired (ms_reenumerateTimer m)
      then (if \<not> anyPending m then ms_timeout False m else m)
      else (let ms = (if activeScan then ACTIVE_REENUMERATE_INTERVAL_MILLIS else PASSIVE_REENUMERATE_INTERVAL_MILLIS);
                left = millisecondsUntilExpired (ms_reenumerateTimer m);
                (sys', t) = createTimer (ms_sys m) (if ms > left then left else ms) (Some ())
            in m\<lparr>ms_sys := sys', ms_intervals := ms_intervals m @ [t]\<rparr>))"

definition reScanDevices :: "multi_signer \<Rightarrow> multi_signer" where
  "reScanDevices m = maybeReEnumerate True (clear_interval m)"

definition tallyCompletedGnubby :: "multi_signer \<Rightarrow> multi_signer \<times> bool" where
  "tallyCompletedGnubby m = (let m1 = m\<lparr>ms_numComplete := ms_numComplete m + 1\<rparr> in (m1, anyPending m1))"

text \<open>\<open>None\<close>: there is no tracker for the device.\<close>

definition signCompleted :: "device_id \<Rightarrow> signer_result \<Rightarrow> multi_signer \<Rightarrow> multi_signer" where
  "signCompleted k r m =
     (case map_of (ms_trackers m) k of None \<Rightarrow> m
      | Some t \<Rightarrow>
        (if \<not> tr_stillGoing t then m
         else (let m1 = m\<lparr>ms_trackers := AList.update k \<lparr>tr_stillGoing = False, tr_errorStatus = sr_code r\<rparr> (ms_trackers m)\<rparr>;
                   (m2, moreExpected) = tallyCompletedGnubby m1;
                   m3 = (if sr_code r = GONE_STATUS
                         then (if \<not> moreExpected then maybeReEnumerate True m2 else m2)
                         else ms_emit (GnubbyComplete k r moreExpected) m2)
               in if \<not> moreExpected \<and> expired (ms_timer m3) then ms_timeout False m3 else m3)))"

text \<open>A device of an enumeration, the completion during \<open>doSign\<close> if there is one, and what \<open>doSign\<close> returns.\<close>

definition addGnubby :: "device_id \<Rightarrow> signer_result option \<Rightarrow> bool \<Rightarrow> multi_signer \<Rightarrow> multi_signer" where
  "addGnubby k at_once accepted m =
     (if map_of (ms_trackers m) k \<noteq> None then m
      else (let m1 = ms_emit (NewSigner k (ms_challenges m))
                  (m\<lparr>ms_trackers := AList.update k \<lparr>tr_stillGoing = False, tr_errorStatus = 0\<rparr> (ms_trackers m)\<rparr>);
                m2 = (case at_once of Some r \<Rightarrow> signCompleted k r m1 | None \<Rightarrow> m1)
            in m2\<lparr>ms_trackers := map (\<lambda>(k', t). (k', if k' = k then t\<lparr>tr_stillGoing := accepted\<rparr> else t)) (ms_trackers m2)\<rparr>))"

definition enumerateCallback :: "int \<Rightarrow> (device_id \<times> signer_result option \<times> bool) list \<Rightarrow> multi_signer \<Rightarrow> multi_signer" where
  "enumerateCallback rc ids m =
     (if ms_complete m then m
      else if rc \<noteq> 0 \<or> ids = [] then maybeReEnumerate True m
      else maybeReEnumerate False (fold (\<lambda>(k, r, b). addGnubby k r b) ids m))"

text \<open>The timers fire: the two of the constructor have no callback, an interval timer enumerates again.\<close>

datatype ms_event =
    MsDoSign "helper_challenge list"
  | MsEnumerated int "(device_id \<times> signer_result option \<times> bool) list"
  | MsCompleted device_id signer_result
  | MsRescan
  | MsClose
  | MsTick
  | MsReenumerateTick
  | MsInterval nat

fun ms_step :: "ms_event \<Rightarrow> multi_signer \<Rightarrow> multi_signer" where
  "ms_step (MsDoSign cs) m = fst (ms_doSign cs m)"
| "ms_step (MsEnumerated rc ids) m = enumerateCallback rc ids m"
| "ms_step (MsCompleted k r) m = signCompleted k r m"
| "ms_step MsRescan m = reScanDevices m"
| "ms_step MsClose m = ms_close m"
| "ms_step MsTick m =
     (let (sys', t, cs) = cd_fire (ms_sys m) (ms_timer m) in m\<lparr>ms_sys := sys', ms_timer := t\<rparr>)"
| "ms_step MsReenumerateTick m =
     (let (sys', t, cs) = cd_fire (ms_sys m) (ms_reenumerateTimer m) in m\<lparr>ms_sys := sys', ms_reenumerateTimer := t\<rparr>)"
| "ms_step (MsInterval i) m =
     (if i < length (ms_intervals m)
      then (let (sys', t, cs) = cd_fire (ms_sys m) (ms_intervals m ! i);
                m1 = m\<lparr>ms_sys := sys', ms_intervals := (ms_intervals m)[i := t]\<rparr>
            in if cs = [] then m1 else enumerateGnubbies m1)
      else m)"

subsection \<open>What is reported\<close>

definition all_completes :: "multi_signer \<Rightarrow> nat" where
  "all_completes m = length (filter (\<lambda>e. case e of AllComplete b \<Rightarrow> True | _ \<Rightarrow> False) (ms_out m))"

definition device_completes :: "device_id \<Rightarrow> multi_signer \<Rightarrow> nat" where
  "device_completes k m = length (filter (\<lambda>e. case e of GnubbyComplete k' r b \<Rightarrow> k' = k | _ \<Rightarrow> False) (ms_out m))"

definition going :: "multi_signer \<Rightarrow> nat" where
  "going m = asum (\<lambda>t. if tr_stillGoing t then 1 else 0) (ms_trackers m)"

text \<open>
  The invariant: trackers are counted at most once, each has reported at most once and none while it is
  going, and the end was announced exactly when \<open>complete_\<close> is set.
\<close>

definition ms_inv :: "multi_signer \<Rightarrow> bool" where
  "ms_inv m \<longleftrightarrow> distinct (map fst (ms_trackers m)) \<and> ms_numComplete m + going m \<le> length (ms_trackers m)
     \<and> (\<forall>k. device_completes k m \<le> (case map_of (ms_trackers m) k of None \<Rightarrow> 0
           | Some t \<Rightarrow> if tr_stillGoing t then 0 else 1))
     \<and> all_completes m = (if ms_complete m then 1 else 0)"

lemma ms_emit_simps [simp]:
  "ms_complete (ms_emit e m) = ms_complete m" "ms_trackers (ms_emit e m) = ms_trackers m"
  "ms_numComplete (ms_emit e m) = ms_numComplete m" "going (ms_emit e m) = going m"
  "all_completes (ms_emit e m) = all_completes m + (case e of AllComplete b \<Rightarrow> 1 | _ \<Rightarrow> 0)"
  "device_completes k (ms_emit e m) = device_completes k m + (case e of GnubbyComplete k' r b \<Rightarrow> if k' = k then 1 else 0 | _ \<Rightarrow> 0)"
  "ms_timer (ms_emit e m) = ms_timer m"
  by (auto simp: ms_emit_def all_completes_def device_completes_def going_def split: ms_effect.split)

declare split_paired_All [simp del]

lemma inv_device:
  "ms_inv m \<Longrightarrow> device_completes k m \<le> (case map_of (ms_trackers m) k of None \<Rightarrow> 0
     | Some t \<Rightarrow> if tr_stillGoing t then 0 else 1)"
  unfolding ms_inv_def by blast

lemma inv_frame:
  "ms_trackers m' = ms_trackers m \<Longrightarrow> ms_numComplete m' = ms_numComplete m \<Longrightarrow> ms_complete m' = ms_complete m
     \<Longrightarrow> ms_out m' = ms_out m \<Longrightarrow> ms_inv m \<Longrightarrow> ms_inv m'"
  by (simp add: ms_inv_def going_def device_completes_def all_completes_def)

lemma inv_emit:
  "ms_inv m \<Longrightarrow> (\<And>k r b. e \<noteq> GnubbyComplete k r b) \<Longrightarrow> (\<And>b. e \<noteq> AllComplete b) \<Longrightarrow> ms_inv (ms_emit e m)"
  by (cases e) (auto simp: ms_inv_def)

lemma inv_timeout: "ms_inv m \<Longrightarrow> ms_inv (ms_timeout b m)"
  by (auto simp: ms_timeout_def ms_inv_def going_def) (auto simp: device_completes_def all_completes_def)

lemma inv_maybe: "ms_inv m \<Longrightarrow> ms_inv (maybeReEnumerate b m)"
  by (auto simp: maybeReEnumerate_def Let_def inv_timeout split: prod.split intro: inv_frame [of _ m])

lemma inv_clear: "ms_inv m \<Longrightarrow> ms_inv (clear_interval m)"
  by (rule inv_frame [of _ m]) (auto simp: clear_interval_def Let_def split: prod.split)

lemma update_existing:
  "map_of t k = Some v \<Longrightarrow> map fst (AList.update k w t) = map fst t"
  by (induction t) (auto split: if_splits)

definition tally :: "device_id \<Rightarrow> int \<Rightarrow> multi_signer \<Rightarrow> multi_signer" where
  "tally k code m = m\<lparr>ms_trackers := AList.update k \<lparr>tr_stillGoing = False, tr_errorStatus = code\<rparr> (ms_trackers m),
     ms_numComplete := ms_numComplete m + 1\<rparr>"

text \<open>After the tally of \<open>k\<close> there is room for one report about it.\<close>

lemma inv_tally:
  assumes "ms_inv m" "map_of (ms_trackers m) k = Some t" "tr_stillGoing t"
  shows "ms_inv (tally k code m)" "device_completes k (tally k code m) = 0"
    "map_of (ms_trackers (tally k code m)) k = Some \<lparr>tr_stillGoing = False, tr_errorStatus = code\<rparr>"
    "\<not> anyPending (tally k code m) \<Longrightarrow> going (tally k code m) = 0"
proof -
  have d: "device_completes k' (tally k code m) = device_completes k' m" for k'
    by (simp add: tally_def device_completes_def)
  have keys: "map fst (ms_trackers (tally k code m)) = map fst (ms_trackers m)"
    by (simp add: tally_def update_existing [OF assms(2)])
  then have len: "length (ms_trackers (tally k code m)) = length (ms_trackers m)"
    by (metis length_map)
  have g: "going (tally k code m) + 1 = going m"
    using asum_update [of "ms_trackers m" "\<lambda>t. if tr_stillGoing t then 1 else 0" k "\<lparr>tr_stillGoing = False, tr_errorStatus = code\<rparr>"]
      assms by (simp add: going_def tally_def ms_inv_def)
  have "device_completes k' m \<le> (case map_of (ms_trackers m) k' of None \<Rightarrow> 0 | Some t \<Rightarrow> if tr_stillGoing t then 0 else 1)" for k'
    using assms(1) by (rule inv_device)
  note this [of k] this
  then show i: "ms_inv (tally k code m)"
    using assms d keys len g unfolding ms_inv_def
    by (auto simp: tally_def update_conv' all_completes_def split: option.splits)
  show "device_completes k (tally k code m) = 0"
    using inv_device [OF assms(1), of k] assms d by simp
  show "map_of (ms_trackers (tally k code m)) k = Some \<lparr>tr_stillGoing = False, tr_errorStatus = code\<rparr>"
    by (simp add: tally_def update_conv')
  show "\<not> anyPending (tally k code m) \<Longrightarrow> going (tally k code m) = 0"
    using i by (simp add: ms_inv_def anyPending_def)
qed

definition finish :: "device_id \<Rightarrow> signer_result \<Rightarrow> multi_signer \<Rightarrow> multi_signer" where
  "finish k r m2 =
     (let m3 = (if sr_code r = GONE_STATUS then (if \<not> anyPending m2 then maybeReEnumerate True m2 else m2)
                else ms_emit (GnubbyComplete k r (anyPending m2)) m2)
      in if \<not> anyPending m2 \<and> expired (ms_timer m3) then ms_timeout False m3 else m3)"

lemma signCompleted_tally:
  "map_of (ms_trackers m) k = Some t \<Longrightarrow> tr_stillGoing t \<Longrightarrow> signCompleted k r m = finish k r (tally k (sr_code r) m)"
  by (simp add: signCompleted_def tallyCompletedGnubby_def tally_def finish_def Let_def)

lemma inv_finish:
  "ms_inv m2 \<Longrightarrow> (\<And>b. ms_inv (ms_emit (GnubbyComplete k r b) m2)) \<Longrightarrow> ms_inv (finish k r m2)"
  by (auto simp: finish_def Let_def intro!: inv_timeout inv_maybe)

lemma finish_pending:
  "anyPending m2 \<Longrightarrow> finish k r m2 = (if sr_code r = GONE_STATUS then m2 else ms_emit (GnubbyComplete k r True) m2)"
  by (simp add: finish_def Let_def)

lemma inv_report:
  assumes "ms_inv m" "device_completes k m = 0" "map_of (ms_trackers m) k = Some t" "\<not> tr_stillGoing t"
  shows "ms_inv (ms_emit (GnubbyComplete k r b) m)"
proof -
  have "device_completes k' (ms_emit (GnubbyComplete k r b) m)
      \<le> (case map_of (ms_trackers m) k' of None \<Rightarrow> 0 | Some t \<Rightarrow> if tr_stillGoing t then 0 else 1)" for k'
    using assms inv_device [OF assms(1), of k'] by (cases "k' = k") auto
  with assms(1) show ?thesis by (simp add: ms_inv_def)
qed

lemma ms_inv_completed: "ms_inv m \<Longrightarrow> ms_inv (signCompleted k r m)"
proof (cases "map_of (ms_trackers m) k")
  case (Some t)
  assume i: "ms_inv m"
  show ?thesis
  proof (cases "tr_stillGoing t")
    case True
    note t = inv_tally [OF i Some True, of "sr_code r"]
    have "ms_inv (ms_emit (GnubbyComplete k r b) (tally k (sr_code r) m))" for b
      by (rule inv_report [OF t(1-3)]) simp
    with t(1) show ?thesis
      by (simp only: signCompleted_tally [OF Some True]) (rule inv_finish)
  qed (simp add: signCompleted_def Some i)
qed (simp add: signCompleted_def)

lemma map_of_new: "map_of t k = None \<Longrightarrow> AList.update k v t = t @ [(k, v)]"
  by (induction t) (auto split: if_splits)

lemma addGnubby_eq:
  "addGnubby k r b m = (if map_of (ms_trackers m) k \<noteq> None then m
     else ms_emit (NewSigner k (ms_challenges m))
        (m\<lparr>ms_trackers := ms_trackers m @ [(k, \<lparr>tr_stillGoing = b, tr_errorStatus = 0\<rparr>)]\<rparr>))"
proof (cases "map_of (ms_trackers m) k")
  case None
  then have "k \<notin> fst ` set (ms_trackers m)" by (simp add: map_of_eq_None_iff)
  then have "map (\<lambda>(k', t). (k', if k' = k then t\<lparr>tr_stillGoing := b\<rparr> else t)) (ms_trackers m) = ms_trackers m"
    by (intro map_idI) force
  then show ?thesis
    using None unfolding addGnubby_def Let_def
    by (cases r) (simp_all add: map_of_new signCompleted_def ms_emit_def map_add_def)
qed (simp add: addGnubby_def)

lemma inv_add: "ms_inv m \<Longrightarrow> ms_inv (addGnubby k r b m)"
proof -
  assume i: "ms_inv m"
  let ?m' = "m\<lparr>ms_trackers := ms_trackers m @ [(k, \<lparr>tr_stillGoing = b, tr_errorStatus = 0\<rparr>)]\<rparr>"
  have "ms_inv ?m'" if "map_of (ms_trackers m) k = None"
  proof -
    have "device_completes k' ?m' \<le> (case map_of (ms_trackers ?m') k' of None \<Rightarrow> 0 | Some t \<Rightarrow> if tr_stillGoing t then 0 else 1)" for k'
      using inv_device [OF i, of k'] that
      by (auto simp: device_completes_def map_add_def split: option.splits)
    moreover have "going ?m' \<le> going m + 1" by (simp add: going_def asum_def)
    moreover have "k \<notin> fst ` set (ms_trackers m)" using that by (simp add: map_of_eq_None_iff)
    ultimately show ?thesis using i unfolding ms_inv_def by (auto simp: all_completes_def)
  qed
  with i show ?thesis by (auto simp: addGnubby_eq intro: inv_emit)
qed

lemma inv_event: "ms_inv m \<Longrightarrow> ms_inv (ms_step e m)"
proof (cases e)
  case (MsEnumerated rc ids)
  assume i: "ms_inv m"
  then have "ms_inv (fold (\<lambda>(k, r, b). addGnubby k r b) ids m)"
    by (rule fold_invariant [where Q = "\<lambda>_. True", rotated]) (auto simp: inv_add)
  with i show ?thesis using MsEnumerated by (auto simp: enumerateCallback_def intro: inv_maybe)
next
  case MsClose
  assume "ms_inv m"
  then have "ms_inv (fold (\<lambda>k. ms_emit (CloseSigner k)) (map fst (ms_trackers m)) m)"
    by (rule fold_invariant [where Q = "\<lambda>_. True", rotated]) (auto intro: inv_emit)
  then show ?thesis
    using MsClose by (auto simp: ms_close_def Let_def split: prod.split intro!: inv_clear intro: inv_frame)
qed (auto simp: ms_doSign_def enumerateGnubbies_def ms_inv_completed reScanDevices_def Let_def split: prod.split
    intro!: inv_maybe inv_clear inv_emit intro: inv_frame [of _ m])

lemma going_frame [simp]:
  "going (ms_timeout b m) = going m" "going (maybeReEnumerate b m) = going m"
proof -
  show t: "going (ms_timeout b m) = going m" for b m by (simp add: ms_timeout_def going_def)
  show "going (maybeReEnumerate b m) = going m"
    by (auto simp: maybeReEnumerate_def t Let_def split: prod.split) (simp_all add: going_def)
qed

lemma going_finish: "going (finish k r m2) = going m2"
  by (simp add: finish_def Let_def)

lemma completed_hint:
  assumes i: "ms_inv m"
    and "(\<exists>es'. ms_out (signCompleted k r m) = ms_out m @ GnubbyComplete k r False # es')
      \<or> (\<not> ms_complete m \<and> ms_complete (signCompleted k r m))"
  shows "going (signCompleted k r m) = 0"
proof -
  obtain t where t: "map_of (ms_trackers m) k = Some t" "tr_stillGoing t"
    using assms(2) by (auto simp: signCompleted_def split: option.splits if_splits)
  let ?m2 = "tally k (sr_code r) m"
  show ?thesis
  proof (cases "anyPending ?m2")
    case True
    then have "signCompleted k r m = (if sr_code r = GONE_STATUS then ?m2 else ms_emit (GnubbyComplete k r True) ?m2)"
      by (simp only: signCompleted_tally [OF t] finish_pending)
    then have False using assms(2) by (auto simp: tally_def ms_emit_def split: if_splits)
    then show ?thesis ..
  next
    case False
    then have "going ?m2 = 0" by (rule inv_tally(4) [OF i t])
    then show ?thesis by (simp only: signCompleted_tally [OF t] going_finish)
  qed
qed


definition ms_example :: multi_signer where
  "ms_example = fold ms_step [MsDoSign [], MsEnumerated 0 [((''hid'', 1), None, True)]]
     (MultipleGnubbySigner \<lparr>sys_last = 0, sys_armed = []\<rparr> False 1000)"


text \<open>
  A signer that completes before its \<open>doSign\<close> returns is not going yet, so its result is dropped; then it is
  marked as going. It is never counted, and with it the end is not announced when all timers have run out.
\<close>

theorem completion_lost:
  "(let m = fold ms_step [MsDoSign [], MsEnumerated 0
        [((''hid'', 1), Some \<lparr>sr_code = -512, sr_gnubby = None, sr_challenge = None, sr_info = None\<rparr>, True)],
        MsTick, MsReenumerateTick, MsInterval 0, MsEnumerated 0 [((''hid'', 1), None, True)]]
      (MultipleGnubbySigner \<lparr>sys_last = 0, sys_armed = []\<rparr> False 100)
    in expired (ms_timer m) \<and> expired (ms_reenumerateTimer m) \<and> \<not> ms_complete m \<and> anyPending m)"
  by code_simp

end
