(* ===== verification/Sha256.thy ===== *)
theory Sha256
  imports B64
begin

unbundle bit_operations_syntax

text \<open>
  sha256.js: the incremental SHA-256 hasher. The code computes on JavaScript numbers: every
  word of a round is cut to 32 bits by \<open>& 0xffffffff\<close>, but the chaining values only
  accumulate (\<open>this._chain[0] += A\<close>) and are never cut. They are \<open>int\<close>s here. The
  specification \<open>sha256_spec\<close> is FIPS 180-4 on 32-bit words; \<open>absorbed\<close> relates a hasher to
  the bytes it was given.
\<close>

subsection \<open>The hasher\<close>

record sha256 =
  sha_buf :: bytes
  sha_inbuf :: nat
  sha_total :: int
  sha_chain :: "int list"

text \<open>The sixty-four round constants of the code, in decimal, four to a row as there.\<close>

definition sha_k :: "int list" where
  "sha_k = [
   1116352408, 1899447441, 3049323471, 3921009573,
   961987163, 1508970993, 2453635748, 2870763221,
   3624381080, 310598401, 607225278, 1426881987,
   1925078388, 2162078206, 2614888103, 3248222580,
   3835390401, 4022224774, 264347078, 604807628,
   770255983, 1249150122, 1555081692, 1996064986,
   2554220882, 2821834349, 2952996808, 3210313671,
   3336571891, 3584528711, 113926993, 338241895,
   666307205, 773529912, 1294757372, 1396182291,
   1695183700, 1986661051, 2177026350, 2456956037,
   2730485921, 2820302411, 3259730800, 3345764771,
   3516065817, 3600352804, 4094571909, 275423344,
   430227734, 506948616, 659060556, 883997877,
   958139571, 1322822218, 1537002063, 1747873779,
   1955562222, 2024104815, 2227730452, 2361852424,
   2428436474, 2756734187, 3204031479, 3329325298]"

definition sha_pad :: bytes where
  "sha_pad = 0x80 # replicate 63 0"

definition sha_iv :: "int list" where
  "sha_iv = [
    0x6a09e667, 0xbb67ae85, 0x3c6ef372, 0xa54ff53a,
    0x510e527f, 0x9b05688c, 0x1f83d9ab, 0x5be0cd19]"

definition sha_reset :: "sha256 \<Rightarrow> sha256" where
  "sha_reset st = st\<lparr>sha_chain := sha_iv, sha_inbuf := 0, sha_total := 0\<rparr>"

text \<open>The 64 cells of a new buffer are \<open>undefined\<close>, which the shifts read as 0.\<close>

definition SHA256 :: sha256 where
  "SHA256 = sha_reset
     \<lparr>sha_buf = replicate 64 0, sha_inbuf = 0, sha_total = 0, sha_chain = []\<rparr>"

definition rotr :: "int \<Rightarrow> nat \<Rightarrow> int" where
  "rotr w r = js_or (js_shl w (32 - r)) (js_ushr w r)"

definition be_word :: "bytes \<Rightarrow> nat \<Rightarrow> int" where
  "be_word buf i =
     js_or (js_or (js_or (js_shl (uint (buf ! i)) 24) (js_shl (uint (buf ! (i + 1))) 16))
       (js_shl (uint (buf ! (i + 2))) 8)) (uint (buf ! (i + 3)))"

text \<open>One turn of the loop that expands to 64 words: \<open>W[i]\<close>, for \<open>i = length W\<close>.\<close>

definition expand1 :: "int list \<Rightarrow> int list" where
  "expand1 W =
     (let i = length W;
          s0 = js_xor (js_xor (rotr (W ! (i - 15)) 7) (rotr (W ! (i - 15)) 18)) (js_ushr (W ! (i - 15)) 3);
          s1 = js_xor (js_xor (rotr (W ! (i - 2)) 17) (rotr (W ! (i - 2)) 19)) (js_ushr (W ! (i - 2)) 10)
      in W @ [js_and (W ! (i - 16) + s0 + W ! (i - 7) + s1) 0xffffffff])"

definition schedule :: "bytes \<Rightarrow> int list" where
  "schedule buf = (expand1 ^^ 48) (map (\<lambda>i. be_word buf (4 * i)) [0..<16])"

type_synonym 'a regs = "'a \<times> 'a \<times> 'a \<times> 'a \<times> 'a \<times> 'a \<times> 'a \<times> 'a"

fun sha_round :: "int \<times> int \<Rightarrow> int regs \<Rightarrow> int regs" where
  "sha_round (k, w) (A, B, C, D, E, F, G, H) =
     (let S0 = js_xor (js_xor (rotr A 2) (rotr A 13)) (rotr A 22);
          maj = js_xor (js_xor (js_and A B) (js_and A C)) (js_and B C);
          t2 = js_and (S0 + maj) 0xffffffff;
          S1 = js_xor (js_xor (rotr E 6) (rotr E 11)) (rotr E 25);
          ch = js_xor (js_and E F) (js_and (js_not E) G);
          t1 = js_and (H + S1 + ch + k + w) 0xffffffff
      in (js_and (t1 + t2) 0xffffffff, A, B, C, js_and (D + t1) 0xffffffff, E, F, G))"

fun regs_of :: "'a list \<Rightarrow> 'a regs" where
  "regs_of c = (c ! 0, c ! 1, c ! 2, c ! 3, c ! 4, c ! 5, c ! 6, c ! 7)"

fun regs_list :: "'a regs \<Rightarrow> 'a list" where
  "regs_list (A, B, C, D, E, F, G, H) = [A, B, C, D, E, F, G, H]"

definition sha_compress :: "bytes \<Rightarrow> int list \<Rightarrow> int list" where
  "sha_compress buf chain =
     map2 (+) chain (regs_list (fold sha_round (zip sha_k (schedule buf)) (regs_of chain)))"

text \<open>The body of the loops of \<open>update\<close> and \<open>updateRange\<close>.\<close>

definition sha_put :: "byte \<Rightarrow> sha256 \<Rightarrow> sha256" where
  "sha_put b st =
     (let st' = st\<lparr>sha_buf := (sha_buf st)[sha_inbuf st := b], sha_inbuf := sha_inbuf st + 1\<rparr>
      in if sha_inbuf st' = 64
         then st'\<lparr>sha_chain := sha_compress (sha_buf st') (sha_chain st'), sha_inbuf := 0\<rparr>
         else st')"

text \<open>\<open>if (!opt_length) opt_length = bytes.length\<close>: 0 counts as absent.\<close>

definition sha_update :: "sha256 \<Rightarrow> bytes \<Rightarrow> nat option \<Rightarrow> sha256" where
  "sha_update st bytes opt_length =
     (let n = (case opt_length of None \<Rightarrow> length bytes
               | Some l \<Rightarrow> if l = 0 then length bytes else l)
      in fold (\<lambda>i. sha_put (byte_at bytes i)) [0..<n] (st\<lparr>sha_total := sha_total st + int n\<rparr>))"

definition sha_updateRange :: "sha256 \<Rightarrow> bytes \<Rightarrow> nat \<Rightarrow> nat \<Rightarrow> sha256" where
  "sha_updateRange st bytes start e =
     fold (\<lambda>i. sha_put (byte_at bytes i)) [start..<e]
       (st\<lparr>sha_total := sha_total st + (int e - int start)\<rparr>)"

text \<open>The loop that stores the bit count from \<open>_buf[63]\<close> down to \<open>_buf[56]\<close>.\<close>

fun store_bits :: "nat \<Rightarrow> int \<Rightarrow> bytes \<Rightarrow> bytes" where
  "store_bits 0 totalBits buf = buf"
| "store_bits (Suc n) totalBits buf =
     store_bits n (js_ushr totalBits 8) (buf[56 + n := word_of_int (js_and totalBits 255)])"

definition sha_output :: "int list \<Rightarrow> bytes" where
  "sha_output chain =
     concat (map (\<lambda>c. map (\<lambda>j. word_of_int (js_and (js_shr c j) 255)) [24, 16, 8, 0]) chain)"

definition sha_digest :: "sha256 \<Rightarrow> bytes list \<Rightarrow> sha256 \<times> bytes" where
  "sha_digest st args =
     (let st1 = fold (\<lambda>a s. sha_update s a None) args st;
          totalBits = sha_total st1 * 8;
          st2 = (if sha_inbuf st1 < 56
                 then sha_update st1 sha_pad (Some (56 - sha_inbuf st1))
                 else sha_update st1 sha_pad (Some (64 - (sha_inbuf st1 - 56))));
          buf = store_bits 8 totalBits (sha_buf st2);
          st3 = st2\<lparr>sha_buf := buf, sha_chain := sha_compress buf (sha_chain st2)\<rparr>
      in (st3, sha_output (sha_chain st3)))"

subsection \<open>FIPS 180-4 on 32-bit words\<close>

definition fips_word :: "bytes \<Rightarrow> nat \<Rightarrow> int32" where
  "fips_word buf i =
     word_of_nat (((unat (buf ! i) * 256 + unat (buf ! (i + 1))) * 256 + unat (buf ! (i + 2))) * 256
       + unat (buf ! (i + 3)))"

definition fips_expand1 :: "int32 list \<Rightarrow> int32 list" where
  "fips_expand1 W =
     (let i = length W;
          s0 = word_rotr 7 (W ! (i - 15)) XOR word_rotr 18 (W ! (i - 15)) XOR drop_bit 3 (W ! (i - 15));
          s1 = word_rotr 17 (W ! (i - 2)) XOR word_rotr 19 (W ! (i - 2)) XOR drop_bit 10 (W ! (i - 2))
      in W @ [W ! (i - 16) + s0 + W ! (i - 7) + s1])"

definition fips_schedule :: "bytes \<Rightarrow> int32 list" where
  "fips_schedule buf = (fips_expand1 ^^ 48) (map (\<lambda>i. fips_word buf (4 * i)) [0..<16])"

fun fips_round :: "int32 \<times> int32 \<Rightarrow> int32 regs \<Rightarrow> int32 regs" where
  "fips_round (k, w) (a, b, c, d, e, f, g, h) =
     (let T1 = h + (word_rotr 6 e XOR word_rotr 11 e XOR word_rotr 25 e) + (e AND f XOR NOT e AND g) + k + w;
          T2 = (word_rotr 2 a XOR word_rotr 13 a XOR word_rotr 22 a) + (a AND b XOR a AND c XOR b AND c)
      in (T1 + T2, a, b, c, d + T1, e, f, g))"

definition fips_block :: "bytes \<Rightarrow> int32 list \<Rightarrow> int32 list" where
  "fips_block buf H =
     map2 (+) H (regs_list (fold fips_round (zip (map to_int32 sha_k) (fips_schedule buf)) (regs_of H)))"

definition be_bytes :: "int32 \<Rightarrow> bytes" where
  "be_bytes w = map (\<lambda>j. ucast (drop_bit j w)) [24, 16, 8, 0]"

text \<open>The number of zero bytes of the padding: the least that ends the block eight bytes later.\<close>

definition fips_zeros :: "nat \<Rightarrow> nat" where
  "fips_zeros n = (119 - n mod 64) mod 64"

definition length64 :: "nat \<Rightarrow> bytes" where
  "length64 n = map (\<lambda>j. word_of_nat (n div 256 ^ j)) [7, 6, 5, 4, 3, 2, 1, 0]"

definition fips_pad :: "bytes \<Rightarrow> bytes" where
  "fips_pad m = m @ 0x80 # replicate (fips_zeros (length m)) 0 @ length64 (8 * length m)"

text \<open>The whole 64-byte blocks of a message, in order, and the hash of each after the other.\<close>

definition blocks :: "bytes \<Rightarrow> bytes list" where
  "blocks m = map (\<lambda>i. take 64 (drop (64 * i) m)) [0..<length m div 64]"

definition fips_iv :: "int32 list" where
  "fips_iv = map to_int32 sha_iv"

definition fips_hash :: "bytes \<Rightarrow> int32 list" where
  "fips_hash m = fold fips_block (blocks m) fips_iv"

definition sha256_spec :: "bytes \<Rightarrow> bytes" where
  "sha256_spec m = concat (map be_bytes (fips_hash (fips_pad m)))"

subsection \<open>A round of the code is a round of the specification\<close>

lemma rotr_word [js_int32]: "0 < r \<Longrightarrow> r < 32 \<Longrightarrow> to_int32 (rotr w r) = word_rotr r (to_int32 w)"
  unfolding rotr_def to_int32_js
  by (rule bit_word_eqI) (auto simp: bit_simps bit_word_rotr_iff mod_if add.commute dest: bit_imp_le_length)

lemma all_ones: "to_int32 0xffffffff = - 1"
  by (simp add: to_int32_def)

lemma js_and_ones: "js_and x 0xffffffff = sint (to_int32 x)"
  by (simp add: js_and_def all_ones)

fun regs_words :: "int regs \<Rightarrow> int32 regs" where
  "regs_words (A, B, C, D, E, F, G, H) =
     (to_int32 A, to_int32 B, to_int32 C, to_int32 D, to_int32 E, to_int32 F, to_int32 G, to_int32 H)"

lemma sha_round_fips:
  "regs_words (sha_round (k, w) r) = fips_round (to_int32 k, to_int32 w) (regs_words r)"
  by (cases r rule: regs_words.cases) (simp add: Let_def js_int32 all_ones xor.assoc add.assoc add.left_commute add.commute)

lemma sha_rounds_fips:
  "regs_words (fold sha_round kws r)
     = fold fips_round (map (\<lambda>(k, w). (to_int32 k, to_int32 w)) kws) (regs_words r)"
  by (induction kws arbitrary: r) (auto simp: sha_round_fips simp del: sha_round.simps fips_round.simps)

lemma be_word_fips:
  "to_int32 (be_word buf i) = fips_word buf i"
proof -
  have u: "to_int32 (uint b) = ucast b" for b :: byte
    by (simp add: to_int32_def unsigned_ucast_eq flip: ucast_eq)
  have e: "to_int32 (be_word buf i)
      = b64_push (b64_push (b64_push (ucast (buf ! i)) (buf ! (i + 1))) (buf ! (i + 2))) (buf ! (i + 3))"
    unfolding be_word_def js_int32 u b64_push_def by (simp add: push_bit_or)
  have n: "unat (ucast b :: int32) = unat b" for b :: byte
    by (simp add: unsigned_ucast_eq take_bit_nat_eq_self less_trans [OF unat_lt_256])
  have m1: "(x mod N * 256 + y) mod N = (x * 256 + y) mod N" for x y N :: nat
    by (metis mod_add_left_eq mod_mult_left_eq)
  have "unat (to_int32 (be_word buf i)) = unat (fips_word buf i)"
    unfolding e fips_word_def unat_b64_push n m1 unat_of_nat by simp
  then show ?thesis by (simp add: word_unat_eq_iff)
qed

lemma expand1_fips:
  assumes "length W \<ge> 16"
  shows "map to_int32 (expand1 W) = fips_expand1 (map to_int32 W)"
proof -
  have "length W - 15 < length W" "length W - 2 < length W" "length W - 16 < length W" "length W - 7 < length W"
    using assms by simp_all
  then show ?thesis
    by (simp add: expand1_def fips_expand1_def Let_def js_int32 all_ones xor.assoc)
qed

lemma length_expand1: "length (expand1 W) = Suc (length W)"
  by (simp add: expand1_def Let_def)

lemma length_expand: "length ((expand1 ^^ n) W) = n + length W"
  by (induction n) (simp_all add: length_expand1)

lemma expand_fips:
  "length W \<ge> 16 \<Longrightarrow> map to_int32 ((expand1 ^^ n) W) = (fips_expand1 ^^ n) (map to_int32 W)"
  by (induction n) (simp_all add: expand1_fips length_expand)

lemma schedule_fips: "map to_int32 (schedule buf) = fips_schedule buf"
  unfolding schedule_def fips_schedule_def
  by (subst expand_fips) (simp_all add: be_word_fips comp_def del: upt_Suc)

lemma length_schedule: "length (schedule buf) = 64"
  by (simp add: schedule_def length_expand)

lemma length_regs_list [simp]: "length (regs_list r) = 8"
  by (cases r rule: regs_list.cases) simp

lemma map_regs_list: "map to_int32 (regs_list r) = regs_list (regs_words r)"
  by (cases r rule: regs_words.cases) simp

lemma regs_words_of: "length c = 8 \<Longrightarrow> regs_words (regs_of c) = regs_of (map to_int32 c)"
  by simp

lemma map_map2_add:
  "length xs = length ys \<Longrightarrow> map to_int32 (map2 (+) xs ys) = map2 (+) (map to_int32 xs) (map to_int32 ys)"
  by (induction xs ys rule: list_induct2) (simp_all add: to_int32_add)

lemma sha_compress_fips:
  assumes "length c = 8"
  shows "map to_int32 (sha_compress buf c) = fips_block buf (map to_int32 c)"
proof -
  have "map (\<lambda>(k, w). (to_int32 k, to_int32 w)) (zip sha_k (schedule buf))
      = zip (map to_int32 sha_k) (fips_schedule buf)"
    unfolding schedule_fips [symmetric] by (simp add: zip_map1 zip_map2 split_def comp_def)
  then show ?thesis
    unfolding sha_compress_def fips_block_def
    using assms by (simp only: map_map2_add length_regs_list map_regs_list sha_rounds_fips regs_words_of)
qed

lemma length_sha_compress [simp]: "length c = 8 \<Longrightarrow> length (sha_compress buf c) = 8"
  by (simp add: sha_compress_def)

subsection \<open>The chaining values stay small\<close>

definition small :: "int \<Rightarrow> bool" where
  "small x \<longleftrightarrow> - (2 ^ 31) \<le> x \<and> x < 2 ^ 31"

text \<open>After \<open>n\<close> rounds the first \<open>n\<close> of \<open>A, B, C, D\<close> and of \<open>E, F, G, H\<close> were cut to 32 bits.\<close>

fun cut :: "nat \<Rightarrow> int regs \<Rightarrow> bool" where
  "cut n (A, B, C, D, E, F, G, H) \<longleftrightarrow>
     (0 < n \<longrightarrow> small A \<and> small E) \<and> (1 < n \<longrightarrow> small B \<and> small F)
     \<and> (2 < n \<longrightarrow> small C \<and> small G) \<and> (3 < n \<longrightarrow> small D \<and> small H)"

lemma small_js_and [simp]: "small (js_and x y)"
  using js_and_range [of x y] by (simp add: small_def)

lemma cut_round: "cut n r \<Longrightarrow> cut (Suc n) (sha_round kw r)"
  by (cases r rule: regs_words.cases; cases kw) (auto simp: Let_def)

lemma cut_rounds: "cut n r \<Longrightarrow> cut (n + length kws) (fold sha_round kws r)"
proof (induction kws arbitrary: n r)
  case (Cons kw kws)
  from Cons.IH [OF cut_round [OF Cons.prems]] show ?case by simp
qed simp

definition chain_bound :: "nat \<Rightarrow> int list \<Rightarrow> bool" where
  "chain_bound n c \<longleftrightarrow> (\<forall>x \<in> set c. \<bar>x\<bar> \<le> 2 ^ 32 + int n * 2 ^ 31)"

lemma chain_bound_compress:
  assumes "chain_bound n c" "length c = 8"
  shows "chain_bound (Suc n) (sha_compress buf c)"
proof -
  let ?r = "fold sha_round (zip sha_k (schedule buf)) (regs_of c)"
  have "length (zip sha_k (schedule buf)) = 64"
    by (simp add: length_schedule) (simp add: sha_k_def)
  moreover have "cut 0 (regs_of c)" by simp
  ultimately have "cut 64 ?r" using cut_rounds [of 0 "regs_of c" "zip sha_k (schedule buf)"] by simp
  then have s: "\<forall>y \<in> set (regs_list ?r). \<bar>y\<bar> \<le> 2 ^ 31"
    by (cases ?r rule: regs_words.cases) (auto simp: small_def abs_if)
  show ?thesis
    unfolding chain_bound_def
  proof
    fix z assume "z \<in> set (sha_compress buf c)"
    then obtain x y where z: "z = x + y" "x \<in> set c" "y \<in> set (regs_list ?r)"
      unfolding sha_compress_def by (auto dest: set_zip_leftD set_zip_rightD)
    then have "\<bar>x\<bar> \<le> 2 ^ 32 + int n * 2 ^ 31" "\<bar>y\<bar> \<le> 2 ^ 31"
      using assms(1) s by (auto simp: chain_bound_def)
    then show "\<bar>z\<bar> \<le> 2 ^ 32 + int (Suc n) * 2 ^ 31" using z(1) by (simp add: algebra_simps)
  qed
qed

subsection \<open>What a hasher has absorbed\<close>

definition absorbed :: "sha256 \<Rightarrow> bytes \<Rightarrow> bool" where
  "absorbed st m \<longleftrightarrow>
     sha_inbuf st = length m mod 64 \<and> length (sha_buf st) = 64
     \<and> take (sha_inbuf st) (sha_buf st) = drop (64 * (length m div 64)) m
     \<and> length (sha_chain st) = 8 \<and> map to_int32 (sha_chain st) = fips_hash m
     \<and> chain_bound (length m div 64) (sha_chain st)"

lemma blocks_same: "(length m + length r) div 64 = length m div 64 \<Longrightarrow> blocks (m @ r) = blocks m"
proof -
  assume d: "(length m + length r) div 64 = length m div 64"
  have "64 * i + 64 \<le> length m" if "i < length m div 64" for i
  proof -
    have "64 * (i + 1) \<le> 64 * (length m div 64)" using that by simp
    also have "\<dots> \<le> length m" by simp
    finally show ?thesis by simp
  qed
  then show ?thesis unfolding blocks_def by (auto simp: d)
qed

lemma blocks_next:
  assumes "length m mod 64 + length r = 64" "r \<noteq> []"
  shows "blocks (m @ r) = blocks m @ [drop (64 * (length m div 64)) m @ r]"
proof -
  let ?k = "length m div 64"
  have m: "length m = 64 * ?k + length m mod 64" by simp
  have "length m + length r = 64 * (?k + 1)"
  proof -
    have "a + l = 64 \<Longrightarrow> n = 64 * k + a \<Longrightarrow> n + l = 64 * (k + 1)" for a k l n :: nat by simp
    from this [OF assms(1) m] show ?thesis .
  qed
  then have d: "(length m + length r) div 64 = Suc ?k" by simp
  have "64 * i + 64 \<le> length m" if "i < ?k" for i
  proof -
    have "64 * (i + 1) \<le> 64 * ?k" using that by simp
    also have "\<dots> \<le> length m" by simp
    finally show ?thesis by simp
  qed
  moreover have "take 64 (drop (64 * ?k) (m @ r)) = drop (64 * ?k) m @ r"
    using assms(1) m by (simp add: minus_mod_eq_mult_div [symmetric])
  ultimately show ?thesis unfolding blocks_def by (auto simp: d)
qed

lemma absorbed_new: "absorbed SHA256 []"
  by (simp add: absorbed_def SHA256_def sha_reset_def fips_hash_def blocks_def fips_iv_def)
    (simp add: sha_iv_def chain_bound_def)

lemma absorbed_put:
  assumes "absorbed st m"
  shows "absorbed (sha_put b st) (m @ [b])"
proof -
  let ?k = "length m div 64" and ?r = "length m mod 64"
  from assms have a: "sha_inbuf st = ?r" "length (sha_buf st) = 64"
    "take ?r (sha_buf st) = drop (64 * ?k) m" "length (sha_chain st) = 8"
    "map to_int32 (sha_chain st) = fips_hash m" "chain_bound ?k (sha_chain st)"
    by (auto simp: absorbed_def)
  have r: "?r < 64" by simp
  have buf: "take (Suc ?r) ((sha_buf st)[?r := b]) = drop (64 * ?k) m @ [b]"
    using a(2,3) r by (simp add: take_Suc_conv_app_nth)
  show ?thesis
  proof (cases "?r = 63")
    case True
    then have m: "length m = 64 * ?k + 63" by presburger
    have d: "Suc (length m) div 64 = Suc ?k" "Suc (length m) mod 64 = 0"
      using True by (simp_all add: div_Suc mod_Suc)
    have "blocks (m @ [b]) = blocks m @ [drop (64 * ?k) m @ [b]]"
      using True by (intro blocks_next) simp_all
    moreover have "(sha_buf st)[63 := b] = drop (64 * ?k) m @ [b]"
      using buf a(2) True by simp
    ultimately have "fips_hash (m @ [b]) = fips_block ((sha_buf st)[63 := b]) (fips_hash m)"
      by (simp add: fips_hash_def)
    then show ?thesis
      using a True d chain_bound_compress [OF a(6,4)] m
      by (simp add: absorbed_def sha_put_def Let_def sha_compress_fips)
  next
    case False
    then have d: "Suc (length m) div 64 = ?k" "Suc (length m) mod 64 = Suc ?r"
      by (simp_all add: div_Suc mod_Suc)
    have "blocks (m @ [b]) = blocks m" using d by (intro blocks_same) simp
    moreover have "64 * ?k \<le> length m" by simp
    ultimately show ?thesis
      using a False d buf by (simp add: absorbed_def sha_put_def Let_def fips_hash_def)
  qed
qed

lemma absorbed_puts: "absorbed st m \<Longrightarrow> absorbed (fold sha_put bs st) (m @ bs)"
proof (induction bs arbitrary: st m)
  case (Cons b bs)
  from Cons.IH [OF absorbed_put [OF Cons.prems, of b]] show ?case by simp
qed simp

lemma total_puts [simp]: "sha_total (fold sha_put bs st) = sha_total st"
  by (induction bs arbitrary: st) (auto simp: sha_put_def Let_def)

lemma absorbed_total [simp]: "absorbed (st\<lparr>sha_total := t\<rparr>) m = absorbed st m"
  by (simp add: absorbed_def)

lemma fold_byte_at: "fold (\<lambda>i. sha_put (byte_at bytes i)) is = fold sha_put (map (byte_at bytes) is)"
  by (simp add: fold_map comp_def)

lemma absorbed_update:
  "absorbed st m \<Longrightarrow> absorbed (sha_update st bytes None) (m @ bytes)
     \<and> sha_total (sha_update st bytes None) = sha_total st + int (length bytes)"
  by (simp add: sha_update_def fold_byte_at map_byte_at absorbed_puts)

lemma absorbed_updateRange:
  "\<lbrakk>absorbed st m; s \<le> e; e \<le> length bytes\<rbrakk> \<Longrightarrow>
     absorbed (sha_updateRange st bytes s e) (m @ drop s (take e bytes))
     \<and> sha_total (sha_updateRange st bytes s e) = sha_total st + (int e - int s)"
proof -
  assume a: "absorbed st m" "s \<le> e" "e \<le> length bytes"
  have "map (byte_at bytes) [s..<e] = drop s (take e bytes)"
    using a(2,3) by (intro nth_equalityI) (auto simp: byte_at_def)
  with a(1) show ?thesis by (simp add: sha_updateRange_def fold_byte_at absorbed_puts)
qed

text \<open>A hasher that was only fed by \<open>update\<close> has counted what it absorbed.\<close>

definition fed :: "sha256 \<Rightarrow> bytes \<Rightarrow> bool" where
  "fed st m \<longleftrightarrow> absorbed st m \<and> sha_total st = int (length m)"

lemma fed_new: "fed SHA256 []"
  by (simp add: fed_def absorbed_new) (simp add: SHA256_def sha_reset_def)

lemma fed_update: "fed st m \<Longrightarrow> fed (sha_update st bytes None) (m @ bytes)"
  using absorbed_update [of st m bytes] by (simp add: fed_def)

lemma fed_updates: "fed st m \<Longrightarrow> fed (fold (\<lambda>a s. sha_update s a None) args st) (m @ concat args)"
proof (induction args arbitrary: st m)
  case (Cons a args)
  from Cons.IH [OF fed_update [OF Cons.prems, of a]] show ?case by simp
qed simp

subsection \<open>The digest\<close>

lemma to_int32_255: "to_int32 255 = mask 8"
  by (simp add: to_int32_def mask_eq_exp_minus_1)

lemma low_byte: "word_of_int (js_and x 255) = (word_of_nat (unat (to_int32 x)) :: byte)"
proof -
  have "(word_of_int (js_and x 255) :: byte) = ucast (to_int32 x AND to_int32 255)"
    unfolding js_and_def by (rule bit_word_eqI) (auto simp: bit_simps)
  also have "\<dots> = ucast (to_int32 x)"
    unfolding to_int32_255 by (rule bit_word_eqI) (auto simp: bit_simps)
  finally show ?thesis by (metis of_nat_unat)
qed

lemma store_bits_eq:
  "length buf = 64 \<Longrightarrow> n \<le> 8 \<Longrightarrow>
   store_bits n t buf = take 56 buf
     @ map (\<lambda>j. word_of_nat (unat (to_int32 t) div 256 ^ j)) (rev [0..<n]) @ drop (56 + n) buf"
proof (induction n arbitrary: t buf)
  case 0
  then show ?case by simp
next
  case (Suc n)
  let ?b = "buf[56 + n := word_of_int (js_and t 255)]"
  let ?w = "unat (to_int32 t)"
  have s: "rev [0..<Suc n] = map Suc (rev [0..<n]) @ [0]"
    by (simp add: rev_map [symmetric] map_Suc_upt upt_conv_Cons del: upt_Suc)
  have "unat (to_int32 (js_ushr t 8)) = ?w div 256"
    unfolding to_int32_js unat_drop_bit by simp
  moreover have "drop (56 + n) ?b = word_of_nat ?w # drop (56 + Suc n) buf"
    using Suc.prems by (simp add: low_byte Cons_nth_drop_Suc [symmetric] drop_update_swap)
  ultimately show ?case
    using Suc.IH [of ?b "js_ushr t 8"] Suc.prems
    unfolding s by (simp add: div_mult2_eq comp_def)
qed

lemma sha_output_fips: "sha_output chain = concat (map be_bytes (map to_int32 chain))"
proof -
  have "(word_of_int (js_and (js_shr c j) 255) :: byte) = ucast (drop_bit j (to_int32 c))" if "j \<le> 24" for c j
  proof -
    have "(word_of_int (js_and (js_shr c j) 255) :: byte)
        = ucast (signed_drop_bit j (to_int32 c) AND to_int32 255)"
      unfolding js_and_def to_int32_js by (rule bit_word_eqI) (auto simp: bit_simps)
    also have "\<dots> = ucast (drop_bit j (to_int32 c))"
      using that unfolding to_int32_255 by (intro bit_word_eqI) (auto simp: bit_simps)
    finally show ?thesis .
  qed
  then show ?thesis by (simp add: sha_output_def be_bytes_def comp_def)
qed

text \<open>The padding \<open>0x80, 0, ...\<close> that brings a message to eight bytes below a block.\<close>

lemma pad_bytes:
  "0 < n \<Longrightarrow> n \<le> 64 \<Longrightarrow> map (byte_at sha_pad) [0..<n] = 0x80 # replicate (n - 1) 0"
  by (intro nth_equalityI) (auto simp: byte_at_def sha_pad_def nth_Cons split: nat.split)

lemma digest_padding:
  assumes "fed st m"
  defines "r \<equiv> length m mod 64"
  defines "n \<equiv> (if r < 56 then 56 - r else 64 - (r - 56))"
  shows "absorbed (sha_update st sha_pad (Some n)) (m @ 0x80 # replicate (fips_zeros (length m)) 0)"
    "(length m + 1 + fips_zeros (length m)) mod 64 = 56"
proof -
  have r: "r < 64" by (simp add: r_def)
  have n: "0 < n" "n \<le> 64" using r by (auto simp: n_def)
  have z: "n - 1 = fips_zeros (length m)"
    using r unfolding n_def fips_zeros_def r_def [symmetric] by (auto simp: mod_if)
  have "absorbed (sha_update st sha_pad (Some n)) (m @ map (byte_at sha_pad) [0..<n])"
    using assms(1) n(1) unfolding sha_update_def fold_byte_at by (auto simp: fed_def intro!: absorbed_puts)
  then show "absorbed (sha_update st sha_pad (Some n)) (m @ 0x80 # replicate (fips_zeros (length m)) 0)"
    using pad_bytes [OF n] z by simp
  have "(length m + 1 + fips_zeros (length m)) mod 64 = (r + (1 + fips_zeros (length m))) mod 64"
    unfolding r_def by (metis add.assoc mod_add_left_eq)
  also have "1 + fips_zeros (length m) = n" using z n(1) by simp
  also have "(r + n) mod 64 = 56" using r by (auto simp: n_def mod_if)
  finally show "(length m + 1 + fips_zeros (length m)) mod 64 = 56" .
qed

lemma digest_hash:
  assumes "fed st m"
  shows "map to_int32 (sha_chain (fst (sha_digest st [])))
       = fips_hash (m @ 0x80 # replicate (fips_zeros (length m)) 0 @ length64 ((8 * length m) mod 2 ^ 32))"
proof -
  let ?m = "m @ 0x80 # replicate (fips_zeros (length m)) 0"
  define st2 where "st2 = sha_update st sha_pad
    (Some (if length m mod 64 < 56 then 56 - length m mod 64 else 64 - (length m mod 64 - 56)))"
  define buf where "buf = store_bits 8 (sha_total st * 8) (sha_buf st2)"
  have a: "absorbed st2 ?m" and l: "length ?m mod 64 = 56"
    using digest_padding [OF assms] unfolding st2_def by (simp_all add: add.commute)
  have "unat (to_int32 (sha_total st * 8)) = (8 * length m) mod 2 ^ 32"
  proof -
    have "to_int32 (sha_total st * 8) = word_of_nat (8 * length m)"
      using assms by (simp add: fed_def to_int32_def mult.commute)
    then show ?thesis by (simp only: unat_of_nat) simp
  qed
  moreover have "rev [0..<8] = [7, 6, 5, 4, 3, 2, 1, 0::nat]" by (simp add: upt_rec)
  moreover have "take 56 (sha_buf st2) = drop (64 * (length ?m div 64)) ?m"
    using a l unfolding absorbed_def by metis
  ultimately have buf: "buf = drop (64 * (length ?m div 64)) ?m @ length64 ((8 * length m) mod 2 ^ 32)"
    using a store_bits_eq [of "sha_buf st2" 8 "sha_total st * 8"]
    unfolding buf_def absorbed_def length64_def by simp
  have "length (length64 x) = 8" for x by (simp add: length64_def)
  then have "blocks (?m @ length64 ((8 * length m) mod 2 ^ 32)) = blocks ?m @ [buf]"
    using l unfolding buf by (intro blocks_next) (auto simp: length64_def)
  moreover have "sha_inbuf st = length m mod 64" using assms by (simp add: fed_def absorbed_def)
  then have "fst (sha_digest st []) = st2\<lparr>sha_buf := buf, sha_chain := sha_compress buf (sha_chain st2)\<rparr>"
    unfolding sha_digest_def Let_def buf_def st2_def by simp
  ultimately show ?thesis
    using a by (simp add: fips_hash_def absorbed_def sha_compress_fips)
qed

lemma sha_digest_args:
  "sha_digest st args = sha_digest (fold (\<lambda>a s. sha_update s a None) args st) []"
  by (simp add: sha_digest_def)

lemma snd_sha_digest: "snd (sha_digest st args) = sha_output (sha_chain (fst (sha_digest st args)))"
  by (simp add: sha_digest_def Let_def)

lemma digest_correct:
  assumes "fed st m" "8 * length (m @ concat args) < 2 ^ 32"
  shows "snd (sha_digest st args) = sha256_spec (m @ concat args)"
proof -
  have f: "fed (fold (\<lambda>a s. sha_update s a None) args st) (m @ concat args)"
    using fed_updates [OF assms(1)] .
  have "(8 * length (m @ concat args)) mod 2 ^ 32 = 8 * length (m @ concat args)"
    using assms(2) by (rule mod_less)
  then show ?thesis
    unfolding snd_sha_digest sha_digest_args [of st args] sha_output_fips digest_hash [OF f]
      sha256_spec_def fips_pad_def by (simp only:)
qed

subsection \<open>Properties\<close>

text \<open>The hashers an incremental use reaches: a new one, then any number of \<open>update\<close> calls.\<close>

definition sha_updates :: "bytes list \<Rightarrow> sha256" where
  "sha_updates parts = fold (\<lambda>a s. sha_update s a None) parts SHA256"

lemma fed_sha_updates: "fed (sha_updates parts) (concat parts)"
  using fed_updates [OF fed_new, of parts] by (simp add: sha_updates_def)

text \<open>
  C11. The hasher computes SHA-256: after any sequence of \<open>update\<close> calls, and with any further
  arguments of \<open>digest\<close>, the result is the FIPS 180-4 hash of the concatenation of all the data,
  for every message below \<open>2\<^sup>2\<^sup>9\<close> bytes (above, \<open>totalBits >>>= 8\<close> drops the high half of the
  bit count).
\<close>

theorem sha_digest_correct:
  assumes "length (concat (parts @ args)) < 2 ^ 29"
  shows "snd (sha_digest (sha_updates parts) args) = sha256_spec (concat (parts @ args))"
  using digest_correct [OF fed_sha_updates, of parts args] assms by simp

lemma sha_digest_correct_witness:
  "snd (sha_digest (sha_updates [[0x61], [0x62]]) [[0x63]]) = sha256_spec [0x61, 0x62, 0x63]"
  using sha_digest_correct [of "[[0x61], [0x62]]" "[[0x63]]"] by simp

text \<open>
  How the data is cut into calls does not matter: two sequences of \<open>update\<close> calls with the same
  concatenation leave hashers that agree on every observable part (the bytes buffered, the count,
  and the chaining values modulo \<open>2\<^sup>3\<^sup>2\<close>), and so give the same digest.
\<close>

theorem sha_update_incremental:
  assumes "concat parts = concat parts'"
  shows "sha_inbuf (sha_updates parts) = sha_inbuf (sha_updates parts')
    \<and> sha_total (sha_updates parts) = sha_total (sha_updates parts')
    \<and> take (sha_inbuf (sha_updates parts)) (sha_buf (sha_updates parts))
        = take (sha_inbuf (sha_updates parts')) (sha_buf (sha_updates parts'))
    \<and> snd (sha_digest (sha_updates parts) []) = snd (sha_digest (sha_updates parts') [])"
proof -
  note f = fed_sha_updates [of parts] fed_sha_updates [of parts', folded assms]
  from digest_hash [OF f(1)] digest_hash [OF f(2)]
  have "snd (sha_digest (sha_updates parts) []) = snd (sha_digest (sha_updates parts') [])"
    unfolding snd_sha_digest sha_output_fips by simp
  moreover have "take (sha_inbuf st) (sha_buf st) = drop (64 * (length m div 64)) m" if "fed st m" for st m
    using that unfolding fed_def absorbed_def by blast
  ultimately show ?thesis using f unfolding fed_def absorbed_def by metis
qed

lemma sha_update_incremental_witness:
  "snd (sha_digest (sha_updates [[1, 2], [3]]) []) = snd (sha_digest (sha_updates [[1], [2, 3]]) [])"
  using sha_update_incremental [of "[[1, 2], [3]]" "[[1], [2, 3]]"] by simp

text \<open>
  C12. No precision is lost: although the chaining values are never cut to 32 bits, after \<open>n\<close>
  blocks they are at most \<open>2\<^sup>3\<^sup>2 + n 2\<^sup>3\<^sup>1\<close> in absolute value, so below \<open>2\<^sup>5\<^sup>2\<close> for every message up
  to 64 megabytes, and the code's additions of doubles are exact.
\<close>

theorem sha_chain_exact:
  assumes "length (concat parts) div 64 \<le> 1048576"
  shows "list_all (\<lambda>x. \<bar>x\<bar> < 2 ^ 52) (sha_chain (sha_updates parts))"
  unfolding list_all_iff
proof
  fix x assume x: "x \<in> set (sha_chain (sha_updates parts))"
  let ?n = "length (concat parts) div 64"
  have "chain_bound ?n (sha_chain (sha_updates parts))"
    using fed_sha_updates [of parts] by (simp add: fed_def absorbed_def)
  with x have "\<bar>x\<bar> \<le> 2 ^ 32 + int ?n * 2 ^ 31" by (simp add: chain_bound_def)
  moreover have "int ?n \<le> int 1048576" using assms by (simp only: of_nat_le_iff)
  ultimately show "\<bar>x\<bar> < 2 ^ 52" by (simp del: zdiv_int)
qed

lemma sha_chain_exact_witness:
  "list_all (\<lambda>x. \<bar>x\<bar> < 2 ^ 52) (sha_chain (sha_updates [[1, 2, 3]]))"
  by (rule sha_chain_exact) simp

end
