(* ===== verification/WebRequest.thy ===== *)
theory WebRequest
  imports AppId MultipleSigner Sha256
begin

text \<open>
  webrequest.js, errorcodes.js and messagetypes.js: requests of a web page, their validation, the client
  data that is hashed and signed, the encoding of sign challenges for a helper, and responses. The
  properties of a request object are optional strings, as its typedefs declare: \<open>None\<close> is an absent one.
\<close>

subsection \<open>Requests\<close>

record web_challenge =
  wc_challenge :: "string option"
  wc_appId :: "string option"
  wc_keyHandle :: "string option"
  wc_version :: "string option"

record web_enroll =
  we_version :: "string option"
  we_challenge :: "string option"
  we_appId :: "string option"

record web_request =
  wr_type :: "string option"
  wr_requestId :: "int option"
  wr_appId :: "string option"
  wr_challenge :: "string option"
  wr_registerRequests :: "web_enroll list option"
  wr_signRequests :: "web_challenge list option"
  wr_registeredKeys :: "web_challenge list option"
  wr_timeout :: request_timeout

text \<open>A property that is absent or empty is falsy.\<close>

definition truthy :: "string option \<Rightarrow> bool" where
  "truthy v \<longleftrightarrow> v \<noteq> None \<and> v \<noteq> Some []"

lemma truthy_Some: "truthy v \<longleftrightarrow> (\<exists>s. v = Some s \<and> s \<noteq> [])"
  by (auto simp: truthy_def)

definition U2F_REGISTER_REQUEST :: string where "U2F_REGISTER_REQUEST = ''u2f_register_request''"
definition U2F_SIGN_REQUEST :: string where "U2F_SIGN_REQUEST = ''u2f_sign_request''"
definition U2F_REGISTER_RESPONSE :: string where "U2F_REGISTER_RESPONSE = ''u2f_register_response''"
definition U2F_SIGN_RESPONSE :: string where "U2F_SIGN_RESPONSE = ''u2f_sign_response''"
definition U2F_GET_API_VERSION_REQUEST :: string where "U2F_GET_API_VERSION_REQUEST = ''u2f_get_api_version_request''"
definition U2F_GET_API_VERSION_RESPONSE :: string where "U2F_GET_API_VERSION_RESPONSE = ''u2f_get_api_version_response''"

datatype error_code = EC_OK | OTHER_ERROR | BAD_REQUEST | CONFIGURATION_UNSUPPORTED | DEVICE_INELIGIBLE | EC_TIMEOUT

definition error_number :: "error_code \<Rightarrow> nat" where
  "error_number e = (case e of EC_OK \<Rightarrow> 0 | OTHER_ERROR \<Rightarrow> 1 | BAD_REQUEST \<Rightarrow> 2 | CONFIGURATION_UNSUPPORTED \<Rightarrow> 3
     | DEVICE_INELIGIBLE \<Rightarrow> 4 | EC_TIMEOUT \<Rightarrow> 5)"

record u2f_error =
  errorCode :: error_code
  errorMessage :: "string option"

definition isValidRegisteredKey :: "web_challenge \<Rightarrow> bool \<Rightarrow> bool" where
  "isValidRegisteredKey key appIdRequired =
     (if appIdRequired \<and> wc_appId key = None then False
      else if wc_keyHandle key = None then False
      else if truthy (wc_version key) \<and> wc_version key \<noteq> Some U2F_V1 \<and> wc_version key \<noteq> Some U2F_V2 then False
      else True)"

definition isValidRegisteredKeyArray :: "web_challenge list \<Rightarrow> bool \<Rightarrow> bool" where
  "isValidRegisteredKeyArray keys appIdRequired = list_all (\<lambda>k. isValidRegisteredKey k appIdRequired) keys"

definition getSignChallenges :: "web_request option \<Rightarrow> web_challenge list option" where
  "getSignChallenges request =
     (case request of None \<Rightarrow> None
      | Some r \<Rightarrow> (case wr_signRequests r of Some cs \<Rightarrow> Some cs | None \<Rightarrow> wr_registeredKeys r))"

fun isValidSignChallengeArray :: "web_challenge list \<Rightarrow> bool \<Rightarrow> bool \<Rightarrow> bool" where
  "isValidSignChallengeArray [] challengeValueRequired appIdRequired = True"
| "isValidSignChallengeArray (c # cs) challengeValueRequired appIdRequired =
     (if challengeValueRequired \<and> wc_challenge c = None then False
      else if \<not> isValidRegisteredKey c appIdRequired then False
      else isValidSignChallengeArray cs challengeValueRequired appIdRequired)"

subsection \<open>Responses\<close>

definition replace_request :: "string \<Rightarrow> string \<Rightarrow> string" where
  "replace_request t suffix =
     (if length t \<ge> 8 \<and> drop (length t - 8) t = ''_request'' then take (length t - 8) t @ suffix else t)"

datatype response_data =
    ErrorData u2f_error
  | EnrollData web_enroll string "string option option"
  | SignData string string string
  | VersionData string

record web_response =
  resp_type :: "string option"
  resp_requestId :: "int option"
  resp_data :: response_data

definition makeResponseForRequest :: "web_request option \<Rightarrow> string \<Rightarrow> string option \<Rightarrow> response_data \<Rightarrow> web_response" where
  "makeResponseForRequest request suffix opt_defaultType d =
     \<lparr>resp_type = (case request of Some r \<Rightarrow>
        (case wr_type r of Some t \<Rightarrow> if t \<noteq> [] then Some (replace_request t suffix) else opt_defaultType
         | None \<Rightarrow> opt_defaultType) | None \<Rightarrow> opt_defaultType),
      resp_requestId = (case request of Some r \<Rightarrow>
        (case wr_requestId r of Some i \<Rightarrow> if i \<noteq> 0 then Some i else None | None \<Rightarrow> None) | None \<Rightarrow> None),
      resp_data = d\<rparr>"

definition makeU2fErrorResponse :: "web_request option \<Rightarrow> error_code \<Rightarrow> string option \<Rightarrow> string option \<Rightarrow> web_response" where
  "makeU2fErrorResponse request code opt_detail opt_defaultType =
     makeResponseForRequest request ''_response'' opt_defaultType
       (ErrorData \<lparr>errorCode = code, errorMessage = (if truthy opt_detail then opt_detail else None)\<rparr>)"

definition makeU2fSuccessResponse :: "web_request option \<Rightarrow> response_data \<Rightarrow> web_response" where
  "makeU2fSuccessResponse request d = makeResponseForRequest request ''_response'' None d"

definition JS_API_VERSION :: string where "JS_API_VERSION = ''1.1''"

definition makeU2fGetApiVersionResponse :: "web_request option \<Rightarrow> string \<Rightarrow> string option \<Rightarrow> web_response" where
  "makeU2fGetApiVersionResponse request ver opt_defaultType =
     makeResponseForRequest request ''_response'' opt_defaultType (VersionData ver)"

fun nat_to_hex :: "nat \<Rightarrow> string" where
  "nat_to_hex n = (let d = [''0123456789abcdef'' ! (n mod 16)] in if n < 16 then d else nat_to_hex (n div 16) @ d)"

declare nat_to_hex.simps [simp del]

definition int_to_hex :: "int \<Rightarrow> string" where
  "int_to_hex i = (if i < 0 then CHR ''-'' # nat_to_hex (nat (- i)) else nat_to_hex (nat i))"

definition mapDeviceStatusCodeToU2fError :: "int \<Rightarrow> u2f_error" where
  "mapDeviceStatusCodeToU2fError code =
     (if code = WRONG_DATA_STATUS then \<lparr>errorCode = DEVICE_INELIGIBLE, errorMessage = None\<rparr>
      else if code = TIMEOUT_STATUS \<or> code = WAIT_TOUCH_STATUS then \<lparr>errorCode = EC_TIMEOUT, errorMessage = None\<rparr>
      else \<lparr>errorCode = OTHER_ERROR, errorMessage = Some (''device status code: '' @ int_to_hex code)\<rparr>)"

text \<open>
  What \<open>sendResponseOnce\<close> does: close the closeable, send the response. The flag \<open>sentResponse\<close> is passed by
  value, so the assignment in the function is lost with its return.
\<close>

datatype send_effect = CloseIt | SendIt web_response

definition sendResponseOnce :: "bool \<Rightarrow> bool \<Rightarrow> web_response \<Rightarrow> send_effect list" where
  "sendResponseOnce sentResponse closeable response =
     (if closeable then [CloseIt] else []) @ (if \<not> sentResponse then [SendIt response] else [])"

datatype routed = HandleEnroll | HandleSign | Answered web_response

definition handleWebPageRequest :: "web_request \<Rightarrow> routed" where
  "handleWebPageRequest request =
     (if wr_type request = Some U2F_REGISTER_REQUEST then HandleEnroll
      else if wr_type request = Some U2F_SIGN_REQUEST then HandleSign
      else if wr_type request = Some U2F_GET_API_VERSION_REQUEST
      then Answered (makeU2fGetApiVersionResponse (Some request) JS_API_VERSION (Some U2F_GET_API_VERSION_RESPONSE))
      else Answered (makeU2fErrorResponse (Some request) BAD_REQUEST None (Some U2F_REGISTER_RESPONSE)))"

subsection \<open>Client data\<close>

text \<open>
  \<open>JSON.stringify\<close>. An object lists its properties in the order of \<open>Object.keys\<close>; \<open>undefined\<close> is left out of
  objects and is \<open>null\<close> in arrays, and so is a number that is not finite.
\<close>

definition json_number_text :: "string \<Rightarrow> string" where
  "json_number_text t = (if t \<in> {''Infinity'', ''-Infinity'', ''NaN''} then ''null'' else t)"

definition json_escape :: "char \<Rightarrow> string" where
  "json_escape c =
     (let n = of_char c :: nat in
      if n = 0x22 then [CHR 0x5C, CHR 0x22] else if n = 0x5C then [CHR 0x5C, CHR 0x5C]
      else if n = 8 then [CHR 0x5C, CHR ''b''] else if n = 9 then [CHR 0x5C, CHR ''t'']
      else if n = 10 then [CHR 0x5C, CHR ''n''] else if n = 12 then [CHR 0x5C, CHR ''f'']
      else if n = 13 then [CHR 0x5C, CHR ''r'']
      else if n < 32 then [CHR 0x5C, CHR ''u'', CHR ''0'', CHR ''0'', ''0123456789abcdef'' ! (n div 16), ''0123456789abcdef'' ! (n mod 16)]
      else [c])"

definition json_quote :: "string \<Rightarrow> string" where
  "json_quote s = CHR 0x22 # concat (map json_escape s) @ [CHR 0x22]"

fun json_stringify :: "jsval \<Rightarrow> string" where
  "json_stringify JUndef = ''null''"
| "json_stringify JNull = ''null''"
| "json_stringify (JBool b) = (if b then ''true'' else ''false'')"
| "json_stringify (JNum t) = json_number_text t"
| "json_stringify (JStr s) = json_quote s"
| "json_stringify (JArr xs) = CHR ''['' # js_join (map json_stringify xs) @ '']''"
| "json_stringify (JObj ob) =
     CHR ''{'' # js_join (map (\<lambda>(k, v). json_quote k @ CHR '':'' # json_stringify v) (filter (\<lambda>(k, v). v \<noteq> JUndef) ob)) @ ''}''"

definition UNUSED_CID_PUBKEY_VALUE :: jsval where "UNUSED_CID_PUBKEY_VALUE = JStr ''unused''"

definition tlsChannelIdValue :: "json_lib \<Rightarrow> string option \<Rightarrow> jsval" where
  "tlsChannelIdValue J opt_tlsChannelId =
     (case opt_tlsChannelId of None \<Rightarrow> UNUSED_CID_PUBKEY_VALUE
      | Some t \<Rightarrow> if t = [] then UNUSED_CID_PUBKEY_VALUE
          else (case json_parse J t of
              Some ob \<Rightarrow> if \<not> js_truthy ob then UNUSED_CID_PUBKEY_VALUE else ob
            | None \<Rightarrow> JStr t))"

definition makeBrowserData :: "json_lib \<Rightarrow> bool \<Rightarrow> string \<Rightarrow> string \<Rightarrow> string \<Rightarrow> string option \<Rightarrow> string" where
  "makeBrowserData J supports_cid type serverChallenge origin opt_tlsChannelId =
     json_stringify (JObj ([(''typ'', JStr type), (''challenge'', JStr serverChallenge), (''origin'', JStr origin)]
       @ (if supports_cid then [(''cid_pubkey'', tlsChannelIdValue J opt_tlsChannelId)] else [])))"

definition makeEnrollBrowserData :: "json_lib \<Rightarrow> bool \<Rightarrow> string \<Rightarrow> string \<Rightarrow> string option \<Rightarrow> string" where
  "makeEnrollBrowserData J b serverChallenge origin cid =
     makeBrowserData J b ''navigator.id.finishEnrollment'' serverChallenge origin cid"

definition makeSignBrowserData :: "json_lib \<Rightarrow> bool \<Rightarrow> string \<Rightarrow> string \<Rightarrow> string option \<Rightarrow> string" where
  "makeSignBrowserData J b serverChallenge origin cid =
     makeBrowserData J b ''navigator.id.getAssertion'' serverChallenge origin cid"

definition sha256HashOfString :: "string \<Rightarrow> bytes" where
  "sha256HashOfString s = snd (sha_digest (sha_update SHA256 (UTIL_StringToBytes s) None) [])"

text \<open>
  Quoted strings are a prefix code: the length of an escaped character is known from its first two
  characters, and the character can be read back.
\<close>

definition escape_length :: "string \<Rightarrow> nat" where
  "escape_length e = (if take 1 e \<noteq> [CHR 0x5C] then 1 else if take 2 e = [CHR 0x5C, CHR ''u''] then 6 else 2)"

lemma escape_length_append: "escape_length (json_escape c @ r) = length (json_escape c)"
proof -
  have "of_char c \<noteq> (0x5C :: nat) \<Longrightarrow> c \<noteq> CHR 0x5C" by auto
  moreover have "escape_length (CHR 0x5C # CHR ''u'' # a # b # d # e # r) = 6" for a b d e by (simp add: escape_length_def)
  moreover have "x \<noteq> CHR ''u'' \<Longrightarrow> escape_length (CHR 0x5C # x # r) = 2" for x by (simp add: escape_length_def)
  moreover have "x \<noteq> CHR 0x5C \<Longrightarrow> escape_length (x # r) = 1" for x by (simp add: escape_length_def)
  ultimately show ?thesis by (simp add: json_escape_def Let_def)
qed

definition unescape :: "string \<Rightarrow> nat" where
  "unescape e =
     (if e ! 0 \<noteq> CHR 0x5C then of_char (e ! 0)
      else if e ! 1 = CHR ''u''
      then 16 * (case hex_digit (e ! 4) of Some d \<Rightarrow> d | None \<Rightarrow> 0) + (case hex_digit (e ! 5) of Some d \<Rightarrow> d | None \<Rightarrow> 0)
      else (case map_of [(CHR ''b'', 8), (CHR ''t'', 9), (CHR ''n'', 10), (CHR ''f'', 12), (CHR ''r'', 13)] (e ! 1) of
          Some n \<Rightarrow> n | None \<Rightarrow> of_char (e ! 1)))"

lemma hexdigit_lower: "n < 16 \<Longrightarrow> hex_digit (''0123456789abcdef'' ! n) = Some n"
proof -
  have "list_all (\<lambda>n. hex_digit (''0123456789abcdef'' ! n) = Some n) [0..<16]" by code_simp
  then show "n < 16 \<Longrightarrow> ?thesis" by (auto simp: list_all_iff)
qed

lemma unescape_escape: "unescape (json_escape c) = of_char c"
proof -
  have "of_char (CHR 0x5C) = (0x5C :: nat)" by simp
  then have q: "c = CHR 0x5C \<longleftrightarrow> of_char c = (0x5C :: nat)" by (metis char_of_char)
  have h: "(of_char c :: nat) < 32 \<Longrightarrow> hex_digit (''0123456789abcdef'' ! (of_char c div 16)) = Some (of_char c div 16)"
    "hex_digit (''0123456789abcdef'' ! (of_char c mod 16)) = Some (of_char c mod 16)"
    by (rule hexdigit_lower; simp)+
  show ?thesis
    using q h by (simp add: json_escape_def unescape_def Let_def)
qed

lemma escape_prefix:
  assumes "json_escape c @ r = json_escape d @ r'"
  shows "c = d \<and> r = r'"
proof -
  have "length (json_escape c) = length (json_escape d)"
    using escape_length_append [of c r] escape_length_append [of d r'] assms by simp
  then have "json_escape c = json_escape d" "r = r'" using assms by simp_all
  then show ?thesis using unescape_escape [of c] unescape_escape [of d] by (metis char_of_char)
qed

lemma escape_no_quote: "json_escape c @ r = CHR 0x22 # r' \<Longrightarrow> False"
  by (auto simp: json_escape_def Let_def split: if_splits)

lemma quote_prefix: "json_quote s @ r = json_quote t @ r' \<Longrightarrow> s = t \<and> r = r'"
proof -
  have "concat (map json_escape s) @ CHR 0x22 # r = concat (map json_escape t) @ CHR 0x22 # r' \<Longrightarrow> s = t \<and> r = r'"
  proof (induction s arbitrary: t)
    case Nil
    then show ?case by (cases t) (auto dest: escape_no_quote [OF sym])
  next
    case (Cons c s)
    then obtain d t' where t: "t = d # t'" by (cases t) (auto dest: escape_no_quote)
    with Cons.prems escape_prefix [of c "concat (map json_escape s) @ CHR 0x22 # r" d "concat (map json_escape t') @ CHR 0x22 # r'"]
    have "c = d" "concat (map json_escape s) @ CHR 0x22 # r = concat (map json_escape t') @ CHR 0x22 # r'" by auto
    with Cons.IH t show ?case by blast
  qed
  then show "json_quote s @ r = json_quote t @ r' \<Longrightarrow> s = t \<and> r = r'" by (simp add: json_quote_def)
qed

lemma browser_data_shape:
  "\<exists>r. makeBrowserData J b ty ch o' cid =
     CHR ''{'' # json_quote ''typ'' @ CHR '':'' # json_quote ty @ CHR '','' # json_quote ''challenge'' @ CHR '':'' # json_quote ch
     @ CHR '','' # json_quote ''origin'' @ CHR '':'' # json_quote o' @ r"
  by (simp add: makeBrowserData_def del: append_Cons) (cases b; simp)

text \<open>
  The client data that is hashed and signed determines its type, the server's challenge and the origin,
  whatever they contain: a response for one origin, challenge or kind of request is never one for another.
\<close>

theorem client_data_binds:
  assumes "makeBrowserData J b ty ch o1 cid = makeBrowserData J' b' ty' ch' o2 cid'"
  shows "ty = ty' \<and> ch = ch' \<and> o1 = o2"
proof -
  obtain r r' where eq:
    "CHR ''{'' # json_quote ''typ'' @ CHR '':'' # json_quote ty @ CHR '','' # json_quote ''challenge'' @ CHR '':'' # json_quote ch
     @ CHR '','' # json_quote ''origin'' @ CHR '':'' # json_quote o1 @ r =
     CHR ''{'' # json_quote ''typ'' @ CHR '':'' # json_quote ty' @ CHR '','' # json_quote ''challenge'' @ CHR '':'' # json_quote ch'
     @ CHR '','' # json_quote ''origin'' @ CHR '':'' # json_quote o2 @ r'"
    using browser_data_shape [of J b ty ch o1 cid] browser_data_shape [of J' b' ty' ch' o2 cid'] assms by metis
  then have "json_quote ty @ CHR '','' # json_quote ''challenge'' @ CHR '':'' # json_quote ch @ CHR '','' # json_quote ''origin'' @ CHR '':'' # json_quote o1 @ r
      = json_quote ty' @ CHR '','' # json_quote ''challenge'' @ CHR '':'' # json_quote ch' @ CHR '','' # json_quote ''origin'' @ CHR '':'' # json_quote o2 @ r'"
    by simp
  from quote_prefix [OF this] have t: "ty = ty'" and
    "json_quote ch @ CHR '','' # json_quote ''origin'' @ CHR '':'' # json_quote o1 @ r
      = json_quote ch' @ CHR '','' # json_quote ''origin'' @ CHR '':'' # json_quote o2 @ r'" by simp_all
  from quote_prefix [OF this(2)] have c: "ch = ch'" and "json_quote o1 @ r = json_quote o2 @ r'" by simp_all
  from quote_prefix [OF this(2)] t c show ?thesis by simp
qed

definition plain_json :: json_lib where
  "plain_json = \<lparr>json_parse = (\<lambda>_. None), string_number = (\<lambda>_. None)\<rparr>"

theorem client_data_binds_witness:
  "makeBrowserData plain_json True ''x'' ''c'' ''https://a.com'' None = makeBrowserData plain_json True ''x'' ''c'' ''https://a.com'' (Some [])
   \<and> makeSignBrowserData plain_json True [CHR 0x22, CHR ''a''] ''https://a.com'' None
      \<noteq> makeEnrollBrowserData plain_json True [CHR 0x22, CHR ''a''] ''https://a.com'' None"
proof
  show "makeBrowserData plain_json True ''x'' ''c'' ''https://a.com'' None = makeBrowserData plain_json True ''x'' ''c'' ''https://a.com'' (Some [])"
    by (simp add: makeBrowserData_def tlsChannelIdValue_def)
  show "makeSignBrowserData plain_json True [CHR 0x22, CHR ''a''] ''https://a.com'' None
      \<noteq> makeEnrollBrowserData plain_json True [CHR 0x22, CHR ''a''] ''https://a.com'' None"
  proof
    assume "makeSignBrowserData plain_json True [CHR 0x22, CHR ''a''] ''https://a.com'' None
      = makeEnrollBrowserData plain_json True [CHR 0x22, CHR ''a''] ''https://a.com'' None"
    then show False
      unfolding makeSignBrowserData_def makeEnrollBrowserData_def by (auto dest: client_data_binds)
  qed
qed

subsection \<open>Requests for the helper\<close>

text \<open>
  \<open>None\<close>: an exception, the hash of \<open>undefined\<close>. \<open>hash\<close> is the function that hashes the challenge of a key
  handle; a valid challenge has a key handle.
\<close>

definition encodedSha256 :: "string \<Rightarrow> string option \<Rightarrow> string option" where
  "encodedSha256 keyHandle challenge = map_option (\<lambda>c. B64_encode (sha256HashOfString c) None) challenge"

definition encodeSignChallenge :: "string option \<Rightarrow> string option \<Rightarrow> (string \<Rightarrow> string option \<Rightarrow> string option)
    \<Rightarrow> web_challenge \<Rightarrow> helper_challenge option" where
  "encodeSignChallenge opt_defaultChallenge opt_defaultAppId hash c =
     (let keyHandle = (case wc_keyHandle c of Some k \<Rightarrow> k | None \<Rightarrow> []);
          challengeValue = (if wc_challenge c \<noteq> None then wc_challenge c else opt_defaultChallenge);
          appId = (if wc_appId c \<noteq> None then wc_appId c else opt_defaultAppId)
      in case (hash keyHandle challengeValue, appId) of
           (Some h, Some a) \<Rightarrow> Some \<lparr>hc_challengeHash = h, hc_appIdHash = B64_encode (sha256HashOfString a) None,
              hc_keyHandle = keyHandle,
              hc_version = Some (case wc_version c of Some v \<Rightarrow> if v = [] then U2F_V1 else v | None \<Rightarrow> U2F_V1)\<rparr>
         | _ \<Rightarrow> None)"

definition encodeSignChallenges :: "web_challenge list \<Rightarrow> string option \<Rightarrow> string option
    \<Rightarrow> (string \<Rightarrow> string option \<Rightarrow> string option) \<Rightarrow> helper_challenge list option" where
  "encodeSignChallenges signChallenges opt_defaultChallenge opt_defaultAppId hash =
     those (map (encodeSignChallenge opt_defaultChallenge opt_defaultAppId hash) signChallenges)"

record sign_helper_request =
  shr_signData :: "helper_challenge list"
  shr_timeout :: rat
  shr_timeoutSeconds :: rat

definition makeSignHelperRequest :: "helper_challenge list \<Rightarrow> rat option \<Rightarrow> sign_helper_request" where
  "makeSignHelperRequest challenges opt_timeoutSeconds =
     (let t = (case opt_timeoutSeconds of Some t \<Rightarrow> t | None \<Rightarrow> 0)
      in \<lparr>shr_signData = challenges, shr_timeout = t, shr_timeoutSeconds = t\<rparr>)"

end
