(* ===== verification/Helpers.thy ===== *)
theory Helpers
  imports WebRequest
begin

text \<open>
  requesthelper.js, generichelper.js, usbhelper.js, delegatinghelper.js, externalhelper.js and
  helperwhitelist.js: the helpers that carry out a request, behind one interface. A delegating handler asks
  all helpers and reports the first success or the last error; it keeps the promise of \<open>notify_once\<close>. What
  the handlers of other helpers do is listed in the trace, and what they answer is an event. Replies are kept
  with what their receivers look at first, the type and the code; the rest is a parameter \<open>'d\<close>.
\<close>

subsection \<open>Replies (requesthelper.js)\<close>

record 'd helper_reply =
  hr_type :: "string option"
  hr_code :: "int option"
  hr_data :: "'d option"

definition replace_reply :: "string \<Rightarrow> string" where
  "replace_reply t = replace_request t ''_reply''"

definition makeHelperErrorResponse :: "string option \<Rightarrow> int \<Rightarrow> string option \<Rightarrow> 'd helper_reply" where
  "makeHelperErrorResponse request_type code opt_defaultType =
     \<lparr>hr_type = Some (if truthy request_type then replace_reply (the request_type)
        else if truthy opt_defaultType then the opt_defaultType else ''unknown_type_reply''),
      hr_code = Some code, hr_data = None\<rparr>"

definition reply_failed :: "'d helper_reply \<Rightarrow> bool" where
  "reply_failed r = (case hr_code r of None \<Rightarrow> False | Some c \<Rightarrow> c \<noteq> 0)"

subsection \<open>Handlers by the type of the request (generichelper.js, usbhelper.js)\<close>

type_synonym ('r, 'h) handler_factories = "('r \<Rightarrow> 'h) jsobj"

definition registerHandlerFactory :: "string \<Rightarrow> ('r \<Rightarrow> 'h) \<Rightarrow> ('r, 'h) handler_factories \<Rightarrow> ('r, 'h) handler_factories" where
  "registerHandlerFactory type factory hf = AList.update type factory hf"

definition generic_getHandler :: "('r \<Rightarrow> string) \<Rightarrow> 'r \<Rightarrow> ('r, 'h) handler_factories \<Rightarrow> 'h option" where
  "generic_getHandler type_of request hf = map_option (\<lambda>f. f request) (map_of hf (type_of request))"

definition UsbHelper :: "('r \<Rightarrow> 'h) \<Rightarrow> ('r \<Rightarrow> 'h) \<Rightarrow> ('r, 'h) handler_factories" where
  "UsbHelper enroll_handler sign_handler =
     registerHandlerFactory ''sign_helper_request'' sign_handler
       (registerHandlerFactory ''enroll_helper_request'' enroll_handler [])"

lemma usb_getHandler:
  "generic_getHandler type_of r (UsbHelper e s) =
     (if type_of r = ''sign_helper_request'' then Some (s r) else if type_of r = ''enroll_helper_request'' then Some (e r) else None)"
  by (simp add: generic_getHandler_def UsbHelper_def registerHandlerFactory_def)

lemma registered_handler:
  "generic_getHandler type_of r (registerHandlerFactory t f hf) =
     (if type_of r = t then Some (f r) else generic_getHandler type_of r hf)"
  by (simp add: generic_getHandler_def registerHandlerFactory_def update_conv')

subsection \<open>The white list (helperwhitelist.js)\<close>

record helper_whitelist =
  allowedExtensionIds :: "string jsobj"
  allowedBlindedExtensionIds :: "string jsobj"

definition blinded :: "string \<Rightarrow> string" where
  "blinded i = B64_encode (sha256HashOfString i) None"

definition getExtensionMnemonicOrEmptyString :: "helper_whitelist \<Rightarrow> string \<Rightarrow> string option" where
  "getExtensionMnemonicOrEmptyString w i =
     (case map_of (allowedExtensionIds w) i of Some m \<Rightarrow> Some m
      | None \<Rightarrow> map_of (allowedBlindedExtensionIds w) (blinded i))"

definition isExtensionAllowed :: "helper_whitelist \<Rightarrow> string \<Rightarrow> bool" where
  "isExtensionAllowed w i = (getExtensionMnemonicOrEmptyString w i \<noteq> None)"

definition getExtensionMnemonic :: "helper_whitelist \<Rightarrow> string \<Rightarrow> string option" where
  "getExtensionMnemonic w i =
     (let mnemonic = getExtensionMnemonicOrEmptyString w i in if mnemonic = Some [] then None else mnemonic)"

definition addAllowedExtension :: "string \<Rightarrow> string option \<Rightarrow> helper_whitelist \<Rightarrow> helper_whitelist" where
  "addAllowedExtension i opt_mnemonic w =
     w\<lparr>allowedExtensionIds := AList.update i (case opt_mnemonic of Some m \<Rightarrow> m | None \<Rightarrow> []) (allowedExtensionIds w)\<rparr>"

definition addAllowedBlindedExtension :: "string \<Rightarrow> string option \<Rightarrow> helper_whitelist \<Rightarrow> helper_whitelist" where
  "addAllowedBlindedExtension b opt_mnemonic w =
     w\<lparr>allowedBlindedExtensionIds :=
        AList.update b (case opt_mnemonic of Some m \<Rightarrow> m | None \<Rightarrow> []) (allowedBlindedExtensionIds w)\<rparr>"

definition empty_whitelist :: helper_whitelist where
  "empty_whitelist = \<lparr>allowedExtensionIds = [], allowedBlindedExtensionIds = []\<rparr>"

lemma allowed_iff:
  "isExtensionAllowed w i \<longleftrightarrow> i \<in> fst ` set (allowedExtensionIds w) \<or> blinded i \<in> fst ` set (allowedBlindedExtensionIds w)"
  unfolding isExtensionAllowed_def getExtensionMnemonicOrEmptyString_def dom_map_of_conv_image_fst [symmetric]
  by (auto split: option.split)

lemma allowed_blinded:
  "isExtensionAllowed (addAllowedBlindedExtension b m w) i \<longleftrightarrow> isExtensionAllowed w i \<or> blinded i = b"
  by (auto simp: allowed_iff addAllowedBlindedExtension_def)

lemma allowed_plain:
  "isExtensionAllowed (addAllowedExtension j m w) i \<longleftrightarrow> isExtensionAllowed w i \<or> i = j"
  by (auto simp: allowed_iff addAllowedExtension_def)

subsection \<open>A delegating handler (delegatinghelper.js)\<close>

datatype 'd dl_effect =
    RunHelper nat
  | CloseHelper nat
  | DlCallback "'d helper_reply" "string option"

text \<open>The tracker of a helper: whether it gave a handler, and whether that completed (a field the constructor does not set).\<close>

record delegated_tracker =
  tr_handler :: bool
  tr_complete :: bool

record 'd delegating =
  dl_trackers :: "delegated_tracker list"
  dl_done :: bool
  dl_running :: nat
  dl_cb :: bool
  dl_out :: "'d dl_effect list"

definition DelegatingRequestHandler :: "nat \<Rightarrow> 'd delegating" where
  "DelegatingRequestHandler n =
     \<lparr>dl_trackers = replicate n \<lparr>tr_handler = False, tr_complete = False\<rparr>, dl_done = False, dl_running = 0,
      dl_cb = False, dl_out = []\<rparr>"

definition dl_emit :: "'d dl_effect \<Rightarrow> 'd delegating \<Rightarrow> 'd delegating" where
  "dl_emit e d = d\<lparr>dl_out := dl_out d @ [e]\<rparr>"

definition handlers_of :: "'d delegating \<Rightarrow> nat list" where
  "handlers_of d = filter (\<lambda>i. tr_handler (dl_trackers d ! i)) [0..<length (dl_trackers d)]"

definition dl_close :: "'d delegating \<Rightarrow> 'd delegating" where
  "dl_close d = fold (\<lambda>i. dl_emit (CloseHelper i)) (handlers_of d) (d\<lparr>dl_done := True\<rparr>)"

definition dl_helperComplete :: "nat \<Rightarrow> 'd helper_reply \<Rightarrow> string option \<Rightarrow> 'd delegating \<Rightarrow> 'd delegating" where
  "dl_helperComplete i reply opt_source d =
     (if dl_done d then d
      else if tr_complete (dl_trackers d ! i) then d
      else (let d1 = d\<lparr>dl_trackers := (dl_trackers d)[i := (dl_trackers d ! i)\<lparr>tr_complete := True\<rparr>]\<rparr> in
        if reply_failed reply
        then (if dl_running d1 = 0 then d1
              else (let d2 = d1\<lparr>dl_running := dl_running d1 - 1\<rparr> in
                if dl_running d2 = 0 then dl_emit (DlCallback reply opt_source) (dl_close d2) else d2))
        else dl_emit (DlCallback reply opt_source) (dl_close d1)))"

text \<open>
  What a helper does when it is asked: whether it gives a handler, the completions the handler makes before
  its \<open>run\<close> returns, and what \<open>run\<close> returns.
\<close>

record 'd helper_answer =
  an_handler :: bool
  an_completes :: "('d helper_reply \<times> string option) list"
  an_accepts :: bool

definition dl_ask :: "(nat \<Rightarrow> 'd helper_answer) \<Rightarrow> nat \<Rightarrow> 'd delegating \<times> bool \<Rightarrow> 'd delegating \<times> bool" where
  "dl_ask ans i s =
     (let (d, accepted) = s;
          d1 = d\<lparr>dl_trackers := (dl_trackers d)[i := (dl_trackers d ! i)\<lparr>tr_handler := an_handler (ans i)\<rparr>]\<rparr>
      in if \<not> an_handler (ans i) then (d1, accepted)
         else (let d2 = fold (\<lambda>(r, src). dl_helperComplete i r src) (an_completes (ans i)) (dl_emit (RunHelper i) d1) in
           if an_accepts (ans i) then (d2\<lparr>dl_running := dl_running d2 + 1\<rparr>, True) else (d2, accepted)))"

definition dl_run :: "(nat \<Rightarrow> 'd helper_answer) \<Rightarrow> 'd delegating \<Rightarrow> 'd delegating \<times> bool" where
  "dl_run ans d =
     (if dl_cb d then (d, False) else fold (dl_ask ans) [0..<length (dl_trackers d)] (d\<lparr>dl_cb := True\<rparr>, False))"

datatype 'd dl_event =
    DlRun "nat \<Rightarrow> 'd helper_answer"
  | DlComplete nat "'d helper_reply" "string option"
  | DlClose

fun dl_step :: "'d dl_event \<Rightarrow> 'd delegating \<Rightarrow> 'd delegating" where
  "dl_step (DlRun ans) d = fst (dl_run ans d)"
| "dl_step (DlComplete i r src) d = dl_helperComplete i r src d"
| "dl_step DlClose d = dl_close d"

definition dl_replies :: "'d delegating \<Rightarrow> ('d helper_reply \<times> string option) list" where
  "dl_replies d = concat (map (\<lambda>e. case e of DlCallback r s \<Rightarrow> [(r, s)] | _ \<Rightarrow> []) (dl_out d))"

lemma dl_emit_fields [simp]:
  "dl_trackers (dl_emit e d) = dl_trackers d" "dl_done (dl_emit e d) = dl_done d" "dl_running (dl_emit e d) = dl_running d"
  "dl_cb (dl_emit e d) = dl_cb d" "dl_out (dl_emit e d) = dl_out d @ [e]"
  by (simp_all add: dl_emit_def)

lemma dl_emits:
  "dl_trackers (fold (\<lambda>i. dl_emit (f i)) is d) = dl_trackers d" "dl_done (fold (\<lambda>i. dl_emit (f i)) is d) = dl_done d"
  "dl_running (fold (\<lambda>i. dl_emit (f i)) is d) = dl_running d" "dl_cb (fold (\<lambda>i. dl_emit (f i)) is d) = dl_cb d"
  "dl_out (fold (\<lambda>i. dl_emit (f i)) is d) = dl_out d @ map f is"
  by (induction "is" arbitrary: d) simp_all

lemma dl_close_fields [simp]:
  "dl_trackers (dl_close d) = dl_trackers d" "dl_done (dl_close d)" "dl_running (dl_close d) = dl_running d"
  "dl_cb (dl_close d) = dl_cb d" "dl_out (dl_close d) = dl_out d @ map CloseHelper (handlers_of d)"
  by (simp_all add: dl_close_def dl_emits)

lemma dl_replies_emit [simp]:
  "dl_replies (dl_emit e d) = dl_replies d @ (case e of DlCallback r s \<Rightarrow> [(r, s)] | _ \<Rightarrow> [])"
  "dl_replies (d\<lparr>dl_trackers := ts\<rparr>) = dl_replies d" "dl_replies (d\<lparr>dl_running := n\<rparr>) = dl_replies d"
  "dl_replies (d\<lparr>dl_cb := b\<rparr>) = dl_replies d"
  by (simp_all add: dl_replies_def)

lemma dl_replies_close [simp]: "dl_replies (dl_close d) = dl_replies d"
proof -
  have "concat (map (\<lambda>e. case e of DlCallback r s \<Rightarrow> [(r, s)] | _ \<Rightarrow> []) (map CloseHelper is)) = []" for "is" by (induction "is") simp_all
  then show ?thesis by (simp add: dl_replies_def)
qed

subsection \<open>One report\<close>

text \<open>A change that reports nothing, or makes the report and is done with it; and none once the handler is done.\<close>

definition reported :: "'d delegating \<Rightarrow> 'd delegating \<Rightarrow> bool" where
  "reported d d' \<longleftrightarrow> (dl_done d \<longrightarrow> dl_done d' \<and> dl_replies d' = dl_replies d)
     \<and> (dl_replies d' = dl_replies d \<or> (\<exists>x. dl_replies d' = dl_replies d @ [x] \<and> dl_done d'))"

lemma reported_trans: "reported d d1 \<Longrightarrow> reported d1 d2 \<Longrightarrow> reported d d2"
  unfolding reported_def by metis

lemma reported_complete: "reported d (dl_helperComplete i r src d)"
  by (simp add: reported_def dl_helperComplete_def Let_def)

lemma reported_completes: "reported d (fold (\<lambda>(r, src). dl_helperComplete i r src) rs d)"
proof (induction rs arbitrary: d)
  case Nil
  then show ?case by (simp add: reported_def)
next
  case (Cons a rs)
  obtain r src where "a = (r, src)" by fastforce
  with reported_trans [OF reported_complete Cons.IH] show ?case by simp
qed

lemma reported_same: "dl_done d' = dl_done d \<Longrightarrow> dl_replies d' = dl_replies d \<Longrightarrow> reported d d'"
  by (simp add: reported_def)

lemma reported_ask: "reported d (fst (dl_ask ans i (d, acc)))"
proof -
  let ?d1 = "d\<lparr>dl_trackers := (dl_trackers d)[i := (dl_trackers d ! i)\<lparr>tr_handler := an_handler (ans i)\<rparr>]\<rparr>"
  let ?d2 = "fold (\<lambda>(r, src). dl_helperComplete i r src) (an_completes (ans i)) (dl_emit (RunHelper i) ?d1)"
  have 1: "reported d ?d1" and 2: "reported d (dl_emit (RunHelper i) ?d1)" by (rule reported_same; simp)+
  have 3: "reported d ?d2" by (rule reported_trans [OF 2 reported_completes])
  have "reported d (?d2\<lparr>dl_running := dl_running ?d2 + 1\<rparr>)" by (rule reported_trans [OF 3 reported_same]) simp_all
  with 1 3 show ?thesis
    by (cases "an_handler (ans i)"; cases "an_accepts (ans i)") (simp_all add: dl_ask_def Let_def)
qed

lemma reported_run: "reported d (fst (dl_run ans d))"
proof -
  have "reported d (fst (fold (dl_ask ans) is (d, acc)))" for "is" d and acc
  proof (induction "is" arbitrary: d acc)
    case Nil
    then show ?case by (simp add: reported_def)
  next
    case (Cons i "is")
    obtain d1 acc1 where 1: "dl_ask ans i (d, acc) = (d1, acc1)" by fastforce
    then have "reported d d1" using reported_ask [of d ans i acc] by simp
    from reported_trans [OF this Cons.IH] show ?case using 1 by simp
  qed
  note loop = this
  have "reported d (d\<lparr>dl_cb := True\<rparr>)" by (rule reported_same) simp_all
  from reported_trans [OF this loop] show ?thesis by (simp add: dl_run_def reported_same)
qed

lemma reported_step: "reported d (dl_step e d)"
  by (cases e) (simp_all add: reported_run reported_complete, simp add: reported_def)

interpretation delegating: notify_once dl_step dl_done "\<lambda>d. length (dl_replies d)"
proof unfold_locales
  fix e :: "'a dl_event" and s :: "'a delegating"
  show "dl_done s \<Longrightarrow> length (dl_replies (dl_step e s)) = length (dl_replies s)" "dl_done s \<Longrightarrow> dl_done (dl_step e s)"
    using reported_step [of s e] unfolding reported_def by simp_all
  show "\<not> dl_done s \<Longrightarrow> length (dl_replies (dl_step e s)) = length (dl_replies s)
     \<or> (length (dl_replies (dl_step e s)) = Suc (length (dl_replies s)) \<and> dl_done (dl_step e s))"
    using reported_step [of s e] unfolding reported_def by auto
qed

lemma delegating_once: "length (dl_replies (fold dl_step es (DelegatingRequestHandler n))) \<le> 1"
  by (rule delegating.at_most_once) (simp add: dl_replies_def DelegatingRequestHandler_def)

subsection \<open>What is reported\<close>

text \<open>
  When no helper completes while it is being asked, the handler reports the first success, and when all that
  accepted the request have failed, the last failure.
\<close>

fun verdict :: "nat \<Rightarrow> (nat \<times> 'd helper_reply \<times> string option) list \<Rightarrow> ('d helper_reply \<times> string option) list" where
  "verdict k [] = []"
| "verdict k ((i, r, src) # cs) = (if \<not> reply_failed r \<or> k = 1 then [(r, src)] else verdict (k - 1) cs)"

definition complete_all :: "(nat \<times> 'd helper_reply \<times> string option) list \<Rightarrow> 'd delegating \<Rightarrow> 'd delegating" where
  "complete_all cs d = fold (\<lambda>(i, r, src). dl_helperComplete i r src) cs d"

lemma complete_all_step: "complete_all ((i, r, src) # cs) d = complete_all cs (dl_step (DlComplete i r src) d)"
  by (simp add: complete_all_def)

lemma complete_all_done: "dl_done d \<Longrightarrow> complete_all cs d = d"
  unfolding complete_all_def by (induction cs) (auto simp: dl_helperComplete_def)

lemma verdict_run:
  assumes "\<not> dl_done d" "dl_running d = k" "length cs \<le> k" "distinct (map fst cs)"
    and "list_all (\<lambda>i. i < length (dl_trackers d) \<and> \<not> tr_complete (dl_trackers d ! i)) (map fst cs)"
  shows "dl_replies (complete_all cs d) = dl_replies d @ verdict k cs
    \<and> (verdict k cs \<noteq> [] \<longrightarrow> dl_done (complete_all cs d) \<and> (\<exists>xs. dl_out (complete_all cs d) = xs @ map CloseHelper (handlers_of d) @ [DlCallback (fst (last (verdict k cs))) (snd (last (verdict k cs)))]))"
  using assms
proof (induction cs arbitrary: d k)
  case Nil
  then show ?case by (simp add: complete_all_def)
next
  case (Cons c cs)
  obtain i r src where c: "c = (i, r, src)" by (metis prod_cases3)
  let ?ts = "(dl_trackers d)[i := (dl_trackers d ! i)\<lparr>tr_complete := True\<rparr>]"
  let ?d1 = "d\<lparr>dl_trackers := ?ts\<rparr>"
  have i: "i < length (dl_trackers d)" "\<not> tr_complete (dl_trackers d ! i)" and fresh: "i \<notin> set (map fst cs)"
    using Cons.prems c by auto
  have h: "handlers_of ?d1 = handlers_of d"
    unfolding handlers_of_def using i(1) by (intro filter_cong) (auto simp: nth_list_update)
  have h2: "handlers_of (?d1\<lparr>dl_running := n\<rparr>) = handlers_of d" for n
    using h by (simp add: handlers_of_def)
  have k: "k \<noteq> 0" using Cons.prems by auto
  show ?case
  proof (cases "\<not> reply_failed r \<or> k = 1")
    case True
    have "\<exists>d'. dl_step (DlComplete i r src) d = dl_emit (DlCallback r src) (dl_close d') \<and> handlers_of d' = handlers_of d
        \<and> dl_replies d' = dl_replies d"
    proof (cases "reply_failed r")
      case True
      then have "dl_step (DlComplete i r src) d = dl_emit (DlCallback r src) (dl_close (?d1\<lparr>dl_running := dl_running ?d1 - 1\<rparr>))"
        using Cons.prems i \<open>\<not> reply_failed r \<or> k = 1\<close> by (simp add: dl_helperComplete_def Let_def)
      then show ?thesis using h2 by (intro exI [of _ "?d1\<lparr>dl_running := dl_running ?d1 - 1\<rparr>"]) simp
    next
      case False
      then have "dl_step (DlComplete i r src) d = dl_emit (DlCallback r src) (dl_close ?d1)"
        using Cons.prems i by (simp add: dl_helperComplete_def Let_def)
      then show ?thesis using h by (intro exI [of _ ?d1]) simp
    qed
    then obtain d' where d': "dl_step (DlComplete i r src) d = dl_emit (DlCallback r src) (dl_close d')" "handlers_of d' = handlers_of d"
      "dl_replies d' = dl_replies d" by blast
    show ?thesis unfolding c complete_all_step d'(1) using True d'(2,3) by (simp add: complete_all_done)
  next
    case False
    let ?d2 = "?d1\<lparr>dl_running := dl_running d - 1\<rparr>"
    have s: "dl_step (DlComplete i r src) d = ?d2"
      using False k Cons.prems i by (simp add: dl_helperComplete_def Let_def)
    have "list_all (\<lambda>j. j < length (dl_trackers ?d2) \<and> \<not> tr_complete (dl_trackers ?d2 ! j)) (map fst cs)"
      unfolding list_all_iff
    proof
      fix j assume j: "j \<in> set (map fst cs)"
      with fresh have "i \<noteq> j" by blast
      moreover have "j < length (dl_trackers d) \<and> \<not> tr_complete (dl_trackers d ! j)"
        using Cons.prems(5) j by (auto simp: list_all_iff)
      ultimately show "j < length (dl_trackers ?d2) \<and> \<not> tr_complete (dl_trackers ?d2 ! j)" by simp
    qed
    from Cons.IH [OF _ _ _ _ this, of "k - 1"] Cons.prems False
    show ?thesis unfolding c complete_all_step s using h2 by simp
  qed
qed

definition verdict_of :: "nat \<Rightarrow> (nat \<times> 'd helper_reply \<times> string option) list \<Rightarrow> ('d helper_reply \<times> string option) list" where
  "verdict_of k cs =
     (case dropWhile (\<lambda>(i, r, src). reply_failed r) cs of (i, r, src) # _ \<Rightarrow> [(r, src)]
      | [] \<Rightarrow> if cs \<noteq> [] \<and> length cs = k then [snd (last cs)] else [])"

lemma verdict_closed: "length cs \<le> k \<Longrightarrow> verdict k cs = verdict_of k cs"
proof (induction k cs rule: verdict.induct)
  case (1 k)
  then show ?case by (simp add: verdict_of_def)
next
  case (2 k i r src cs)
  show ?case
  proof (cases "\<not> reply_failed r \<or> k = 1")
    case True
    then show ?thesis using 2 by (auto simp: verdict_of_def)
  next
    case False
    then have "verdict k ((i, r, src) # cs) = verdict_of (k - 1) cs" using 2 by simp
    moreover have "verdict_of (k - 1) cs = verdict_of k ((i, r, src) # cs)"
    proof -
      define w where "w = dropWhile (\<lambda>(i, r, src). reply_failed r) cs"
      have "verdict_of (k - 1) cs = (case w of (i, r, src) # _ \<Rightarrow> [(r, src)]
          | [] \<Rightarrow> if cs \<noteq> [] \<and> length cs = k - 1 then [snd (last cs)] else [])"
        by (simp only: verdict_of_def w_def)
      moreover have "verdict_of k ((i, r, src) # cs) = (case w of (i, r, src) # _ \<Rightarrow> [(r, src)]
          | [] \<Rightarrow> if Suc (length cs) = k then [snd (last ((i, r, src) # cs))] else [])"
        using False by (simp add: verdict_of_def w_def)
      ultimately show ?thesis using False 2(2) by (cases w) auto
    qed
    ultimately show ?thesis by simp
  qed
qed

definition helper_accepts :: "(nat \<Rightarrow> 'd helper_answer) \<Rightarrow> nat \<Rightarrow> bool" where
  "helper_accepts ans i \<longleftrightarrow> an_handler (ans i) \<and> an_accepts (ans i)"

lemma asked_all:
  assumes "list_all (\<lambda>i. an_completes (ans i) = [] \<and> i < length (dl_trackers d)) is"
  shows "dl_done (fst (fold (dl_ask ans) is (d, acc))) = dl_done d
    \<and> dl_running (fst (fold (dl_ask ans) is (d, acc))) = dl_running d + length (filter (helper_accepts ans) is)
    \<and> dl_replies (fst (fold (dl_ask ans) is (d, acc))) = dl_replies d
    \<and> length (dl_trackers (fst (fold (dl_ask ans) is (d, acc)))) = length (dl_trackers d)
    \<and> (\<forall>j < length (dl_trackers d). dl_trackers (fst (fold (dl_ask ans) is (d, acc))) ! j
         = (if j \<in> set is then (dl_trackers d ! j)\<lparr>tr_handler := an_handler (ans j)\<rparr> else dl_trackers d ! j))
    \<and> snd (fold (dl_ask ans) is (d, acc)) = (acc \<or> list_ex (helper_accepts ans) is)"
  using assms
proof (induction "is" arbitrary: d acc)
  case Nil
  then show ?case by simp
next
  case (Cons i "is")
  obtain d1 acc1 where 1: "dl_ask ans i (d, acc) = (d1, acc1)" by fastforce
  then have d1: "dl_done d1 = dl_done d" "dl_running d1 = dl_running d + (if helper_accepts ans i then 1 else 0)"
    "dl_replies d1 = dl_replies d" "acc1 = (acc \<or> helper_accepts ans i)"
    "dl_trackers d1 = (dl_trackers d)[i := (dl_trackers d ! i)\<lparr>tr_handler := an_handler (ans i)\<rparr>]"
    using Cons.prems by (auto simp: dl_ask_def Let_def helper_accepts_def split: if_splits)
  have "list_all (\<lambda>i. an_completes (ans i) = [] \<and> i < length (dl_trackers d1)) is"
    using Cons.prems d1(5) by simp
  from Cons.IH [OF this, of acc1] show ?case using 1 d1 Cons.prems by (auto simp: nth_list_update)
qed

lemma delegating_asked:
  fixes ans :: "nat \<Rightarrow> 'd helper_answer"
  assumes "list_all (\<lambda>i. an_completes (ans i) = []) [0..<n]"
  defines "d \<equiv> fst (dl_run ans (DelegatingRequestHandler n))"
  shows "\<not> dl_done d" "dl_running d = length (filter (helper_accepts ans) [0..<n])" "dl_replies d = []" "length (dl_trackers d) = n"
    "i < n \<Longrightarrow> tr_handler (dl_trackers d ! i) = an_handler (ans i) \<and> \<not> tr_complete (dl_trackers d ! i)"
    "snd (dl_run ans (DelegatingRequestHandler n)) = list_ex (helper_accepts ans) [0..<n]"
proof -
  let ?d0 = "(DelegatingRequestHandler n :: 'd delegating)\<lparr>dl_cb := True\<rparr>"
  have l: "length (dl_trackers ?d0) = n" by (simp add: DelegatingRequestHandler_def)
  have "list_all (\<lambda>i. an_completes (ans i) = [] \<and> i < length (dl_trackers ?d0)) [0..<n]"
    using assms(1) l by (auto simp: list_all_iff)
  note * = asked_all [OF this, of False]
  have r: "dl_run ans (DelegatingRequestHandler n) = fold (dl_ask ans) [0..<n] (?d0, False)"
    using l by (simp add: dl_run_def DelegatingRequestHandler_def)
  have f: "\<not> dl_done ?d0" "dl_running ?d0 = 0" "dl_replies ?d0 = []" "i < n \<Longrightarrow> \<not> tr_complete (dl_trackers ?d0 ! i)"
    by (simp_all add: DelegatingRequestHandler_def dl_replies_def)
  show "\<not> dl_done d" "dl_running d = length (filter (helper_accepts ans) [0..<n])" "dl_replies d = []" "length (dl_trackers d) = n"
    "snd (dl_run ans (DelegatingRequestHandler n)) = list_ex (helper_accepts ans) [0..<n]"
    unfolding d_def r using * f l by simp_all
  show "i < n \<Longrightarrow> tr_handler (dl_trackers d ! i) = an_handler (ans i) \<and> \<not> tr_complete (dl_trackers d ! i)"
    unfolding d_def r using * f l by simp
qed


definition ok_reply :: "unit helper_reply" where
  "ok_reply = \<lparr>hr_type = Some ''sign_helper_reply'', hr_code = Some 0, hr_data = Some ()\<rparr>"

definition bad_reply :: "unit helper_reply" where
  "bad_reply = \<lparr>hr_type = Some ''sign_helper_reply'', hr_code = Some 7, hr_data = None\<rparr>"

definition willing :: "nat \<Rightarrow> unit helper_answer" where
  "willing i = \<lparr>an_handler = (i \<noteq> 1), an_completes = [], an_accepts = True\<rparr>"


text \<open>
  A failure that a helper reports while it is being asked is dropped, since the helper is counted only when its
  \<open>run\<close> has returned; and as the count never comes down again, no later failure is reported either.
\<close>

definition hasty :: "nat \<Rightarrow> unit helper_answer" where
  "hasty i = \<lparr>an_handler = True, an_completes = (if i = 0 then [(bad_reply, None)] else []), an_accepts = True\<rparr>"

theorem early_failure_lost:
  "dl_replies (complete_all [(1, bad_reply, None)] (fst (dl_run hasty (DelegatingRequestHandler 2)))) = []
   \<and> dl_replies (fst (dl_run hasty (DelegatingRequestHandler 1))) = []"
  by code_simp

text \<open>After a success during the asking the remaining helpers are asked all the same, and not closed.\<close>

definition quick :: "nat \<Rightarrow> unit helper_answer" where
  "quick i = \<lparr>an_handler = True, an_completes = (if i = 0 then [(ok_reply, None)] else []), an_accepts = True\<rparr>"

theorem asked_after_success:
  "dl_out (fst (dl_run quick (DelegatingRequestHandler 2))) = [RunHelper 0, CloseHelper 0, DlCallback ok_reply None, RunHelper 1]"
  by code_simp

subsection \<open>External helpers (externalhelper.js)\<close>

record 'r external_config =
  xc_appId :: string
  xc_source :: "string option"
  xc_defaultError :: int

datatype ('r, 'd) ex_effect =
    SendRequest string 'r
  | SendClose string
  | ExReply "'d helper_reply" "string option"

record ('r, 'd) external =
  ex_request :: 'r
  ex_type :: "string option"
  ex_config :: "'r external_config"
  ex_closed :: bool
  ex_pending :: nat
  ex_out :: "('r, 'd) ex_effect list"

definition ExternalHandler :: "'r \<Rightarrow> string option \<Rightarrow> 'r external_config \<Rightarrow> ('r, 'd) external" where
  "ExternalHandler request request_type config =
     \<lparr>ex_request = request, ex_type = request_type, ex_config = config, ex_closed = False, ex_pending = 0, ex_out = []\<rparr>"

definition ex_run :: "('r, 'd) external \<Rightarrow> ('r, 'd) external \<times> bool" where
  "ex_run h = (h\<lparr>ex_out := ex_out h @ [SendRequest (xc_appId (ex_config h)) (ex_request h)], ex_pending := ex_pending h + 1\<rparr>, True)"

definition makeDefaultErrorReply :: "('r, 'd) external \<Rightarrow> 'd helper_reply" where
  "makeDefaultErrorReply h = makeHelperErrorResponse (ex_type h) (xc_defaultError (ex_config h)) None"

text \<open>\<open>None\<close>: no response, with the error in \<open>chrome.runtime.lastError\<close>.\<close>

definition ex_respond :: "'d helper_reply option \<Rightarrow> ('r, 'd) external \<Rightarrow> ('r, 'd) external" where
  "ex_respond response h0 =
     (if ex_pending h0 = 0 then h0
      else (let h = h0\<lparr>ex_pending := ex_pending h0 - 1\<rparr> in
        if ex_closed h then h
        else (case response of
            None \<Rightarrow> h\<lparr>ex_out := ex_out h @ [ExReply (makeDefaultErrorReply h) None]\<rparr>
          | Some r \<Rightarrow> if truthy (hr_type r) then h\<lparr>ex_out := ex_out h @ [ExReply r (xc_source (ex_config h))]\<rparr>
                      else h\<lparr>ex_out := ex_out h @ [ExReply (makeDefaultErrorReply h) None]\<rparr>)))"

definition ex_close :: "('r, 'd) external \<Rightarrow> ('r, 'd) external" where
  "ex_close h = h\<lparr>ex_closed := True, ex_out := ex_out h @ [SendClose (xc_appId (ex_config h))]\<rparr>"

text \<open>Without a response the reply has the type of the request's replies, and the page gets a timeout.\<close>

lemma external_default:
  assumes "ex_pending h \<noteq> 0" "\<not> ex_closed h" "ex_type h = Some ''sign_helper_request''" "xc_defaultError (ex_config h) = TIMEOUT_STATUS"
  shows "ex_out (ex_respond None h) = ex_out h @ [ExReply \<lparr>hr_type = Some ''sign_helper_reply'', hr_code = Some TIMEOUT_STATUS, hr_data = None\<rparr> None]"
    "errorCode (mapDeviceStatusCodeToU2fError TIMEOUT_STATUS) = EC_TIMEOUT"
proof -
  have "replace_reply ''sign_helper_request'' = ''sign_helper_reply''" by code_simp
  then show "ex_out (ex_respond None h) = ex_out h @ [ExReply \<lparr>hr_type = Some ''sign_helper_reply'', hr_code = Some TIMEOUT_STATUS, hr_data = None\<rparr> None]"
    using assms by (simp add: ex_respond_def Let_def makeDefaultErrorReply_def makeHelperErrorResponse_def truthy_def)
  show "errorCode (mapDeviceStatusCodeToU2fError TIMEOUT_STATUS) = EC_TIMEOUT"
    by (simp add: mapDeviceStatusCodeToU2fError_def TIMEOUT_STATUS_def WRONG_DATA_STATUS_def)
qed

subsection \<open>Registered helpers (delegatinghelper.js)\<close>

text \<open>A helper with its identity: an external one, with the id of its application, or another.\<close>

datatype helper = ExternalHelper nat string | OtherHelper nat

record delegating_helper =
  dh_helpers :: "helper list"
  externalHelperIds :: "string jsobj"

definition DelegatingHelper :: delegating_helper where
  "DelegatingHelper = \<lparr>dh_helpers = [], externalHelperIds = []\<rparr>"

fun is_external :: "string \<Rightarrow> helper \<Rightarrow> bool" where
  "is_external a (ExternalHelper k b) = (a = b)"
| "is_external a (OtherHelper k) = False"

fun replace_helper :: "string \<Rightarrow> helper \<Rightarrow> helper list \<Rightarrow> helper list \<times> bool" where
  "replace_helper a h [] = ([], False)"
| "replace_helper a h (x # xs) =
     (if is_external a x then (h # xs, True) else (let (ys, found) = replace_helper a h xs in (x # ys, found)))"

fun addHelper :: "helper \<Rightarrow> delegating_helper \<Rightarrow> delegating_helper" where
  "addHelper (ExternalHelper k a) s =
     (if \<not> truthy (map_of (externalHelperIds s) a)
      then s\<lparr>externalHelperIds := AList.update a a (externalHelperIds s), dh_helpers := dh_helpers s @ [ExternalHelper k a]\<rparr>
      else (let (hs, found) = replace_helper a (ExternalHelper k a) (dh_helpers s)
            in s\<lparr>dh_helpers := (if found then hs else hs @ [ExternalHelper k a])\<rparr>))"
| "addHelper (OtherHelper k) s =
     (if OtherHelper k \<in> set (dh_helpers s) then s else s\<lparr>dh_helpers := dh_helpers s @ [OtherHelper k]\<rparr>)"

definition dh_getHandler :: "delegating_helper \<Rightarrow> 'd delegating" where
  "dh_getHandler s = DelegatingRequestHandler (length (dh_helpers s))"

text \<open>The list is a dictionary: external helpers by the id of their application, the others by themselves.\<close>

fun helper_key :: "helper \<Rightarrow> string + nat" where
  "helper_key (ExternalHelper k a) = Inl a"
| "helper_key (OtherHelper k) = Inr k"

definition keyed :: "helper list \<Rightarrow> ((string + nat) \<times> helper) list" where
  "keyed hs = map (\<lambda>h. (helper_key h, h)) hs"

definition registered :: "delegating_helper \<Rightarrow> bool" where
  "registered s \<longleftrightarrow> (\<forall>a. map_of (externalHelperIds s) a = (if list_ex (is_external a) (dh_helpers s) then Some a else None))"

lemma keyed_append: "k \<notin> fst ` set xs \<Longrightarrow> AList.update k v xs = xs @ [(k, v)]"
  by (induction xs) auto

lemma key_external: "Inl a \<in> helper_key ` set hs \<longleftrightarrow> list_ex (is_external a) hs"
proof (induction hs)
  case (Cons h hs)
  then show ?case by (cases h) auto
qed simp

lemma replace_keyed:
  "keyed (fst (replace_helper a (ExternalHelper k a) hs)) = (if list_ex (is_external a) hs then AList.update (Inl a) (ExternalHelper k a) (keyed hs) else keyed hs)
   \<and> snd (replace_helper a (ExternalHelper k a) hs) = list_ex (is_external a) hs
   \<and> list_ex (is_external b) (fst (replace_helper a (ExternalHelper k a) hs)) = list_ex (is_external b) hs"
proof (induction hs)
  case (Cons h hs)
  then show ?case by (cases h) (auto simp: keyed_def split: prod.splits)
qed (simp add: keyed_def)

lemma helper_key_other: "helper_key h = Inr k \<longleftrightarrow> h = OtherHelper k"
  by (cases h) auto

lemma keyed_keys: "fst ` set (keyed hs) = helper_key ` set hs"
  by (auto simp: keyed_def image_image)

lemma update_present: "distinct (map fst xs) \<Longrightarrow> (k, v) \<in> set xs \<Longrightarrow> AList.update k v xs = xs"
proof (induction xs)
  case (Cons x xs)
  then show ?case by (cases x) force
qed simp

lemma addHelper_keyed:
  assumes "registered s" "helper_key h \<noteq> Inl []" "distinct (map fst (keyed (dh_helpers s)))"
  shows "keyed (dh_helpers (addHelper h s)) = AList.update (helper_key h) h (keyed (dh_helpers s)) \<and> registered (addHelper h s)"
proof (cases h)
  case (ExternalHelper k a)
  let ?hs = "dh_helpers s"
  show ?thesis
  proof (cases "list_ex (is_external a) ?hs")
    case True
    then have t: "truthy (map_of (externalHelperIds s) a)"
      using assms(1,2) ExternalHelper by (simp add: registered_def truthy_def)
    obtain ys found where r: "replace_helper a (ExternalHelper k a) ?hs = (ys, found)" by fastforce
    have "keyed ys = AList.update (Inl a) h (keyed ?hs)" "found" "list_ex (is_external b) ys = list_ex (is_external b) ?hs" for b
      using replace_keyed [of a k ?hs b] r True ExternalHelper by simp_all
    then show ?thesis using t r ExternalHelper assms(1) by (simp add: registered_def)
  next
    case False
    then have t: "\<not> truthy (map_of (externalHelperIds s) a)" using assms(1) by (simp add: registered_def truthy_def)
    have "Inl a \<notin> fst ` set (keyed ?hs)" using False by (simp add: keyed_keys key_external)
    from keyed_append [OF this] t assms(1) ExternalHelper show ?thesis
      by (auto simp: keyed_def registered_def update_conv')
  qed
next
  case (OtherHelper k)
  show ?thesis
  proof (cases "h \<in> set (dh_helpers s)")
    case True
    then have "(helper_key h, h) \<in> set (keyed (dh_helpers s))" by (simp add: keyed_def)
    from update_present [OF assms(3) this] True OtherHelper assms(1) show ?thesis by simp
  next
    case False
    then have "Inr k \<notin> fst ` set (keyed (dh_helpers s))"
      using OtherHelper helper_key_other by (auto simp: keyed_keys) metis
    from keyed_append [OF this] False OtherHelper assms(1) show ?thesis by (simp add: keyed_def registered_def)
  qed
qed

text \<open>
  The helpers that were added form a dictionary in the order of first registration: an external helper
  replaces the one of the same application in its place, any other is added once. (An external helper whose
  application id is empty is never recognised.)
\<close>

theorem helpers_are_keyed:
  assumes "list_all (\<lambda>h. helper_key h \<noteq> Inl []) hs"
  shows "keyed (dh_helpers (fold addHelper hs DelegatingHelper)) = fold (\<lambda>h. AList.update (helper_key h) h) hs []"
proof -
  have "keyed (dh_helpers (fold addHelper hs s)) = fold (\<lambda>h. AList.update (helper_key h) h) hs (keyed (dh_helpers s))"
    if "registered s" "distinct (map fst (keyed (dh_helpers s)))" for s
    using assms that
  proof (induction hs arbitrary: s)
    case (Cons h hs)
    have "keyed (dh_helpers (addHelper h s)) = AList.update (helper_key h) h (keyed (dh_helpers s))" "registered (addHelper h s)"
      using addHelper_keyed [of s h] Cons.prems by simp_all
    moreover from this(1) Cons.prems(3) have "distinct (map fst (keyed (dh_helpers (addHelper h s))))" by (simp add: distinct_update)
    ultimately show ?case using Cons.IH [of "addHelper h s"] Cons.prems(1) by simp
  qed simp
  from this [of DelegatingHelper] show ?thesis by (simp add: registered_def DelegatingHelper_def keyed_def)
qed

theorem helpers_are_keyed_witness:
  "keyed (dh_helpers (fold addHelper [OtherHelper 0, ExternalHelper 1 ''ble'', OtherHelper 0, ExternalHelper 2 ''ble''] DelegatingHelper))
     = [(Inr 0, OtherHelper 0), (Inl ''ble'', ExternalHelper 2 ''ble'')]"
  by (subst helpers_are_keyed) (simp_all)

end
