(* ===== verification/UsbHandlers.thy ===== *)
theory UsbHandlers
  imports MultipleSigner
begin

unbundle bit_operations_syntax

text \<open>
  usbsignhandler.js and usbenrollhandler.js: the two helpers that answer a request with the tokens on the
  bus. Each drives a \<open>MultipleGnubbySigner\<close> and the tokens it hands over; these are numbers, what is asked
  of them and the replies to the caller are listed in the trace, and their answers are events. The handlers
  promise their caller one reply: both are instances of \<open>notify_once\<close>.
\<close>

subsection \<open>Signing\<close>

record multi_result =
  mr_code :: int
  mr_gnubby :: nat
  mr_challenge :: sign_challenge
  mr_info :: "bytes option"

record sign_response =
  re_appIdHash :: string
  re_challengeHash :: string
  re_keyHandle :: string
  re_signatureData :: string

datatype us_effect =
    StartSigner rat "helper_challenge list"
  | StopSigner
  | CloseToken nat
  | VersionOf nat
  | EnrollOn nat bytes bytes
  | SignReply int "sign_response option"

record usb_sign =
  us_signData :: "helper_challenge list"
  us_timeoutSeconds :: "rat option"
  us_running :: bool
  us_notified :: bool
  us_anyFound :: bool
  us_notEnrolled :: "nat list"
  us_signerError :: "int option"
  us_signer :: bool
  us_corrupt :: bool
  us_out :: "us_effect list"

definition UsbSignHandler :: "helper_challenge list \<Rightarrow> rat option \<Rightarrow> bool \<Rightarrow> usb_sign" where
  "UsbSignHandler signData timeoutSeconds corrupt =
     \<lparr>us_signData = signData, us_timeoutSeconds = timeoutSeconds, us_running = False, us_notified = False,
      us_anyFound = False, us_notEnrolled = [], us_signerError = None, us_signer = False, us_corrupt = corrupt,
      us_out = []\<rparr>"

definition US_DEFAULT_TIMEOUT_MILLIS :: rat where "US_DEFAULT_TIMEOUT_MILLIS = 30 * 1000"

definition us_emit :: "us_effect \<Rightarrow> usb_sign \<Rightarrow> usb_sign" where
  "us_emit e h = h\<lparr>us_out := us_out h @ [e]\<rparr>"

definition us_run :: "usb_sign \<Rightarrow> usb_sign \<times> bool" where
  "us_run h =
     (if us_running h then (h, False)
      else (let h1 = h\<lparr>us_running := True\<rparr> in
        if us_signData h1 = [] then (h1, False)
        else (let ms = (case us_timeoutSeconds h1 of Some t \<Rightarrow> if t \<noteq> 0 then t * 1000 else US_DEFAULT_TIMEOUT_MILLIS
                        | None \<Rightarrow> US_DEFAULT_TIMEOUT_MILLIS)
              in (us_emit (StartSigner ms (us_signData h1)) (h1\<lparr>us_signer := True\<rparr>), True))))"

definition us_close :: "usb_sign \<Rightarrow> usb_sign" where
  "us_close h =
     (let h1 = (fold (\<lambda>g. us_emit (CloseToken g)) (us_notEnrolled h) h)\<lparr>us_notEnrolled := []\<rparr> in
      if us_signer h1 then us_emit StopSigner (h1\<lparr>us_signer := False\<rparr>) else h1)"

definition us_notifyError :: "int \<Rightarrow> usb_sign \<Rightarrow> usb_sign" where
  "us_notifyError code h =
     (if us_notified h then h else us_emit (SignReply code None) (us_close (h\<lparr>us_notified := True\<rparr>)))"

definition flip_last :: "bytes \<Rightarrow> bytes" where
  "flip_last b = (if b = [] then [] else butlast b @ [last b XOR 0xff])"

definition us_notifySuccess :: "nat \<Rightarrow> sign_challenge \<Rightarrow> bytes \<Rightarrow> usb_sign \<Rightarrow> usb_sign" where
  "us_notifySuccess g ch info h =
     (if us_notified h then h
      else (let h1 = us_close (us_emit (CloseToken g) (h\<lparr>us_notified := True\<rparr>));
                info' = (if us_corrupt h1 then flip_last info else info);
                h2 = h1\<lparr>us_corrupt := False\<rparr>
            in us_emit (SignReply OK_STATUS (Some
                 \<lparr>re_appIdHash = B64_encode (sc_appIdHash ch) None, re_challengeHash = B64_encode (sc_challengeHash ch) None,
                  re_keyHandle = B64_encode (sc_keyHandle ch) None, re_signatureData = B64_encode info' None\<rparr>)) h2))"

definition signerCompleted :: "bool \<Rightarrow> usb_sign \<Rightarrow> usb_sign" where
  "signerCompleted pending h =
     (if \<not> us_anyFound h \<or> pending then us_notifyError TIMEOUT_STATUS h
      else (case us_signerError h of Some e \<Rightarrow> us_notifyError e h | None \<Rightarrow> h))"

definition sendBogusEnroll :: "nat \<Rightarrow> usb_sign \<Rightarrow> usb_sign" where
  "sendBogusEnroll g h = us_emit (VersionOf g) h"

definition signerFoundGnubby :: "multi_result \<Rightarrow> bool \<Rightarrow> usb_sign \<Rightarrow> usb_sign" where
  "signerFoundGnubby r moreExpected h =
     (let h1 = h\<lparr>us_anyFound := True\<rparr> in
      if mr_code r = 0
      then us_notifySuccess (mr_gnubby r) (mr_challenge r) (case mr_info r of Some i \<Rightarrow> i | None \<Rightarrow> []) h1
      else if mr_code r = WRONG_DATA_STATUS
      then sendBogusEnroll (mr_gnubby r) (h1\<lparr>us_notEnrolled := us_notEnrolled h1 @ [mr_gnubby r]\<rparr>)
      else if \<not> moreExpected then us_notifyError (mr_code r) h1
      else h1\<lparr>us_signerError := Some (mr_code r)\<rparr>)"

definition BOGUS_APP_ID_HASH :: bytes where "BOGUS_APP_ID_HASH = replicate 32 0x41"
definition BOGUS_CHALLENGE_V2 :: bytes where "BOGUS_CHALLENGE_V2 = replicate 32 0x42"

definition BOGUS_CHALLENGE_V1 :: bytes where
  "BOGUS_CHALLENGE_V1 =
     [0x04, 0xA2, 0x24, 0x7D, 0x5C, 0x0B, 0x76, 0xF1, 0xDC, 0xCD, 0x44, 0xAF, 0x91, 0x9A, 0xA2, 0x3F,
      0x3F, 0xBA, 0x65, 0x9F, 0x06, 0x78, 0x82, 0xFB, 0x93, 0x4B, 0xBF, 0x86, 0x55, 0x95, 0x66, 0x46,
      0x76, 0x90, 0xDC, 0xE1, 0xE8, 0x6C, 0x86, 0x86, 0xC3, 0x03, 0x4E, 0x65, 0x52, 0x4C, 0x32, 0x6F,
      0xB6, 0x44, 0x0D, 0x50, 0xF9, 0x16, 0xC0, 0xA3, 0xDA, 0x31, 0x4B, 0xD3, 0x3F, 0x94, 0xA5, 0xF1,
      0xD3]"

text \<open>
  The reply to the version command. For an unknown version the code reports an error and goes on to
  \<open>enroll\<close> with an undefined challenge, which is an exception and ends the callback.
\<close>

definition bogus_versioned :: "nat \<Rightarrow> int \<Rightarrow> bytes option \<Rightarrow> usb_sign \<Rightarrow> usb_sign" where
  "bogus_versioned g rc opt_data h =
     (if rc \<noteq> 0 then us_notifyError rc h
      else (let v = UTIL_BytesToString (case opt_data of Some d \<Rightarrow> d | None \<Rightarrow> []) in
        if v = U2F_V1 then us_emit (EnrollOn g BOGUS_CHALLENGE_V1 BOGUS_APP_ID_HASH) h
        else if v = U2F_V2 then us_emit (EnrollOn g BOGUS_CHALLENGE_V2 BOGUS_APP_ID_HASH) h
        else us_notifyError INVALID_DATA_STATUS h))"

definition us_enrollCallback :: "nat \<Rightarrow> int \<Rightarrow> usb_sign \<Rightarrow> usb_sign" where
  "us_enrollCallback g code h =
     (if us_notified h then h
      else if code = WAIT_TOUCH_STATUS then sendBogusEnroll g h
      else if code = OK_STATUS then us_notifyError WRONG_DATA_STATUS h
      else h)"

datatype us_event =
    UsRun
  | UsCompleted bool
  | UsFound multi_result bool
  | UsVersion nat int "bytes option"
  | UsEnrolled nat int
  | UsClose

fun us_step :: "us_event \<Rightarrow> usb_sign \<Rightarrow> usb_sign" where
  "us_step UsRun h = fst (us_run h)"
| "us_step (UsCompleted b) h = signerCompleted b h"
| "us_step (UsFound r b) h = signerFoundGnubby r b h"
| "us_step (UsVersion g rc d) h = bogus_versioned g rc d h"
| "us_step (UsEnrolled g code) h = us_enrollCallback g code h"
| "us_step UsClose h = us_close h"

definition sign_replies :: "usb_sign \<Rightarrow> nat" where
  "sign_replies h = length (filter (\<lambda>e. case e of SignReply c r \<Rightarrow> True | _ \<Rightarrow> False) (us_out h))"

lemma us_emit_simps [simp]:
  "us_notified (us_emit e h) = us_notified h" "us_notEnrolled (us_emit e h) = us_notEnrolled h"
  "us_signer (us_emit e h) = us_signer h" "us_corrupt (us_emit e h) = us_corrupt h"
  "sign_replies (us_emit e h) = sign_replies h + (case e of SignReply c r \<Rightarrow> 1 | _ \<Rightarrow> 0)"
  by (auto simp: us_emit_def sign_replies_def split: us_effect.split)

lemma us_update_simps [simp]:
  "sign_replies (h\<lparr>us_notified := b\<rparr>) = sign_replies h" "sign_replies (h\<lparr>us_notEnrolled := l\<rparr>) = sign_replies h"
  "sign_replies (h\<lparr>us_signer := b\<rparr>) = sign_replies h" "sign_replies (h\<lparr>us_corrupt := b\<rparr>) = sign_replies h"
  "sign_replies (h\<lparr>us_anyFound := b\<rparr>) = sign_replies h" "sign_replies (h\<lparr>us_signerError := e\<rparr>) = sign_replies h"
  "sign_replies (h\<lparr>us_running := b\<rparr>) = sign_replies h"
  by (simp_all add: sign_replies_def)

lemma us_fold_close:
  "us_notified (fold (\<lambda>g. us_emit (CloseToken g)) gs h) = us_notified h
   \<and> sign_replies (fold (\<lambda>g. us_emit (CloseToken g)) gs h) = sign_replies h
   \<and> us_signer (fold (\<lambda>g. us_emit (CloseToken g)) gs h) = us_signer h
   \<and> us_corrupt (fold (\<lambda>g. us_emit (CloseToken g)) gs h) = us_corrupt h
   \<and> us_out (fold (\<lambda>g. us_emit (CloseToken g)) gs h) = us_out h @ map CloseToken gs"
  by (induction gs arbitrary: h) (auto simp: us_emit_def sign_replies_def)

lemma us_close_simps [simp]:
  "us_notified (us_close h) = us_notified h" "sign_replies (us_close h) = sign_replies h"
  "us_notEnrolled (us_close h) = []" "\<not> us_signer (us_close h)" "us_corrupt (us_close h) = us_corrupt h"
  by (simp_all add: us_close_def us_fold_close Let_def)

lemmas us_defs = us_run_def signerCompleted_def signerFoundGnubby_def sendBogusEnroll_def bogus_versioned_def
  us_enrollCallback_def us_notifyError_def us_notifySuccess_def

interpretation usb_sign: notify_once us_step us_notified sign_replies
proof
  fix h e
  show "us_notified h \<Longrightarrow> sign_replies (us_step e h) = sign_replies h"
    by (cases e) (auto simp: us_defs Let_def split: option.split)
  show "us_notified h \<Longrightarrow> us_notified (us_step e h)"
    by (cases e) (auto simp: us_defs Let_def split: option.split)
  show "\<not> us_notified h \<Longrightarrow> sign_replies (us_step e h) = sign_replies h
      \<or> (sign_replies (us_step e h) = Suc (sign_replies h) \<and> us_notified (us_step e h))"
    by (cases e) (auto simp: us_defs Let_def split: option.split)
qed

lemma no_wrong_data_error:
  "us_signerError h \<noteq> Some WRONG_DATA_STATUS \<Longrightarrow> us_signerError (us_step e h) \<noteq> Some WRONG_DATA_STATUS"
proof -
  have [simp]: "us_signerError (us_emit e h) = us_signerError h" for e h by (simp add: us_emit_def)
  have [simp]: "us_signerError (fold (\<lambda>g. us_emit (CloseToken g)) gs h) = us_signerError h" for gs h
    by (induction gs arbitrary: h) auto
  have [simp]: "us_signerError (us_close h) = us_signerError h" for h by (simp add: us_close_def Let_def)
  show "us_signerError h \<noteq> Some WRONG_DATA_STATUS \<Longrightarrow> ?thesis"
    by (cases e) (auto simp: us_defs Let_def split: option.split)
qed

definition touched_by :: "us_event list \<Rightarrow> bool" where
  "touched_by es \<longleftrightarrow> (\<exists>g d. UsEnrolled g OK_STATUS \<in> set es \<or> UsVersion g WRONG_DATA_STATUS d \<in> set es)"

definition wrong_data_told :: "usb_sign \<Rightarrow> bool" where
  "wrong_data_told h \<longleftrightarrow> (\<exists>r. SignReply WRONG_DATA_STATUS r \<in> set (us_out h))"

lemma told_simps [simp]:
  "wrong_data_told (us_emit e h) \<longleftrightarrow> wrong_data_told h \<or> (\<exists>r. e = SignReply WRONG_DATA_STATUS r)"
  "wrong_data_told (h\<lparr>us_notified := b\<rparr>) = wrong_data_told h" "wrong_data_told (h\<lparr>us_notEnrolled := l\<rparr>) = wrong_data_told h"
  "wrong_data_told (h\<lparr>us_signer := b\<rparr>) = wrong_data_told h" "wrong_data_told (h\<lparr>us_corrupt := b\<rparr>) = wrong_data_told h"
  "wrong_data_told (h\<lparr>us_anyFound := b\<rparr>) = wrong_data_told h" "wrong_data_told (h\<lparr>us_signerError := x\<rparr>) = wrong_data_told h"
  "wrong_data_told (h\<lparr>us_running := b\<rparr>) = wrong_data_told h"
  by (auto simp: wrong_data_told_def us_emit_def)

lemma told_close [simp]: "wrong_data_told (us_close h) = wrong_data_told h"
proof -
  have "wrong_data_told (fold (\<lambda>g. us_emit (CloseToken g)) gs h) = wrong_data_told h" for gs h
    by (induction gs arbitrary: h) auto
  then show ?thesis by (simp add: us_close_def Let_def)
qed

lemma told_step:
  "wrong_data_told (us_step e h) \<Longrightarrow> us_signerError h \<noteq> Some WRONG_DATA_STATUS \<Longrightarrow>
     wrong_data_told h \<or> touched_by [e]"
  by (cases e) (auto simp: us_defs touched_by_def Let_def status_codes split: option.splits if_splits)

lemma us_told_run:
  "wrong_data_told (fold us_step es h) \<Longrightarrow> us_signerError h \<noteq> Some WRONG_DATA_STATUS \<Longrightarrow>
     wrong_data_told h \<or> touched_by es"
proof (induction es arbitrary: h)
  case (Cons e es)
  from Cons.IH [of "us_step e h"] Cons.prems no_wrong_data_error [of h e] told_step [of e h] show ?case
    by (auto simp: touched_by_def)
qed simp

lemma reply_closes:
  "\<not> us_notified h \<Longrightarrow> us_notified (us_step e h) \<Longrightarrow>
     \<exists>c r pre. us_out (us_step e h) = us_out h @ pre @ map CloseToken (us_notEnrolled h)
        @ (if us_signer h then [StopSigner] else []) @ [SignReply c r]
      \<and> us_notEnrolled (us_step e h) = [] \<and> \<not> us_signer (us_step e h)"
proof -
  have c: "us_out (us_close h) = us_out h @ map CloseToken (us_notEnrolled h) @ (if us_signer h then [StopSigner] else [])" for h
    by (simp add: us_close_def us_fold_close Let_def) (simp add: us_emit_def us_fold_close)
  have o: "us_out (us_emit e h) = us_out h @ [e]" for e h by (simp add: us_emit_def)
  show "\<not> us_notified h \<Longrightarrow> us_notified (us_step e h) \<Longrightarrow> ?thesis"
    by (cases e) (auto simp: us_defs Let_def c o split: option.splits if_splits)
qed


definition refused_challenge :: multi_result where
  "refused_challenge = \<lparr>mr_code = WRONG_DATA_STATUS, mr_gnubby = 3,
     mr_challenge = \<lparr>sc_challengeHash = [], sc_appIdHash = [], sc_keyHandle = [], sc_version = None\<rparr>, mr_info = None\<rparr>"

definition kept_token :: usb_sign where
  "kept_token = fold us_step [UsRun, UsFound refused_challenge True]
     (UsbSignHandler [\<lparr>hc_challengeHash = [], hc_appIdHash = [], hc_keyHandle = [], hc_version = None\<rparr>] None False)"


subsection \<open>Enrolling\<close>

record enroll_challenge =
  ec_version :: string
  ec_challengeHash :: string
  ec_appIdHash :: string

datatype ue_effect =
    StartEnrollSigner rat "helper_challenge list"
  | StopEnrollSigner
  | Rescan
  | CheckPrerequisites nat string
  | CloseEnrollToken nat
  | EnrollVersionOf nat
  | Enroll nat bytes bytes bool
  | RetryLater nat string
  | EnrollReply int "(string \<times> string) option"

record usb_enroll =
  ue_signData :: "helper_challenge list"
  ue_enrollChallenges :: "enroll_challenge list"
  ue_timeoutSeconds :: "rat option"
  ue_sys :: systimer
  ue_timer :: "unit countdown"
  ue_waiting :: "nat list"
  ue_closed :: bool
  ue_notified :: bool
  ue_anyFound :: bool
  ue_anyTimeout :: bool
  ue_signer :: bool
  ue_out :: "ue_effect list"

definition UsbEnrollHandler :: "systimer \<Rightarrow> helper_challenge list \<Rightarrow> enroll_challenge list \<Rightarrow> rat option \<Rightarrow> usb_enroll" where
  "UsbEnrollHandler sys signData challenges timeoutSeconds =
     \<lparr>ue_signData = signData, ue_enrollChallenges = challenges, ue_timeoutSeconds = timeoutSeconds, ue_sys = sys,
      ue_timer = \<lparr>remainingMillis = 0, timeoutId = None, cd_cb = None\<rparr>, ue_waiting = [], ue_closed = False,
      ue_notified = False, ue_anyFound = False, ue_anyTimeout = False, ue_signer = False, ue_out = []\<rparr>"

definition ue_emit :: "ue_effect \<Rightarrow> usb_enroll \<Rightarrow> usb_enroll" where
  "ue_emit e h = h\<lparr>ue_out := ue_out h @ [e]\<rparr>"

definition UE_DEFAULT_TIMEOUT_MILLIS :: rat where "UE_DEFAULT_TIMEOUT_MILLIS = 30 * 1000"

definition ue_run :: "usb_enroll \<Rightarrow> usb_enroll" where
  "ue_run h =
     (let ms = (case ue_timeoutSeconds h of Some t \<Rightarrow> if t \<noteq> 0 then t * 1000 else UE_DEFAULT_TIMEOUT_MILLIS
                | None \<Rightarrow> UE_DEFAULT_TIMEOUT_MILLIS);
          (sys', t) = createTimer (ue_sys h) ms None
      in ue_emit (StartEnrollSigner ms (ue_signData h)) (h\<lparr>ue_sys := sys', ue_timer := t, ue_signer := True\<rparr>))"

definition ue_close :: "usb_enroll \<Rightarrow> usb_enroll" where
  "ue_close h =
     (let h1 = (fold (\<lambda>g. ue_emit (CloseEnrollToken g)) (ue_waiting h) (h\<lparr>ue_closed := True\<rparr>))\<lparr>ue_waiting := []\<rparr> in
      if ue_signer h1 then ue_emit StopEnrollSigner (h1\<lparr>ue_signer := False\<rparr>) else h1)"

definition ue_notifyError :: "int \<Rightarrow> usb_enroll \<Rightarrow> usb_enroll" where
  "ue_notifyError code h =
     (if ue_notified h \<or> ue_closed h then h
      else ue_emit (EnrollReply code None) (ue_close (h\<lparr>ue_notified := True\<rparr>)))"

definition ue_notifySuccess :: "string \<Rightarrow> string \<Rightarrow> usb_enroll \<Rightarrow> usb_enroll" where
  "ue_notifySuccess ver info h =
     (if ue_notified h \<or> ue_closed h then h
      else ue_emit (EnrollReply OK_STATUS (Some (ver, info))) (ue_close (h\<lparr>ue_notified := True\<rparr>)))"

definition ue_signerCompleted :: "bool \<Rightarrow> usb_enroll \<Rightarrow> usb_enroll" where
  "ue_signerCompleted pending h =
     (if \<not> ue_anyFound h \<or> ue_anyTimeout h \<or> pending \<or> expired (ue_timer h)
      then ue_notifyError TIMEOUT_STATUS h else h)"

text \<open>An empty list of enroll challenges is an exception here.\<close>

definition ue_signerFoundGnubby :: "int \<Rightarrow> nat \<Rightarrow> usb_enroll \<Rightarrow> usb_enroll" where
  "ue_signerFoundGnubby code g h =
     (if code = 0 then ue_notifyError WRONG_DATA_STATUS h
      else if signErrorIndicatesInvalidKeyHandle code \<noteq> None
      then (case ue_enrollChallenges h of [] \<Rightarrow> h | c # _ \<Rightarrow> ue_emit (CheckPrerequisites g (ec_appIdHash c)) h)
      else ue_notifyError code h)"

definition gnubbyPrerequisitesChecked :: "int \<Rightarrow> nat \<Rightarrow> usb_enroll \<Rightarrow> usb_enroll" where
  "gnubbyPrerequisitesChecked rc g h =
     (if rc \<noteq> 0 \<or> expired (ue_timer h) then h
      else ue_emit (EnrollVersionOf g) (h\<lparr>ue_anyFound := True, ue_waiting := ue_waiting h @ [g]\<rparr>))"

definition removeWaitingGnubby :: "nat \<Rightarrow> usb_enroll \<Rightarrow> usb_enroll" where
  "removeWaitingGnubby g h = (ue_emit (CloseEnrollToken g) h)\<lparr>ue_waiting := remove1 g (ue_waiting h)\<rparr>"

definition last_gnubby_left :: "usb_enroll \<Rightarrow> usb_enroll" where
  "last_gnubby_left h =
     (if ue_waiting h = []
      then (let h1 = h\<lparr>ue_anyFound := False\<rparr> in
            if expired (ue_timer h1) then ue_notifyError TIMEOUT_STATUS h1
            else if ue_signer h1 then ue_emit Rescan h1 else h1)
      else h)"

definition removeWrongVersionGnubby :: "nat \<Rightarrow> usb_enroll \<Rightarrow> usb_enroll" where
  "removeWrongVersionGnubby g h = last_gnubby_left (removeWaitingGnubby g h)"

definition getChallengeOfVersion :: "string \<Rightarrow> usb_enroll \<Rightarrow> enroll_challenge option" where
  "getChallengeOfVersion ver h = find (\<lambda>c. ec_version c = ver) (ue_enrollChallenges h)"

text \<open>The policy on individual attestation is a parameter.\<close>

definition tryEnroll :: "(string \<Rightarrow> bool) \<Rightarrow> nat \<Rightarrow> string \<Rightarrow> usb_enroll \<Rightarrow> usb_enroll" where
  "tryEnroll individual g ver h =
     (case getChallengeOfVersion ver h of None \<Rightarrow> removeWrongVersionGnubby g h
      | Some c \<Rightarrow> ue_emit (Enroll g (B64_decode (ec_challengeHash c)) (B64_decode (ec_appIdHash c)) (individual (ec_appIdHash c))) h)"

definition gnubbyVersioned :: "(string \<Rightarrow> bool) \<Rightarrow> nat \<Rightarrow> int \<Rightarrow> bytes option \<Rightarrow> usb_enroll \<Rightarrow> usb_enroll" where
  "gnubbyVersioned individual g rc data h =
     (if rc \<noteq> 0 then removeWrongVersionGnubby g h
      else tryEnroll individual g (UTIL_BytesToString (case data of Some d \<Rightarrow> d | None \<Rightarrow> [])) h)"

definition ue_enrollCallback :: "nat \<Rightarrow> string \<Rightarrow> int \<Rightarrow> bytes option \<Rightarrow> usb_enroll \<Rightarrow> usb_enroll" where
  "ue_enrollCallback g ver code infoArray h =
     (if ue_notified h then h
      else if code = - GONE then last_gnubby_left (removeWaitingGnubby g h)
      else if code = WAIT_TOUCH_STATUS \<or> code = BUSY_STATUS \<or> code = TIMEOUT_STATUS
      then (if expired (ue_timer h)
            then (let h1 = removeWaitingGnubby g (h\<lparr>ue_anyTimeout := True\<rparr>) in
                  if ue_waiting h1 = [] then ue_notifyError TIMEOUT_STATUS h1 else h1)
            else ue_emit (RetryLater g ver) h)
      else if code = OK_STATUS
      then ue_notifySuccess ver (B64_encode (case infoArray of Some d \<Rightarrow> d | None \<Rightarrow> []) None) h
      else ue_notifyError code h)"

datatype ue_event =
    UeRun
  | UeCompleted bool
  | UeFound int nat
  | UePrerequisites int nat
  | UeVersion nat int "bytes option"
  | UeEnrolled nat string int "bytes option"
  | UeRetry nat string
  | UeTick
  | UeClose

fun ue_step :: "(string \<Rightarrow> bool) \<Rightarrow> ue_event \<Rightarrow> usb_enroll \<Rightarrow> usb_enroll" where
  "ue_step ind UeRun h = ue_run h"
| "ue_step ind (UeCompleted b) h = ue_signerCompleted b h"
| "ue_step ind (UeFound code g) h = ue_signerFoundGnubby code g h"
| "ue_step ind (UePrerequisites rc g) h = gnubbyPrerequisitesChecked rc g h"
| "ue_step ind (UeVersion g rc d) h = gnubbyVersioned ind g rc d h"
| "ue_step ind (UeEnrolled g v code d) h = ue_enrollCallback g v code d h"
| "ue_step ind (UeRetry g v) h = tryEnroll ind g v h"
| "ue_step ind UeTick h =
     (let (sys', t, cs) = cd_fire (ue_sys h) (ue_timer h) in h\<lparr>ue_sys := sys', ue_timer := t\<rparr>)"
| "ue_step ind UeClose h = ue_close h"

definition enroll_replies :: "usb_enroll \<Rightarrow> nat" where
  "enroll_replies h = length (filter (\<lambda>e. case e of EnrollReply c r \<Rightarrow> True | _ \<Rightarrow> False) (ue_out h))"

text \<open>A handler that was closed does not reply any more: \<open>told\<close> is either flag.\<close>

definition ue_told :: "usb_enroll \<Rightarrow> bool" where
  "ue_told h \<longleftrightarrow> ue_notified h \<or> ue_closed h"

lemma ue_emit_simps [simp]:
  "ue_notified (ue_emit e h) = ue_notified h" "ue_closed (ue_emit e h) = ue_closed h" "ue_waiting (ue_emit e h) = ue_waiting h"
  "ue_signer (ue_emit e h) = ue_signer h" "ue_enrollChallenges (ue_emit e h) = ue_enrollChallenges h"
  "ue_out (ue_emit e h) = ue_out h @ [e]" "ue_timer (ue_emit e h) = ue_timer h"
  by (simp_all add: ue_emit_def)

lemma ue_close_simps [simp]:
  "ue_notified (ue_close h) = ue_notified h" "ue_closed (ue_close h)" "ue_waiting (ue_close h) = []"
  "\<not> ue_signer (ue_close h)" "ue_enrollChallenges (ue_close h) = ue_enrollChallenges h"
  "ue_out (ue_close h) = ue_out h @ map CloseEnrollToken (ue_waiting h) @ (if ue_signer h then [StopEnrollSigner] else [])"
proof -
  have f: "ue_notified (fold (\<lambda>g. ue_emit (CloseEnrollToken g)) gs h) = ue_notified h
    \<and> ue_closed (fold (\<lambda>g. ue_emit (CloseEnrollToken g)) gs h) = ue_closed h
    \<and> ue_signer (fold (\<lambda>g. ue_emit (CloseEnrollToken g)) gs h) = ue_signer h
    \<and> ue_enrollChallenges (fold (\<lambda>g. ue_emit (CloseEnrollToken g)) gs h) = ue_enrollChallenges h
    \<and> ue_out (fold (\<lambda>g. ue_emit (CloseEnrollToken g)) gs h) = ue_out h @ map CloseEnrollToken gs" for gs h
    by (induction gs arbitrary: h) auto
  show "ue_notified (ue_close h) = ue_notified h" "ue_closed (ue_close h)" "ue_waiting (ue_close h) = []"
    "\<not> ue_signer (ue_close h)" "ue_enrollChallenges (ue_close h) = ue_enrollChallenges h"
    "ue_out (ue_close h) = ue_out h @ map CloseEnrollToken (ue_waiting h) @ (if ue_signer h then [StopEnrollSigner] else [])"
    by (simp_all add: ue_close_def f Let_def)
qed

lemmas ue_defs = ue_run_def ue_signerCompleted_def ue_signerFoundGnubby_def gnubbyPrerequisitesChecked_def
  gnubbyVersioned_def tryEnroll_def removeWrongVersionGnubby_def last_gnubby_left_def removeWaitingGnubby_def
  ue_enrollCallback_def ue_notifyError_def ue_notifySuccess_def

interpretation usb_enroll: notify_once "ue_step ind" ue_told enroll_replies
proof
  fix h e
  show "ue_told h \<Longrightarrow> enroll_replies (ue_step ind e h) = enroll_replies h"
    by (cases e) (auto simp: ue_defs ue_told_def enroll_replies_def Let_def split: option.split list.split prod.split)
  show "ue_told h \<Longrightarrow> ue_told (ue_step ind e h)"
    by (cases e) (auto simp: ue_defs ue_told_def Let_def split: option.split list.split prod.split)
  show "\<not> ue_told h \<Longrightarrow> enroll_replies (ue_step ind e h) = enroll_replies h
      \<or> (enroll_replies (ue_step ind e h) = Suc (enroll_replies h) \<and> ue_told (ue_step ind e h))"
    by (cases e) (auto simp: ue_defs ue_told_def enroll_replies_def Let_def split: option.split list.split prod.split)
qed

text \<open>
  Whatever the tokens, the timers and the caller do, in any order, each of the two handlers replies at
  most once; and the enrollment handler never replies once it was closed.
\<close>

theorem handlers_reply_once:
  "sign_replies (fold us_step es (UsbSignHandler signData t corrupt)) \<le> 1
   \<and> enroll_replies (fold (ue_step ind) es' (UsbEnrollHandler sys signData cs t)) \<le> 1
   \<and> (ue_closed h \<longrightarrow> enroll_replies (fold (ue_step ind) es' h) = enroll_replies h)"
proof -
  have "sign_replies (fold us_step es (UsbSignHandler signData t corrupt)) \<le> 1"
    using usb_sign.reports_run [of "UsbSignHandler signData t corrupt" es]
    by (auto simp: UsbSignHandler_def sign_replies_def)
  moreover have "enroll_replies (fold (ue_step ind) es' (UsbEnrollHandler sys signData cs t)) \<le> 1"
    using usb_enroll.reports_run [of "UsbEnrollHandler sys signData cs t" ind es']
    by (auto simp: UsbEnrollHandler_def enroll_replies_def ue_told_def)
  moreover have "ue_closed h \<longrightarrow> enroll_replies (fold (ue_step ind) es' h) = enroll_replies h"
    using usb_enroll.told_run [of h ind es'] by (auto simp: ue_told_def)
  ultimately show ?thesis by blast
qed

theorem handlers_reply_once_witness:
  "enroll_replies (fold (ue_step (\<lambda>a. False)) [UeRun, UeFound 0 1]
     (UsbEnrollHandler \<lparr>sys_last = 0, sys_armed = []\<rparr> [] [] None)) = 1
   \<and> enroll_replies (fold (ue_step (\<lambda>a. False)) [UeRun, UeFound 0 1]
     (ue_close (UsbEnrollHandler \<lparr>sys_last = 0, sys_armed = []\<rparr> [] [] None))) = 0"
proof -
  let ?h = "ue_close (UsbEnrollHandler \<lparr>sys_last = 0, sys_armed = []\<rparr> [] [] None)"
  have "enroll_replies (fold (ue_step (\<lambda>a. False)) [UeRun, UeFound 0 1] ?h) = enroll_replies ?h"
    using handlers_reply_once [of "[]" "[]" None False "\<lambda>a. False" "[UeRun, UeFound 0 1]" "\<lparr>sys_last = 0, sys_armed = []\<rparr>" "[]" ?h]
    by simp
  moreover have "enroll_replies ?h = 0" by code_simp
  moreover have "enroll_replies (fold (ue_step (\<lambda>a. False)) [UeRun, UeFound 0 1]
     (UsbEnrollHandler \<lparr>sys_last = 0, sys_armed = []\<rparr> [] [] None)) = 1" by code_simp
  ultimately show ?thesis by simp
qed

text \<open>What a token is asked to enroll always comes from the request.\<close>

definition asked_from_request :: "(string \<Rightarrow> bool) \<Rightarrow> enroll_challenge list \<Rightarrow> ue_effect \<Rightarrow> bool" where
  "asked_from_request ind cs e \<longleftrightarrow> (case e of Enroll g ch app att \<Rightarrow>
     list_ex (\<lambda>c. find (\<lambda>c'. ec_version c' = ec_version c) cs = Some c \<and> ch = B64_decode (ec_challengeHash c)
       \<and> app = B64_decode (ec_appIdHash c) \<and> att = ind (ec_appIdHash c)) cs | _ \<Rightarrow> True)"

lemma ue_challenges: "ue_enrollChallenges (ue_step ind e h) = ue_enrollChallenges h"
  by (cases e) (auto simp: ue_defs Let_def split: option.split list.split prod.split)

lemma asked_close [simp]: "list_all (asked_from_request ind cs) (map CloseEnrollToken gs)"
  by (induction gs) (auto simp: asked_from_request_def)

lemma find_version: "find (\<lambda>c. ec_version c = v) cs = Some c \<Longrightarrow> c \<in> set cs \<and> ec_version c = v"
  by (auto simp: find_Some_iff)

lemma asked_enroll:
  "getChallengeOfVersion v h = Some c \<Longrightarrow> asked_from_request ind (ue_enrollChallenges h)
     (Enroll g (B64_decode (ec_challengeHash c)) (B64_decode (ec_appIdHash c)) (ind (ec_appIdHash c)))"
  using find_version [of v "ue_enrollChallenges h" c]
  by (auto simp: asked_from_request_def getChallengeOfVersion_def list_ex_iff)

lemma asked_other:
  "(\<And>g ch app att. e \<noteq> Enroll g ch app att) \<Longrightarrow> asked_from_request ind cs e"
  by (cases e) (auto simp: asked_from_request_def)

lemma asked_step:
  "list_all (asked_from_request ind (ue_enrollChallenges h)) (ue_out h) \<Longrightarrow>
     list_all (asked_from_request ind (ue_enrollChallenges h)) (ue_out (ue_step ind e h))"
  by (cases e) (auto simp: ue_defs Let_def asked_other asked_enroll split: option.split list.split prod.split)

lemma asked_run:
  "list_all (asked_from_request ind (ue_enrollChallenges h)) (ue_out h) \<Longrightarrow>
     list_all (asked_from_request ind (ue_enrollChallenges h)) (ue_out (fold (ue_step ind) es h))"
proof (induction es arbitrary: h)
  case (Cons e es)
  from Cons.IH [of "ue_step ind e h"] asked_step [OF Cons.prems, of e] show ?case
    by (simp add: ue_challenges)
qed simp

lemma remove1_last: "remove1 g l = [] \<Longrightarrow> set l \<subseteq> {g :: nat}"
  by (induction l) (auto split: if_splits)

definition closing_reply :: "usb_enroll \<Rightarrow> usb_enroll \<Rightarrow> bool" where
  "closing_reply h h' \<longleftrightarrow> (\<exists>c r toks. ue_out h' = ue_out h @ map CloseEnrollToken toks
        @ (if ue_signer h then [StopEnrollSigner] else []) @ [EnrollReply c r] \<and> set (ue_waiting h) \<subseteq> set toks
      \<and> ue_waiting h' = [] \<and> \<not> ue_signer h')"

lemma closing_replyI:
  "ue_out h' = ue_out h @ map CloseEnrollToken toks @ (if ue_signer h then [StopEnrollSigner] else []) @ [EnrollReply c r]
     \<Longrightarrow> set (ue_waiting h) \<subseteq> set toks \<Longrightarrow> ue_waiting h' = [] \<Longrightarrow> \<not> ue_signer h' \<Longrightarrow> closing_reply h h'"
  unfolding closing_reply_def by blast

lemma notify_closes:
  "\<not> ue_told h \<Longrightarrow> closing_reply h (ue_notifyError c h)" "\<not> ue_told h \<Longrightarrow> closing_reply h (ue_notifySuccess v i h)"
  by (rule closing_replyI [where toks = "ue_waiting h"]; simp add: ue_notifyError_def ue_notifySuccess_def ue_told_def)+

text \<open>The last waiting token is closed before the reply.\<close>

lemma notify_closes_last:
  assumes "\<not> ue_told h" "remove1 g (ue_waiting h) = []"
    and "ue_out h1 = ue_out h @ [CloseEnrollToken g]" "ue_waiting h1 = []" "ue_signer h1 = ue_signer h" "\<not> ue_told h1"
  shows "closing_reply h (ue_notifyError c h1)"
  using remove1_last [OF assms(2)] assms
  by (intro closing_replyI [where toks = "[g]"]) (auto simp: ue_notifyError_def ue_told_def)

lemma last_left_closes:
  assumes "\<not> ue_told h" "ue_notified (last_gnubby_left (removeWaitingGnubby g h))"
  shows "closing_reply h (last_gnubby_left (removeWaitingGnubby g h))"
proof -
  let ?h1 = "removeWaitingGnubby g h"
  have n: "\<not> ue_notified ?h1" "ue_waiting ?h1 = remove1 g (ue_waiting h)"
    using assms(1) by (simp_all add: removeWaitingGnubby_def ue_told_def)
  from assms(2) n have r: "remove1 g (ue_waiting h) = []" and x: "expired (ue_timer ?h1)"
    by (auto simp: last_gnubby_left_def Let_def split: if_splits)
  have "closing_reply h (ue_notifyError TIMEOUT_STATUS (?h1\<lparr>ue_anyFound := False\<rparr>))"
    by (rule notify_closes_last [OF assms(1) r]) (use assms(1) r in \<open>simp_all add: removeWaitingGnubby_def ue_told_def\<close>)
  then show ?thesis using r n x by (simp add: last_gnubby_left_def Let_def)
qed

lemma try_closes:
  "\<not> ue_told h \<Longrightarrow> ue_notified (tryEnroll ind g v h) \<Longrightarrow> closing_reply h (tryEnroll ind g v h)"
  by (auto simp: tryEnroll_def removeWrongVersionGnubby_def ue_told_def intro: last_left_closes split: option.splits)

lemma enrolled_closes:
  assumes "\<not> ue_told h" "ue_notified (ue_enrollCallback g v code d h)"
  shows "closing_reply h (ue_enrollCallback g v code d h)"
proof -
  let ?h1 = "removeWaitingGnubby g (h\<lparr>ue_anyTimeout := True\<rparr>)"
  have n: "\<not> ue_notified h" using assms(1) by (simp add: ue_told_def)
  have e: "closing_reply h (ue_notifyError TIMEOUT_STATUS ?h1)" if "remove1 g (ue_waiting h) = []"
    by (rule notify_closes_last [OF assms(1) that]) (use assms(1) that in \<open>simp_all add: removeWaitingGnubby_def ue_told_def\<close>)
  have w: "ue_waiting ?h1 = remove1 g (ue_waiting h)" "\<not> ue_notified ?h1"
    using n by (simp_all add: removeWaitingGnubby_def)
  show ?thesis
    using assms n e w notify_closes [OF assms(1)] last_left_closes [OF assms(1), of g]
    by (auto simp: ue_enrollCallback_def Let_def split: if_splits)
qed

lemma enroll_reply_closes:
  assumes "\<not> ue_told h" "ue_notified (ue_step ind e h)"
  shows "\<exists>c r toks. ue_out (ue_step ind e h) = ue_out h @ map CloseEnrollToken toks
        @ (if ue_signer h then [StopEnrollSigner] else []) @ [EnrollReply c r] \<and> set (ue_waiting h) \<subseteq> set toks
      \<and> ue_waiting (ue_step ind e h) = [] \<and> \<not> ue_signer (ue_step ind e h)"
proof -
  have n: "\<not> ue_notified h" using assms(1) by (simp add: ue_told_def)
  have "closing_reply h (ue_step ind e h)"
    using assms n notify_closes [OF assms(1)] try_closes [OF assms(1)] last_left_closes [OF assms(1)] enrolled_closes [OF assms(1)]
    by (cases e) (auto simp: ue_run_def ue_signerCompleted_def ue_signerFoundGnubby_def gnubbyPrerequisitesChecked_def
        gnubbyVersioned_def removeWrongVersionGnubby_def Let_def split: option.splits list.splits prod.splits if_splits)
  then show ?thesis unfolding closing_reply_def .
qed


definition waiting_token :: usb_enroll where
  "waiting_token = fold (ue_step (\<lambda>a. True)) [UeRun, UeFound 0x6a80 4, UePrerequisites 0 4]
     (UsbEnrollHandler \<lparr>sys_last = 0, sys_armed = []\<rparr> [] [\<lparr>ec_version = U2F_V2, ec_challengeHash = [], ec_appIdHash = []\<rparr>] None)"


end
