(* ===== verification/SoftToken.thy ===== *)
theory SoftToken
  imports Helpers UsbHandlers "HOL-Library.Monad_Syntax"
begin

text \<open>
  softtokenhelper.js: the helper that plays a token in the browser, for tests. Its handlers complete while they
  are run. The elliptic curve library is a parameter: \<open>ecdsa\<close> signs bytes under a key, as \<open>generateKey(key).sign\<close>,
  and the fresh key pair of an enrollment is an argument. Typed arrays are byte lists; \<open>None\<close> is an exception.
\<close>

subsection \<open>Typed arrays\<close>

text \<open>\<open>set\<close> raises a \<open>RangeError\<close> when the source does not fit; an indexed write out of range is ignored.\<close>

definition u8_set :: "bytes \<Rightarrow> nat \<Rightarrow> bytes \<Rightarrow> bytes option" where
  "u8_set src off buf =
     (if off + length src \<le> length buf then Some (take off buf @ src @ drop (off + length src) buf) else None)"

subsection \<open>The profile\<close>

record soft_registration =
  rg_appIdHash :: string
  rg_keyHandle :: string
  rg_sec :: string
  rg_pub :: string
  rg_counter :: int

record soft_profile =
  attestationKey :: string
  attestationCert :: string
  registrations :: "soft_registration list"

definition DEFAULT_ATTESTATION_KEY :: string where
  "DEFAULT_ATTESTATION_KEY = ''f3fccc0d00d8031954f90864d43c247f4bf5f0665c6b50cc17749a27d1cf7664''"

definition DEFAULT_ATTESTATION_CERT :: string where
  "DEFAULT_ATTESTATION_CERT =
    ''3082013c3081e4a003020102020a47901280001155957352300a06082a8648ce'' @
    ''3d0403023017311530130603550403130c476e756262792050696c6f74301e17'' @
    ''0d3132303831343138323933325a170d3133303831343138323933325a303131'' @
    ''2f302d0603550403132650696c6f74476e756262792d302e342e312d34373930'' @
    ''313238303030313135353935373335323059301306072a8648ce3d020106082a'' @
    ''8648ce3d030107034200048d617e65c9508e64bcc5673ac82a6799da3c144668'' @
    ''2c258c463fffdf58dfd2fa3e6c378b53d795c4a4dffb4199edd7862f23abaf02'' @
    ''03b4b8911ba0569994e101300a06082a8648ce3d0403020347003044022060cd'' @
    ''b6061e9c22262d1aac1d96d8c70829b2366531dda268832cb836bcd30dfa0220'' @
    ''631b1459f09e6330055722c8d89b7f48883b9089b88d60d1d9795902b30410df''"

definition SoftTokenProfile :: soft_profile where
  "SoftTokenProfile = \<lparr>attestationKey = DEFAULT_ATTESTATION_KEY, attestationCert = DEFAULT_ATTESTATION_CERT, registrations = []\<rparr>"

text \<open>
  \<open>createRegistration\<close> hashes the hexadecimal text of the public key, not its bytes. \<open>update\<close> puts one-character
  strings into the buffer, which the shifts of the compression turn into numbers: a digit its value, all else 0.
\<close>

definition char_number :: "char \<Rightarrow> byte" where
  "char_number c = (let n = of_char c :: nat in if 48 \<le> n \<and> n \<le> 57 then word_of_nat (n - 48) else 0)"

definition key_handle_hash :: "string \<Rightarrow> bytes" where
  "key_handle_hash pub = snd (sha_digest SHA256 [map char_number pub])"

definition createRegistration :: "string \<Rightarrow> string \<times> string \<Rightarrow> soft_profile \<Rightarrow> soft_registration \<times> soft_profile" where
  "createRegistration appIdHash keypair p =
     (let (sec, pub) = keypair;
          registration = \<lparr>rg_appIdHash = appIdHash, rg_keyHandle = B64_encode (key_handle_hash pub) None, rg_sec = sec,
            rg_pub = pub, rg_counter = 1\<rparr>
      in (registration, p\<lparr>registrations := registrations p @ [registration]\<rparr>))"

text \<open>The index of the registration: it is an object that the caller changes.\<close>

fun find_registration :: "string \<Rightarrow> string \<Rightarrow> soft_registration list \<Rightarrow> nat option" where
  "find_registration a k [] = None"
| "find_registration a k (r # rs) =
     (if rg_appIdHash r = a \<and> rg_keyHandle r = k then Some 0 else map_option Suc (find_registration a k rs))"

definition getRegistration :: "string \<Rightarrow> string \<Rightarrow> soft_profile \<Rightarrow> nat option" where
  "getRegistration appIdHash keyHandle p = find_registration appIdHash keyHandle (registrations p)"

subsection \<open>Enrolling\<close>

datatype soft_data =
    SoftEnroll string string
  | SoftSign string sign_response

definition enroll_error :: "int \<Rightarrow> soft_data helper_reply" where
  "enroll_error code = \<lparr>hr_type = Some ''enroll_helper_reply'', hr_code = Some code, hr_data = None\<rparr>"

fun already_registered :: "soft_profile \<Rightarrow> helper_challenge list \<Rightarrow> bool" where
  "already_registered p [] = False"
| "already_registered p (sd # sds) =
     (if hc_version sd \<noteq> Some U2F_V2 then already_registered p sds
      else if getRegistration (hc_appIdHash sd) (hc_keyHandle sd) p \<noteq> None then True else already_registered p sds)"

definition soft_challenge :: "enroll_challenge list \<Rightarrow> enroll_challenge option" where
  "soft_challenge cs = find (\<lambda>c. ec_version c = U2F_V2) cs"

definition soft_sign_key :: "(byte option list \<Rightarrow> bytes \<Rightarrow> signature) \<Rightarrow> string \<Rightarrow> bytes \<Rightarrow> bytes option" where
  "soft_sign_key ecdsa key buf =
     (case UTIL_HexToArray key of Inl _ \<Rightarrow> None | Inr k \<Rightarrow> Some (snd (UTIL_JsonSignatureToAsn1 (ecdsa k buf))))"

definition registration_message :: "(byte option list \<Rightarrow> bytes \<Rightarrow> signature) \<Rightarrow> soft_profile \<Rightarrow> enroll_challenge
    \<Rightarrow> soft_registration \<Rightarrow> bytes option" where
  "registration_message ecdsa p c registration =
     (let appIdBytes = B64_decode (ec_appIdHash c); challengeBytes = B64_decode (ec_challengeHash c);
          keyHandleBytes = B64_decode (rg_keyHandle registration); publicKeyBytes = UTIL_HexToBytes (rg_pub registration)
      in do {
        b1 \<leftarrow> u8_set appIdBytes 1 ((replicate (1 + 32 + 32 + length keyHandleBytes + 65) 0)[0 := 0]);
        b2 \<leftarrow> u8_set challengeBytes 33 b1;
        b3 \<leftarrow> u8_set keyHandleBytes 65 b2;
        signBuf \<leftarrow> u8_set publicKeyBytes (65 + length keyHandleBytes) b3;
        signature \<leftarrow> soft_sign_key ecdsa (attestationKey p) signBuf;
        let certBytes = UTIL_HexToBytes (attestationCert p);
        let r0 = (replicate (1 + 65 + 1 + length keyHandleBytes + length certBytes + length signature) 0)[0 := 0x05];
        r1 \<leftarrow> u8_set publicKeyBytes 1 r0;
        let off1 = 1 + length publicKeyBytes;
        r2 \<leftarrow> u8_set keyHandleBytes (off1 + 1) (r1[off1 := word_of_nat (length keyHandleBytes)]);
        let off2 = off1 + 1 + length keyHandleBytes;
        r3 \<leftarrow> u8_set certBytes off2 r2;
        u8_set signature (off2 + length certBytes) r3
      })"

text \<open>The reply with which the handler completes; the registration is made before the message.\<close>

definition soft_enroll :: "(byte option list \<Rightarrow> bytes \<Rightarrow> signature) \<Rightarrow> string \<times> string \<Rightarrow> helper_challenge list
    \<Rightarrow> enroll_challenge list \<Rightarrow> soft_profile \<Rightarrow> soft_profile \<times> soft_data helper_reply option" where
  "soft_enroll ecdsa keyPair signData enrollChallenges p =
     (if already_registered p signData then (p, Some (enroll_error WRONG_DATA_STATUS))
      else (case soft_challenge enrollChallenges of None \<Rightarrow> (p, Some (enroll_error TIMEOUT_STATUS))
        | Some c \<Rightarrow>
          (let (registration, p') = createRegistration (ec_appIdHash c) keyPair p in
           (p', map_option (\<lambda>regData. \<lparr>hr_type = Some ''enroll_helper_reply'', hr_code = Some OK_STATUS,
                   hr_data = Some (SoftEnroll U2F_V2 (B64_encode regData None))\<rparr>) (registration_message ecdsa p' c registration)))))"

subsection \<open>Signing\<close>

fun known_key :: "soft_profile \<Rightarrow> helper_challenge list \<Rightarrow> (nat \<times> helper_challenge) option" where
  "known_key p [] = None"
| "known_key p (sd # sds) =
     (if hc_version sd \<noteq> Some U2F_V2 then known_key p sds
      else (case getRegistration (hc_appIdHash sd) (hc_keyHandle sd) p of Some i \<Rightarrow> Some (i, sd) | None \<Rightarrow> known_key p sds))"

definition counter_bytes :: "int \<Rightarrow> bytes" where
  "counter_bytes n = map (\<lambda>s. word_of_int (js_and 0xFF (js_ushr n s))) [24, 16, 8] @ [word_of_int (js_and 0xFF n)]"

text \<open>The buffer that is signed, and the data of the reply.\<close>

definition sign_buffer :: "soft_registration \<Rightarrow> helper_challenge \<Rightarrow> bytes option" where
  "sign_buffer r sd = do {
     b1 \<leftarrow> u8_set (B64_decode (rg_appIdHash r)) 0 (replicate (32 + 1 + 4 + 32) 0);
     b2 \<leftarrow> u8_set (0x01 # counter_bytes (rg_counter r)) 32 b1;
     u8_set (B64_decode (hc_challengeHash sd)) 37 b2
   }"

definition sign_message :: "(byte option list \<Rightarrow> bytes \<Rightarrow> signature) \<Rightarrow> soft_registration \<Rightarrow> helper_challenge \<Rightarrow> bytes option" where
  "sign_message ecdsa r sd = do {
     signBuffer \<leftarrow> sign_buffer r sd;
     signature \<leftarrow> soft_sign_key ecdsa (rg_sec r) signBuffer;
     d1 \<leftarrow> u8_set (take 5 (drop 32 signBuffer)) 0 (replicate (1 + 4 + length signature) 0);
     u8_set signature 5 d1
   }"

definition soft_sign :: "(byte option list \<Rightarrow> bytes \<Rightarrow> signature) \<Rightarrow> helper_challenge list \<Rightarrow> soft_profile
    \<Rightarrow> soft_profile \<times> soft_data helper_reply option" where
  "soft_sign ecdsa signData p =
     (case known_key p signData of
        None \<Rightarrow> (p, Some \<lparr>hr_type = Some ''sign_helper_reply'', hr_code = Some WRONG_DATA_STATUS, hr_data = None\<rparr>)
      | Some (i, sd) \<Rightarrow>
        (let r = (registrations p ! i)\<lparr>rg_counter := rg_counter (registrations p ! i) + 1\<rparr>
         in (p\<lparr>registrations := (registrations p)[i := r]\<rparr>,
             map_option (\<lambda>signatureData. \<lparr>hr_type = Some ''sign_helper_reply'', hr_code = Some OK_STATUS,
                 hr_data = Some (SoftSign U2F_V2 \<lparr>re_appIdHash = rg_appIdHash r, re_challengeHash = hc_challengeHash sd,
                   re_keyHandle = rg_keyHandle r, re_signatureData = B64_encode signatureData None\<rparr>)\<rparr>)
               (sign_message ecdsa r sd))))"

text \<open>The helper: \<open>close\<close> of its handlers does nothing.\<close>

datatype soft_request =
    SoftEnrollRequest "helper_challenge list" "enroll_challenge list"
  | SoftSignRequest "helper_challenge list"

fun soft_run :: "(byte option list \<Rightarrow> bytes \<Rightarrow> signature) \<Rightarrow> string \<times> string \<Rightarrow> soft_request \<Rightarrow> soft_profile
    \<Rightarrow> soft_profile \<times> soft_data helper_reply option" where
  "soft_run ecdsa kp (SoftEnrollRequest sds cs) p = soft_enroll ecdsa kp sds cs p"
| "soft_run ecdsa kp (SoftSignRequest sds) p = soft_sign ecdsa sds p"

subsection \<open>The messages\<close>

lemma u8_fill:
  "length a = off \<Longrightarrow> length src \<le> n \<Longrightarrow> u8_set src off (a @ replicate n 0) = Some (a @ src @ replicate (n - length src) 0)"
  by (auto simp: u8_set_def)

text \<open>The message of a registration, when its parts have the sizes of the protocol.\<close>

lemma registration_layout:
  assumes "length (B64_decode (ec_appIdHash c)) = 32" "length (B64_decode (ec_challengeHash c)) = 32"
    "length (UTIL_HexToBytes (rg_pub r)) = 65" "UTIL_HexToArray (attestationKey p) = Inr k"
  shows "registration_message ecdsa p c r =
    (let kh = B64_decode (rg_keyHandle r); pub = UTIL_HexToBytes (rg_pub r);
         sig = snd (UTIL_JsonSignatureToAsn1 (ecdsa k ([0x00] @ B64_decode (ec_appIdHash c) @ B64_decode (ec_challengeHash c) @ kh @ pub)))
     in Some ([0x05] @ pub @ [word_of_nat (length kh)] @ kh @ UTIL_HexToBytes (attestationCert p) @ sig))"
proof -
  define a where "a = B64_decode (ec_appIdHash c)"
  define ch where "ch = B64_decode (ec_challengeHash c)"
  define kh where "kh = B64_decode (rg_keyHandle r)"
  define pub where "pub = UTIL_HexToBytes (rg_pub r)"
  define cert where "cert = UTIL_HexToBytes (attestationCert p)"
  define sig where "sig = snd (UTIL_JsonSignatureToAsn1 (ecdsa k ([0x00] @ a @ ch @ kh @ pub)))"
  have l: "length a = 32" "length ch = 32" "length pub = 65" using assms by (simp_all add: a_def ch_def pub_def)
  have b0: "(replicate (1 + 32 + 32 + length kh + 65) 0)[0 := 0] = [0 :: byte] @ replicate (129 + length kh) 0"
    by (rule nth_equalityI) (auto simp: nth_append nth_list_update nth_Cons')
  have b1: "u8_set a 1 ([0] @ replicate (129 + length kh) 0) = Some (([0] @ a) @ replicate (97 + length kh) 0)"
    using u8_fill [of "[0]" 1 a "129 + length kh"] l by simp
  have b2: "u8_set ch 33 (([0] @ a) @ replicate (97 + length kh) 0) = Some (([0] @ a @ ch) @ replicate (65 + length kh) 0)"
    using u8_fill [of "[0] @ a" 33 ch "97 + length kh"] l by simp
  have b3: "u8_set kh 65 (([0] @ a @ ch) @ replicate (65 + length kh) 0) = Some (([0] @ a @ ch @ kh) @ replicate 65 0)"
    using u8_fill [of "[0] @ a @ ch" 65 kh "65 + length kh"] l by simp
  have b4: "u8_set pub (65 + length kh) (([0] @ a @ ch @ kh) @ replicate 65 0) = Some ([0] @ a @ ch @ kh @ pub)"
    using u8_fill [of "[0] @ a @ ch @ kh" "65 + length kh" pub 65] l by simp
  have s: "soft_sign_key ecdsa (attestationKey p) ([0] @ a @ ch @ kh @ pub) = Some sig"
    using assms(4) by (simp add: soft_sign_key_def sig_def)
  let ?n = "length kh + length cert + length sig"
  have r0: "(replicate (1 + 65 + 1 + length kh + length cert + length sig) 0)[0 := 0x05] = [0x05 :: byte] @ replicate (66 + ?n) 0"
    by (rule nth_equalityI) (auto simp: nth_append nth_list_update nth_Cons')
  have r1: "u8_set pub 1 ([0x05] @ replicate (66 + ?n) 0) = Some (([0x05] @ pub) @ replicate (1 + ?n) 0)"
    using u8_fill [of "[0x05]" 1 pub "66 + ?n"] l by simp
  have r1': "(([0x05] @ pub) @ replicate (1 + ?n) 0)[1 + length pub := x] = ([0x05] @ pub @ [x]) @ replicate ?n 0" for x
    using l by (simp add: list_update_append)
  have r2: "u8_set kh (1 + length pub + 1) (([0x05] @ pub @ [x]) @ replicate ?n 0)
      = Some (([0x05] @ pub @ [x] @ kh) @ replicate (length cert + length sig) 0)" for x
    using u8_fill [of "[0x05] @ pub @ [x]" "1 + length pub + 1" kh ?n] l by simp
  have r3: "u8_set cert (1 + length pub + 1 + length kh) (([0x05] @ pub @ [x] @ kh) @ replicate (length cert + length sig) 0)
      = Some (([0x05] @ pub @ [x] @ kh @ cert) @ replicate (length sig) 0)" for x
    using u8_fill [of "[0x05] @ pub @ [x] @ kh" "1 + length pub + 1 + length kh" cert "length cert + length sig"] l by simp
  have r4: "u8_set sig (1 + length pub + 1 + length kh + length cert) (([0x05] @ pub @ [x] @ kh @ cert) @ replicate (length sig) 0)
      = Some ([0x05] @ pub @ [x] @ kh @ cert @ sig)" for x
    using u8_fill [of "[0x05] @ pub @ [x] @ kh @ cert" "1 + length pub + 1 + length kh + length cert" sig "length sig"] l by simp
  show ?thesis
    unfolding registration_message_def Let_def a_def [symmetric] ch_def [symmetric] kh_def [symmetric] pub_def [symmetric]
      cert_def [symmetric] sig_def [symmetric]
    by (simp only: b0 b1 b2 b3 b4 s r0 r1 r1' r2 r3 r4 Option.bind.bind_lunit)
qed

lemma signature_layout:
  assumes "length (B64_decode (rg_appIdHash r)) = 32" "length (B64_decode (hc_challengeHash sd)) = 32"
    "UTIL_HexToArray (rg_sec r) = Inr k"
  shows "sign_message ecdsa r sd =
    (let ctr = counter_bytes (rg_counter r);
         sig = snd (UTIL_JsonSignatureToAsn1 (ecdsa k (B64_decode (rg_appIdHash r) @ [0x01] @ ctr @ B64_decode (hc_challengeHash sd))))
     in Some ([0x01] @ ctr @ sig))"
proof -
  define a where "a = B64_decode (rg_appIdHash r)"
  define ch where "ch = B64_decode (hc_challengeHash sd)"
  define ctr where "ctr = counter_bytes (rg_counter r)"
  define sig where "sig = snd (UTIL_JsonSignatureToAsn1 (ecdsa k (a @ [0x01] @ ctr @ ch)))"
  have l: "length a = 32" "length ch = 32" "length ctr = 4" using assms by (simp_all add: a_def ch_def ctr_def counter_bytes_def)
  have b1: "u8_set a 0 (replicate (32 + 1 + 4 + 32) 0) = Some (a @ replicate 37 0)"
    using u8_fill [of "[]" 0 a 69] l by simp
  have b2: "u8_set (0x01 # ctr) 32 (a @ replicate 37 0) = Some ((a @ [0x01] @ ctr) @ replicate 32 0)"
    using u8_fill [of a 32 "0x01 # ctr" 37] l by simp
  have b3: "u8_set ch 37 ((a @ [0x01] @ ctr) @ replicate 32 0) = Some (a @ [0x01] @ ctr @ ch)"
    using u8_fill [of "a @ [0x01] @ ctr" 37 ch 32] l by simp
  have buf: "sign_buffer r sd = Some (a @ [0x01] @ ctr @ ch)"
    unfolding sign_buffer_def a_def [symmetric] ch_def [symmetric] ctr_def [symmetric]
    by (simp only: b1 b2 b3 Option.bind.bind_lunit)
  have t: "take 5 (drop 32 (a @ [0x01] @ ctr @ ch)) = [0x01] @ ctr" using l by (simp add: take_Cons')
  have s: "soft_sign_key ecdsa (rg_sec r) (a @ [0x01] @ ctr @ ch) = Some sig"
    using assms(3) by (simp add: soft_sign_key_def sig_def)
  have d1: "u8_set ([0x01] @ ctr) 0 (replicate (1 + 4 + length sig) 0) = Some (([0x01] @ ctr) @ replicate (length sig) 0)"
    using u8_fill [of "[]" 0 "[0x01] @ ctr" "5 + length sig"] l by simp
  have d2: "u8_set sig 5 (([0x01] @ ctr) @ replicate (length sig) 0) = Some ([0x01] @ ctr @ sig)"
    using u8_fill [of "[0x01] @ ctr" 5 sig "length sig"] l by simp
  show ?thesis
    unfolding sign_message_def buf Let_def ctr_def [symmetric] a_def [symmetric] ch_def [symmetric] sig_def [symmetric]
    by (simp only: Option.bind.bind_lunit t s d1 d2)
qed

lemma chain_put: "length (sha_chain st) = 8 \<Longrightarrow> length (sha_chain (sha_put b st)) = 8"
  by (simp add: sha_put_def Let_def)

lemma chain_update: "length (sha_chain st) = 8 \<Longrightarrow> length (sha_chain (sha_update st b n)) = 8"
proof -
  have "length (sha_chain (fold (\<lambda>i. sha_put (f i)) is st)) = 8" if "length (sha_chain st) = 8" for f :: "nat \<Rightarrow> byte" and "is" and st :: sha256
    using that by (induction "is" arbitrary: st) (simp_all add: chain_put)
  then show "length (sha_chain st) = 8 \<Longrightarrow> length (sha_chain (sha_update st b n)) = 8"
    by (simp add: sha_update_def Let_def)
qed

lemma length_key_handle: "length (key_handle_hash pub) = 32"
proof -
  have o: "length c = 8 \<Longrightarrow> length (sha_output c) = 32" for c by (simp add: sha_output_def length_concat comp_def sum_list_triv)
  have "length (sha_chain SHA256) = 8" by (simp add: SHA256_def sha_reset_def sha_iv_def)
  then show ?thesis by (simp add: key_handle_hash_def sha_digest_def Let_def o chain_update)
qed

lemma find_append: "find_registration a k (rs @ [r]) =
    (case find_registration a k rs of Some i \<Rightarrow> Some i
     | None \<Rightarrow> if rg_appIdHash r = a \<and> rg_keyHandle r = k then Some (length rs) else None)"
  by (induction rs) (auto split: option.split)

text \<open>
  Registering and signing with the soft token. With a fresh key pair (a public key of 65 bytes), and when none of
  the key handles of the request is known, the registration message is 0x05, the public key, the length of the key
  handle, the key handle, the certificate and the signature of the attestation key over 0, the hashes of app id and
  challenge, the key handle and the public key. A later request to sign with that key handle is signed with the
  private key of the pair: the signature is over the hash of the app id, 1, the counter 2 and the hash of the
  challenge, and the message is 1, the counter and the signature. The exception is a pair whose key handle was
  taken already.
\<close>

theorem soft_register_and_sign:
  assumes "\<not> already_registered p sds" "soft_challenge cs = Some c"
    and "length (B64_decode (ec_appIdHash c)) = 32" "length (B64_decode (ec_challengeHash c)) = 32" "length (UTIL_HexToBytes pub) = 65"
    and "UTIL_HexToArray (attestationKey p) = Inr ka" "UTIL_HexToArray sec = Inr ks"
    and "getRegistration (ec_appIdHash c) (B64_encode (key_handle_hash pub) None) p = None"
    and "hc_appIdHash sd = ec_appIdHash c" "hc_keyHandle sd = B64_encode (key_handle_hash pub) None" "hc_version sd = Some U2F_V2"
      "length (B64_decode (hc_challengeHash sd)) = 32"
  shows "let app = B64_decode (ec_appIdHash c); kh = key_handle_hash pub; pk = UTIL_HexToBytes pub;
      (p', enrolled) = soft_enroll ecdsa (sec, pub) sds cs p;
      asig = snd (UTIL_JsonSignatureToAsn1 (ecdsa ka ([0x00] @ app @ B64_decode (ec_challengeHash c) @ kh @ pk)));
      ssig = snd (UTIL_JsonSignatureToAsn1 (ecdsa ks (app @ [0x01] @ [0, 0, 0, 2] @ B64_decode (hc_challengeHash sd))))
    in map_option hr_data enrolled = Some (Some (SoftEnroll U2F_V2
         (B64_encode ([0x05] @ pk @ [32] @ kh @ UTIL_HexToBytes (attestationCert p) @ asig) None)))
     \<and> map_option hr_data (snd (soft_sign ecdsa [sd] p')) = Some (Some (SoftSign U2F_V2
         \<lparr>re_appIdHash = ec_appIdHash c, re_challengeHash = hc_challengeHash sd, re_keyHandle = B64_encode kh None,
          re_signatureData = B64_encode ([0x01] @ [0, 0, 0, 2] @ ssig) None\<rparr>))"
proof -
  let ?r = "\<lparr>rg_appIdHash = ec_appIdHash c, rg_keyHandle = B64_encode (key_handle_hash pub) None, rg_sec = sec, rg_pub = pub, rg_counter = 1\<rparr>"
  let ?r2 = "?r\<lparr>rg_counter := 2\<rparr>"
  let ?p = "p\<lparr>registrations := registrations p @ [?r]\<rparr>"
  have kh: "B64_decode (rg_keyHandle ?r) = key_handle_hash pub" by (simp add: b64.dec_enc)
  have e: "soft_enroll ecdsa (sec, pub) sds cs p = (?p, map_option (\<lambda>regData. \<lparr>hr_type = Some ''enroll_helper_reply'',
      hr_code = Some OK_STATUS, hr_data = Some (SoftEnroll U2F_V2 (B64_encode regData None))\<rparr>) (registration_message ecdsa ?p c ?r))"
    using assms(1,2) by (simp add: soft_enroll_def createRegistration_def Let_def)
  have m: "registration_message ecdsa ?p c ?r = Some ([0x05] @ UTIL_HexToBytes pub @ [32] @ key_handle_hash pub @ UTIL_HexToBytes (attestationCert p)
      @ snd (UTIL_JsonSignatureToAsn1 (ecdsa ka ([0x00] @ B64_decode (ec_appIdHash c) @ B64_decode (ec_challengeHash c) @ key_handle_hash pub @ UTIL_HexToBytes pub))))"
    using registration_layout [of c ?r ?p ka ecdsa] assms(3-6) by (simp add: Let_def length_key_handle b64.dec_enc)
  have "getRegistration (hc_appIdHash sd) (hc_keyHandle sd) ?p = Some (length (registrations p))"
    using assms(8-10) by (simp add: getRegistration_def find_append)
  then have k: "known_key ?p [sd] = Some (length (registrations p), sd)" using assms(11) by simp
  have ctr: "counter_bytes 2 = [0, 0, 0, 2]" by code_simp
  have s: "sign_message ecdsa ?r2 sd = Some ([0x01] @ [0, 0, 0, 2] @ snd (UTIL_JsonSignatureToAsn1 (ecdsa ks
      (B64_decode (ec_appIdHash c) @ [0x01] @ [0, 0, 0, 2] @ B64_decode (hc_challengeHash sd)))))"
    using signature_layout [of ?r2 sd ks ecdsa] assms(3,7,12) ctr by (simp add: Let_def)
  have "soft_sign ecdsa [sd] ?p = (?p\<lparr>registrations := (registrations ?p)[length (registrations p) := ?r2]\<rparr>,
      map_option (\<lambda>signatureData. \<lparr>hr_type = Some ''sign_helper_reply'', hr_code = Some OK_STATUS,
                 hr_data = Some (SoftSign U2F_V2 \<lparr>re_appIdHash = rg_appIdHash ?r2, re_challengeHash = hc_challengeHash sd,
                   re_keyHandle = rg_keyHandle ?r2, re_signatureData = B64_encode signatureData None\<rparr>)\<rparr>) (sign_message ecdsa ?r2 sd))"
    unfolding soft_sign_def k by (simp add: Let_def)
  with s have "map_option hr_data (snd (soft_sign ecdsa [sd] ?p)) = Some (Some (SoftSign U2F_V2
         \<lparr>re_appIdHash = ec_appIdHash c, re_challengeHash = hc_challengeHash sd, re_keyHandle = B64_encode (key_handle_hash pub) None,
          re_signatureData = B64_encode ([0x01] @ [0, 0, 0, 2] @ snd (UTIL_JsonSignatureToAsn1 (ecdsa ks
             (B64_decode (ec_appIdHash c) @ [0x01] @ [0, 0, 0, 2] @ B64_decode (hc_challengeHash sd))))) None\<rparr>))" by simp
  then show ?thesis unfolding e m Let_def prod.case by simp
qed

definition toy_ecdsa :: "byte option list \<Rightarrow> bytes \<Rightarrow> signature" where
  "toy_ecdsa k b = \<lparr>sig_r = [0x81], sig_s = [word_of_nat (length b)]\<rparr>"

definition toy_challenge :: enroll_challenge where
  "toy_challenge = \<lparr>ec_version = U2F_V2, ec_challengeHash = B64_encode (replicate 32 7) None, ec_appIdHash = B64_encode (replicate 32 9) None\<rparr>"

definition toy_pub :: string where
  "toy_pub = UTIL_BytesToHex (Some (replicate 65 4))"

definition toy_key :: helper_challenge where
  "toy_key = \<lparr>hc_challengeHash = B64_encode (replicate 32 8) None, hc_appIdHash = B64_encode (replicate 32 9) None,
     hc_keyHandle = B64_encode (key_handle_hash toy_pub) None, hc_version = Some U2F_V2\<rparr>"

theorem soft_register_and_sign_witness:
  "\<exists>x y. map_option hr_data (snd (soft_enroll toy_ecdsa (UTIL_BytesToHex (Some [3]), toy_pub) [] [toy_challenge] SoftTokenProfile))
       = Some (Some (SoftEnroll U2F_V2 x))
     \<and> map_option hr_data (snd (soft_sign toy_ecdsa [toy_key] (fst (soft_enroll toy_ecdsa (UTIL_BytesToHex (Some [3]), toy_pub) [] [toy_challenge] SoftTokenProfile))))
       = Some (Some (SoftSign U2F_V2 y))"
proof -
  have "\<not> isl (UTIL_HexToArray (attestationKey SoftTokenProfile))" by code_simp
  then obtain ka where ka: "UTIL_HexToArray (attestationKey SoftTokenProfile) = Inr ka" by (cases "UTIL_HexToArray (attestationKey SoftTokenProfile)") simp_all
  have 1: "\<not> already_registered SoftTokenProfile []" "soft_challenge [toy_challenge] = Some toy_challenge"
    by (simp_all add: soft_challenge_def toy_challenge_def)
  have 2: "length (B64_decode (ec_appIdHash toy_challenge)) = 32" "length (B64_decode (ec_challengeHash toy_challenge)) = 32"
    "length (UTIL_HexToBytes toy_pub) = 65"
    by (simp_all add: toy_challenge_def toy_pub_def b64.dec_enc length_HexToBytes del: UTIL_BytesToHex.simps)
  have 3: "UTIL_HexToArray (UTIL_BytesToHex (Some [3])) = Inr (map Some [3])" by (rule HexToArray_BytesToHex)
  have 4: "getRegistration (ec_appIdHash toy_challenge) (B64_encode (key_handle_hash toy_pub) None) SoftTokenProfile = None"
    by (simp add: getRegistration_def SoftTokenProfile_def)
  have 5: "hc_appIdHash toy_key = ec_appIdHash toy_challenge" "hc_keyHandle toy_key = B64_encode (key_handle_hash toy_pub) None"
    "hc_version toy_key = Some U2F_V2" "length (B64_decode (hc_challengeHash toy_key)) = 32"
    by (simp_all add: toy_key_def toy_challenge_def b64.dec_enc)
  show ?thesis
    using soft_register_and_sign [OF 1 2 ka 3 4 5, of toy_ecdsa] by (auto simp: Let_def split: prod.splits)
qed

text \<open>
  Key handles are made from the digits of the public key: keys that differ in the letters of their hexadecimal text
  have the same handle, and with it the first of them signs.
\<close>

theorem letters_do_not_count: "key_handle_hash ''04ab'' = key_handle_hash ''04fd''"
  by (simp add: key_handle_hash_def char_number_def)

text \<open>
  An unknown key handle is refused while the handler is run, so behind the delegating helper nothing is reported.
\<close>

theorem soft_refusal_lost:
  "snd (soft_run toy_ecdsa ([], []) (SoftSignRequest [toy_key]) SoftTokenProfile) = Some \<lparr>hr_type = Some ''sign_helper_reply'', hr_code = Some WRONG_DATA_STATUS, hr_data = None\<rparr>
   \<and> dl_replies (fst (dl_run (\<lambda>_. \<lparr>an_handler = True,
        an_completes = [(\<lparr>hr_type = Some ''sign_helper_reply'', hr_code = Some WRONG_DATA_STATUS, hr_data = None\<rparr> :: soft_data helper_reply, None)], an_accepts = True\<rparr>)
      (DelegatingRequestHandler 1))) = []"
proof
  show "snd (soft_run toy_ecdsa ([], []) (SoftSignRequest [toy_key]) SoftTokenProfile) = Some \<lparr>hr_type = Some ''sign_helper_reply'', hr_code = Some WRONG_DATA_STATUS, hr_data = None\<rparr>"
    by (simp add: soft_sign_def getRegistration_def SoftTokenProfile_def toy_key_def)
qed code_simp

subsection \<open>Counters\<close>

definition same_key :: "soft_registration \<Rightarrow> soft_registration \<Rightarrow> bool" where
  "same_key r r' \<longleftrightarrow> rg_appIdHash r' = rg_appIdHash r \<and> rg_keyHandle r' = rg_keyHandle r \<and> rg_sec r' = rg_sec r \<and> rg_pub r' = rg_pub r"

fun signs_with :: "nat \<Rightarrow> soft_request \<Rightarrow> soft_profile \<Rightarrow> bool" where
  "signs_with i (SoftSignRequest sds) p = (map_option fst (known_key p sds) = Some i)"
| "signs_with i _ p = False"

fun soft_requests :: "(byte option list \<Rightarrow> bytes \<Rightarrow> signature) \<Rightarrow> ((string \<times> string) \<times> soft_request) list \<Rightarrow> soft_profile \<Rightarrow> soft_profile" where
  "soft_requests ecdsa [] p = p"
| "soft_requests ecdsa ((kp, rq) # rqs) p = soft_requests ecdsa rqs (fst (soft_run ecdsa kp rq p))"

fun times_signed :: "(byte option list \<Rightarrow> bytes \<Rightarrow> signature) \<Rightarrow> nat \<Rightarrow> ((string \<times> string) \<times> soft_request) list \<Rightarrow> soft_profile \<Rightarrow> nat" where
  "times_signed ecdsa i [] p = 0"
| "times_signed ecdsa i ((kp, rq) # rqs) p =
     (if signs_with i rq p then 1 else 0) + times_signed ecdsa i rqs (fst (soft_run ecdsa kp rq p))"

lemma soft_run_keeps:
  assumes "i < length (registrations p)"
  shows "i < length (registrations (fst (soft_run ecdsa kp rq p)))
    \<and> same_key (registrations p ! i) (registrations (fst (soft_run ecdsa kp rq p)) ! i)
    \<and> rg_counter (registrations (fst (soft_run ecdsa kp rq p)) ! i) = rg_counter (registrations p ! i) + (if signs_with i rq p then 1 else 0)"
proof (cases rq)
  case (SoftEnrollRequest sds cs)
  then show ?thesis using assms
    by (cases kp) (auto simp: soft_enroll_def createRegistration_def Let_def same_key_def nth_append split: option.split)
next
  case (SoftSignRequest sds)
  then show ?thesis using assms
    by (auto simp: soft_sign_def same_key_def Let_def nth_list_update split: option.split)
qed

text \<open>
  Whatever is asked of the soft token, a registration keeps its app id, key handle and keys, and its counter goes
  up by one with every request that is signed under it, and only then.
\<close>

theorem soft_counters:
  assumes "i < length (registrations p)"
  shows "let r = registrations p ! i; r' = registrations (soft_requests ecdsa rqs p) ! i in
    same_key r r' \<and> rg_counter r' = rg_counter r + int (times_signed ecdsa i rqs p)"
  using assms
proof (induction rqs arbitrary: p)
  case (Cons x rqs)
  obtain kp rq where x: "x = (kp, rq)" by fastforce
  from soft_run_keeps [OF Cons.prems, of ecdsa kp rq] Cons.IH [of "fst (soft_run ecdsa kp rq p)"]
  show ?case by (auto simp: x Let_def same_key_def)
qed (simp add: same_key_def)

theorem soft_counters_witness:
  "(let p = SoftTokenProfile\<lparr>registrations := [\<lparr>rg_appIdHash = [], rg_keyHandle = [], rg_sec = [], rg_pub = [], rg_counter = 1\<rparr>]\<rparr>;
        rqs = [(([], []), SoftSignRequest [\<lparr>hc_challengeHash = [], hc_appIdHash = [], hc_keyHandle = [], hc_version = Some U2F_V2\<rparr>])]
    in rg_counter (registrations (soft_requests toy_ecdsa rqs p) ! 0) = 1 + int (times_signed toy_ecdsa 0 rqs p))"
  using soft_counters [of 0 "SoftTokenProfile\<lparr>registrations := [\<lparr>rg_appIdHash = [], rg_keyHandle = [], rg_sec = [], rg_pub = [], rg_counter = 1\<rparr>]\<rparr>"
    toy_ecdsa "[(([], []), SoftSignRequest [\<lparr>hc_challengeHash = [], hc_appIdHash = [], hc_keyHandle = [], hc_version = Some U2F_V2\<rparr>])]"]
  unfolding Let_def by simp

text \<open>The four bytes determine the counter below \<open>2^32\<close>.\<close>

lemma masked_byte:
  "bit (word_of_int (js_and 0xFF (js_ushr n s)) :: byte) j \<longleftrightarrow> j < 8 \<and> bit (to_int32 n) (s + j)"
  "bit (word_of_int (js_and 0xFF n) :: byte) j \<longleftrightarrow> j < 8 \<and> bit (to_int32 n) j"
proof -
  have m: "bit (0xFF :: int32) k \<longleftrightarrow> k < 8" for k
  proof -
    have "(0xFF :: int32) = mask 8" by (simp add: mask_eq_exp_minus_1)
    then show ?thesis by (simp only: bit_mask_iff possible_bit_word) auto
  qed
  have m': "bit (0xFF :: int) k \<longleftrightarrow> k < 8" for k
  proof -
    have "(0xFF :: int) = mask 8" by (simp add: mask_eq_exp_minus_1)
    then show ?thesis by (simp only: bit_mask_iff possible_bit_int) auto
  qed
  have c: "to_int32 0xFF = 0xFF" by (simp add: to_int32_def)
  show "bit (word_of_int (js_and 0xFF (js_ushr n s)) :: byte) j \<longleftrightarrow> j < 8 \<and> bit (to_int32 n) (s + j)"
    by (auto simp: js_and_def c m m' bit_simps bit_sint_iff js_ushr_def to_int32_uint)
  show "bit (word_of_int (js_and 0xFF n) :: byte) j \<longleftrightarrow> j < 8 \<and> bit (to_int32 n) j"
    by (auto simp: js_and_def c m m' bit_simps bit_sint_iff)
qed

lemma counter_bytes_inject:
  assumes "0 \<le> m" "m < 2 ^ 32" "0 \<le> n" "n < 2 ^ 32" "counter_bytes m = counter_bytes n"
  shows "m = n"
proof -
  have b: "word_of_int (js_and 0xFF (js_ushr m s)) = (word_of_int (js_and 0xFF (js_ushr n s)) :: byte)" if "s \<in> {24, 16, 8}" for s
    using assms(5) that by (auto simp: counter_bytes_def)
  have b0: "word_of_int (js_and 0xFF m) = (word_of_int (js_and 0xFF n) :: byte)" using assms(5) by (simp add: counter_bytes_def)
  have "bit (to_int32 m) (s + j) = bit (to_int32 n) (s + j)" if "s \<in> {24, 16, 8, 0}" "j < 8" for s j
    using that b [of s] b0 masked_byte(1) [of m s j] masked_byte(2) [of m j] masked_byte(1) [of n s j] masked_byte(2) [of n j] by auto
  note bits = this
  have "bit (to_int32 m) i = bit (to_int32 n) i" if "i < 32" for i
  proof -
    have "i = 8 * (i div 8) + i mod 8" "i div 8 < 4" using that by auto
    then have "8 * (i div 8) \<in> {24, 16, 8, 0}" by auto
    from bits [OF this, of "i mod 8"] show ?thesis by simp
  qed
  then have "to_int32 m = to_int32 n" by (intro bit_word_eqI) simp
  then have "m mod 2 ^ 32 = n mod 2 ^ 32" unfolding to_int32_def by (simp add: word_of_int_eq_iff take_bit_eq_mod)
  with assms(1-4) show ?thesis by simp
qed

end
