(* ===== verification/Enroller.thy ===== *)
theory Enroller
  imports WebRequest UsbHandlers Watchdog
begin

text \<open>
  enroller.js: the registration request of a web page, from its message to its response. Promises and timers
  are events; a promise that is out is the stage \<open>en_wait\<close>, so each is settled once. An event carries what the
  browser or the network answers, and the step computes the result with the definitions of the component that
  gives it. The watchdog is that of Watchdog, with the enroller as its closeable 0.
\<close>

record web_env =
  env_json :: json_lib
  env_cid :: bool
  env_http_allowed :: bool
  env_tld :: "string \<Rightarrow> string option"

record enroll_helper_request =
  ehr_enrollChallenges :: "enroll_challenge list"
  ehr_signData :: "helper_challenge list"
  ehr_timeoutSeconds :: "rat option"

subsection \<open>Validation\<close>

fun valid_enroll_loop :: "string list \<Rightarrow> web_enroll list \<Rightarrow> bool \<Rightarrow> bool" where
  "valid_enroll_loop seenVersions [] appIdRequired = True"
| "valid_enroll_loop seenVersions (c # cs) appIdRequired =
     (let v = (if truthy (we_version c) then the (we_version c) else U2F_V1) in
      if v \<noteq> U2F_V1 \<and> v \<noteq> U2F_V2 then False
      else if v \<in> set seenVersions then False
      else if appIdRequired \<and> \<not> truthy (we_appId c) then False
      else if \<not> truthy (we_challenge c) then False
      else valid_enroll_loop (v # seenVersions) cs appIdRequired)"

definition isValidEnrollChallengeArray :: "web_enroll list \<Rightarrow> bool \<Rightarrow> bool" where
  "isValidEnrollChallengeArray enrollChallenges appIdRequired = valid_enroll_loop [] enrollChallenges appIdRequired"

definition isValidEnrollRequest :: "web_request \<Rightarrow> bool" where
  "isValidEnrollRequest request =
     (case wr_registerRequests request of None \<Rightarrow> False
      | Some enrollChallenges \<Rightarrow>
        (if enrollChallenges = [] then False
         else (let hasAppId = wr_appId request \<noteq> None in
           if \<not> isValidEnrollChallengeArray enrollChallenges (\<not> hasAppId) then False
           else (case getSignChallenges (Some request) of None \<Rightarrow> True
             | Some signChallenges \<Rightarrow> isValidSignChallengeArray signChallenges False (\<not> hasAppId)))))"

definition findEnrollChallengeOfVersion :: "web_enroll list \<Rightarrow> string \<Rightarrow> web_enroll option" where
  "findEnrollChallengeOfVersion enrollChallenges ver = List.find (\<lambda>c. we_version c = Some ver) enrollChallenges"

definition makeEnrollResponseData :: "web_enroll \<Rightarrow> string \<Rightarrow> string \<Rightarrow> string option \<Rightarrow> response_data" where
  "makeEnrollResponseData enrollChallenge u2fVersion registrationData opt_clientData =
     EnrollData enrollChallenge registrationData (if u2fVersion = U2F_V2 then Some opt_clientData else None)"

definition getSignRequestsFromEnrollRequest :: "web_request \<Rightarrow> web_challenge list option" where
  "getSignRequestsFromEnrollRequest request =
     map_option (map (\<lambda>c. if wc_challenge c = None then c\<lparr>wc_challenge := Some []\<rparr> else c))
       (case wr_registeredKeys request of Some ks \<Rightarrow> Some ks | None \<Rightarrow> wr_signRequests request)"

subsection \<open>Encoding\<close>

definition encodeEnrollChallenge :: "web_enroll \<Rightarrow> string option \<Rightarrow> enroll_challenge option" where
  "encodeEnrollChallenge c opt_appId =
     (let v = (if truthy (we_version c) then the (we_version c) else U2F_V1);
          appId = (if truthy (we_appId c) then we_appId c else opt_appId)
      in case (we_challenge c, appId) of
           (Some ch, Some a) \<Rightarrow> Some \<lparr>ec_version = v, ec_challengeHash = ch, ec_appIdHash = B64_encode (sha256HashOfString a) None\<rparr>
         | _ \<Rightarrow> None)"

text \<open>A valid challenge has a challenge value.\<close>

definition enroll_client_data :: "web_env \<Rightarrow> web_sender \<Rightarrow> web_enroll \<Rightarrow> string" where
  "enroll_client_data env s c =
     makeEnrollBrowserData (env_json env) (env_cid env) (case we_challenge c of Some ch \<Rightarrow> ch | None \<Rightarrow> [])
       (ws_origin s) (ws_tlsChannelId s)"

text \<open>One round of the loop of \<open>encodeEnrollChallenges_\<close>: the challenge, and the browser data it stores.\<close>

definition encode_one :: "web_env \<Rightarrow> web_sender \<Rightarrow> string option \<Rightarrow> web_enroll \<Rightarrow> enroll_challenge option \<times> string jsobj" where
  "encode_one env s opt_appId c =
     (if (if truthy (we_version c) then the (we_version c) else U2F_V1) = U2F_V2
      then (let browserData = enroll_client_data env s c in
            (encodeEnrollChallenge (c\<lparr>we_challenge := Some (B64_encode (sha256HashOfString browserData) None)\<rparr>) opt_appId,
             [(U2F_V2, B64_encode (UTIL_StringToBytes browserData) None)]))
      else (encodeEnrollChallenge c opt_appId, []))"

definition encodeEnrollChallenges :: "web_env \<Rightarrow> web_sender \<Rightarrow> string option \<Rightarrow> web_enroll list
    \<Rightarrow> enroll_challenge list option \<times> string jsobj" where
  "encodeEnrollChallenges env s opt_appId cs =
     (those (map (fst \<circ> encode_one env s opt_appId) cs),
      fold (\<lambda>(k, v) ob. AList.update k v ob) (concat (map (snd \<circ> encode_one env s opt_appId) cs)) [])"

subsection \<open>The enroller and its request\<close>

datatype en_stage =
    AtRest
  | WaitTab
  | WaitApproval
  | WaitClaim "string list" enroll_helper_request
  | WaitCheck "string list" enroll_helper_request

datatype en_effect = StartHandler enroll_helper_request | CloseHandler | Reply web_response

record enroller =
  en_request :: web_request
  en_sender :: web_sender
  en_sys :: systimer
  en_timer :: "unit countdown"
  en_done :: bool
  en_browserData :: "string jsobj"
  en_handler :: bool
  en_started :: bool
  en_wait :: en_stage
  en_closeable :: bool
  en_wd :: "unit watchdog"
  en_out :: "en_effect list"

definition en_allowHttp :: "enroller \<Rightarrow> bool" where
  "en_allowHttp h \<longleftrightarrow> take 7 (ws_origin (en_sender h)) = ''http://''"

definition en_emit :: "en_effect \<Rightarrow> enroller \<Rightarrow> enroller" where
  "en_emit e h = h\<lparr>en_out := en_out h @ [e]\<rparr>"

definition en_close :: "enroller \<Rightarrow> enroller" where
  "en_close h = (let h1 = (if en_handler h then en_emit CloseHandler (h\<lparr>en_handler := False\<rparr>) else h) in h1\<lparr>en_done := True\<rparr>)"

text \<open>\<open>close\<close> of the watchdog: it closes the enroller when it still holds it.\<close>

definition close_watchdog :: "enroller \<Rightarrow> enroller" where
  "close_watchdog h =
     (let h1 = h\<lparr>en_wd := wd_close (en_wd h)\<rparr> in if wd_closeable (en_wd h) \<noteq> None then en_close h1 else h1)"

definition send_once :: "web_response \<Rightarrow> enroller \<Rightarrow> enroller" where
  "send_once r h = fold (\<lambda>e. case e of CloseIt \<Rightarrow> close_watchdog | SendIt r' \<Rightarrow> en_emit (Reply r'))
     (sendResponseOnce False (en_closeable h) r) h"

definition sendErrorResponse :: "u2f_error \<Rightarrow> enroller \<Rightarrow> enroller" where
  "sendErrorResponse e h = send_once (makeU2fErrorResponse (Some (en_request h)) (errorCode e) (errorMessage e) None) h"

definition plain_error :: "error_code \<Rightarrow> u2f_error" where
  "plain_error c = \<lparr>errorCode = c, errorMessage = None\<rparr>"

definition sendSuccessResponse :: "string \<Rightarrow> string \<Rightarrow> string option \<Rightarrow> enroller \<Rightarrow> enroller" where
  "sendSuccessResponse u2fVersion info clientData h =
     (case findEnrollChallengeOfVersion (case wr_registerRequests (en_request h) of Some cs \<Rightarrow> cs | None \<Rightarrow> []) u2fVersion of
        None \<Rightarrow> sendErrorResponse (plain_error OTHER_ERROR) h
      | Some c \<Rightarrow> send_once (makeU2fSuccessResponse (Some (en_request h)) (makeEnrollResponseData c u2fVersion info clientData)) h)"

definition en_notifyError :: "u2f_error \<Rightarrow> enroller \<Rightarrow> enroller" where
  "en_notifyError e h = (if en_done h then h else sendErrorResponse e ((en_close h)\<lparr>en_done := True\<rparr>))"

definition en_notifySuccess :: "string \<Rightarrow> string \<Rightarrow> string option \<Rightarrow> enroller \<Rightarrow> enroller" where
  "en_notifySuccess v info d h = (if en_done h then h else sendSuccessResponse v info d ((en_close h)\<lparr>en_done := True\<rparr>))"

definition notifyTimeout :: "enroller \<Rightarrow> enroller" where
  "notifyTimeout h = en_notifyError (plain_error EC_TIMEOUT) h"

definition enroll_app_ids :: "web_request \<Rightarrow> string list" where
  "enroll_app_ids r =
     (if truthy (wr_appId r) then [the (wr_appId r)] else [])
     @ concat (map (\<lambda>c. case we_appId c of Some a \<Rightarrow> [a] | None \<Rightarrow> []) (case wr_registerRequests r of Some cs \<Rightarrow> cs | None \<Rightarrow> []))"

definition sign_challenges :: "web_request \<Rightarrow> web_challenge list" where
  "sign_challenges r = (case getSignRequestsFromEnrollRequest r of Some cs \<Rightarrow> cs | None \<Rightarrow> [])"

definition en_app_ids :: "web_request \<Rightarrow> string list" where
  "en_app_ids r = UTIL_unionArrays (enroll_app_ids r)
     (getDistinctAppIds (map (\<lambda>c. case wc_appId c of Some a \<Rightarrow> a | None \<Rightarrow> []) (sign_challenges r)))"

text \<open>An exception while encoding leaves the promise rejected, which nobody handles.\<close>

definition sendEnrollRequestToHelper :: "web_env \<Rightarrow> enroller \<Rightarrow> enroller" where
  "sendEnrollRequestToHelper env h =
     (let r = en_request h;
          (encodedEnrollChallenges, bd) = encodeEnrollChallenges env (en_sender h) (wr_appId r)
             (case wr_registerRequests r of Some cs \<Rightarrow> cs | None \<Rightarrow> []);
          encodedSignChallenges = encodeSignChallenges (sign_challenges r) (Some []) (wr_appId r) encodedSha256
      in case (encodedEnrollChallenges, encodedSignChallenges) of
           (Some es, Some ss) \<Rightarrow>
             (let req = \<lparr>ehr_enrollChallenges = es, ehr_signData = ss,
                     ehr_timeoutSeconds = (if \<not> expired (en_timer h) then Some (millisecondsUntilExpired (en_timer h) / 1000) else None)\<rparr>;
                  h1 = h\<lparr>en_browserData := bd\<rparr>
              in if enroll_app_ids r = [] then en_notifyError (plain_error BAD_REQUEST) h1
                 else h1\<lparr>en_wait := WaitClaim (en_app_ids r) req\<rparr>)
         | _ \<Rightarrow> h)"

definition en_approved :: "web_env \<Rightarrow> bool \<Rightarrow> enroller \<Rightarrow> enroller" where
  "en_approved env result h =
     (if en_done h then h
      else if \<not> result
      then (if expired (en_timer h) then notifyTimeout h
            else (let (sys1, newTimer) = cd_clone (en_sys h) (en_timer h) (Some ());
                      (sys2, _) = cd_clearTimeout sys1 (en_timer h)
                  in h\<lparr>en_sys := sys2, en_timer := newTimer\<rparr>))
      else sendEnrollRequestToHelper env h)"

definition en_originChecked :: "string list \<Rightarrow> enroll_helper_request \<Rightarrow> bool \<Rightarrow> enroller \<Rightarrow> enroller" where
  "en_originChecked appIds req result h =
     (if \<not> result then en_notifyError (plain_error BAD_REQUEST) h
      else (let (sys', _) = cd_clone (en_sys h) (en_timer h) (None :: unit option)
            in h\<lparr>en_sys := sys', en_wait := WaitCheck appIds req\<rparr>))"

definition en_appIdsChecked :: "enroll_helper_request \<Rightarrow> bool \<Rightarrow> bool \<Rightarrow> enroller \<Rightarrow> enroller" where
  "en_appIdsChecked req has_handler result h =
     (if en_done h then h
      else if result
      then (if has_handler then en_emit (StartHandler req) (h\<lparr>en_handler := True, en_started := True\<rparr>)
            else en_notifyError (plain_error OTHER_ERROR) h)
      else en_notifyError (plain_error BAD_REQUEST) h)"

definition en_helperComplete :: "int \<Rightarrow> string \<Rightarrow> string \<Rightarrow> enroller \<Rightarrow> enroller" where
  "en_helperComplete code v enrollData h =
     (if code \<noteq> 0 then en_notifyError (mapDeviceStatusCodeToU2fError code) h
      else en_notifySuccess v enrollData (if v = U2F_V2 then map_of (en_browserData h) v else None) h)"

subsection \<open>Events\<close>

text \<open>
  The answers: of \<open>chrome.tabs\<close> to the query for the sender's tab; of \<open>chrome.tabs\<close> and \<open>chrome.windows\<close> about
  its tab; nothing for the claim of the app ids; of the fetcher about their documents, with whether the helper
  has a handler; the reply of the handler; the firing of the enroller's timer and of the watchdog's; the end of
  the page's channel.
\<close>

datatype en_event =
    EnTab bool "tab list" "tab list"
  | EnApproval bool bool "tab option" "bool option" "tab option"
  | EnClaim
  | EnDocuments "string \<Rightarrow> (fetch_result \<times> bool) list" bool
  | EnHelper int string string
  | EnTimer
  | EnWatchdog
  | EnClose

fun en_step :: "web_env \<Rightarrow> en_event \<Rightarrow> enroller \<Rightarrow> enroller" where
  "en_step env (EnTab chrome_tabs current all_active) h =
     (if en_wait h \<noteq> WaitTab then h
      else (let (s', ok) = getTabIdWhenPossible chrome_tabs current all_active (en_sender h);
                h1 = h\<lparr>en_sender := s', en_wait := AtRest\<rparr>
            in if ok then (if en_done h1 then h1 else h1\<lparr>en_wait := WaitApproval\<rparr>)
               else en_notifyError (plain_error BAD_REQUEST) (en_close h1)))"
| "en_step env (EnApproval chrome_tabs chrome_windows t w t2) h =
     (if en_wait h \<noteq> WaitApproval then h
      else (case isApprovedOrigin chrome_tabs chrome_windows t w t2 (ws_origin (en_sender h)) (ws_tabId (en_sender h)) of
          Some (Resolved result) \<Rightarrow> en_approved env result (h\<lparr>en_wait := AtRest\<rparr>)
        | _ \<Rightarrow> h\<lparr>en_wait := AtRest\<rparr>))"
| "en_step env EnClaim h =
     (case en_wait h of
        WaitClaim appIds req \<Rightarrow>
          en_originChecked appIds req (canClaimAppIds (env_tld env) (ws_origin (en_sender h)) appIds) (h\<lparr>en_wait := AtRest\<rparr>)
      | _ \<Rightarrow> h)"
| "en_step env (EnDocuments docs has_handler) h =
     (case en_wait h of
        WaitCheck appIds req \<Rightarrow>
          (case checkAppIds (env_json env) False (en_allowHttp h) (ws_origin (en_sender h)) docs appIds of
             None \<Rightarrow> h
           | Some result \<Rightarrow> en_appIdsChecked req has_handler result (h\<lparr>en_wait := AtRest\<rparr>))
      | _ \<Rightarrow> h)"
| "en_step env (EnHelper code v enrollData) h = (if en_started h then en_helperComplete code v enrollData h else h)"
| "en_step env EnTimer h =
     (let (sys', t, cs) = cd_fire (en_sys h) (en_timer h); h1 = h\<lparr>en_sys := sys', en_timer := t\<rparr>
      in if cs = [] then h1 else notifyTimeout h1)"
| "en_step env EnWatchdog h =
     (let w = wd_fire (en_wd h); h1 = h\<lparr>en_wd := w\<rparr>
      in if length (wd_trace w) > length (wd_trace (en_wd h)) then sendErrorResponse (plain_error EC_TIMEOUT) h1 else h1)"
| "en_step env EnClose h = close_watchdog h"

text \<open>The handler: an error response and no closeable, or the enroller that was started.\<close>

definition handleU2fEnrollRequest :: "web_env \<Rightarrow> systimer \<Rightarrow> message_sender \<Rightarrow> web_request \<Rightarrow> web_response + enroller" where
  "handleU2fEnrollRequest env sys messageSender request =
     (let bad = makeU2fErrorResponse (Some request) BAD_REQUEST None None in
      case createSenderFromMessageSender messageSender of None \<Rightarrow> Inl bad
      | Some sender \<Rightarrow>
        (if take 7 (ws_origin sender) = ''http://'' \<and> \<not> env_http_allowed env then Inl bad
         else if \<not> isValidEnrollRequest request then Inl bad
         else (let timeoutValueSeconds = getTimeoutValueFromRequest (wr_timeout request) None;
                   watchdogTimeoutValueSeconds = attenuateTimeoutInSeconds timeoutValueSeconds (Some (MINIMUM_TIMEOUT_ATTENUATION_SECONDS / 2));
                   watchdog = WatchdogRequestHandler sys watchdogTimeoutValueSeconds True;
                   (sys', timer) = createAttenuatedTimer (wd_sys watchdog) timeoutValueSeconds None
               in Inr \<lparr>en_request = request, en_sender = sender, en_sys = sys', en_timer = timer, en_done = False,
                    en_browserData = [], en_handler = False, en_started = False, en_wait = WaitTab, en_closeable = True,
                    en_wd = setCloseable 0 watchdog, en_out = []\<rparr>)))"

subsection \<open>At most one response\<close>

definition en_replies :: "enroller \<Rightarrow> nat" where
  "en_replies h = length (filter (\<lambda>e. case e of Reply r \<Rightarrow> True | _ \<Rightarrow> False) (en_out h))"

text \<open>
  Until the watchdog is closed there is no response and it holds the enroller; afterwards the enroller is
  done.
\<close>

definition en_inv :: "enroller \<Rightarrow> bool" where
  "en_inv h \<longleftrightarrow> en_closeable h \<and> en_replies h \<le> 1
     \<and> (if wd_closed (en_wd h) then en_done h else wd_closeable (en_wd h) \<noteq> None \<and> en_replies h = 0)"

lemma en_emit_simps [simp]:
  "en_done (en_emit e h) = en_done h" "en_wd (en_emit e h) = en_wd h" "en_closeable (en_emit e h) = en_closeable h"
  "en_replies (en_emit e h) = en_replies h + (case e of Reply r \<Rightarrow> 1 | _ \<Rightarrow> 0)" "en_wait (en_emit e h) = en_wait h"
  "en_sender (en_emit e h) = en_sender h" "en_request (en_emit e h) = en_request h" "en_out (en_emit e h) = en_out h @ [e]"
  by (auto simp: en_emit_def en_replies_def split: en_effect.split)

lemma en_close_simps [simp]:
  "en_done (en_close h)" "en_wd (en_close h) = en_wd h" "en_closeable (en_close h) = en_closeable h"
  "en_replies (en_close h) = en_replies h" "en_wait (en_close h) = en_wait h" "en_sender (en_close h) = en_sender h"
  "en_request (en_close h) = en_request h"
  by (simp_all add: en_close_def Let_def) (simp_all add: en_replies_def)

lemma wd_close_simps [simp]: "wd_closed (wd_close w)" "wd_closeable (wd_close w) = None"
  by (auto simp: wd_close_def Let_def split: prod.split option.split)

lemma close_watchdog_simps [simp]:
  "en_wd (close_watchdog h) = wd_close (en_wd h)" "en_closeable (close_watchdog h) = en_closeable h"
  "en_replies (close_watchdog h) = en_replies h" "en_wait (close_watchdog h) = en_wait h"
  "en_sender (close_watchdog h) = en_sender h" "en_request (close_watchdog h) = en_request h"
  "en_done (close_watchdog h) \<longleftrightarrow> en_done h \<or> wd_closeable (en_wd h) \<noteq> None"
  by (auto simp: close_watchdog_def Let_def) (auto simp: en_replies_def)

lemma send_once_eq: "en_closeable h \<Longrightarrow> send_once r h = en_emit (Reply r) (close_watchdog h)"
  by (simp add: send_once_def sendResponseOnce_def)

lemma inv_send:
  "en_closeable h \<Longrightarrow> en_replies h = 0 \<Longrightarrow> en_done h \<or> wd_closeable (en_wd h) \<noteq> None \<Longrightarrow> en_inv (send_once r h)"
  by (simp add: send_once_eq en_inv_def)

lemma en_not_done_open: "en_inv h \<Longrightarrow> \<not> en_done h \<Longrightarrow> en_replies h = 0 \<and> en_closeable h"
  by (auto simp: en_inv_def split: if_splits)

lemma inv_notify: "en_inv h \<Longrightarrow> en_inv (en_notifyError e h)" "en_inv h \<Longrightarrow> en_inv (en_notifySuccess v i d h)"
proof -
  have r: "en_replies ((en_close h)\<lparr>en_done := True\<rparr>) = en_replies h" by (simp add: en_replies_def) (simp add: en_close_def Let_def)
  then show "en_inv h \<Longrightarrow> en_inv (en_notifyError e h)"
    using en_not_done_open [of h] by (auto simp: en_notifyError_def sendErrorResponse_def intro!: inv_send)
  show "en_inv h \<Longrightarrow> en_inv (en_notifySuccess v i d h)"
    using en_not_done_open [of h] r
    by (auto simp: en_notifySuccess_def sendSuccessResponse_def sendErrorResponse_def split: option.split intro!: inv_send)
qed

lemma inv_same:
  "en_inv h \<Longrightarrow> en_closeable h' = en_closeable h \<Longrightarrow> en_replies h' = en_replies h \<Longrightarrow> en_wd h' = en_wd h
     \<Longrightarrow> (en_done h \<Longrightarrow> en_done h') \<Longrightarrow> en_inv h'"
  by (auto simp: en_inv_def split: if_splits)

lemma replies_updates [simp]:
  "en_replies (h\<lparr>en_wait := x\<rparr>) = en_replies h" "en_replies (h\<lparr>en_sender := s\<rparr>) = en_replies h"
  "en_replies (h\<lparr>en_sys := y, en_timer := t\<rparr>) = en_replies h" "en_replies (h\<lparr>en_browserData := b\<rparr>) = en_replies h"
  "en_replies (h\<lparr>en_handler := c, en_started := d\<rparr>) = en_replies h" "en_replies (h\<lparr>en_wd := w\<rparr>) = en_replies h"
  "en_replies (h\<lparr>en_sys := y\<rparr>) = en_replies h"
  by (simp_all add: en_replies_def)

lemma inv_updates [simp]:
  "en_inv (h\<lparr>en_wait := x\<rparr>) = en_inv h" "en_inv (h\<lparr>en_sender := s\<rparr>) = en_inv h"
  "en_inv (h\<lparr>en_sys := y, en_timer := t\<rparr>) = en_inv h" "en_inv (h\<lparr>en_browserData := b\<rparr>) = en_inv h"
  "en_inv (h\<lparr>en_handler := c, en_started := d\<rparr>) = en_inv h" "en_inv (h\<lparr>en_sys := y\<rparr>) = en_inv h"
  "en_inv (en_emit (StartHandler q) h) = en_inv h"
  by (simp_all add: en_inv_def)

lemma inv_send_helper: "en_inv h \<Longrightarrow> en_inv (sendEnrollRequestToHelper env h)"
  by (auto simp: sendEnrollRequestToHelper_def Let_def intro!: inv_notify split: prod.split option.split)

lemma wd_fire_frame: "wd_closed (wd_fire w) = wd_closed w \<and> wd_closeable (wd_fire w) = wd_closeable w
   \<and> (wd_closed w \<longrightarrow> length (wd_trace (wd_fire w)) = length (wd_trace w))"
  by (auto simp: wd_fire_def wd_timeout_def Let_def split: prod.split)

lemma en_inv_step: "en_inv h \<Longrightarrow> en_inv (en_step env e h)"
proof (cases e)
  case (EnTab a b c)
  assume i: "en_inv h"
  have "en_inv (en_close h1)" if "en_inv h1" for h1 using that by (rule inv_same) auto
  with i EnTab show ?thesis by (auto simp: Let_def intro!: inv_notify split: prod.split)
next
  case EnWatchdog
  assume i: "en_inv h"
  have f: "en_inv (h\<lparr>en_wd := wd_fire (en_wd h)\<rparr>)" using i wd_fire_frame [of "en_wd h"] by (simp add: en_inv_def)
  have "en_inv (send_once r (h\<lparr>en_wd := wd_fire (en_wd h)\<rparr>))"
    if "length (wd_trace (wd_fire (en_wd h))) > length (wd_trace (en_wd h))" for r
    using that i wd_fire_frame [of "en_wd h"] by (intro inv_send) (auto simp: en_inv_def split: if_splits)
  with f EnWatchdog show ?thesis by (simp add: Let_def sendErrorResponse_def)
next
  case EnClose
  assume "en_inv h"
  with EnClose show ?thesis by (auto simp: en_inv_def split: if_splits)
qed (auto simp: Let_def en_approved_def en_originChecked_def en_appIdsChecked_def en_helperComplete_def notifyTimeout_def
    intro!: inv_notify inv_send_helper split: prod.split option.split promised.split en_stage.split)

lemma inv_run: "en_inv h \<Longrightarrow> en_inv (fold (en_step env) es h)"
  by (rule fold_invariant [where Q = "\<lambda>_. True", rotated]) (auto simp: en_inv_step)

lemma inv_start: "handleU2fEnrollRequest env sys m r = Inr h \<Longrightarrow> en_inv h"
  by (auto simp: handleU2fEnrollRequest_def en_inv_def en_replies_def setCloseable_def WatchdogRequestHandler_def Let_def
      split: option.splits if_splits prod.splits)

text \<open>
  C32. A page gets at most one response to a registration request, whatever its tabs, the network, the helper,
  the timers and the page itself do, and in whatever order; a response leaves the enroller closed. So the
  flag \<open>sentResponse\<close>, which is never set, is not needed.
\<close>

theorem enroll_responds_once:
  assumes "handleU2fEnrollRequest env sys m r = Inr h"
  shows "en_replies (fold (en_step env) es h) \<le> 1
    \<and> (en_replies (fold (en_step env) es h) = 1 \<longrightarrow> en_done (fold (en_step env) es h))"
  using inv_run [OF inv_start [OF assms], of env es] by (auto simp: en_inv_def split: if_splits)

subsection \<open>What is checked before a helper is asked\<close>

definition approved_by :: "string \<Rightarrow> en_event \<Rightarrow> bool" where
  "approved_by o' e \<longleftrightarrow> (\<exists>ch wi t w t2 i. e = EnApproval ch wi t w t2 \<and> isApprovedOrigin ch wi t w t2 o' i = Some (Resolved True))"

definition under_way :: "enroller \<Rightarrow> bool" where
  "under_way h \<longleftrightarrow> (\<exists>ids req. en_wait h = WaitClaim ids req \<or> en_wait h = WaitCheck ids req) \<or> (\<exists>req. StartHandler req \<in> set (en_out h))"

definition may_enroll :: "web_env \<Rightarrow> string \<Rightarrow> string list \<Rightarrow> bool" where
  "may_enroll env o' ids \<longleftrightarrow> canClaimAppIds (env_tld env) o' ids
     \<and> (\<exists>docs. \<forall>a \<in> set ids. a = o' \<or> lists_origin (env_json env) (take 7 o' = ''http://'') o' a (docs a))"

definition hashed_ids :: "string list \<Rightarrow> enroll_helper_request \<Rightarrow> bool" where
  "hashed_ids ids req \<longleftrightarrow> (\<forall>x \<in> ec_appIdHash ` set (ehr_enrollChallenges req) \<union> hc_appIdHash ` set (ehr_signData req).
     \<exists>a \<in> insert [] (set ids). x = B64_encode (sha256HashOfString a) None)"

definition checked_inv :: "web_env \<Rightarrow> string \<Rightarrow> enroller \<Rightarrow> bool" where
  "checked_inv env o' h \<longleftrightarrow> ws_origin (en_sender h) = o'
     \<and> (case en_wait h of WaitClaim ids req \<Rightarrow> ids = en_app_ids (en_request h) \<and> hashed_ids ids req
        | WaitCheck ids req \<Rightarrow> ids = en_app_ids (en_request h) \<and> hashed_ids ids req \<and> canClaimAppIds (env_tld env) o' ids
        | _ \<Rightarrow> True)
     \<and> (\<forall>req. StartHandler req \<in> set (en_out h) \<longrightarrow>
          may_enroll env o' (en_app_ids (en_request h)) \<and> hashed_ids (en_app_ids (en_request h)) req)"

lemma set_those: "those xs = Some ys \<Longrightarrow> y \<in> set ys \<longleftrightarrow> Some y \<in> set xs"
  by (induction xs arbitrary: ys) (auto split: option.splits)

lemma set_app_ids:
  "a \<in> set (en_app_ids r) \<longleftrightarrow> (truthy (wr_appId r) \<and> wr_appId r = Some a)
     \<or> (\<exists>c \<in> set (case wr_registerRequests r of Some cs \<Rightarrow> cs | None \<Rightarrow> []). we_appId c = Some a)
     \<or> (\<exists>c \<in> set (sign_challenges r). wc_appId c = Some a \<and> a \<noteq> [])"
  unfolding en_app_ids_def set_unionArrays
  by (auto simp: enroll_app_ids_def getDistinctAppIds_def truthy_def image_iff split: option.splits) fastforce+

lemma encode_enroll_hash:
  assumes "fst (encode_one env s (wr_appId r) c) = Some e" "c \<in> set (case wr_registerRequests r of Some cs \<Rightarrow> cs | None \<Rightarrow> [])"
  shows "\<exists>a \<in> insert [] (set (en_app_ids r)). ec_appIdHash e = B64_encode (sha256HashOfString a) None"
proof -
  obtain a where "(if truthy (we_appId c) then we_appId c else wr_appId r) = Some a" "ec_appIdHash e = B64_encode (sha256HashOfString a) None"
    using assms(1) by (auto simp: encode_one_def encodeEnrollChallenge_def Let_def split: if_splits option.splits)
  moreover from this(1) have "a = [] \<or> a \<in> set (en_app_ids r)"
    using assms(2) by (auto simp: set_app_ids truthy_def split: if_splits)
  ultimately show ?thesis by auto
qed

lemma encode_sign_hash:
  assumes "encodeSignChallenge d (wr_appId r) f c = Some e" "c \<in> set (sign_challenges r)"
  shows "\<exists>a \<in> insert [] (set (en_app_ids r)). hc_appIdHash e = B64_encode (sha256HashOfString a) None"
proof -
  obtain a where "(if wc_appId c \<noteq> None then wc_appId c else wr_appId r) = Some a" "hc_appIdHash e = B64_encode (sha256HashOfString a) None"
    using assms(1) by (auto simp: encodeSignChallenge_def Let_def split: option.splits if_splits)
  moreover from this(1) have "a = [] \<or> a \<in> set (en_app_ids r)"
    using assms(2) by (auto simp: set_app_ids truthy_def split: if_splits)
  ultimately show ?thesis by auto
qed

lemma getTab_origin: "getTabIdWhenPossible ch cur act s = (s', b) \<Longrightarrow> ws_origin s' = ws_origin s"
  using match_tabs [of act s False s' b]
  by (auto simp: getTabIdWhenPossible_def tabMatchesOrigin_def split: if_splits list.splits option.splits)

lemma send_frame:
  "en_wait (send_once r h) = en_wait h \<and> en_sender (send_once r h) = en_sender h \<and> en_request (send_once r h) = en_request h
     \<and> (StartHandler q \<in> set (en_out (send_once r h)) \<longleftrightarrow> StartHandler q \<in> set (en_out h))"
proof -
  have "StartHandler q \<in> set (en_out (close_watchdog h)) \<longleftrightarrow> StartHandler q \<in> set (en_out h)" for h
    by (auto simp: close_watchdog_def en_close_def en_emit_def Let_def)
  then show ?thesis by (auto simp: send_once_def sendResponseOnce_def)
qed

definition same_course :: "enroller \<Rightarrow> enroller \<Rightarrow> bool" where
  "same_course h h' \<longleftrightarrow> en_wait h' = en_wait h \<and> en_sender h' = en_sender h \<and> en_request h' = en_request h
     \<and> (\<forall>q. StartHandler q \<in> set (en_out h') \<longleftrightarrow> StartHandler q \<in> set (en_out h))"

lemma course_send: "same_course h (send_once r h)"
  using send_frame unfolding same_course_def by blast

lemma course_trans: "same_course h h1 \<Longrightarrow> same_course h1 h2 \<Longrightarrow> same_course h h2"
  unfolding same_course_def by simp

lemma course_close: "same_course h ((en_close h)\<lparr>en_done := True\<rparr>)" "same_course h (en_close h)" "same_course h (close_watchdog h)"
  by (auto simp: same_course_def close_watchdog_def en_close_def en_emit_def Let_def)

lemma course_notify: "same_course h (en_notifyError e h)" "same_course h (en_notifySuccess v i d h)"
proof -
  have id: "same_course h h" by (simp add: same_course_def)
  have s: "same_course h (send_once r ((en_close h)\<lparr>en_done := True\<rparr>))" for r
    by (rule course_trans [OF course_close(1) course_send])
  with id show "same_course h (en_notifyError e h)" by (simp add: en_notifyError_def sendErrorResponse_def)
  from s id show "same_course h (en_notifySuccess v i d h)"
    by (auto simp: en_notifySuccess_def sendSuccessResponse_def sendErrorResponse_def split: option.split)
qed

lemma course_checked: "same_course h h' \<Longrightarrow> checked_inv env o' h' = checked_inv env o' h \<and> under_way h' = under_way h"
  by (simp add: same_course_def checked_inv_def under_way_def cong: en_stage.case_cong)

lemma course_timer: "same_course h (h\<lparr>en_sys := y, en_timer := t\<rparr>)" "same_course h (h\<lparr>en_wd := w\<rparr>)"
  "same_course h (h\<lparr>en_browserData := b\<rparr>)" "same_course h h" "same_course h (h\<lparr>en_sys := y\<rparr>)"
  by (simp_all add: same_course_def)

lemma checked_rest:
  "checked_inv env o' h \<Longrightarrow> checked_inv env o' (h\<lparr>en_wait := AtRest\<rparr>)"
  "checked_inv env o' h \<Longrightarrow> checked_inv env o' (h\<lparr>en_wait := WaitApproval\<rparr>)"
  "under_way (h\<lparr>en_wait := AtRest\<rparr>) \<Longrightarrow> under_way h" "under_way (h\<lparr>en_wait := WaitApproval\<rparr>) \<Longrightarrow> under_way h"
  by (auto simp: checked_inv_def under_way_def)

text \<open>A step of the form: the promise is settled, and what follows only responds.\<close>

definition good_step :: "web_env \<Rightarrow> string \<Rightarrow> bool \<Rightarrow> enroller \<Rightarrow> enroller \<Rightarrow> bool" where
  "good_step env o' ap h h' \<longleftrightarrow> checked_inv env o' h' \<and> (under_way h' \<longrightarrow> under_way h \<or> ap)"

lemma good_course:
  "checked_inv env o' h \<Longrightarrow> same_course h h' \<Longrightarrow> good_step env o' ap h h'"
  "checked_inv env o' h \<Longrightarrow> same_course (h\<lparr>en_wait := AtRest\<rparr>) h' \<Longrightarrow> good_step env o' ap h h'"
  using course_checked checked_rest unfolding good_step_def by metis+

lemma encoded_hashed:
  assumes "encodeEnrollChallenges env s (wr_appId r) (case wr_registerRequests r of Some cs \<Rightarrow> cs | None \<Rightarrow> []) = (Some es, bd)"
    and "encodeSignChallenges (sign_challenges r) d (wr_appId r) f = Some ss"
  shows "hashed_ids (en_app_ids r) \<lparr>ehr_enrollChallenges = es, ehr_signData = ss, ehr_timeoutSeconds = t\<rparr>"
proof -
  have e: "\<exists>a \<in> insert [] (set (en_app_ids r)). ec_appIdHash e = B64_encode (sha256HashOfString a) None" if "e \<in> set es" for e
  proof -
    have "those (map (fst \<circ> encode_one env s (wr_appId r)) (case wr_registerRequests r of Some cs \<Rightarrow> cs | None \<Rightarrow> [])) = Some es"
      using assms(1) by (simp add: encodeEnrollChallenges_def)
    from set_those [OF this, of e] that have "Some e \<in> (fst \<circ> encode_one env s (wr_appId r)) ` set (case wr_registerRequests r of Some cs \<Rightarrow> cs | None \<Rightarrow> [])"
      unfolding set_map by blast
    then obtain c where c: "c \<in> set (case wr_registerRequests r of Some cs \<Rightarrow> cs | None \<Rightarrow> [])" "fst (encode_one env s (wr_appId r) c) = Some e"
      unfolding image_iff comp_def by metis
    show ?thesis by (rule encode_enroll_hash [OF c(2,1)])
  qed
  have "\<exists>a \<in> insert [] (set (en_app_ids r)). hc_appIdHash e = B64_encode (sha256HashOfString a) None" if "e \<in> set ss" for e
  proof -
    have "Some e \<in> encodeSignChallenge d (wr_appId r) f ` set (sign_challenges r)"
      using that set_those [OF assms(2) [unfolded encodeSignChallenges_def], of e] by simp
    then obtain c where c: "c \<in> set (sign_challenges r)" "encodeSignChallenge d (wr_appId r) f c = Some e"
      by (auto simp: image_iff)
    show ?thesis by (rule encode_sign_hash [OF c(2,1)])
  qed
  with e show ?thesis unfolding hashed_ids_def by auto
qed

lemma good_send:
  assumes "checked_inv env o' h"
  shows "good_step env o' True h (sendEnrollRequestToHelper env (h\<lparr>en_wait := AtRest\<rparr>))"
proof -
  let ?r = "en_request h"
  obtain x bd where x: "encodeEnrollChallenges env (en_sender h) (wr_appId ?r) (case wr_registerRequests ?r of Some cs \<Rightarrow> cs | None \<Rightarrow> []) = (x, bd)"
    by fastforce
  let ?y = "encodeSignChallenges (sign_challenges ?r) (Some []) (wr_appId ?r) encodedSha256"
  have n: "good_step env o' True h (en_notifyError e (h\<lparr>en_wait := AtRest, en_browserData := bd\<rparr>))" for e
  proof -
    have "same_course (h\<lparr>en_wait := AtRest\<rparr>) (h\<lparr>en_wait := AtRest, en_browserData := bd\<rparr>)" by (rule course_timer(3))
    from course_trans [OF this course_notify(1)] show ?thesis by (rule good_course(2) [OF assms])
  qed
  have a: "good_step env o' True h (h\<lparr>en_wait := AtRest\<rparr>)" by (rule good_course(2) [OF assms course_timer(4)])
  show ?thesis
  proof (cases "x = None \<or> ?y = None")
    case True
    then have "sendEnrollRequestToHelper env (h\<lparr>en_wait := AtRest\<rparr>) = h\<lparr>en_wait := AtRest\<rparr>"
      using x by (auto simp: sendEnrollRequestToHelper_def Let_def split: option.split)
    with a show ?thesis by simp
  next
    case False
    then obtain es ss where "x = Some es" and ss: "?y = Some ss" by auto
    with x have es: "encodeEnrollChallenges env (en_sender h) (wr_appId ?r) (case wr_registerRequests ?r of Some cs \<Rightarrow> cs | None \<Rightarrow> []) = (Some es, bd)"
      by simp
    have "good_step env o' True h (h\<lparr>en_wait := WaitClaim (en_app_ids ?r) \<lparr>ehr_enrollChallenges = es, ehr_signData = ss, ehr_timeoutSeconds = t\<rparr>,
        en_browserData := bd\<rparr>)" for t
      using assms encoded_hashed [OF es ss, of t] by (simp add: good_step_def checked_inv_def)
    moreover have "sendEnrollRequestToHelper env (h\<lparr>en_wait := AtRest\<rparr>) =
      (if enroll_app_ids ?r = [] then en_notifyError (plain_error BAD_REQUEST) (h\<lparr>en_wait := AtRest, en_browserData := bd\<rparr>)
       else h\<lparr>en_wait := WaitClaim (en_app_ids ?r) \<lparr>ehr_enrollChallenges = es, ehr_signData = ss,
           ehr_timeoutSeconds = (if \<not> expired (en_timer h) then Some (millisecondsUntilExpired (en_timer h) / 1000) else None)\<rparr>,
        en_browserData := bd\<rparr>)"
      by (simp add: sendEnrollRequestToHelper_def Let_def es ss)
    ultimately show ?thesis using n by (simp only: split: if_split) blast
  qed
qed

lemma good_event: "checked_inv env o' h \<Longrightarrow> good_step env o' (approved_by o' e) h (en_step env e h)"
proof (cases e)
  case (EnTab ch cur act)
  assume i: "checked_inv env o' h"
  obtain s' ok where g: "getTabIdWhenPossible ch cur act (en_sender h) = (s', ok)" by fastforce
  let ?h1 = "h\<lparr>en_sender := s', en_wait := AtRest\<rparr>"
  have 1: "checked_inv env o' ?h1" "under_way ?h1 \<Longrightarrow> under_way h" "checked_inv env o' (?h1\<lparr>en_wait := WaitApproval\<rparr>)"
    "under_way (?h1\<lparr>en_wait := WaitApproval\<rparr>) \<Longrightarrow> under_way h"
    using i getTab_origin [OF g] by (auto simp: checked_inv_def under_way_def)
  have "same_course ?h1 (en_notifyError x (en_close ?h1))" for x
    by (rule course_trans [OF course_close(2) course_notify(1)])
  then have 2: "checked_inv env o' (en_notifyError x (en_close ?h1))" "under_way (en_notifyError x (en_close ?h1)) \<Longrightarrow> under_way h" for x
    using 1 course_checked by metis+
  show ?thesis
  proof (cases "en_wait h = WaitTab")
    case True
    then show ?thesis using EnTab g 1 2 by (simp add: good_step_def Let_def)
  qed (use EnTab i in \<open>simp add: good_step_def\<close>)
next
  case (EnApproval ch wi t w t2)
  assume i: "checked_inv env o' h"
  then have o: "ws_origin (en_sender h) = o'" by (simp add: checked_inv_def)
  let ?h1 = "h\<lparr>en_wait := AtRest\<rparr>"
  have rest: "good_step env o' b h ?h1" for b by (rule good_course(2) [OF i course_timer(4)])
  have f: "good_step env o' b h (en_approved env False ?h1)" for b
  proof -
    obtain sys1 t1 where c: "cd_clone (en_sys h) (en_timer h) (Some ()) = (sys1, t1)" by fastforce
    obtain sys2 t2' where c2: "cd_clearTimeout sys1 (en_timer h) = (sys2, t2')" by fastforce
    have "same_course ?h1 (?h1\<lparr>en_sys := sys2, en_timer := t1\<rparr>)" by (rule course_timer(1))
    moreover have "en_approved env False ?h1 = (if en_done h then ?h1 else if expired (en_timer h)
        then en_notifyError (plain_error EC_TIMEOUT) ?h1 else ?h1\<lparr>en_sys := sys2, en_timer := t1\<rparr>)"
      by (simp add: en_approved_def notifyTimeout_def c c2)
    ultimately have "same_course ?h1 (en_approved env False ?h1)"
      using course_notify(1) course_timer(4) by presburger
    then show ?thesis by (rule good_course(2) [OF i])
  qed
  have t: "good_step env o' True h (en_approved env True ?h1)"
    using good_send [OF i] rest by (simp add: en_approved_def)
  show ?thesis
  proof (cases "en_wait h = WaitApproval")
    case True
    have "good_step env o' (approved_by o' e) h (en_approved env result ?h1)"
      if "isApprovedOrigin ch wi t w t2 o' (ws_tabId (en_sender h)) = Some (Resolved result)" for result
    proof (cases result)
      case True
      with that EnApproval have "approved_by o' e" by (auto simp: approved_by_def)
      with t True show ?thesis by simp
    next
      case False
      with f show ?thesis by simp
    qed
    with True EnApproval o rest show ?thesis by (auto split: option.split promised.split)
  qed (use EnApproval i in \<open>simp add: good_step_def\<close>)
next
  case EnClaim
  assume i: "checked_inv env o' h"
  show ?thesis
  proof (cases "\<exists>ids req. en_wait h = WaitClaim ids req")
    case True
    then obtain ids req where w: "en_wait h = WaitClaim ids req" by blast
    let ?h1 = "h\<lparr>en_wait := AtRest\<rparr>"
    have f: "good_step env o' b h (en_notifyError x ?h1)" for b x
      by (rule good_course(2) [OF i course_notify(1)])
    have "good_step env o' b h (h\<lparr>en_sys := y, en_wait := WaitCheck ids req\<rparr>)" if "canClaimAppIds (env_tld env) o' ids" for b y
      using i w that by (auto simp: good_step_def checked_inv_def under_way_def)
    moreover have "ws_origin (en_sender h) = o'" using i by (simp add: checked_inv_def)
    ultimately show ?thesis
      using f w EnClaim
      by (cases "canClaimAppIds (env_tld env) o' ids") (simp_all add: en_originChecked_def Let_def split: prod.split)
  qed (use EnClaim i in \<open>auto simp: good_step_def split: en_stage.split\<close>)
next
  case (EnDocuments docs has)
  assume i: "checked_inv env o' h"
  show ?thesis
  proof (cases "\<exists>ids req. en_wait h = WaitCheck ids req")
    case True
    then obtain ids req where w: "en_wait h = WaitCheck ids req" by blast
    let ?h1 = "h\<lparr>en_wait := AtRest\<rparr>"
    let ?c = "checkAppIds (env_json env) False (en_allowHttp h) (ws_origin (en_sender h)) docs ids"
    have f: "good_step env o' b h (en_notifyError x ?h1)" "good_step env o' b h ?h1" "good_step env o' b h h" for b x
      by (rule good_course(2) [OF i course_notify(1)] good_course(2) [OF i course_timer(4)] good_course(1) [OF i course_timer(4)])+
    have "good_step env o' b h (en_emit (StartHandler req) (?h1\<lparr>en_handler := True, en_started := True\<rparr>))" if "?c = Some True" for b
    proof -
      have "may_enroll env o' ids" and "hashed_ids ids req" "ids = en_app_ids (en_request h)" "under_way h"
        using that i w by (auto simp: may_enroll_def checked_inv_def check_iff en_allowHttp_def under_way_def)
      with i w show ?thesis by (auto simp: good_step_def checked_inv_def)
    qed
    with f w EnDocuments show ?thesis
      by (auto simp: en_appIdsChecked_def split: option.split)
  qed (use EnDocuments i in \<open>auto simp: good_step_def split: en_stage.split\<close>)
next
  case (EnHelper code v d)
  assume i: "checked_inv env o' h"
  with EnHelper show ?thesis
    by (auto intro!: good_course(1) [OF i] course_notify course_timer simp: en_helperComplete_def)
next
  case EnTimer
  assume i: "checked_inv env o' h"
  with EnTimer show ?thesis
    by (auto intro!: good_course(1) [OF i] course_timer course_trans [OF course_timer(1) course_notify(1)]
        simp: notifyTimeout_def Let_def split: prod.split)
next
  case EnWatchdog
  assume i: "checked_inv env o' h"
  with EnWatchdog show ?thesis
    by (auto intro!: good_course(1) [OF i] course_timer course_trans [OF course_timer(2) course_send]
        simp: sendErrorResponse_def Let_def)
next
  case EnClose
  assume i: "checked_inv env o' h"
  with EnClose show ?thesis by (auto intro!: good_course(1) [OF i] course_close)
qed

lemma checked_run:
  "checked_inv env o' h \<Longrightarrow> checked_inv env o' (fold (en_step env) es h)
     \<and> (under_way (fold (en_step env) es h) \<longrightarrow> under_way h \<or> (\<exists>e \<in> set es. approved_by o' e))"
proof (induction es arbitrary: h)
  case (Cons e es)
  from good_event [OF Cons.prems, of e] Cons.IH [of "en_step env e h"] show ?case
    by (auto simp: good_step_def)
qed simp

lemma checked_start:
  "handleU2fEnrollRequest env sys m r = Inr h \<Longrightarrow> checked_inv env (ws_origin (en_sender h)) h \<and> \<not> under_way h \<and> en_request h = r"
  by (auto simp: handleU2fEnrollRequest_def checked_inv_def under_way_def Let_def split: option.splits if_splits prod.splits)

lemma request_run: "en_request (fold (en_step env) es h) = en_request h"
proof -
  have c: "en_request h' = en_request h" if "same_course h h'" for h h' using that by (simp add: same_course_def)
  note n = c [OF course_notify(1)] c [OF course_notify(2)] c [OF course_send] c [OF course_close(3)] c [OF course_close(2)]
  have "en_request (en_step env e h) = en_request h" for e h
    by (cases e) (auto simp: n Let_def en_approved_def en_originChecked_def en_appIdsChecked_def en_helperComplete_def
        notifyTimeout_def sendEnrollRequestToHelper_def sendErrorResponse_def
        split: prod.split option.split promised.split en_stage.split)
  then show ?thesis by (induction es arbitrary: h) auto
qed


subsection \<open>A registration\<close>

definition reg_env :: web_env where
  "reg_env = \<lparr>env_json = plain_json, env_cid = True, env_http_allowed = True, env_tld = getEffectiveTldPlusOne [] [''com'']\<rparr>"

definition reg_message :: message_sender where
  "reg_message = \<lparr>mg_url = ''https://a.com/x'', mg_tlsChannelId = None, mg_tab = Some 3\<rparr>"

definition reg_challenge :: web_enroll where
  "reg_challenge = \<lparr>we_version = None, we_challenge = Some ''c'', we_appId = Some ''https://a.com''\<rparr>"

definition reg_request :: web_request where
  "reg_request = \<lparr>wr_type = Some U2F_REGISTER_REQUEST, wr_requestId = Some 1, wr_appId = None, wr_challenge = None,
     wr_registerRequests = Some [reg_challenge], wr_signRequests = None, wr_registeredKeys = None,
     wr_timeout = \<lparr>req_timeoutSeconds = Some 10, req_timeout = None\<rparr>\<rparr>"

definition reg_start :: enroller where
  "reg_start = projr (handleU2fEnrollRequest reg_env \<lparr>sys_last = 0, sys_armed = []\<rparr> reg_message reg_request)"

definition reg_events :: "en_event list" where
  "reg_events = [EnTab True [] [], EnApproval True True (Some example_tab) (Some True) (Some example_tab), EnClaim, EnDocuments (\<lambda>_. []) True]"

lemma reg_started: "handleU2fEnrollRequest reg_env \<lparr>sys_last = 0, sys_armed = []\<rparr> reg_message reg_request = Inr reg_start"
proof -
  have "\<not> isl (handleU2fEnrollRequest reg_env \<lparr>sys_last = 0, sys_armed = []\<rparr> reg_message reg_request)" by code_simp
  then show ?thesis by (simp add: reg_start_def)
qed

text \<open>From the approval on: the page is its own application, so it may claim the app id and no document is needed.\<close>

lemma reg_course:
  assumes "en_wait h1 = WaitApproval" "ws_origin (en_sender h1) = ''https://a.com''" "ws_tabId (en_sender h1) = Some 3" "\<not> en_done h1"
    and "sign_challenges (en_request h1) = []" "enroll_app_ids (en_request h1) = [''https://a.com'']" "en_app_ids (en_request h1) = [''https://a.com'']"
    and "wr_registerRequests (en_request h1) = Some cs" "encodeEnrollChallenges reg_env (en_sender h1) (wr_appId (en_request h1)) cs = (Some ecs, bd)"
  shows "\<exists>req. StartHandler req \<in> set (en_out (fold (en_step reg_env) (tl reg_events) h1)) \<and> ehr_signData req = []
    \<and> ehr_enrollChallenges req = ecs \<and> \<not> en_done (fold (en_step reg_env) (tl reg_events) h1)"
proof -
  have ap: "isApprovedOrigin True True (Some example_tab) (Some True) (Some example_tab) ''https://a.com'' (Some 3) = Some (Resolved True)"
    by code_simp
  define h2 where "h2 = en_step reg_env (EnApproval True True (Some example_tab) (Some True) (Some example_tab)) h1"
  obtain req where h2: "en_wait h2 = WaitClaim [''https://a.com''] req" "ehr_signData req = []"
    "ehr_enrollChallenges req = ecs" "en_sender h2 = en_sender h1" "\<not> en_done h2"
    using assms ap
    by (simp add: h2_def en_approved_def sendEnrollRequestToHelper_def encodeSignChallenges_def Let_def)
  have cl: "canClaimAppIds (env_tld reg_env) ''https://a.com'' [''https://a.com'']"
  proof -
    have "getEffectiveTldPlusOne [] [''com''] ''https://a.com'' = Some ''a.com''"
      by (simp add: getEffectiveTldPlusOne_def getEffectiveTldPlusOneIn_def etld_host_def etld_loop.simps after_dot_def)
    then show ?thesis by (simp add: canClaimAppIds_def reg_env_def etld_check_iff)
  qed
  define h3 where "h3 = en_step reg_env EnClaim h2"
  have h3: "en_wait h3 = WaitCheck [''https://a.com''] req" "en_sender h3 = en_sender h1" "\<not> en_done h3"
    using h2 assms(2) cl by (simp_all add: h3_def en_originChecked_def Let_def split: prod.split)
  have "checkAppIds J False b o' d [o'] = Some True" for J b o' d by (subst check_iff) simp
  then have "StartHandler req \<in> set (en_out (en_step reg_env (EnDocuments (\<lambda>_. []) True) h3))"
    "\<not> en_done (en_step reg_env (EnDocuments (\<lambda>_. []) True) h3)"
    using h3 assms(2) by (simp_all add: en_appIdsChecked_def)
  moreover have "fold (en_step reg_env) (tl reg_events) h1 = en_step reg_env (EnDocuments (\<lambda>_. []) True) h3"
    unfolding reg_events_def h3_def h2_def list.sel by (simp only: fold.simps comp_apply id_apply)
  ultimately show ?thesis using h2(2,3) by metis
qed

lemma reg_runs: "\<exists>req. StartHandler req \<in> set (en_out (fold (en_step reg_env) reg_events reg_start)) \<and> ehr_signData req = []
   \<and> ehr_enrollChallenges req = [\<lparr>ec_version = U2F_V1, ec_challengeHash = ''c'', ec_appIdHash = B64_encode (sha256HashOfString ''https://a.com'') None\<rparr>]"
proof -
  define h1 where "h1 = en_step reg_env (EnTab True [] []) reg_start"
  have a: "en_wait h1 = WaitApproval" "ws_origin (en_sender h1) = ''https://a.com''" "ws_tabId (en_sender h1) = Some 3" "\<not> en_done h1"
    unfolding h1_def by code_simp+
  have r: "en_request h1 = reg_request"
    using request_run [of reg_env "[EnTab True [] []]" reg_start] checked_start [OF reg_started] by (simp add: h1_def)
  have s: "sign_challenges reg_request = []" "enroll_app_ids reg_request = [''https://a.com'']" "en_app_ids reg_request = [''https://a.com'']"
    by code_simp+
  have e: "encodeEnrollChallenges reg_env (en_sender h1) (wr_appId reg_request) [reg_challenge]
     = (Some [\<lparr>ec_version = U2F_V1, ec_challengeHash = ''c'', ec_appIdHash = B64_encode (sha256HashOfString ''https://a.com'') None\<rparr>], [])"
    by (simp add: encodeEnrollChallenges_def encode_one_def encodeEnrollChallenge_def reg_challenge_def truthy_def U2F_V1_def U2F_V2_def Let_def)
  have w: "wr_registerRequests reg_request = Some [reg_challenge]" by (simp add: reg_request_def)
  have "fold (en_step reg_env) reg_events reg_start = fold (en_step reg_env) (tl reg_events) h1"
    unfolding h1_def reg_events_def list.sel by (simp only: fold.simps comp_apply)
  then show ?thesis using reg_course [OF a, unfolded r, OF s w e] by metis
qed


theorem enroll_responds_once_witness:
  "en_replies (fold (en_step reg_env) [EnTab True [] [], EnClose, EnHelper 0 [] [], EnWatchdog] reg_start) \<le> 1"
  by (rule conjunct1 [OF enroll_responds_once [OF reg_started]])

text \<open>
  The challenge of the registration has no version, so it is one of version 1, as the request to the helper
  says. The response looks for that version in the original request, does not find it, and reports an error.
\<close>

theorem implicit_version_fails:
  "(let h = en_step reg_env (EnHelper 0 U2F_V1 ''data'') (reg_start\<lparr>en_started := True\<rparr>) in
    map (\<lambda>e. case e of Reply r \<Rightarrow> (case resp_data r of ErrorData x \<Rightarrow> errorCode x = OTHER_ERROR | _ \<Rightarrow> False) | _ \<Rightarrow> False) (en_out h) = [True])"
  by code_simp

text \<open>
  When the tab is not the sender's, the enroller closes itself before it reports, and its report is dropped:
  the page hears nothing until the watchdog's timeout.
\<close>

theorem wrong_tab_not_reported:
  "(let h = en_step reg_env (EnTab True [] []) (reg_start\<lparr>en_sender := (en_sender reg_start)\<lparr>ws_tabId := None\<rparr>\<rparr>) in
    en_done h \<and> en_replies h = 0)"
  by code_simp

text \<open>
  The validation looks at \<open>signRequests\<close> when there are any, the enrollment at \<open>registeredKeys\<close>: with both
  present, keys that were not validated are used.
\<close>

theorem unvalidated_keys_used:
  "(let bad = \<lparr>wc_challenge = None, wc_appId = None, wc_keyHandle = None, wc_version = Some ''x''\<rparr>;
        r = reg_request\<lparr>wr_signRequests := Some [], wr_registeredKeys := Some [bad]\<rparr>
    in isValidEnrollRequest r \<and> \<not> isValidRegisteredKey bad True \<and> map wc_version (sign_challenges r) = [Some ''x''])"
  by code_simp

end
