(* ===== verification/WebSigner.thy ===== *)
theory WebSigner
  imports Enroller
begin

text \<open>
  signer.js: the sign request of a web page, from its message to its response. It waits in the queue of its
  application and origin (RequestQueue), which begins it; then its signer checks the app ids and asks the
  helper. Promises, timers, the queue and the helper are events, as in Enroller. The closeable of the
  watchdog is the queued request. What closing does depends on whether the watchdog is closed already, since
  the callbacks are wrapped by it: \<open>qs_close_wd\<close> is \<open>QueuedSignRequest.close\<close> called by the watchdog.
\<close>

datatype sg_stage = SgRest | SgQueued | SgClaim "string list" | SgCheck "string list"

datatype sg_effect =
    SgStart sign_helper_request
  | SgCloseHandler
  | TokenComplete
  | SgReply web_response

record sign_session =
  sg_request :: web_request
  sg_sender :: web_sender
  sg_challenges :: "web_challenge list"
  sg_appId :: string
  sg_sys :: systimer
  sg_wd :: "unit watchdog"
  qs_timer :: "unit countdown"
  qs_begun :: bool
  qs_closed :: bool
  qs_token :: bool
  sg_made :: bool
  sg_timer :: "unit countdown"
  sg_challengesSet :: bool
  sg_done :: bool
  sg_browserData :: "string jsobj"
  sg_serverChallenges :: "web_challenge jsobj"
  sg_handler :: bool
  sg_started :: bool
  sg_wait :: sg_stage
  sg_out :: "sg_effect list"

definition sg_emit :: "sg_effect \<Rightarrow> sign_session \<Rightarrow> sign_session" where
  "sg_emit e h = h\<lparr>sg_out := sg_out h @ [e]\<rparr>"

subsection \<open>Validation\<close>

definition isValidSignRequest :: "web_request \<Rightarrow> bool" where
  "isValidSignRequest request =
     (case getSignChallenges (Some request) of None \<Rightarrow> False
      | Some signChallenges \<Rightarrow>
        (let hasDefaultChallenge = (wr_challenge request \<noteq> None); hasAppId = (wr_appId request \<noteq> None) in
         if \<not> hasAppId \<and> signChallenges = [] then False
         else isValidSignChallengeArray signChallenges (\<not> hasDefaultChallenge) (\<not> hasAppId)))"

definition sign_appId :: "web_request \<Rightarrow> web_challenge list \<Rightarrow> string option" where
  "sign_appId request signChallenges =
     (if truthy (wr_appId request) then wr_appId request
      else (case signChallenges of c # _ \<Rightarrow> wc_appId c | [] \<Rightarrow> None))"

subsection \<open>Responding and closing\<close>

definition sg_close_quiet :: "sign_session \<Rightarrow> sign_session" where
  "sg_close_quiet h =
     (let h1 = (if sg_handler h then sg_emit SgCloseHandler (h\<lparr>sg_handler := False\<rparr>) else h);
          (sys', t) = cd_clearTimeout (sg_sys h1) (sg_timer h1)
      in h1\<lparr>sg_sys := sys', sg_timer := t\<rparr>)"

definition complete_token :: "sign_session \<Rightarrow> sign_session" where
  "complete_token h = (if qs_token h then sg_emit TokenComplete h else h)"

text \<open>With the watchdog closed the signer's error goes nowhere.\<close>

definition qs_close_wd :: "sign_session \<Rightarrow> sign_session" where
  "qs_close_wd h =
     (if qs_closed h then h
      else (let h1 = (if qs_begun h \<and> sg_made h
                      then (let h2 = sg_close_quiet h in
                            if sg_done h2 then h2 else complete_token (sg_close_quiet (h2\<lparr>sg_done := True\<rparr>)))
                      else h)
            in (complete_token h1)\<lparr>qs_closed := True\<rparr>))"

definition sg_close_watchdog :: "sign_session \<Rightarrow> sign_session" where
  "sg_close_watchdog h =
     (let h1 = h\<lparr>sg_wd := wd_close (sg_wd h)\<rparr> in if wd_closeable (sg_wd h) \<noteq> None then qs_close_wd h1 else h1)"

definition sg_respond :: "web_response \<Rightarrow> sign_session \<Rightarrow> sign_session" where
  "sg_respond r h = fold (\<lambda>e. case e of CloseIt \<Rightarrow> sg_close_watchdog | SendIt r' \<Rightarrow> sg_emit (SgReply r')) (sendResponseOnce False True r) h"

definition sg_sendError :: "u2f_error \<Rightarrow> sign_session \<Rightarrow> sign_session" where
  "sg_sendError e h = sg_respond (makeU2fErrorResponse (Some (sg_request h)) (errorCode e) (errorMessage e) None) h"

definition sg_wrapped :: "(sign_session \<Rightarrow> sign_session) \<Rightarrow> sign_session \<Rightarrow> sign_session" where
  "sg_wrapped cb h =
     (if wd_closed (sg_wd h) then h else cb (h\<lparr>sg_wd := wrappedCallback () (sg_wd h)\<rparr>))"

definition signerFailed :: "u2f_error \<Rightarrow> sign_session \<Rightarrow> sign_session" where
  "signerFailed e h = sg_wrapped (sg_sendError e) (complete_token h)"

definition sg_notifyError :: "u2f_error \<Rightarrow> sign_session \<Rightarrow> sign_session" where
  "sg_notifyError e h = (if sg_done h then h else signerFailed e (sg_close_quiet (h\<lparr>sg_done := True\<rparr>)))"

definition sg_close :: "sign_session \<Rightarrow> sign_session" where
  "sg_close h = sg_notifyError (plain_error EC_TIMEOUT) (sg_close_quiet h)"

definition qs_close :: "sign_session \<Rightarrow> sign_session" where
  "qs_close h =
     (if qs_closed h then h
      else (complete_token (if qs_begun h \<and> sg_made h then sg_close h else h))\<lparr>qs_closed := True\<rparr>)"

definition makeU2fSignResponseDataFromChallenge :: "web_challenge \<Rightarrow> string" where
  "makeU2fSignResponseDataFromChallenge c = (case wc_keyHandle c of Some k \<Rightarrow> k | None \<Rightarrow> [])"

definition addSignatureAndBrowserDataToResponseData :: "string \<Rightarrow> string \<Rightarrow> string \<Rightarrow> response_data" where
  "addSignatureAndBrowserDataToResponseData keyHandle signatureData browserData =
     SignData keyHandle (B64_encode (UTIL_StringToBytes browserData) None) signatureData"

definition sg_sendSuccess :: "web_challenge \<Rightarrow> string \<Rightarrow> string \<Rightarrow> sign_session \<Rightarrow> sign_session" where
  "sg_sendSuccess c info browserData h = sg_respond (makeU2fSuccessResponse (Some (sg_request h))
     (addSignatureAndBrowserDataToResponseData (makeU2fSignResponseDataFromChallenge c) info browserData)) h"

text \<open>For a key handle that was not in the request the response is an exception.\<close>

definition sg_notifySuccess :: "web_challenge option \<Rightarrow> string \<Rightarrow> string option \<Rightarrow> sign_session \<Rightarrow> sign_session" where
  "sg_notifySuccess c info browserData h =
     (if sg_done h then h
      else sg_wrapped (\<lambda>h'. case (c, browserData) of (Some c', Some d) \<Rightarrow> sg_sendSuccess c' info d h' | _ \<Rightarrow> h')
             (complete_token (sg_close_quiet (h\<lparr>sg_done := True\<rparr>))))"

subsection \<open>The signer\<close>

definition bad_appId :: u2f_error where
  "bad_appId = \<lparr>errorCode = BAD_REQUEST, errorMessage = Some ''bad appId''\<rparr>"

definition missing_appId :: u2f_error where
  "missing_appId = \<lparr>errorCode = BAD_REQUEST, errorMessage = Some ''missing appId''\<rparr>"

definition sg_app_ids :: "string \<Rightarrow> web_challenge list \<Rightarrow> string list" where
  "sg_app_ids appId cs =
     (let appIds = getDistinctAppIds (map (\<lambda>c. case wc_appId c of Some a \<Rightarrow> a | None \<Rightarrow> []) cs)
      in if appId \<noteq> [] then UTIL_unionArrays [appId] appIds else appIds)"

definition sg_checkAppIds :: "sign_session \<Rightarrow> sign_session" where
  "sg_checkAppIds h =
     (let appIds = sg_app_ids (sg_appId h) (sg_challenges h)
      in if appIds = [] then sg_notifyError missing_appId h else h\<lparr>sg_wait := SgClaim appIds\<rparr>)"

definition setChallenges :: "sign_session \<Rightarrow> sign_session \<times> bool" where
  "setChallenges h =
     (if sg_challengesSet h \<or> sg_done h then (h, False)
      else if expired (sg_timer h) then (sg_notifyError (plain_error EC_TIMEOUT) h, True)
      else (sg_checkAppIds (h\<lparr>sg_challengesSet := True\<rparr>), True))"

text \<open>\<open>None\<close>: a challenge is missing.\<close>

definition server_challenge :: "web_request \<Rightarrow> web_challenge \<Rightarrow> string option" where
  "server_challenge r c =
     (let s = (if wc_challenge c \<noteq> None then wc_challenge c else wr_challenge r) in if truthy s then s else None)"

definition sign_client_data :: "web_env \<Rightarrow> web_sender \<Rightarrow> string \<Rightarrow> string" where
  "sign_client_data env s ch = makeSignBrowserData (env_json env) (env_cid env) ch (ws_origin s) (ws_tlsChannelId s)"

fun prepare :: "web_env \<Rightarrow> web_challenge list \<Rightarrow> sign_session \<Rightarrow> sign_session \<times> bool" where
  "prepare env [] h = (h, True)"
| "prepare env (c # cs) h =
     (case server_challenge (sg_request h) c of None \<Rightarrow> (h, False)
      | Some ch \<Rightarrow>
        (let keyHandle = (case wc_keyHandle c of Some k \<Rightarrow> k | None \<Rightarrow> []) in
         prepare env cs (h\<lparr>sg_browserData := AList.update keyHandle (sign_client_data env (sg_sender h) ch) (sg_browserData h),
                           sg_serverChallenges := AList.update keyHandle c (sg_serverChallenges h)\<rparr>)))"

definition getChallengeHash :: "sign_session \<Rightarrow> string \<Rightarrow> string option \<Rightarrow> string option" where
  "getChallengeHash h keyHandle challenge =
     map_option (\<lambda>d. B64_encode (sha256HashOfString d) None) (map_of (sg_browserData h) keyHandle)"

text \<open>\<open>has_handler\<close>, \<open>runs\<close>: what the helper's \<open>getHandler\<close> and the handler's \<open>run\<close> return. \<open>None\<close>: an exception.\<close>

definition sg_doSign :: "web_env \<Rightarrow> bool \<Rightarrow> bool \<Rightarrow> sign_session \<Rightarrow> (sign_session \<times> bool) option" where
  "sg_doSign env has_handler runs h =
     (let (h1, ok) = prepare env (sg_challenges h) h in
      if \<not> ok then Some (h1, False)
      else (case encodeSignChallenges (sg_challenges h1) (wr_challenge (sg_request h1)) (Some (sg_appId h1)) (getChallengeHash h1) of
          None \<Rightarrow> None
        | Some encodedChallenges \<Rightarrow>
          (let request = makeSignHelperRequest encodedChallenges (Some (millisecondsUntilExpired (sg_timer h1) / 1000)) in
           if \<not> has_handler then Some (h1, False)
           else Some (sg_emit (SgStart request) (h1\<lparr>sg_handler := True, sg_started := True\<rparr>), runs))))"

definition sg_originChecked :: "string list \<Rightarrow> bool \<Rightarrow> sign_session \<Rightarrow> sign_session" where
  "sg_originChecked appIds result h =
     (if \<not> result then sg_notifyError bad_appId h
      else (let (sys', _) = cd_clone (sg_sys h) (sg_timer h) (None :: unit option) in h\<lparr>sg_sys := sys', sg_wait := SgCheck appIds\<rparr>))"

definition appIdChecked :: "web_env \<Rightarrow> bool \<Rightarrow> bool \<Rightarrow> bool \<Rightarrow> sign_session \<Rightarrow> sign_session" where
  "appIdChecked env has_handler runs result h =
     (if \<not> result then sg_notifyError bad_appId h
      else (case sg_doSign env has_handler runs h of None \<Rightarrow> h
        | Some (h1, ok) \<Rightarrow> if ok then h1 else sg_notifyError (plain_error BAD_REQUEST) h1))"

definition sg_helperComplete :: "string \<Rightarrow> int \<Rightarrow> string \<Rightarrow> string \<Rightarrow> sign_session \<Rightarrow> sign_session" where
  "sg_helperComplete type code key signatureData h =
     (if type \<noteq> ''sign_helper_reply'' then sg_notifyError (plain_error OTHER_ERROR) h
      else if code \<noteq> 0 then sg_notifyError (mapDeviceStatusCodeToU2fError code) h
      else sg_notifySuccess (map_of (sg_serverChallenges h) key) signatureData (map_of (sg_browserData h) key) h)"

text \<open>\<open>begin\<close>: the timer of the new signer is a clone.\<close>

definition qs_begin :: "sign_session \<Rightarrow> sign_session" where
  "qs_begin h =
     (if expired (qs_timer h) then sg_wrapped (sg_sendError (plain_error EC_TIMEOUT)) (qs_close h)
      else (let (sys1, t) = cd_clone (sg_sys h) (qs_timer h) None;
                h1 = h\<lparr>qs_begun := True, qs_token := True, sg_made := True, sg_sys := sys1, sg_timer := t\<rparr>;
                (h2, ok) = setChallenges h1;
                h3 = (if ok then h2 else sg_wrapped (sg_sendError (plain_error BAD_REQUEST)) (complete_token h2));
                (sys2, t2) = cd_clearTimeout (sg_sys h3) (qs_timer h3)
            in h3\<lparr>sg_sys := sys2, qs_timer := t2\<rparr>))"

subsection \<open>Events\<close>

datatype sg_event =
    SgBegin
  | SgQueueTimer
  | SgClaimed
  | SgDocuments "string \<Rightarrow> (fetch_result \<times> bool) list" bool bool
  | SgHelper string int string string
  | SgWatchdog
  | SgClose

fun sg_step :: "web_env \<Rightarrow> sg_event \<Rightarrow> sign_session \<Rightarrow> sign_session" where
  "sg_step env SgBegin h = (if sg_wait h = SgQueued then qs_begin (h\<lparr>sg_wait := SgRest\<rparr>) else h)"
| "sg_step env SgQueueTimer h =
     (let (sys', t, cs) = cd_fire (sg_sys h) (qs_timer h); h1 = h\<lparr>sg_sys := sys', qs_timer := t\<rparr>
      in if cs = [] then h1 else qs_close h1)"
| "sg_step env SgClaimed h =
     (case sg_wait h of
        SgClaim appIds \<Rightarrow> sg_originChecked appIds (canClaimAppIds (env_tld env) (ws_origin (sg_sender h)) appIds) (h\<lparr>sg_wait := SgRest\<rparr>)
      | _ \<Rightarrow> h)"
| "sg_step env (SgDocuments docs has_handler runs) h =
     (case sg_wait h of
        SgCheck appIds \<Rightarrow>
          (case checkAppIds (env_json env) False (take 7 (ws_origin (sg_sender h)) = ''http://'') (ws_origin (sg_sender h)) docs appIds of
             None \<Rightarrow> h
           | Some result \<Rightarrow> appIdChecked env has_handler runs result (h\<lparr>sg_wait := SgRest\<rparr>))
      | _ \<Rightarrow> h)"
| "sg_step env (SgHelper type code key sig) h = (if sg_started h then sg_helperComplete type code key sig h else h)"
| "sg_step env SgWatchdog h =
     (let w = wd_fire (sg_wd h); h1 = h\<lparr>sg_wd := w\<rparr>
      in if length (wd_trace w) > length (wd_trace (sg_wd h)) then sg_sendError (plain_error EC_TIMEOUT) h1 else h1)"
| "sg_step env SgClose h = sg_close_watchdog h"

definition validateAndEnqueueSignRequest :: "systimer \<Rightarrow> web_sender \<Rightarrow> web_request \<Rightarrow> error_code + sign_session" where
  "validateAndEnqueueSignRequest sys sender request =
     (if \<not> isValidSignRequest request then Inl BAD_REQUEST
      else (let signChallenges = (case getSignChallenges (Some request) of Some cs \<Rightarrow> cs | None \<Rightarrow> []) in
        case sign_appId request signChallenges of None \<Rightarrow> Inl BAD_REQUEST
        | Some appId \<Rightarrow>
          (if appId = [] then Inl BAD_REQUEST
           else (let timeoutValueSeconds = attenuateTimeoutInSeconds (getTimeoutValueFromRequest (wr_timeout request) None)
                       (Some (MINIMUM_TIMEOUT_ATTENUATION_SECONDS / 2));
                     watchdog = WatchdogRequestHandler sys timeoutValueSeconds True;
                     (sys1, timer) = createAttenuatedTimer (wd_sys watchdog) timeoutValueSeconds None;
                     (sys2, clone) = cd_clone sys1 (timer :: unit countdown) (Some ())
                 in Inr \<lparr>sg_request = request, sg_sender = sender, sg_challenges = signChallenges, sg_appId = appId,
                      sg_sys = sys2, sg_wd = setCloseable 0 watchdog, qs_timer = clone, qs_begun = False, qs_closed = False,
                      qs_token = True, sg_made = False, sg_timer = clone, sg_challengesSet = False, sg_done = False,
                      sg_browserData = [], sg_serverChallenges = [], sg_handler = False, sg_started = False,
                      sg_wait = SgQueued, sg_out = []\<rparr>))))"

definition handleU2fSignRequest :: "web_env \<Rightarrow> systimer \<Rightarrow> message_sender \<Rightarrow> web_request \<Rightarrow> web_response + sign_session" where
  "handleU2fSignRequest env sys messageSender request =
     (let bad = (\<lambda>c. makeU2fErrorResponse (Some request) c None None) in
      case createSenderFromMessageSender messageSender of None \<Rightarrow> Inl (bad BAD_REQUEST)
      | Some sender \<Rightarrow>
        (if take 7 (ws_origin sender) = ''http://'' \<and> \<not> env_http_allowed env then Inl (bad BAD_REQUEST)
         else (case validateAndEnqueueSignRequest sys sender request of Inl c \<Rightarrow> Inl (bad c) | Inr h \<Rightarrow> Inr h)))"

subsection \<open>At most one response\<close>

definition sg_replies :: "sign_session \<Rightarrow> nat" where
  "sg_replies h = length (filter (\<lambda>e. case e of SgReply r \<Rightarrow> True | _ \<Rightarrow> False) (sg_out h))"

definition sg_inv :: "sign_session \<Rightarrow> bool" where
  "sg_inv h \<longleftrightarrow> sg_replies h \<le> 1 \<and> (\<not> wd_closed (sg_wd h) \<longrightarrow> sg_replies h = 0)"

text \<open>Changes that neither respond nor touch the watchdog or what is being signed.\<close>

definition silent :: "sign_session \<Rightarrow> sign_session \<Rightarrow> bool" where
  "silent h h' \<longleftrightarrow> sg_wd h' = sg_wd h \<and> sg_wait h' = sg_wait h \<and> sg_sender h' = sg_sender h \<and> sg_request h' = sg_request h
     \<and> sg_challenges h' = sg_challenges h \<and> sg_appId h' = sg_appId h \<and> sg_browserData h' = sg_browserData h
     \<and> sg_serverChallenges h' = sg_serverChallenges h \<and> sg_started h' = sg_started h
     \<and> (\<exists>es. sg_out h' = sg_out h @ es \<and> set es \<subseteq> {SgCloseHandler, TokenComplete})"

lemma silent_refl [simp]: "silent h h"
  by (simp add: silent_def)

lemma silent_trans: "silent h h1 \<Longrightarrow> silent h1 h2 \<Longrightarrow> silent h h2"
  unfolding silent_def by auto

lemma silent_ops [simp]:
  "silent h (sg_close_quiet h)" "silent h (complete_token h)" "silent h (h\<lparr>sg_done := b\<rparr>)" "silent h (h\<lparr>qs_closed := b\<rparr>)"
  "silent h (h\<lparr>sg_sys := y, qs_timer := t\<rparr>)"
  by (auto simp: silent_def sg_close_quiet_def complete_token_def sg_emit_def Let_def split: prod.split)

lemma silent_fail: "silent h (complete_token (sg_close_quiet (h\<lparr>sg_done := True\<rparr>)))"
  by (rule silent_trans [OF silent_trans [OF silent_ops(3) silent_ops(1)] silent_ops(2)])

lemma silent_end: "silent h ((complete_token h)\<lparr>qs_closed := True\<rparr>)"
  by (rule silent_trans [OF silent_ops(2) silent_ops(4)])

lemma silent_close_wd: "silent h (qs_close_wd h)"
proof -
  have 1: "silent h (complete_token (sg_close_quiet ((sg_close_quiet h)\<lparr>sg_done := True\<rparr>)))"
    by (rule silent_trans [OF silent_ops(1) silent_fail])
  show ?thesis
    unfolding qs_close_wd_def Let_def
    using silent_trans [OF 1 silent_end] silent_trans [OF silent_ops(1) silent_end] silent_end by simp
qed

lemma silent_replies: "silent h h' \<Longrightarrow> sg_replies h' = sg_replies h"
  unfolding silent_def sg_replies_def by (auto simp: filter_empty_conv subset_iff split: sg_effect.split)

lemma silent_inv: "silent h h' \<Longrightarrow> sg_inv h' = sg_inv h"
  using silent_replies [of h h'] by (simp add: sg_inv_def silent_def)

text \<open>A response: the watchdog is closed, some quiet changes, the response.\<close>

lemma respond_eq: "sg_respond r h = sg_emit (SgReply r) (sg_close_watchdog h)"
  by (simp add: sg_respond_def sendResponseOnce_def)

lemma close_watchdog_silent: "silent (h\<lparr>sg_wd := wd_close (sg_wd h)\<rparr>) (sg_close_watchdog h)"
  by (simp add: sg_close_watchdog_def silent_close_wd Let_def)

lemma sg_emit_simps [simp]:
  "sg_replies (sg_emit e h) = sg_replies h + (case e of SgReply r \<Rightarrow> 1 | _ \<Rightarrow> 0)" "sg_wd (sg_emit e h) = sg_wd h"
  by (auto simp: sg_emit_def sg_replies_def split: sg_effect.split)

lemma replies_wd [simp]: "sg_replies (h\<lparr>sg_wd := w\<rparr>) = sg_replies h"
  by (simp add: sg_replies_def)

lemma close_watchdog_inv:
  "sg_replies (sg_close_watchdog h) = sg_replies h" "wd_closed (sg_wd (sg_close_watchdog h))"
  using close_watchdog_silent [of h] silent_replies [OF close_watchdog_silent, of h] by (simp_all add: silent_def)

lemma respond_inv: "sg_replies h = 0 \<Longrightarrow> sg_inv (sg_respond r h)"
  by (simp add: respond_eq sg_inv_def close_watchdog_inv)

lemma zero_inv: "sg_replies h = 0 \<Longrightarrow> sg_inv h"
  by (simp add: sg_inv_def)

lemma wrapped_inv:
  assumes "sg_inv h" "\<And>h'. sg_replies h' = 0 \<Longrightarrow> sg_inv (cb h')"
  shows "sg_inv (sg_wrapped cb h)"
  using assms by (simp add: sg_wrapped_def sg_inv_def)

lemma notify_inv:
  assumes "sg_inv h"
  shows "sg_inv (sg_notifyError e h)" "sg_inv (sg_notifySuccess c i d h)"
proof -
  have i: "sg_inv (complete_token (sg_close_quiet (h\<lparr>sg_done := True\<rparr>)))"
    using assms by (simp only: silent_inv [OF silent_fail])
  from i show "sg_inv (sg_notifyError e h)"
    using assms by (auto simp: sg_notifyError_def signerFailed_def sg_sendError_def intro!: wrapped_inv respond_inv)
  show "sg_inv (sg_notifySuccess c i d h)"
  proof (cases "sg_done h")
    case False
    have "sg_inv (sg_wrapped (\<lambda>h'. case (c, d) of (Some c', Some d') \<Rightarrow> sg_sendSuccess c' i d' h' | _ \<Rightarrow> h')
             (complete_token (sg_close_quiet (h\<lparr>sg_done := True\<rparr>))))"
      by (rule wrapped_inv [OF i]) (cases c; cases d; simp add: sg_sendSuccess_def respond_inv zero_inv)
    with False show ?thesis by (simp add: sg_notifySuccess_def)
  qed (use assms in \<open>simp add: sg_notifySuccess_def\<close>)
qed

lemma close_inv: "sg_inv h \<Longrightarrow> sg_inv (qs_close h)"
proof -
  assume i: "sg_inv h"
  then have "sg_inv (sg_close h)"
    by (auto simp: sg_close_def silent_inv [OF silent_ops(1)] intro!: notify_inv)
  moreover have "sg_inv ((complete_token h1)\<lparr>qs_closed := True\<rparr>) = sg_inv h1" for h1
    by (rule silent_inv [OF silent_end])
  ultimately show ?thesis using i by (simp add: qs_close_def)
qed

lemma inv_updates_sg [simp]:
  "sg_inv (h\<lparr>sg_wait := x\<rparr>) = sg_inv h" "sg_inv (h\<lparr>sg_sys := y, qs_timer := t\<rparr>) = sg_inv h"
  "sg_inv (h\<lparr>sg_challengesSet := b\<rparr>) = sg_inv h" "sg_inv (h\<lparr>sg_sys := y\<rparr>) = sg_inv h"
  "sg_inv (h\<lparr>qs_begun := b1, qs_token := b2, sg_made := b3, sg_sys := y, sg_timer := t\<rparr>) = sg_inv h"
  "sg_inv (h\<lparr>sg_browserData := bd, sg_serverChallenges := sc\<rparr>) = sg_inv h"
  "sg_inv (sg_emit (SgStart q) (h\<lparr>sg_handler := b1, sg_started := b2\<rparr>)) = sg_inv h"
  by (simp_all add: sg_inv_def) (simp_all add: sg_replies_def sg_emit_def)

lemma prepare_inv: "sg_inv (fst (prepare env cs h)) = sg_inv h"
  by (induction env cs h rule: prepare.induct) (auto simp: Let_def split: option.split)

lemma doSign_inv: "sg_inv h \<Longrightarrow> sg_doSign env a b h = Some (h', ok) \<Longrightarrow> sg_inv h'"
  using prepare_inv [of env "sg_challenges h" h]
  by (auto simp: sg_doSign_def Let_def split: prod.splits if_splits option.splits)

lemma begin_inv: "sg_inv h \<Longrightarrow> sg_inv (qs_begin h)"
proof -
  assume i: "sg_inv h"
  have w: "sg_inv (sg_wrapped (sg_sendError e) h1)" if "sg_inv h1" for e h1
    using that by (rule wrapped_inv) (auto simp: sg_sendError_def intro: respond_inv)
  have s: "sg_inv (fst (setChallenges h1))" if "sg_inv h1" for h1
    using that by (auto simp: setChallenges_def sg_checkAppIds_def Let_def intro!: notify_inv)
  have t: "sg_inv (complete_token h1) = sg_inv h1" for h1 by (rule silent_inv [OF silent_ops(2)])
  show ?thesis
  proof (cases "expired (qs_timer h)")
    case True
    then show ?thesis using i by (auto simp: qs_begin_def intro!: w close_inv)
  next
    case False
    obtain sys1 t1 where c: "cd_clone (sg_sys h) (qs_timer h) (None :: unit option) = (sys1, t1)" by fastforce
    let ?h1 = "h\<lparr>qs_begun := True, qs_token := True, sg_made := True, sg_sys := sys1, sg_timer := t1\<rparr>"
    obtain h2 ok where h2: "setChallenges ?h1 = (h2, ok)" by fastforce
    then have "sg_inv h2" using s [of ?h1] i by simp
    then have "sg_inv (if ok then h2 else sg_wrapped (sg_sendError (plain_error BAD_REQUEST)) (complete_token h2))"
      by (auto simp: t intro!: w)
    then show ?thesis using False c h2 by (simp add: qs_begin_def Let_def split: prod.split if_splits)
  qed
qed

lemma sg_step_inv: "sg_inv h \<Longrightarrow> sg_inv (sg_step env e h)"
proof (cases e)
  case SgWatchdog
  assume i: "sg_inv h"
  have "sg_inv (h\<lparr>sg_wd := wd_fire (sg_wd h)\<rparr>)" using i wd_fire_frame [of "sg_wd h"] by (simp add: sg_inv_def)
  moreover have "sg_inv (sg_respond r (h\<lparr>sg_wd := wd_fire (sg_wd h)\<rparr>))"
    if "length (wd_trace (wd_fire (sg_wd h))) > length (wd_trace (sg_wd h))" for r
    using that i wd_fire_frame [of "sg_wd h"] by (intro respond_inv) (auto simp: sg_inv_def)
  ultimately show ?thesis using SgWatchdog by (simp add: Let_def sg_sendError_def)
next
  case SgClose
  assume "sg_inv h"
  with SgClose show ?thesis by (auto simp: sg_inv_def close_watchdog_inv)
next
  case SgBegin
  assume "sg_inv h"
  with SgBegin show ?thesis by (simp add: begin_inv)
next
  case SgQueueTimer
  assume "sg_inv h"
  with SgQueueTimer show ?thesis by (simp add: Let_def close_inv split: prod.split)
next
  case SgClaimed
  assume "sg_inv h"
  with SgClaimed show ?thesis by (simp add: Let_def sg_originChecked_def notify_inv split: prod.split sg_stage.split)
next
  case (SgDocuments docs a b)
  assume i: "sg_inv h"
  have d: "sg_inv h1" if "sg_doSign env a b (h\<lparr>sg_wait := SgRest\<rparr>) = Some (h1, ok)" for h1 ok
    by (rule doSign_inv [OF _ that]) (simp add: i)
  with i have "sg_inv (appIdChecked env a b r (h\<lparr>sg_wait := SgRest\<rparr>))" for r
    by (auto simp: appIdChecked_def notify_inv split: option.split)
  with i SgDocuments show ?thesis by (simp split: sg_stage.split option.split)
next
  case (SgHelper t c k s)
  assume "sg_inv h"
  with SgHelper show ?thesis by (simp add: sg_helperComplete_def notify_inv)
qed

lemma sg_run_inv: "sg_inv h \<Longrightarrow> sg_inv (fold (sg_step env) es h)"
  by (rule fold_invariant [where Q = "\<lambda>_. True", rotated]) (auto simp: sg_step_inv)

lemma sign_starts:
  "handleU2fSignRequest env sys m r = Inr h \<Longrightarrow> sg_out h = [] \<and> \<not> wd_closed (sg_wd h) \<and> sg_request h = r
     \<and> sg_wait h = SgQueued \<and> \<not> sg_started h \<and> sg_browserData h = [] \<and> sg_serverChallenges h = []"
  by (auto simp: handleU2fSignRequest_def validateAndEnqueueSignRequest_def setCloseable_def WatchdogRequestHandler_def Let_def
      split: option.splits if_splits prod.splits sum.splits)

text \<open>
  C35. A page gets at most one response to a sign request, whatever the queue, the network, the helper, the timers
  and the page do, and in whatever order.
\<close>

theorem sign_responds_once:
  assumes "handleU2fSignRequest env sys m r = Inr h"
  shows "sg_replies (fold (sg_step env) es h) \<le> 1"
proof -
  have "sg_inv h" using sign_starts [OF assms] by (simp add: sg_inv_def sg_replies_def)
  from sg_run_inv [OF this] show ?thesis by (simp add: sg_inv_def)
qed

subsection \<open>What is signed\<close>

text \<open>
  The two dictionaries of \<open>doSign_\<close>: a key handle has the client data and the challenge of one challenge of
  the request.
\<close>

definition key_of :: "web_challenge \<Rightarrow> string" where
  "key_of c = (case wc_keyHandle c of Some k \<Rightarrow> k | None \<Rightarrow> [])"

definition data_of :: "web_env \<Rightarrow> web_sender \<Rightarrow> web_request \<Rightarrow> web_challenge \<Rightarrow> string option" where
  "data_of env s r c = map_option (sign_client_data env s) (server_challenge r c)"

definition matching :: "web_env \<Rightarrow> web_sender \<Rightarrow> web_request \<Rightarrow> web_challenge list \<Rightarrow> string jsobj \<Rightarrow> web_challenge jsobj \<Rightarrow> bool" where
  "matching env s r cs bd sc \<longleftrightarrow> (\<forall>k. case (map_of bd k, map_of sc k) of
       (None, None) \<Rightarrow> True
     | (Some d, Some c) \<Rightarrow> c \<in> set cs \<and> key_of c = k \<and> data_of env s r c = Some d
     | _ \<Rightarrow> False)"

lemma matching_update:
  "matching env s r cs bd sc \<Longrightarrow> c \<in> set cs \<Longrightarrow> server_challenge r c = Some ch \<Longrightarrow>
     matching env s r cs (AList.update (key_of c) (sign_client_data env s ch) bd) (AList.update (key_of c) c sc)"
  unfolding matching_def by (auto simp: update_conv' data_of_def)

lemma prepare_matching:
  "prepare env xs h = (h', ok) \<Longrightarrow> set xs \<subseteq> set cs \<Longrightarrow>
     matching env (sg_sender h) (sg_request h) cs (sg_browserData h) (sg_serverChallenges h) \<Longrightarrow>
     matching env (sg_sender h) (sg_request h) cs (sg_browserData h') (sg_serverChallenges h')
     \<and> h' = h\<lparr>sg_browserData := sg_browserData h', sg_serverChallenges := sg_serverChallenges h'\<rparr>"
proof (induction env xs h rule: prepare.induct)
  case (2 env c xs h)
  show ?case
  proof (cases "server_challenge (sg_request h) c")
    case (Some ch)
    let ?h1 = "h\<lparr>sg_browserData := AList.update (key_of c) (sign_client_data env (sg_sender h) ch) (sg_browserData h),
               sg_serverChallenges := AList.update (key_of c) c (sg_serverChallenges h)\<rparr>"
    have p: "prepare env xs ?h1 = (h', ok)" using 2(2) Some by (simp add: key_of_def Let_def)
    have "matching env (sg_sender h) (sg_request h) cs (sg_browserData ?h1) (sg_serverChallenges ?h1)"
      using matching_update [OF 2(4) _ Some] 2(3) by simp
    with 2(1) [OF Some refl] p 2(3) show ?thesis by (simp add: key_of_def)
  qed (use 2 in simp)
qed simp

text \<open>Everything else leaves alone what is signed, and responds with errors only.\<close>

definition uneventful :: "sign_session \<Rightarrow> sign_session \<Rightarrow> bool" where
  "uneventful h h' \<longleftrightarrow> sg_wait h' = sg_wait h \<and> sg_sender h' = sg_sender h \<and> sg_request h' = sg_request h
     \<and> sg_challenges h' = sg_challenges h \<and> sg_appId h' = sg_appId h \<and> sg_browserData h' = sg_browserData h
     \<and> sg_serverChallenges h' = sg_serverChallenges h \<and> sg_started h' = sg_started h
     \<and> (\<exists>es. sg_out h' = sg_out h @ es \<and> list_all (\<lambda>e. case e of SgStart q \<Rightarrow> False
          | SgReply r \<Rightarrow> (case resp_data r of ErrorData x \<Rightarrow> True | _ \<Rightarrow> False) | _ \<Rightarrow> True) es)"

lemma uneventful_trans: "uneventful h h1 \<Longrightarrow> uneventful h1 h2 \<Longrightarrow> uneventful h h2"
  unfolding uneventful_def by auto

lemma uneventful_refl [simp]: "uneventful h h"
  by (simp add: uneventful_def)

lemma silent_uneventful: "silent h h' \<Longrightarrow> uneventful h h'"
  unfolding silent_def uneventful_def by (fastforce simp: list_all_iff subset_iff split: sg_effect.split)

lemma uneventful_updates:
  "uneventful h (h\<lparr>sg_wd := w\<rparr>)" "uneventful h (h\<lparr>sg_sys := y, qs_timer := t\<rparr>)" "uneventful h (h\<lparr>sg_sys := y\<rparr>)"
  "uneventful h (h\<lparr>sg_challengesSet := b\<rparr>)"
  "uneventful h (h\<lparr>qs_begun := b1, qs_token := b2, sg_made := b3, sg_sys := y, sg_timer := t\<rparr>)"
  by (simp_all add: uneventful_def)

lemma uneventful_watchdog: "uneventful h (sg_close_watchdog h)"
  by (rule uneventful_trans [OF uneventful_updates(1) silent_uneventful [OF close_watchdog_silent]])

lemma uneventful_error: "uneventful h (sg_sendError e h)"
proof -
  have "uneventful h1 (sg_emit (SgReply (makeU2fErrorResponse r c m d)) h1)" for r c m d h1
    by (simp add: uneventful_def sg_emit_def makeU2fErrorResponse_def makeResponseForRequest_def)
  then show ?thesis
    unfolding sg_sendError_def respond_eq by (rule uneventful_trans [OF uneventful_watchdog])
qed

lemma uneventful_wrapped: "(\<And>h'. uneventful h' (cb h')) \<Longrightarrow> uneventful h (sg_wrapped cb h)"
  by (auto simp: sg_wrapped_def intro: uneventful_trans [OF uneventful_updates(1)])

lemma uneventful_notify: "uneventful h (sg_notifyError e h)"
proof -
  have "uneventful h (sg_wrapped (sg_sendError e) (complete_token (sg_close_quiet (h\<lparr>sg_done := True\<rparr>))))"
    by (rule uneventful_trans [OF silent_uneventful [OF silent_fail] uneventful_wrapped]) (rule uneventful_error)
  then show ?thesis by (simp add: sg_notifyError_def signerFailed_def)
qed

lemma uneventful_close: "uneventful h (qs_close h)"
proof -
  have "uneventful h (sg_close h)"
    unfolding sg_close_def by (rule uneventful_trans [OF silent_uneventful [OF silent_ops(1)] uneventful_notify])
  from uneventful_trans [OF this silent_uneventful [OF silent_end]] silent_uneventful [OF silent_end]
  show ?thesis by (simp add: qs_close_def)
qed

definition signs_data :: "sign_session \<Rightarrow> sign_helper_request \<Rightarrow> bool" where
  "signs_data h req \<longleftrightarrow> (\<forall>k d. map_of (sg_browserData h) k = Some d \<longrightarrow>
     (\<exists>hc \<in> set (shr_signData req). hc_keyHandle hc = k \<and> hc_challengeHash hc = B64_encode (sha256HashOfString d) None))
   \<and> (\<forall>hc \<in> set (shr_signData req). \<exists>d. map_of (sg_browserData h) (hc_keyHandle hc) = Some d
       \<and> hc_challengeHash hc = B64_encode (sha256HashOfString d) None)"

definition signed_hashes :: "string list \<Rightarrow> sign_helper_request \<Rightarrow> bool" where
  "signed_hashes ids req \<longleftrightarrow> (\<forall>hc \<in> set (shr_signData req). \<exists>a \<in> insert [] (set ids). hc_appIdHash hc = B64_encode (sha256HashOfString a) None)"

definition session_ids :: "sign_session \<Rightarrow> string list" where
  "session_ids h = sg_app_ids (sg_appId h) (sg_challenges h)"

definition signed_inv :: "web_env \<Rightarrow> sign_session \<Rightarrow> bool" where
  "signed_inv env h \<longleftrightarrow>
     (case sg_wait h of SgQueued \<Rightarrow> \<not> sg_started h | SgClaim ids \<Rightarrow> ids = session_ids h \<and> \<not> sg_started h
      | SgCheck ids \<Rightarrow> ids = session_ids h \<and> canClaimAppIds (env_tld env) (ws_origin (sg_sender h)) ids \<and> \<not> sg_started h
      | SgRest \<Rightarrow> True)
     \<and> (\<forall>req. SgStart req \<in> set (sg_out h) \<longrightarrow> sg_started h \<and> signs_data h req \<and> signed_hashes (session_ids h) req
          \<and> may_enroll env (ws_origin (sg_sender h)) (session_ids h))
     \<and> (sg_started h \<longrightarrow> (\<exists>req. SgStart req \<in> set (sg_out h)))
     \<and> matching env (sg_sender h) (sg_request h) (sg_challenges h) (sg_browserData h) (sg_serverChallenges h)
     \<and> (\<forall>r k cd sig. SgReply r \<in> set (sg_out h) \<longrightarrow> resp_data r = SignData k cd sig \<longrightarrow> sg_started h
          \<and> (\<exists>d. map_of (sg_browserData h) k = Some d \<and> cd = B64_encode (UTIL_StringToBytes d) None))"

lemma uneventful_signed:
  assumes "uneventful h h'" "signed_inv env h"
  shows "signed_inv env h'"
proof -
  obtain es where es: "sg_out h' = sg_out h @ es" "list_all (\<lambda>e. case e of SgStart q \<Rightarrow> False
          | SgReply r \<Rightarrow> (case resp_data r of ErrorData x \<Rightarrow> True | _ \<Rightarrow> False) | _ \<Rightarrow> True) es"
    using assms(1) by (auto simp: uneventful_def)
  have 1: "SgStart q \<in> set (sg_out h') \<longleftrightarrow> SgStart q \<in> set (sg_out h)" for q
    using es by (auto simp: list_all_iff)
  have 2: "SgReply r \<in> set (sg_out h') \<Longrightarrow> resp_data r = SignData k cd sig \<Longrightarrow> SgReply r \<in> set (sg_out h)" for r k cd sig
    using es by (auto simp: list_all_iff)
  have f: "sg_wait h' = sg_wait h" "sg_sender h' = sg_sender h" "sg_request h' = sg_request h" "sg_challenges h' = sg_challenges h"
    "sg_browserData h' = sg_browserData h" "sg_serverChallenges h' = sg_serverChallenges h" "sg_started h' = sg_started h"
    "session_ids h' = session_ids h" "signs_data h' = signs_data h"
    using assms(1) by (auto simp: uneventful_def session_ids_def signs_data_def fun_eq_iff)
  show ?thesis
    using assms(2) 2 unfolding signed_inv_def 1 f by blast
qed

lemma signed_rest: "signed_inv env h \<Longrightarrow> signed_inv env (h\<lparr>sg_wait := SgRest\<rparr>)"
  unfolding signed_inv_def by (simp add: session_ids_def signs_data_def)

lemma encoded_signs:
  assumes "matching env s r cs bd sc" "encodeSignChallenges cs (wr_challenge r) (Some appId) (getChallengeHash h) = Some hs" "sg_browserData h = bd"
  shows "map_of bd k = Some d \<Longrightarrow> \<exists>hc \<in> set hs. hc_keyHandle hc = k \<and> hc_challengeHash hc = B64_encode (sha256HashOfString d) None"
    and "hc \<in> set hs \<Longrightarrow> \<exists>a \<in> insert appId (set (map (\<lambda>c. case wc_appId c of Some a \<Rightarrow> a | None \<Rightarrow> []) cs)).
          hc_appIdHash hc = B64_encode (sha256HashOfString a) None"
    and "hc \<in> set hs \<Longrightarrow> \<exists>d. map_of bd (hc_keyHandle hc) = Some d \<and> hc_challengeHash hc = B64_encode (sha256HashOfString d) None"
proof -
  let ?enc = "encodeSignChallenge (wr_challenge r) (Some appId) (getChallengeHash h)"
  have hs: "those (map ?enc cs) = Some hs" using assms(2) by (simp add: encodeSignChallenges_def)
  have mem: "hc \<in> set hs \<longleftrightarrow> (\<exists>c \<in> set cs. ?enc c = Some hc)" for hc
    unfolding set_those [OF hs, of hc] set_map image_iff by metis
  have all: "\<exists>hc. ?enc c = Some hc" if "c \<in> set cs" for c
  proof (rule ccontr)
    assume "\<not> ?thesis"
    then have "None \<in> set (map ?enc cs)" using that by (auto simp: image_iff) (metis not_None_eq)
    then have "those (map ?enc cs) = None" by (induction cs) (auto split: option.split)
    with hs show False by simp
  qed
  show "\<exists>hc \<in> set hs. hc_keyHandle hc = k \<and> hc_challengeHash hc = B64_encode (sha256HashOfString d) None" if "map_of bd k = Some d"
  proof -
    have "case (map_of bd k, map_of sc k) of (None, None) \<Rightarrow> True
      | (Some d, Some c) \<Rightarrow> c \<in> set cs \<and> key_of c = k \<and> data_of env s r c = Some d | _ \<Rightarrow> False"
      using assms(1) unfolding matching_def by blast
    with that obtain c where c: "c \<in> set cs" "key_of c = k" by (auto split: option.splits)
    from all [OF c(1)] obtain hc where hc: "?enc c = Some hc" by blast
    then have "hc_keyHandle hc = k \<and> hc_challengeHash hc = B64_encode (sha256HashOfString d) None"
      using c(2) that assms(3) by (auto simp: encodeSignChallenge_def key_of_def getChallengeHash_def Let_def split: option.splits if_splits)
    with mem c hc show ?thesis by blast
  qed
  show "\<exists>a \<in> insert appId (set (map (\<lambda>c. case wc_appId c of Some a \<Rightarrow> a | None \<Rightarrow> []) cs)).
          hc_appIdHash hc = B64_encode (sha256HashOfString a) None" if "hc \<in> set hs"
  proof -
    from that mem obtain c where c: "c \<in> set cs" "?enc c = Some hc" by blast
    then show ?thesis
      by (auto simp: encodeSignChallenge_def Let_def image_iff split: option.splits if_splits intro!: bexI [of _ c])
  qed
  show "\<exists>d. map_of bd (hc_keyHandle hc) = Some d \<and> hc_challengeHash hc = B64_encode (sha256HashOfString d) None" if "hc \<in> set hs"
  proof -
    from that mem obtain c where "?enc c = Some hc" by blast
    then show ?thesis
      using assms(3) by (auto simp: encodeSignChallenge_def getChallengeHash_def Let_def split: option.splits if_splits)
  qed
qed

lemma set_session_ids:
  "a \<in> set (map (\<lambda>c. case wc_appId c of Some a \<Rightarrow> a | None \<Rightarrow> []) cs) \<or> a = appId \<Longrightarrow> a \<in> insert [] (set (sg_app_ids appId cs))"
  by (auto simp: sg_app_ids_def getDistinctAppIds_def set_unionArrays Let_def)

lemma signed_documents:
  assumes i: "signed_inv env h" and w: "sg_wait h = SgCheck ids" and ok: "may_enroll env (ws_origin (sg_sender h)) ids"
    and d: "sg_doSign env a b (h\<lparr>sg_wait := SgRest\<rparr>) = Some (h', res)"
  shows "signed_inv env h'"
proof -
  let ?h = "h\<lparr>sg_wait := SgRest\<rparr>"
  have ids: "ids = session_ids h" and ns: "\<not> sg_started h" and none: "\<And>q. SgStart q \<notin> set (sg_out h)"
    and noreply: "\<And>r k cd sig. SgReply r \<in> set (sg_out h) \<Longrightarrow> resp_data r \<noteq> SignData k cd sig"
    and m: "matching env (sg_sender h) (sg_request h) (sg_challenges h) (sg_browserData h) (sg_serverChallenges h)"
    using i w unfolding signed_inv_def by auto
  obtain h1 ok' where p: "prepare env (sg_challenges h) ?h = (h1, ok')" by fastforce
  from prepare_matching [OF p subset_refl] m
  have m1: "matching env (sg_sender h) (sg_request h) (sg_challenges h) (sg_browserData h1) (sg_serverChallenges h1)"
    and h1: "h1 = ?h\<lparr>sg_browserData := sg_browserData h1, sg_serverChallenges := sg_serverChallenges h1\<rparr>" by simp_all
  have f: "sg_wait h1 = SgRest" "sg_sender h1 = sg_sender h" "sg_request h1 = sg_request h" "sg_challenges h1 = sg_challenges h"
    "sg_appId h1 = sg_appId h" "sg_out h1 = sg_out h" "sg_started h1 = sg_started h"
    by (subst h1; simp)+
  have i1: "signed_inv env h1"
    using f m1 ns none noreply unfolding signed_inv_def by auto
  show ?thesis
  proof (cases "h' = h1")
    case False
    with d p obtain hs where hs: "encodeSignChallenges (sg_challenges h1) (wr_challenge (sg_request h1)) (Some (sg_appId h1)) (getChallengeHash h1) = Some hs"
      and h': "h' = sg_emit (SgStart (makeSignHelperRequest hs (Some (millisecondsUntilExpired (sg_timer h1) / 1000)))) (h1\<lparr>sg_handler := True, sg_started := True\<rparr>)"
      by (auto simp: sg_doSign_def Let_def split: option.splits if_splits)
    let ?req = "makeSignHelperRequest hs (Some (millisecondsUntilExpired (sg_timer h1) / 1000))"
    note enc = encoded_signs [OF m1 hs [unfolded f] refl]
    have "signs_data h' ?req"
      using enc(1,3) by (simp add: signs_data_def h' sg_emit_def makeSignHelperRequest_def Let_def)
    moreover have "signed_hashes (session_ids h) ?req"
      unfolding signed_hashes_def session_ids_def
    proof
      fix hc assume "hc \<in> set (shr_signData ?req)"
      then have "hc \<in> set hs" by (simp add: makeSignHelperRequest_def Let_def)
      from enc(2) [OF this] set_session_ids
      show "\<exists>a \<in> insert [] (set (sg_app_ids (sg_appId h) (sg_challenges h))). hc_appIdHash hc = B64_encode (sha256HashOfString a) None"
        by blast
    qed
    moreover have "session_ids h' = session_ids h" by (simp add: session_ids_def h' f sg_emit_def)
    ultimately show ?thesis
      using f m1 none noreply ok ids unfolding signed_inv_def
      by (simp add: h' sg_emit_def)
  qed (use i1 in simp)
qed

lemma signed_success:
  assumes i: "signed_inv env h" and s: "sg_started h" and d: "map_of (sg_browserData h) k = Some d"
    and r: "resp_data r = SignData k (B64_encode (UTIL_StringToBytes d) None) sig"
  shows "signed_inv env (sg_emit (SgReply r) h)"
proof -
  have 1: "SgStart q \<in> set (sg_out (sg_emit (SgReply r) h)) \<longleftrightarrow> SgStart q \<in> set (sg_out h)" for q by (simp add: sg_emit_def)
  have 2: "SgReply r' \<in> set (sg_out (sg_emit (SgReply r) h)) \<longleftrightarrow> r' = r \<or> SgReply r' \<in> set (sg_out h)" for r'
    by (auto simp: sg_emit_def)
  have f: "sg_wait (sg_emit (SgReply r) h) = sg_wait h" "sg_sender (sg_emit (SgReply r) h) = sg_sender h"
    "sg_request (sg_emit (SgReply r) h) = sg_request h" "sg_challenges (sg_emit (SgReply r) h) = sg_challenges h"
    "sg_browserData (sg_emit (SgReply r) h) = sg_browserData h" "sg_serverChallenges (sg_emit (SgReply r) h) = sg_serverChallenges h"
    "sg_started (sg_emit (SgReply r) h) = sg_started h"
    "session_ids (sg_emit (SgReply r) h) = session_ids h" "signs_data (sg_emit (SgReply r) h) = signs_data h"
    by (simp_all add: sg_emit_def session_ids_def signs_data_def fun_eq_iff)
  have n: "resp_data r = SignData k' cd sig' \<Longrightarrow> sg_started h \<and> (\<exists>d. map_of (sg_browserData h) k' = Some d
      \<and> cd = B64_encode (UTIL_StringToBytes d) None)" for k' cd sig'
    using r s d by simp
  show ?thesis
    using i n unfolding signed_inv_def 1 2 f by blast
qed

lemma signed_helper:
  assumes i: "signed_inv env h" and s: "sg_started h"
  shows "signed_inv env (sg_notifySuccess (map_of (sg_serverChallenges h) key) sig (map_of (sg_browserData h) key) h)"
proof -
  let ?h1 = "complete_token (sg_close_quiet (h\<lparr>sg_done := True\<rparr>))"
  let ?h2 = "?h1\<lparr>sg_wd := wrappedCallback () (sg_wd ?h1)\<rparr>"
  have u1: "uneventful h ?h1" by (rule silent_uneventful [OF silent_fail])
  have u2: "uneventful h ?h2" by (rule uneventful_trans [OF u1 uneventful_updates(1)])
  have m: "case (map_of (sg_browserData h) key, map_of (sg_serverChallenges h) key) of (None, None) \<Rightarrow> True
     | (Some d, Some c) \<Rightarrow> c \<in> set (sg_challenges h) \<and> key_of c = key \<and> data_of env (sg_sender h) (sg_request h) c = Some d | _ \<Rightarrow> False"
    using i unfolding signed_inv_def matching_def by blast
  show ?thesis
  proof (cases "sg_done h \<or> wd_closed (sg_wd ?h1) \<or> map_of (sg_browserData h) key = None")
    case True
    then show ?thesis
      using m i uneventful_signed [OF u1 i] uneventful_signed [OF u2 i]
      by (auto simp: sg_notifySuccess_def sg_wrapped_def split: option.splits)
  next
    case False
    then obtain d c where dc: "map_of (sg_browserData h) key = Some d" "map_of (sg_serverChallenges h) key = Some c" "key_of c = key"
      using m by (auto split: option.splits)
    let ?r = "makeU2fSuccessResponse (Some (sg_request ?h2)) (SignData key (B64_encode (UTIL_StringToBytes d) None) sig)"
    have eq: "sg_notifySuccess (map_of (sg_serverChallenges h) key) sig (map_of (sg_browserData h) key) h
        = sg_emit (SgReply ?r) (sg_close_watchdog ?h2)"
      using False dc by (simp add: sg_notifySuccess_def sg_wrapped_def sg_sendSuccess_def respond_eq
          addSignatureAndBrowserDataToResponseData_def makeU2fSignResponseDataFromChallenge_def key_of_def)
    let ?h3 = "sg_close_watchdog ?h2"
    have u3: "uneventful h ?h3" by (rule uneventful_trans [OF u2 uneventful_watchdog])
    have i3: "signed_inv env ?h3" by (rule uneventful_signed [OF u3 i])
    have "sg_started ?h3" "map_of (sg_browserData ?h3) key = Some d" using u3 s dc by (simp_all add: uneventful_def)
    moreover have "resp_data ?r = SignData key (B64_encode (UTIL_StringToBytes d) None) sig"
      by (simp add: makeU2fSuccessResponse_def makeResponseForRequest_def)
    ultimately show ?thesis unfolding eq by (rule signed_success [OF i3])
  qed
qed

lemma uneventful_begin:
  assumes "sg_wait h = SgRest" "signed_inv env h" "\<not> sg_started h"
  shows "signed_inv env (qs_begin h)"
proof -
  have w: "uneventful h1 (sg_wrapped (sg_sendError e) h1)" for e h1
    by (rule uneventful_wrapped) (rule uneventful_error)
  show ?thesis
  proof (cases "expired (qs_timer h)")
    case True
    then show ?thesis
      using uneventful_signed [OF uneventful_trans [OF uneventful_close w] assms(2)] by (simp add: qs_begin_def)
  next
    case False
    obtain sys1 t1 where c: "cd_clone (sg_sys h) (qs_timer h) (None :: unit option) = (sys1, t1)" by fastforce
    let ?h1 = "h\<lparr>qs_begun := True, qs_token := True, sg_made := True, sg_sys := sys1, sg_timer := t1\<rparr>"
    have i1: "signed_inv env ?h1" by (rule uneventful_signed [OF uneventful_updates(5) assms(2)])
    obtain h2 ok where h2: "setChallenges ?h1 = (h2, ok)" by fastforce
    have i2: "signed_inv env h2"
    proof (cases "sg_challengesSet ?h1 \<or> sg_done ?h1 \<or> expired (sg_timer ?h1)")
      case True
      then show ?thesis
        using h2 i1 uneventful_signed [OF uneventful_notify i1] by (auto simp: setChallenges_def split: if_splits)
    next
      case False
      let ?h1' = "?h1\<lparr>sg_challengesSet := True\<rparr>"
      have i1': "signed_inv env ?h1'" by (rule uneventful_signed [OF uneventful_updates(4) i1])
      have ns: "\<not> sg_started ?h1'" "sg_wait ?h1' = SgRest" using assms by simp_all
      have "signed_inv env (?h1'\<lparr>sg_wait := SgClaim (session_ids ?h1')\<rparr>)"
        using i1' ns unfolding signed_inv_def by (auto simp: session_ids_def signs_data_def)
      moreover have "h2 = (if session_ids ?h1' = [] then sg_notifyError missing_appId ?h1' else ?h1'\<lparr>sg_wait := SgClaim (session_ids ?h1')\<rparr>)"
        using False h2 by (auto simp: setChallenges_def sg_checkAppIds_def session_ids_def Let_def)
      ultimately show ?thesis
        using uneventful_signed [OF uneventful_notify i1'] by simp
    qed
    let ?h3 = "if ok then h2 else sg_wrapped (sg_sendError (plain_error BAD_REQUEST)) (complete_token h2)"
    have i3: "signed_inv env ?h3"
      using i2 uneventful_signed [OF uneventful_trans [OF silent_uneventful [OF silent_ops(2)] w] i2] by simp
    obtain sys2 t2 where c2: "cd_clearTimeout (sg_sys ?h3) (qs_timer ?h3) = (sys2, t2)" by fastforce
    have "qs_begin h = ?h3\<lparr>sg_sys := sys2, qs_timer := t2\<rparr>"
      using False c h2 c2 by (simp add: qs_begin_def Let_def)
    then show ?thesis using uneventful_signed [OF uneventful_updates(2) i3] by simp
  qed
qed

lemma signed_step: "signed_inv env h \<Longrightarrow> signed_inv env (sg_step env e h)"
proof (cases e)
  case SgBegin
  assume i: "signed_inv env h"
  show ?thesis
  proof (cases "sg_wait h = SgQueued")
    case True
    then have "\<not> sg_started h" using i by (simp add: signed_inv_def)
    then have "signed_inv env (qs_begin (h\<lparr>sg_wait := SgRest\<rparr>))"
      by (intro uneventful_begin signed_rest [OF i]) simp_all
    then show ?thesis using True SgBegin by simp
  qed (use SgBegin i in simp)
next
  case SgQueueTimer
  assume i: "signed_inv env h"
  have "signed_inv env (h\<lparr>sg_sys := y, qs_timer := t\<rparr>)" for y t by (rule uneventful_signed [OF uneventful_updates(2) i])
  moreover from this have "signed_inv env (qs_close (h\<lparr>sg_sys := y, qs_timer := t\<rparr>))" for y t
    by (rule uneventful_signed [OF uneventful_close])
  ultimately show ?thesis using SgQueueTimer by (simp add: Let_def split: prod.split)
next
  case SgClaimed
  assume i: "signed_inv env h"
  show ?thesis
  proof (cases "\<exists>ids. sg_wait h = SgClaim ids")
    case True
    then obtain ids where w: "sg_wait h = SgClaim ids" by blast
    obtain y t where c: "cd_clone (sg_sys h) (sg_timer h) (None :: unit option) = (y, t)" by fastforce
    have n: "signed_inv env (sg_notifyError bad_appId (h\<lparr>sg_wait := SgRest\<rparr>))"
      by (rule uneventful_signed [OF uneventful_notify signed_rest [OF i]])
    have "signed_inv env (h\<lparr>sg_sys := y, sg_wait := SgCheck ids\<rparr>)" if "canClaimAppIds (env_tld env) (ws_origin (sg_sender h)) ids"
      using i w that unfolding signed_inv_def by (auto simp: session_ids_def signs_data_def)
    then show ?thesis
      using w n c SgClaimed by (simp add: sg_originChecked_def Let_def)
  qed (use SgClaimed i in \<open>auto split: sg_stage.split\<close>)
next
  case (SgDocuments docs a b)
  assume i: "signed_inv env h"
  show ?thesis
  proof (cases "\<exists>ids. sg_wait h = SgCheck ids")
    case True
    then obtain ids where w: "sg_wait h = SgCheck ids" by blast
    let ?h = "h\<lparr>sg_wait := SgRest\<rparr>"
    let ?o = "ws_origin (sg_sender h)"
    note r = signed_rest [OF i]
    have "signed_inv env (appIdChecked env a b result ?h)"
      if "checkAppIds (env_json env) False (take 7 ?o = ''http://'') ?o docs ids = Some result" for result
    proof (cases result)
      case True
      have "canClaimAppIds (env_tld env) ?o ids" using i w unfolding signed_inv_def by auto
      moreover have "\<forall>x \<in> set ids. x = ?o \<or> lists_origin (env_json env) (take 7 ?o = ''http://'') ?o x (docs x)"
        using that True by (simp add: check_iff)
      ultimately have m: "may_enroll env ?o ids" unfolding may_enroll_def by blast
      show ?thesis
      proof (cases "sg_doSign env a b ?h")
        case None
        then show ?thesis using True r by (simp add: appIdChecked_def)
      next
        case (Some x)
        obtain h' ok where x: "x = (h', ok)" by fastforce
        have i': "signed_inv env h'" using signed_documents [OF i w m] Some x by blast
        show ?thesis
          using True Some x i' uneventful_signed [OF uneventful_notify i'] by (simp add: appIdChecked_def)
      qed
    next
      case False
      then show ?thesis using uneventful_signed [OF uneventful_notify r] by (simp add: appIdChecked_def)
    qed
    then show ?thesis using w i SgDocuments by (simp split: option.split)
  qed (use SgDocuments i in \<open>auto split: sg_stage.split\<close>)
next
  case (SgHelper t c k s)
  assume i: "signed_inv env h"
  then show ?thesis
    using SgHelper uneventful_signed [OF uneventful_notify i] signed_helper [OF i] by (simp add: sg_helperComplete_def)
next
  case SgWatchdog
  assume i: "signed_inv env h"
  have 1: "uneventful h (h\<lparr>sg_wd := w\<rparr>)" for w by (rule uneventful_updates(1))
  show ?thesis
    using SgWatchdog uneventful_signed [OF 1 i] uneventful_signed [OF uneventful_trans [OF 1 uneventful_error] i] by (simp add: Let_def)
next
  case SgClose
  assume i: "signed_inv env h"
  then show ?thesis using SgClose uneventful_signed [OF uneventful_watchdog i] by simp
qed

lemma signed_run: "signed_inv env h \<Longrightarrow> signed_inv env (fold (sg_step env) es h)"
  by (rule fold_invariant [where Q = "\<lambda>_. True", rotated]) (auto simp: signed_step)

lemma signed_start: "handleU2fSignRequest env sys m r = Inr h \<Longrightarrow> signed_inv env h"
  using sign_starts [of env sys m r h] by (simp add: signed_inv_def matching_def)

definition same_parties :: "sign_session \<Rightarrow> sign_session \<Rightarrow> bool" where
  "same_parties h h' \<longleftrightarrow> sg_sender h' = sg_sender h \<and> sg_request h' = sg_request h \<and> sg_challenges h' = sg_challenges h
     \<and> sg_appId h' = sg_appId h"

lemma parties_trans: "same_parties h h1 \<Longrightarrow> same_parties h1 h2 \<Longrightarrow> same_parties h h2"
  by (simp add: same_parties_def)

lemma parties_uneventful: "uneventful h h' \<Longrightarrow> same_parties h h'"
  by (simp add: same_parties_def uneventful_def)

lemma parties_updates [simp]:
  "same_parties h h" "same_parties h (h\<lparr>sg_wait := x\<rparr>)" "same_parties h (h\<lparr>sg_sys := y, sg_wait := x\<rparr>)"
  "same_parties h (sg_emit e h)"
  by (simp_all add: same_parties_def sg_emit_def)

lemma parties_prepare: "same_parties h (fst (prepare env cs h))"
  by (induction env cs h rule: prepare.induct) (auto simp: same_parties_def Let_def split: option.split)

lemma parties_doSign: "sg_doSign env a b h = Some (h', ok) \<Longrightarrow> same_parties h h'"
  using parties_prepare [of h env "sg_challenges h"]
  by (auto simp: sg_doSign_def same_parties_def sg_emit_def Let_def split: prod.splits if_splits option.splits)

lemma parties_success: "same_parties h (sg_notifySuccess c sig d h)"
proof -
  have "same_parties h1 (case (c, d) of (Some c', Some d') \<Rightarrow> sg_sendSuccess c' sig d' h1 | _ \<Rightarrow> h1)" for h1
    using parties_trans [OF parties_uneventful [OF uneventful_watchdog [of h1]] parties_updates(4)]
    by (auto simp: sg_sendSuccess_def respond_eq split: option.split)
  then have "same_parties h1 (sg_wrapped (\<lambda>h'. case (c, d) of (Some c', Some d') \<Rightarrow> sg_sendSuccess c' sig d' h' | _ \<Rightarrow> h') h1)" for h1
    using parties_trans [OF parties_uneventful [OF uneventful_updates(1)]] unfolding sg_wrapped_def by auto
  then show ?thesis
    unfolding sg_notifySuccess_def using parties_trans [OF parties_uneventful [OF silent_uneventful [OF silent_fail]]] by auto
qed

text \<open>
  Most steps of a session leave alone what is being signed. A relation between a session and a later one that
  holds then, and when only what is waited for changes, holds for every step that neither asks the helper nor
  hears from it.
\<close>

locale session_relation =
  fixes R :: "sign_session \<Rightarrow> sign_session \<Rightarrow> bool"
  assumes trans: "R h h1 \<Longrightarrow> R h1 h2 \<Longrightarrow> R h h2"
    and uneventful: "uneventful h h' \<Longrightarrow> R h h'"
    and waiting: "R h (h\<lparr>sg_wait := x\<rparr>)"
begin

lemma notify: "R h (sg_notifyError e h)"
  by (rule uneventful [OF uneventful_notify])

lemma rest_notify: "R h (sg_notifyError e (h\<lparr>sg_wait := SgRest\<rparr>))"
  by (rule trans [OF waiting notify])

lemma failed: "R h (sg_wrapped (sg_sendError e) h)"
  by (rule uneventful [OF uneventful_wrapped [OF uneventful_error]])

lemma challenges_set: "R h (fst (setChallenges h))"
proof -
  have "R h1 (sg_checkAppIds h1)" for h1 by (simp add: sg_checkAppIds_def notify waiting Let_def)
  then have "R h (sg_checkAppIds (h\<lparr>sg_challengesSet := True\<rparr>))"
    by (rule trans [OF uneventful [OF uneventful_updates(4)]])
  then show ?thesis using uneventful [OF uneventful_refl] by (simp add: setChallenges_def notify)
qed

lemma begun: "R h (qs_begin h)"
proof (cases "expired (qs_timer h)")
  case True
  then show ?thesis using trans [OF uneventful [OF uneventful_close] failed] by (simp add: qs_begin_def)
next
  case False
  obtain sys1 t1 where c: "cd_clone (sg_sys h) (qs_timer h) (None :: unit option) = (sys1, t1)" by fastforce
  let ?h1 = "h\<lparr>qs_begun := True, qs_token := True, sg_made := True, sg_sys := sys1, sg_timer := t1\<rparr>"
  obtain h2 ok where h2: "setChallenges ?h1 = (h2, ok)" by fastforce
  have p2: "R h h2"
    using trans [OF uneventful [OF uneventful_updates(5)] challenges_set [of ?h1]] h2 by simp
  let ?h3 = "if ok then h2 else sg_wrapped (sg_sendError (plain_error BAD_REQUEST)) (complete_token h2)"
  have p3: "R h ?h3"
    using p2 trans [OF p2 trans [OF uneventful [OF silent_uneventful [OF silent_ops(2)]] failed]] by simp
  obtain sys2 t2 where c2: "cd_clearTimeout (sg_sys ?h3) (qs_timer ?h3) = (sys2, t2)" by fastforce
  have "qs_begin h = ?h3\<lparr>sg_sys := sys2, qs_timer := t2\<rparr>"
    using False c h2 c2 by (simp add: qs_begin_def Let_def)
  then show ?thesis using trans [OF p3 uneventful [OF uneventful_updates(2)]] by simp
qed

text \<open>The steps that neither ask the helper nor hear from it.\<close>

lemma other_step:
  assumes "\<And>docs a b. e \<noteq> SgDocuments docs a b" "\<And>t c k s. e \<noteq> SgHelper t c k s"
  shows "R h (sg_step env e h)"
proof (cases e)
  case SgBegin
  then show ?thesis using trans [OF waiting begun] uneventful [OF uneventful_refl] by simp
next
  case SgQueueTimer
  then show ?thesis
    using trans [OF uneventful [OF uneventful_updates(2)] uneventful [OF uneventful_close]]
      uneventful [OF uneventful_updates(2)] by (simp add: Let_def split: prod.split)
next
  case SgClaimed
  have "R h (h\<lparr>sg_sys := y, sg_wait := x\<rparr>)" for x y
    by (rule trans [OF uneventful [OF uneventful_updates(3)] waiting])
  then show ?thesis
    using SgClaimed rest_notify uneventful [OF uneventful_refl]
    by (simp add: sg_originChecked_def Let_def split: sg_stage.split prod.split)
next
  case SgWatchdog
  then show ?thesis
    using trans [OF uneventful [OF uneventful_updates(1)] uneventful [OF uneventful_error]]
      uneventful [OF uneventful_updates(1)] by (simp add: Let_def)
next
  case SgClose
  then show ?thesis using uneventful [OF uneventful_watchdog] by simp
qed (use assms in auto)

lemma asking_step:
  assumes "\<And>h' ok. sg_doSign env a b (h\<lparr>sg_wait := SgRest\<rparr>) = Some (h', ok) \<Longrightarrow> R (h\<lparr>sg_wait := SgRest\<rparr>) h'"
  shows "R h (sg_step env (SgDocuments docs a b) h)"
proof -
  have "R h (appIdChecked env a b res (h\<lparr>sg_wait := SgRest\<rparr>))" for res
  proof (cases "sg_doSign env a b (h\<lparr>sg_wait := SgRest\<rparr>)")
    case None
    then show ?thesis using rest_notify waiting by (simp add: appIdChecked_def)
  next
    case (Some x)
    then obtain h' ok where d: "sg_doSign env a b (h\<lparr>sg_wait := SgRest\<rparr>) = Some (h', ok)" by (cases x) auto
    have p: "R h h'" by (rule trans [OF waiting assms [OF d]])
    show ?thesis using d p trans [OF p notify] rest_notify by (simp add: appIdChecked_def)
  qed
  then show ?thesis using uneventful [OF uneventful_refl] by (simp split: sg_stage.split option.split)
qed

end

interpretation signing_parties: session_relation same_parties
  by unfold_locales (auto intro: parties_trans parties_uneventful)

lemma parties_step: "same_parties h (sg_step env e h)"
proof (cases e)
  case (SgDocuments docs a b)
  have "same_parties h1 h'" if "sg_doSign env a b h1 = Some (h', ok)" for h1 h' ok using that by (rule parties_doSign)
  then show ?thesis unfolding SgDocuments by (rule signing_parties.asking_step)
next
  case (SgHelper t c k s)
  then show ?thesis using signing_parties.notify parties_success by (simp add: sg_helperComplete_def)
qed (rule signing_parties.other_step; simp)+

lemma parties_run: "same_parties h (fold (sg_step env) es h)"
  by (induction es arbitrary: h) (auto intro: parties_trans [OF parties_step])


text \<open>
  A successful response carries the client data of a challenge of the request, made for the origin of its
  sender, and it is the data whose hash the helper was given to sign for that key handle.
\<close>

theorem sign_client_data_signed:
  assumes "handleU2fSignRequest env sys m r = Inr h"
    and "SgReply resp \<in> set (sg_out (fold (sg_step env) es h))" "resp_data resp = SignData k cd sig"
  shows "\<exists>c \<in> set (sg_challenges h). \<exists>d req. key_of c = k \<and> data_of env (sg_sender h) r c = Some d
    \<and> cd = B64_encode (UTIL_StringToBytes d) None
    \<and> SgStart req \<in> set (sg_out (fold (sg_step env) es h))
    \<and> (\<exists>hc \<in> set (shr_signData req). hc_keyHandle hc = k \<and> hc_challengeHash hc = B64_encode (sha256HashOfString d) None)"
proof -
  let ?h = "fold (sg_step env) es h"
  have i: "signed_inv env ?h" by (rule signed_run [OF signed_start [OF assms(1)]])
  obtain d where d: "map_of (sg_browserData ?h) k = Some d" "cd = B64_encode (UTIL_StringToBytes d) None" and s: "sg_started ?h"
    using i assms(2,3) unfolding signed_inv_def by blast
  obtain req where req: "SgStart req \<in> set (sg_out ?h)" "signs_data ?h req"
    using i s unfolding signed_inv_def by blast
  have m: "matching env (sg_sender ?h) (sg_request ?h) (sg_challenges ?h) (sg_browserData ?h) (sg_serverChallenges ?h)"
    using i unfolding signed_inv_def by blast
  then have "case (map_of (sg_browserData ?h) k, map_of (sg_serverChallenges ?h) k) of (None, None) \<Rightarrow> True
     | (Some d, Some c) \<Rightarrow> c \<in> set (sg_challenges ?h) \<and> key_of c = k \<and> data_of env (sg_sender ?h) (sg_request ?h) c = Some d | _ \<Rightarrow> False"
    unfolding matching_def by blast
  with d obtain c where c: "c \<in> set (sg_challenges ?h)" "key_of c = k" "data_of env (sg_sender ?h) (sg_request ?h) c = Some d"
    by (auto split: option.splits)
  moreover have "same_parties h ?h" by (rule parties_run)
  moreover have "sg_request h = r" using sign_starts [OF assms(1)] by blast
  moreover have "\<exists>hc \<in> set (shr_signData req). hc_keyHandle hc = k \<and> hc_challengeHash hc = B64_encode (sha256HashOfString d) None"
    using req(2) d(1) unfolding signs_data_def by blast
  ultimately show ?thesis using d(2) req(1) by (auto simp: same_parties_def)
qed

subsection \<open>A sign request\<close>

definition key_challenge :: web_challenge where
  "key_challenge = \<lparr>wc_challenge = Some ''c'', wc_appId = None, wc_keyHandle = Some ''a2g'', wc_version = Some U2F_V2\<rparr>"

definition sign_req :: web_request where
  "sign_req = \<lparr>wr_type = Some U2F_SIGN_REQUEST, wr_requestId = Some 1, wr_appId = Some ''https://a.com'', wr_challenge = None,
     wr_registerRequests = None, wr_signRequests = Some [key_challenge], wr_registeredKeys = None,
     wr_timeout = \<lparr>req_timeoutSeconds = Some 10, req_timeout = None\<rparr>\<rparr>"

definition sign_start :: sign_session where
  "sign_start = projr (handleU2fSignRequest reg_env \<lparr>sys_last = 0, sys_armed = []\<rparr> reg_message sign_req)"

lemma sign_started: "handleU2fSignRequest reg_env \<lparr>sys_last = 0, sys_armed = []\<rparr> reg_message sign_req = Inr sign_start"
proof -
  have "\<not> isl (handleU2fSignRequest reg_env \<lparr>sys_last = 0, sys_armed = []\<rparr> reg_message sign_req)" by code_simp
  then show ?thesis by (simp add: sign_start_def)
qed

theorem sign_responds_once_witness:
  "sg_replies (fold (sg_step reg_env) [SgBegin, SgWatchdog, SgClose, SgQueueTimer] sign_start) \<le> 1"
  by (rule sign_responds_once [OF sign_started])

text \<open>After the request was begun its app ids are checked and the helper is asked.\<close>

definition before_documents :: sign_session where
  "before_documents = fold (sg_step reg_env) [SgBegin, SgClaimed] sign_start"

lemma reg_claim: "canClaimAppIds (env_tld reg_env) ''https://a.com'' [''https://a.com'']"
proof -
  have "getEffectiveTldPlusOne [] [''com''] ''https://a.com'' = Some ''a.com''"
    by (simp add: getEffectiveTldPlusOne_def getEffectiveTldPlusOneIn_def etld_host_def etld_loop.simps after_dot_def)
  then show ?thesis by (simp add: canClaimAppIds_def reg_env_def etld_check_iff)
qed

lemma at_claim:
  "(let h = sg_step reg_env SgBegin sign_start in sg_wait h = SgClaim [''https://a.com''] \<and> ws_origin (sg_sender h) = ''https://a.com''
     \<and> sg_challenges h = [key_challenge] \<and> sg_request h = sign_req \<and> sg_appId h = ''https://a.com'' \<and> \<not> sg_done h)"
  by code_simp

lemma claimed:
  assumes "sg_wait h = SgClaim [''https://a.com'']" "ws_origin (sg_sender h) = ''https://a.com''"
    "sg_challenges h = [key_challenge]" "sg_request h = sign_req" "sg_appId h = ''https://a.com''" "\<not> sg_done h"
  shows "sg_wait (sg_step reg_env SgClaimed h) = SgCheck [''https://a.com'']
    \<and> ws_origin (sg_sender (sg_step reg_env SgClaimed h)) = ''https://a.com''
    \<and> sg_challenges (sg_step reg_env SgClaimed h) = [key_challenge] \<and> sg_request (sg_step reg_env SgClaimed h) = sign_req
    \<and> sg_appId (sg_step reg_env SgClaimed h) = ''https://a.com''"
  using assms reg_claim by (simp add: sg_originChecked_def case_prod_beta)

lemma at_documents:
  "sg_wait before_documents = SgCheck [''https://a.com'']" "ws_origin (sg_sender before_documents) = ''https://a.com''"
  "sg_challenges before_documents = [key_challenge]" "sg_request before_documents = sign_req"
  "sg_appId before_documents = ''https://a.com''"
proof -
  define h where "h = sg_step reg_env SgBegin sign_start"
  have b: "before_documents = sg_step reg_env SgClaimed h"
    by (simp only: before_documents_def h_def fold.simps comp_apply id_apply)
  have "sg_wait h = SgClaim [''https://a.com''] \<and> ws_origin (sg_sender h) = ''https://a.com''
     \<and> sg_challenges h = [key_challenge] \<and> sg_request h = sign_req \<and> sg_appId h = ''https://a.com'' \<and> \<not> sg_done h"
    using at_claim unfolding Let_def h_def .
  then have "sg_wait (sg_step reg_env SgClaimed h) = SgCheck [''https://a.com'']
    \<and> ws_origin (sg_sender (sg_step reg_env SgClaimed h)) = ''https://a.com''
    \<and> sg_challenges (sg_step reg_env SgClaimed h) = [key_challenge] \<and> sg_request (sg_step reg_env SgClaimed h) = sign_req
    \<and> sg_appId (sg_step reg_env SgClaimed h) = ''https://a.com''"
    using claimed by blast
  then show "sg_wait before_documents = SgCheck [''https://a.com'']" "ws_origin (sg_sender before_documents) = ''https://a.com''"
    "sg_challenges before_documents = [key_challenge]" "sg_request before_documents = sign_req"
    "sg_appId before_documents = ''https://a.com''"
    unfolding b by blast+
qed

lemma asks_helper:
  assumes "sg_wait h = SgCheck [''https://a.com'']" "ws_origin (sg_sender h) = ''https://a.com''" "sg_challenges h = [key_challenge]"
    "sg_request h = sign_req" "sg_appId h = ''https://a.com''"
  shows "\<exists>req. SgStart req \<in> set (sg_out (sg_step env (SgDocuments docs True True) h))"
proof -
  have "checkAppIds J False b o' d [o'] = Some True" for J b o' d by (subst check_iff) simp
  moreover have "server_challenge sign_req key_challenge = Some ''c''" by code_simp
  ultimately show ?thesis
    using assms
    by (simp add: appIdChecked_def sg_doSign_def encodeSignChallenges_def encodeSignChallenge_def getChallengeHash_def
        update_conv' key_challenge_def Let_def sg_emit_def U2F_V2_def ex_disj_distrib)
qed

text \<open>The documents of a page that is its own application: the helper's reply is answered with the signature.\<close>

lemma success_replies:
  assumes "map_of (sg_browserData h) k = Some d" "map_of (sg_serverChallenges h) k = Some c" "key_of c = k"
    and "\<not> sg_done h" "\<not> wd_closed (sg_wd h)" "sg_started h"
  shows "\<exists>resp. SgReply resp \<in> set (sg_out (sg_step env (SgHelper ''sign_helper_reply'' 0 k sig) h))
    \<and> resp_data resp = SignData k (B64_encode (UTIL_StringToBytes d) None) sig"
proof -
  have "\<not> wd_closed (sg_wd (complete_token (sg_close_quiet (h\<lparr>sg_done := True\<rparr>))))"
    using assms(5) silent_fail [of h] unfolding silent_def by simp
  then show ?thesis
    using assms by (simp add: sg_helperComplete_def sg_notifySuccess_def sg_wrapped_def sg_sendSuccess_def respond_eq sg_emit_def
        addSignatureAndBrowserDataToResponseData_def makeU2fSignResponseDataFromChallenge_def key_of_def
        makeU2fSuccessResponse_def makeResponseForRequest_def conj_disj_distribR ex_disj_distrib)
qed

lemma documents_state:
  assumes "sg_wait h = SgCheck [''https://a.com'']" "ws_origin (sg_sender h) = ''https://a.com''" "sg_challenges h = [key_challenge]"
    "sg_request h = sign_req" "sg_appId h = ''https://a.com''" "sg_browserData h = []" "sg_serverChallenges h = []"
    and "\<not> sg_done h" "\<not> wd_closed (sg_wd h)"
  shows "let h' = sg_step env (SgDocuments docs True True) h in
    map_of (sg_browserData h') ''a2g'' = Some (sign_client_data env (sg_sender h) ''c'')
    \<and> map_of (sg_serverChallenges h') ''a2g'' = Some key_challenge \<and> \<not> sg_done h' \<and> \<not> wd_closed (sg_wd h') \<and> sg_started h'"
proof -
  have "checkAppIds J False b o' d [o'] = Some True" for J b o' d by (subst check_iff) simp
  moreover have "server_challenge sign_req key_challenge = Some ''c''" by code_simp
  ultimately show ?thesis
    using assms
    by (simp add: appIdChecked_def sg_doSign_def encodeSignChallenges_def encodeSignChallenge_def getChallengeHash_def
        update_conv' key_challenge_def Let_def sg_emit_def)
qed

lemma fresh_documents:
  "sg_browserData before_documents = [] \<and> sg_serverChallenges before_documents = [] \<and> \<not> sg_done before_documents
   \<and> \<not> wd_closed (sg_wd before_documents)"
proof -
  define h where "h = sg_step reg_env SgBegin sign_start"
  have b: "before_documents = sg_step reg_env SgClaimed h"
    by (simp only: before_documents_def h_def fold.simps comp_apply id_apply)
  have "let h = sg_step reg_env SgBegin sign_start in sg_browserData h = [] \<and> sg_serverChallenges h = [] \<and> \<not> sg_done h \<and> \<not> wd_closed (sg_wd h)"
    by code_simp
  then have "sg_browserData h = [] \<and> sg_serverChallenges h = [] \<and> \<not> sg_done h \<and> \<not> wd_closed (sg_wd h)"
    unfolding Let_def h_def .
  moreover have "sg_wait h = SgClaim [''https://a.com''] \<and> ws_origin (sg_sender h) = ''https://a.com''"
    using at_claim unfolding Let_def h_def by blast
  ultimately show ?thesis
    using reg_claim by (simp add: b sg_originChecked_def case_prod_beta)
qed

theorem sign_client_data_signed_witness:
  "\<exists>d. data_of reg_env (sg_sender sign_start) sign_req key_challenge = Some d
     \<and> (\<exists>req hc. SgStart req \<in> set (sg_out (fold (sg_step reg_env)
            [SgBegin, SgClaimed, SgDocuments (\<lambda>_. []) True True, SgHelper ''sign_helper_reply'' 0 ''a2g'' ''sig''] sign_start))
         \<and> hc \<in> set (shr_signData req) \<and> hc_keyHandle hc = ''a2g'' \<and> hc_challengeHash hc = B64_encode (sha256HashOfString d) None)"
proof -
  define h where "h = sg_step reg_env (SgDocuments (\<lambda>_. []) True True) before_documents"
  have run: "fold (sg_step reg_env) [SgBegin, SgClaimed, SgDocuments (\<lambda>_. []) True True, SgHelper ''sign_helper_reply'' 0 ''a2g'' ''sig''] sign_start
    = sg_step reg_env (SgHelper ''sign_helper_reply'' 0 ''a2g'' ''sig'') h"
    by (simp only: h_def before_documents_def fold.simps comp_apply id_apply)
  have h: "map_of (sg_browserData h) ''a2g'' = Some (sign_client_data reg_env (sg_sender before_documents) ''c'')"
    "map_of (sg_serverChallenges h) ''a2g'' = Some key_challenge" "\<not> sg_done h" "\<not> wd_closed (sg_wd h)" "sg_started h"
    using documents_state [OF at_documents] fresh_documents unfolding h_def Let_def by blast+
  have k: "key_of key_challenge = ''a2g''" by code_simp
  obtain resp where resp: "SgReply resp \<in> set (sg_out (sg_step reg_env (SgHelper ''sign_helper_reply'' 0 ''a2g'' ''sig'') h))"
      "resp_data resp = SignData ''a2g'' (B64_encode (UTIL_StringToBytes (sign_client_data reg_env (sg_sender before_documents) ''c'')) None) ''sig''"
    using success_replies [OF h(1,2) k h(3,4,5)] by blast
  have "sg_challenges sign_start = [key_challenge]" by code_simp
  then have "set (sg_challenges sign_start) = {key_challenge}" by (simp only: list.set)
  moreover obtain c d req hc where "c \<in> set (sg_challenges sign_start)"
    and c: "data_of reg_env (sg_sender sign_start) sign_req c = Some d"
      "SgStart req \<in> set (sg_out (sg_step reg_env (SgHelper ''sign_helper_reply'' 0 ''a2g'' ''sig'') h))"
      "hc \<in> set (shr_signData req)" "hc_keyHandle hc = ''a2g''" "hc_challengeHash hc = B64_encode (sha256HashOfString d) None"
    using sign_client_data_signed [OF sign_started resp(1) [folded run] resp(2)] unfolding run by metis
  ultimately have "c = key_challenge" by (simp only: singleton_iff)
  with c show ?thesis unfolding run by blast
qed


text \<open>
  The page closes its channel while the documents are fetched; the watchdog and the request are closed. When
  the documents arrive the helper is asked to sign all the same, and nothing will ever close it.
\<close>

theorem signs_after_close:
  "\<exists>req. SgStart req \<in> set (sg_out (fold (sg_step reg_env) [SgBegin, SgClaimed, SgClose, SgDocuments (\<lambda>_. []) True True] sign_start))"
proof -
  let ?h = "sg_step reg_env SgClose before_documents"
  have "uneventful before_documents ?h" by (simp add: uneventful_watchdog)
  then have "sg_wait ?h = SgCheck [''https://a.com'']" "ws_origin (sg_sender ?h) = ''https://a.com''" "sg_challenges ?h = [key_challenge]"
    "sg_request ?h = sign_req" "sg_appId ?h = ''https://a.com''"
    using at_documents unfolding uneventful_def by metis+
  from asks_helper [OF this] show ?thesis
    by (simp only: before_documents_def fold.simps comp_apply id_apply)
qed

end
