(* ===== verification/EndToEnd.thy ===== *)
theory EndToEnd
  imports SoftToken WebSigner
begin

text \<open>
  The parts together: a sign request of a page and a registration, carried out by the soft token as helper,
  from the request that the extension makes for the helper to the response for the page.
\<close>

subsection \<open>What the soft token finds\<close>

lemma find_registration_Some:
  "find_registration a k rs = Some i \<Longrightarrow> i < length rs \<and> rg_appIdHash (rs ! i) = a \<and> rg_keyHandle (rs ! i) = k"
proof (induction rs arbitrary: i)
  case (Cons r rs)
  then show ?case by (auto split: if_splits)
qed simp

lemma known_key_Some:
  "known_key p sds = Some (i, sd) \<Longrightarrow> sd \<in> set sds \<and> i < length (registrations p) \<and> hc_version sd = Some U2F_V2
     \<and> rg_appIdHash (registrations p ! i) = hc_appIdHash sd \<and> rg_keyHandle (registrations p ! i) = hc_keyHandle sd"
  by (induction sds) (auto simp: getRegistration_def dest: find_registration_Some split: if_splits option.splits)

lemma length_hash: "length (sha256HashOfString s) = 32"
proof -
  have o: "length c = 8 \<Longrightarrow> length (sha_output c) = 32" for c by (simp add: sha_output_def length_concat comp_def sum_list_triv)
  have "length (sha_chain SHA256) = 8" by (simp add: SHA256_def sha_reset_def sha_iv_def)
  then show ?thesis by (simp add: sha256HashOfString_def sha_digest_def Let_def o chain_update)
qed

subsection \<open>Signing\<close>

text \<open>The reply of the helper, as the signer looks at it.\<close>

definition signer_event :: "soft_data helper_reply \<Rightarrow> sg_event" where
  "signer_event r =
     (case hr_data r of
        Some (SoftSign v x) \<Rightarrow> SgHelper (the (hr_type r)) (the (hr_code r)) (re_keyHandle x) (re_signatureData x)
      | _ \<Rightarrow> SgHelper (the (hr_type r)) (the (hr_code r)) [] [])"

lemma soft_sign_known:
  assumes "known_key p sds = Some (i, sd)" "hc_appIdHash sd = B64_encode (sha256HashOfString a) None"
    "hc_challengeHash sd = B64_encode (sha256HashOfString d) None" "UTIL_HexToArray (rg_sec (registrations p ! i)) = Inr ks"
  shows "\<exists>reply. snd (soft_sign ecdsa sds p) = Some reply \<and> signer_event reply = SgHelper ''sign_helper_reply'' 0 (hc_keyHandle sd)
    (let ctr = counter_bytes (rg_counter (registrations p ! i) + 1);
         asn1 = snd (UTIL_JsonSignatureToAsn1 (ecdsa ks (sha256HashOfString a @ [0x01] @ ctr @ sha256HashOfString d)))
     in B64_encode ([0x01] @ ctr @ asn1) None)"
proof -
  let ?r = "(registrations p ! i)\<lparr>rg_counter := rg_counter (registrations p ! i) + 1\<rparr>"
  note k = known_key_Some [OF assms(1)]
  have "sign_message ecdsa ?r sd = Some (let ctr = counter_bytes (rg_counter ?r);
         sig = snd (UTIL_JsonSignatureToAsn1 (ecdsa ks (sha256HashOfString a @ [0x01] @ ctr @ sha256HashOfString d)))
     in [0x01] @ ctr @ sig)"
    using signature_layout [of ?r sd ks ecdsa] k assms(2-4) by (simp add: b64.dec_enc length_hash Let_def)
  then show ?thesis
    using assms(1) k by (simp add: soft_sign_def Let_def signer_event_def OK_STATUS_def)
qed

text \<open>
  C5. A page's sign request, carried out by the soft token: when the token knows one of the key handles it is asked
  about, the page gets a response for that key handle, with the client data of a challenge of its request and origin,
  and the signature of the token's private key over the hash of an app id of the request, the presence byte, the
  counter and the hash of exactly these client data.
\<close>

theorem soft_token_signs:
  assumes "handleU2fSignRequest env sys m r = Inr h" "g = fold (sg_step env) es h" "\<not> sg_done g" "\<not> wd_closed (sg_wd g)"
    and "SgStart req \<in> set (sg_out g)" "known_key p (shr_signData req) = Some (i, sd)"
    and "UTIL_HexToArray (rg_sec (registrations p ! i)) = Inr ks"
  shows "\<exists>c \<in> set (sg_challenges h). \<exists>d a reply resp. data_of env (sg_sender h) r c = Some d
    \<and> key_of c = rg_keyHandle (registrations p ! i) \<and> a \<in> insert [] (set (session_ids h))
    \<and> snd (soft_sign ecdsa (shr_signData req) p) = Some reply
    \<and> SgReply resp \<in> set (sg_out (sg_step env (signer_event reply) g))
    \<and> resp_data resp = SignData (rg_keyHandle (registrations p ! i)) (B64_encode (UTIL_StringToBytes d) None)
        (let ctr = counter_bytes (rg_counter (registrations p ! i) + 1);
             asn1 = snd (UTIL_JsonSignatureToAsn1 (ecdsa ks (sha256HashOfString a @ [0x01] @ ctr @ sha256HashOfString d)))
         in B64_encode ([0x01] @ ctr @ asn1) None)"
proof -
  have i: "signed_inv env g" unfolding assms(2) by (rule signed_run [OF signed_start [OF assms(1)]])
  note k = known_key_Some [OF assms(6)]
  have st: "sg_started g" and sd: "signs_data g req" and sh: "signed_hashes (session_ids g) req"
    using i assms(5) unfolding signed_inv_def by blast+
  obtain d where d: "map_of (sg_browserData g) (hc_keyHandle sd) = Some d" "hc_challengeHash sd = B64_encode (sha256HashOfString d) None"
    using sd k unfolding signs_data_def by blast
  obtain a where a: "a \<in> insert [] (set (session_ids g))" "hc_appIdHash sd = B64_encode (sha256HashOfString a) None"
    using sh k unfolding signed_hashes_def by blast
  have "matching env (sg_sender g) (sg_request g) (sg_challenges g) (sg_browserData g) (sg_serverChallenges g)"
    using i unfolding signed_inv_def by blast
  then have "case (map_of (sg_browserData g) (hc_keyHandle sd), map_of (sg_serverChallenges g) (hc_keyHandle sd)) of (None, None) \<Rightarrow> True
     | (Some d, Some c) \<Rightarrow> c \<in> set (sg_challenges g) \<and> key_of c = hc_keyHandle sd \<and> data_of env (sg_sender g) (sg_request g) c = Some d
     | _ \<Rightarrow> False"
    unfolding matching_def by blast
  with d(1) obtain c where c: "map_of (sg_serverChallenges g) (hc_keyHandle sd) = Some c" "c \<in> set (sg_challenges g)"
      "key_of c = hc_keyHandle sd" "data_of env (sg_sender g) (sg_request g) c = Some d"
    by (auto split: option.splits)
  have same: "same_parties h g" unfolding assms(2) by (rule parties_run)
  then have p: "sg_sender g = sg_sender h" "sg_challenges g = sg_challenges h" "sg_request g = r" "session_ids g = session_ids h"
    using sign_starts [OF assms(1)] by (simp_all add: same_parties_def session_ids_def)
  obtain reply where reply: "snd (soft_sign ecdsa (shr_signData req) p) = Some reply" "signer_event reply = SgHelper ''sign_helper_reply'' 0 (hc_keyHandle sd)
    (let ctr = counter_bytes (rg_counter (registrations p ! i) + 1);
         asn1 = snd (UTIL_JsonSignatureToAsn1 (ecdsa ks (sha256HashOfString a @ [0x01] @ ctr @ sha256HashOfString d)))
     in B64_encode ([0x01] @ ctr @ asn1) None)"
    using soft_sign_known [OF assms(6) a(2) d(2) assms(7), of ecdsa] by blast
  define sig where "sig = (let ctr = counter_bytes (rg_counter (registrations p ! i) + 1);
         asn1 = snd (UTIL_JsonSignatureToAsn1 (ecdsa ks (sha256HashOfString a @ [0x01] @ ctr @ sha256HashOfString d)))
     in B64_encode ([0x01] @ ctr @ asn1) None)"
  obtain resp where resp: "SgReply resp \<in> set (sg_out (sg_step env (signer_event reply) g))"
      "resp_data resp = SignData (hc_keyHandle sd) (B64_encode (UTIL_StringToBytes d) None) sig"
    using success_replies [OF d(1) c(1,3) assms(3,4) st, of env sig] unfolding reply(2) sig_def by blast
  have kh: "rg_keyHandle (registrations p ! i) = hc_keyHandle sd" using k by simp
  show ?thesis
    unfolding kh
    by (intro bexI [of _ c] exI [of _ d] exI [of _ a] exI [of _ reply] exI [of _ resp] conjI)
      (use resp reply(1) c p a(1) in \<open>simp_all only: sig_def\<close>)
qed

text \<open>A concrete run: the page of the example request, whose key the token has.\<close>

definition asked :: sign_session where
  "asked = sg_step reg_env (SgDocuments (\<lambda>_. []) True True) before_documents"

definition known_profile :: soft_profile where
  "known_profile = SoftTokenProfile\<lparr>registrations := [\<lparr>rg_appIdHash = B64_encode (sha256HashOfString ''https://a.com'') None,
     rg_keyHandle = ''a2g'', rg_sec = UTIL_BytesToHex (Some [3]), rg_pub = [], rg_counter = 1\<rparr>]\<rparr>"

lemma asked_request:
  assumes "sg_wait h = SgCheck [''https://a.com'']" "ws_origin (sg_sender h) = ''https://a.com''" "sg_challenges h = [key_challenge]"
    "sg_request h = sign_req" "sg_appId h = ''https://a.com''"
  shows "\<exists>req hc. SgStart req \<in> set (sg_out (sg_step env (SgDocuments docs True True) h)) \<and> shr_signData req = [hc]
    \<and> hc_keyHandle hc = ''a2g'' \<and> hc_version hc = Some U2F_V2 \<and> hc_appIdHash hc = B64_encode (sha256HashOfString ''https://a.com'') None"
proof -
  have "checkAppIds J False b o' d [o'] = Some True" for J b o' d by (subst check_iff) simp
  moreover have "server_challenge sign_req key_challenge = Some ''c''" by code_simp
  ultimately show ?thesis
    using assms
    by (simp add: appIdChecked_def sg_doSign_def encodeSignChallenges_def encodeSignChallenge_def getChallengeHash_def
        update_conv' key_challenge_def Let_def sg_emit_def U2F_V2_def makeSignHelperRequest_def)
      (intro exI conjI disjI1, rule refl, simp, simp_all)
qed

theorem soft_token_signs_witness:
  "\<exists>req reply resp. SgStart req \<in> set (sg_out asked) \<and> snd (soft_sign toy_ecdsa (shr_signData req) known_profile) = Some reply
     \<and> SgReply resp \<in> set (sg_out (sg_step reg_env (signer_event reply) asked))"
proof -
  have run: "asked = fold (sg_step reg_env) [SgBegin, SgClaimed, SgDocuments (\<lambda>_. []) True True] sign_start"
    by (simp only: asked_def before_documents_def fold.simps comp_apply id_apply)
  have g: "\<not> sg_done asked" "\<not> wd_closed (sg_wd asked)"
    using documents_state [OF at_documents] fresh_documents unfolding asked_def Let_def by blast+
  obtain req hc where req: "SgStart req \<in> set (sg_out asked)" "shr_signData req = [hc]"
      and hc: "hc_keyHandle hc = ''a2g''" "hc_version hc = Some U2F_V2" "hc_appIdHash hc = B64_encode (sha256HashOfString ''https://a.com'') None"
    using asked_request [OF at_documents(1-5)] unfolding asked_def by blast
  have k: "known_key known_profile (shr_signData req) = Some (0, hc)"
    by (simp add: req(2) hc known_profile_def getRegistration_def)
  have s: "UTIL_HexToArray (rg_sec (registrations known_profile ! 0)) = Inr (map Some [3])"
    by (simp add: known_profile_def HexToArray_BytesToHex del: UTIL_BytesToHex.simps list.map)
  from soft_token_signs [OF sign_started run g req(1) k s, of toy_ecdsa] req(1) show ?thesis by blast
qed

subsection \<open>Registering\<close>

text \<open>The version of a challenge; a valid request has each version once.\<close>

definition challenge_version :: "web_enroll \<Rightarrow> string" where
  "challenge_version c = (if truthy (we_version c) then the (we_version c) else U2F_V1)"

lemma valid_versions:
  "valid_enroll_loop seen cs b \<Longrightarrow> distinct (map challenge_version cs) \<and> set (map challenge_version cs) \<inter> set seen = {}"
  by (induction seen cs b rule: valid_enroll_loop.induct) (auto simp: challenge_version_def Let_def split: if_splits)

lemma version_two: "challenge_version c = U2F_V2 \<longleftrightarrow> we_version c = Some U2F_V2"
  by (auto simp: challenge_version_def truthy_def U2F_V1_def U2F_V2_def split: option.splits)

definition web_challenges :: "web_request \<Rightarrow> web_enroll list" where
  "web_challenges r = (case wr_registerRequests r of Some cs \<Rightarrow> cs | None \<Rightarrow> [])"

lemma encode_one_version:
  "fst (encode_one env s ap w) = Some c \<Longrightarrow> ec_version c = challenge_version w
     \<and> (challenge_version w = U2F_V2 \<longrightarrow> ec_challengeHash c = B64_encode (sha256HashOfString (enroll_client_data env s w)) None)"
  "challenge_version w = U2F_V2 \<Longrightarrow> snd (encode_one env s ap w) = [(U2F_V2, B64_encode (UTIL_StringToBytes (enroll_client_data env s w)) None)]"
  "challenge_version w \<noteq> U2F_V2 \<Longrightarrow> snd (encode_one env s ap w) = []"
  by (auto simp: encode_one_def challenge_version_def encodeEnrollChallenge_def Let_def split: if_splits option.splits)

text \<open>The challenge of version 2 that the helper gets is the hash of the client data that are kept for the response.\<close>

lemma encoded_document:
  assumes "distinct (map challenge_version cs)" "encodeEnrollChallenges env s ap cs = (Some es, bd)" "c \<in> set es" "ec_version c = U2F_V2"
  shows "\<exists>w \<in> set cs. findEnrollChallengeOfVersion cs U2F_V2 = Some w
    \<and> ec_challengeHash c = B64_encode (sha256HashOfString (enroll_client_data env s w)) None
    \<and> map_of bd U2F_V2 = Some (B64_encode (UTIL_StringToBytes (enroll_client_data env s w)) None)"
proof -
  have "those (map (fst \<circ> encode_one env s ap) cs) = Some es" using assms(2) by (simp add: encodeEnrollChallenges_def)
  from set_those [OF this, of c] assms(3) obtain w where w: "w \<in> set cs" "fst (encode_one env s ap w) = Some c"
    by (auto simp: image_iff)
  then have v: "challenge_version w = U2F_V2" and hash: "ec_challengeHash c = B64_encode (sha256HashOfString (enroll_client_data env s w)) None"
    using encode_one_version(1) [OF w(2)] assms(4) by simp_all
  obtain xs ys where cs: "cs = xs @ w # ys" using w(1) by (meson split_list)
  have other: "challenge_version x \<noteq> U2F_V2" if "x \<in> set xs \<union> set ys" for x
    using assms(1) that v unfolding cs by (auto simp: image_iff)
  then have nil: "concat (map (snd \<circ> encode_one env s ap) zs) = []" if "set zs \<subseteq> set xs \<union> set ys" for zs
    using that encode_one_version(3) by auto
  have doc: "concat (map (snd \<circ> encode_one env s ap) cs) = [(U2F_V2, B64_encode (UTIL_StringToBytes (enroll_client_data env s w)) None)]"
    unfolding cs map_append concat_append list.map concat.simps nil [OF Un_upper1] nil [OF Un_upper2] comp_apply encode_one_version(2) [OF v] by simp
  have "bd = fold (\<lambda>(k, v) ob. AList.update k v ob) (concat (map (snd \<circ> encode_one env s ap) cs)) []"
    using assms(2) by (simp add: encodeEnrollChallenges_def)
  then have "map_of bd U2F_V2 = Some (B64_encode (UTIL_StringToBytes (enroll_client_data env s w)) None)"
    unfolding doc by simp
  moreover have "findEnrollChallengeOfVersion cs U2F_V2 = Some w"
    using other v by (auto simp: findEnrollChallengeOfVersion_def cs version_two find_Some_iff nth_append nth_Cons' intro!: exI [of _ "length xs"])
  ultimately show ?thesis using w(1) hash by blast
qed

text \<open>What a session has asked, or is about to ask, comes from its request, its sender and the client data it keeps.\<close>

definition asks_for :: "enroller \<Rightarrow> enroll_helper_request \<Rightarrow> bool" where
  "asks_for h req \<longleftrightarrow> (\<exists>ids. en_wait h = WaitClaim ids req \<or> en_wait h = WaitCheck ids req) \<or> StartHandler req \<in> set (en_out h)"

definition documents_inv :: "web_env \<Rightarrow> enroller \<Rightarrow> bool" where
  "documents_inv env h \<longleftrightarrow>
     (en_wait h = WaitTab \<or> en_wait h = WaitApproval \<longrightarrow> (\<forall>req. StartHandler req \<notin> set (en_out h)))
     \<and> (\<forall>req. StartHandler req \<in> set (en_out h) \<longrightarrow> en_started h)
     \<and> (\<forall>req. asks_for h req \<longrightarrow> encodeEnrollChallenges env (en_sender h) (wr_appId (en_request h)) (web_challenges (en_request h))
          = (Some (ehr_enrollChallenges req), en_browserData h))"

definition same_documents :: "enroller \<Rightarrow> enroller \<Rightarrow> bool" where
  "same_documents h h' \<longleftrightarrow> same_course h h' \<and> en_browserData h' = en_browserData h \<and> en_started h' = en_started h"

lemma documents_trans: "same_documents h h1 \<Longrightarrow> same_documents h1 h2 \<Longrightarrow> same_documents h h2"
  unfolding same_documents_def using course_trans by metis

lemma documents_ops:
  "same_documents h ((en_close h)\<lparr>en_done := True\<rparr>)" "same_documents h (en_close h)" "same_documents h (close_watchdog h)"
  "same_documents h (en_emit (Reply r) h)" "same_documents h h" "same_documents h (h\<lparr>en_sys := y, en_timer := t\<rparr>)" "same_documents h (h\<lparr>en_wd := w\<rparr>)"
  using course_close [of h] by (auto simp: same_documents_def close_watchdog_def en_close_def en_emit_def same_course_def Let_def)

lemma documents_send: "same_documents h (send_once r h)"
  using course_send [of h r] documents_ops(3) [of h]
  by (auto simp: same_documents_def send_once_def sendResponseOnce_def en_emit_def)

lemma documents_notify: "same_documents h (en_notifyError e h)" "same_documents h (en_notifySuccess v i d h)"
proof -
  have s: "same_documents h (send_once r ((en_close h)\<lparr>en_done := True\<rparr>))" for r
    by (rule documents_trans [OF documents_ops(1) documents_send])
  then show "same_documents h (en_notifyError e h)" by (simp add: en_notifyError_def sendErrorResponse_def documents_ops)
  from s show "same_documents h (en_notifySuccess v i d h)"
    by (auto simp: en_notifySuccess_def sendSuccessResponse_def sendErrorResponse_def documents_ops split: option.split)
qed

lemma documents_same: "same_documents h h' \<Longrightarrow> documents_inv env h \<Longrightarrow> documents_inv env h'"
  by (simp add: same_documents_def same_course_def documents_inv_def asks_for_def)

lemma documents_rest: "documents_inv env h \<Longrightarrow> documents_inv env (h\<lparr>en_wait := AtRest\<rparr>)"
  by (auto simp: documents_inv_def asks_for_def)

lemma documents_request:
  assumes "documents_inv env h" "en_wait h = WaitApproval"
  shows "documents_inv env (sendEnrollRequestToHelper env (h\<lparr>en_wait := AtRest\<rparr>))"
proof -
  let ?r = "en_request h"
  have none: "StartHandler req \<notin> set (en_out h)" for req using assms by (simp add: documents_inv_def)
  obtain x bd where x: "encodeEnrollChallenges env (en_sender h) (wr_appId ?r) (web_challenges ?r) = (x, bd)" by fastforce
  have "documents_inv env (h\<lparr>en_wait := AtRest, en_browserData := bd\<rparr>)" using none by (simp add: documents_inv_def asks_for_def)
  from documents_same [OF documents_notify(1) this]
  have n: "documents_inv env (en_notifyError y (h\<lparr>en_wait := AtRest, en_browserData := bd\<rparr>))" for y .
  have "documents_inv env (h\<lparr>en_browserData := bd, en_wait := WaitClaim ids \<lparr>ehr_enrollChallenges = es, ehr_signData = ss, ehr_timeoutSeconds = t\<rparr>\<rparr>)"
    if "x = Some es" for ids es ss t
    using none x that by (auto simp: documents_inv_def asks_for_def)
  with n documents_rest [OF assms(1)] show ?thesis
    using x by (auto simp: sendEnrollRequestToHelper_def web_challenges_def Let_def split: option.split)
qed

lemma documents_approved:
  assumes "documents_inv env h" "en_wait h = WaitApproval"
  shows "documents_inv env (en_approved env result (h\<lparr>en_wait := AtRest\<rparr>))"
proof -
  let ?h = "h\<lparr>en_wait := AtRest\<rparr>"
  have "documents_inv env ?h" by (rule documents_rest [OF assms(1)])
  note same = documents_same [OF documents_notify(1) this] documents_same [OF documents_ops(6) this] this
  show ?thesis
    using same documents_request [OF assms] by (auto simp: en_approved_def notifyTimeout_def split: prod.split)
qed

lemma documents_step:
  assumes i: "documents_inv env h"
  shows "documents_inv env (en_step env e h)"
proof (cases e)
  case (EnTab ch cur act)
  obtain s' ok where g: "getTabIdWhenPossible ch cur act (en_sender h) = (s', ok)" by fastforce
  show ?thesis
  proof (cases "en_wait h = WaitTab")
    case True
    let ?h = "h\<lparr>en_sender := s', en_wait := AtRest\<rparr>"
    have d: "documents_inv env ?h" "documents_inv env (?h\<lparr>en_wait := WaitApproval\<rparr>)"
      using i True by (auto simp: documents_inv_def asks_for_def)
    have "documents_inv env (en_notifyError x (en_close ?h))" for x
      by (rule documents_same [OF documents_trans [OF documents_ops(2) documents_notify(1)] d(1)])
    with d True EnTab g show ?thesis by (simp add: Let_def)
  qed (use EnTab i in simp)
next
  case (EnApproval ch wi t w t2)
  then show ?thesis
    using i documents_rest [OF i] documents_approved [OF i] by (auto split: option.split promised.split)
next
  case EnClaim
  note n = documents_same [OF documents_notify(1) documents_rest [OF i]]
  have "documents_inv env (h\<lparr>en_sys := y, en_wait := WaitCheck ids req\<rparr>)" if "en_wait h = WaitClaim ids req" for y ids req
  proof -
    have "asks_for (h\<lparr>en_sys := y, en_wait := WaitCheck ids req\<rparr>) q \<Longrightarrow> asks_for h q" for q using that by (auto simp: asks_for_def)
    then show ?thesis using i that by (simp add: documents_inv_def)
  qed
  with n i EnClaim show ?thesis by (auto simp: en_originChecked_def split: en_stage.split prod.split)
next
  case (EnDocuments docs has)
  note n = documents_same [OF documents_notify(1) documents_rest [OF i]] documents_rest [OF i] i
  have "documents_inv env (en_emit (StartHandler req) (h\<lparr>en_wait := AtRest, en_handler := True, en_started := True\<rparr>))"
    if "en_wait h = WaitCheck ids req" for ids req
  proof -
    have "asks_for (en_emit (StartHandler req) (h\<lparr>en_wait := AtRest, en_handler := True, en_started := True\<rparr>)) q \<Longrightarrow> asks_for h q" for q
      using that by (auto simp: asks_for_def)
    then show ?thesis using i that by (simp add: documents_inv_def en_emit_def)
  qed
  with n EnDocuments show ?thesis by (auto simp: en_appIdsChecked_def split: en_stage.split option.split)
next
  case (EnHelper code v d)
  with documents_same [OF documents_notify(1) i] documents_same [OF documents_notify(2) i] i show ?thesis
    by (simp add: en_helperComplete_def)
next
  case EnTimer
  with documents_same [OF documents_trans [OF documents_ops(6) documents_notify(1)] i] documents_same [OF documents_ops(6) i]
  show ?thesis by (auto simp: notifyTimeout_def Let_def split: prod.split)
next
  case EnWatchdog
  with documents_same [OF documents_trans [OF documents_ops(7) documents_send] i] documents_same [OF documents_ops(7) i]
  show ?thesis by (simp add: sendErrorResponse_def Let_def)
next
  case EnClose
  with documents_same [OF documents_ops(3) i] show ?thesis by simp
qed

lemma documents_run: "documents_inv env h \<Longrightarrow> documents_inv env (fold (en_step env) es h)"
  by (rule fold_invariant [where Q = "\<lambda>_. True", rotated]) (auto simp: documents_step)

text \<open>The origin and the channel of the sender are those of the message.\<close>

definition same_page :: "web_sender \<Rightarrow> web_sender \<Rightarrow> bool" where
  "same_page s s' \<longleftrightarrow> ws_origin s' = ws_origin s \<and> ws_tlsChannelId s' = ws_tlsChannelId s"

lemma page_course: "same_course h h' \<Longrightarrow> same_page (en_sender h) (en_sender h')"
  by (simp add: same_course_def same_page_def)

lemma page_tab: "getTabIdWhenPossible ch cur act s = (s', ok) \<Longrightarrow> same_page s s'"
  using match_tabs [of act s False s' ok]
  by (auto simp: getTabIdWhenPossible_def same_page_def tabMatchesOrigin_def split: if_splits list.splits option.splits)

lemma page_step: "same_page (en_sender h) (en_sender (en_step env e h))"
proof (cases e)
  case (EnTab ch cur act)
  obtain s' ok where g: "getTabIdWhenPossible ch cur act (en_sender h) = (s', ok)" by fastforce
  have "same_page s' (en_sender (en_notifyError x (en_close (h\<lparr>en_sender := s', en_wait := AtRest\<rparr>))))" for x
    using page_course [OF course_trans [OF course_close(2) course_notify(1)], of "h\<lparr>en_sender := s', en_wait := AtRest\<rparr>"] by simp
  with page_tab [OF g] EnTab g show ?thesis by (auto simp: same_page_def Let_def)
next
  case (EnApproval ch wi t w t2)
  have n: "en_sender (en_notifyError x h') = en_sender h'" for x h' using course_notify(1) [of h' x] by (simp add: same_course_def)
  show ?thesis
    using EnApproval by (auto simp: same_page_def en_approved_def notifyTimeout_def n sendEnrollRequestToHelper_def Let_def
        split: option.split promised.split prod.split)
next
  case EnClaim
  have n: "en_sender (en_notifyError x h') = en_sender h'" for x h' using course_notify(1) [of h' x] by (simp add: same_course_def)
  show ?thesis using EnClaim by (auto simp: same_page_def en_originChecked_def n split: en_stage.split prod.split)
next
  case (EnDocuments docs has)
  have n: "en_sender (en_notifyError x h') = en_sender h'" for x h' using course_notify(1) [of h' x] by (simp add: same_course_def)
  show ?thesis using EnDocuments by (auto simp: same_page_def en_appIdsChecked_def n split: en_stage.split option.split)
qed (auto simp: en_helperComplete_def notifyTimeout_def sendErrorResponse_def Let_def intro!: page_course course_notify
  course_trans [OF course_timer(1) course_notify(1)] course_timer course_trans [OF course_timer(2) course_send] course_close split: prod.split)

lemma page_run: "same_page (en_sender h) (en_sender (fold (en_step env) es h))"
proof (induction es arbitrary: h)
  case (Cons e es)
  from Cons.IH [of "en_step env e h"] page_step [of h env e] show ?case by (simp add: same_page_def)
qed (simp add: same_page_def)

text \<open>The reply of the helper, as the enroller looks at it.\<close>

definition enroller_event :: "soft_data helper_reply \<Rightarrow> en_event" where
  "enroller_event r =
     (case hr_data r of Some (SoftEnroll v x) \<Rightarrow> EnHelper (the (hr_code r)) v x | _ \<Rightarrow> EnHelper (the (hr_code r)) [] [])"

lemma enrolled_reply:
  assumes "en_started g" "\<not> en_done g" "en_closeable g" "map_of (en_browserData g) U2F_V2 = Some cd"
    and "findEnrollChallengeOfVersion (web_challenges (en_request g)) U2F_V2 = Some w"
  shows "\<exists>resp. Reply resp \<in> set (en_out (en_step env (EnHelper 0 U2F_V2 x) g)) \<and> resp_data resp = EnrollData w x (Some (Some cd))"
  using assms
  by (simp add: en_helperComplete_def en_notifySuccess_def sendSuccessResponse_def web_challenges_def send_once_eq makeEnrollResponseData_def
      makeU2fSuccessResponse_def makeResponseForRequest_def ex_disj_distrib conj_disj_distribR)

text \<open>What a running registration has asked the helper, in terms of the request and the page.\<close>

lemma session_document:
  assumes "handleU2fEnrollRequest env sys m r = Inr h" "g = fold (en_step env) es h" "StartHandler req \<in> set (en_out g)"
    and "c \<in> set (ehr_enrollChallenges req)" "ec_version c = U2F_V2"
  shows "\<exists>w \<in> set (web_challenges r). \<exists>a \<in> insert [] (set (en_app_ids r)). en_request g = r \<and> en_started g \<and> en_closeable g
    \<and> findEnrollChallengeOfVersion (web_challenges r) U2F_V2 = Some w \<and> ec_appIdHash c = B64_encode (sha256HashOfString a) None
    \<and> ec_challengeHash c = B64_encode (sha256HashOfString (enroll_client_data env (en_sender h) w)) None
    \<and> map_of (en_browserData g) U2F_V2 = Some (B64_encode (UTIL_StringToBytes (enroll_client_data env (en_sender h) w)) None)"
proof -
  have rq: "en_request g = r" unfolding assms(2) using request_run checked_start [OF assms(1)] by metis
  have "documents_inv env h"
    using checked_start [OF assms(1)] assms(1) by (auto simp: documents_inv_def asks_for_def under_way_def)
  from documents_run [OF this, of es] have i: "documents_inv env g" unfolding assms(2) .
  have started: "en_started g" and enc: "encodeEnrollChallenges env (en_sender g) (wr_appId r) (web_challenges r)
      = (Some (ehr_enrollChallenges req), en_browserData g)"
    using i assms(3) rq unfolding documents_inv_def asks_for_def by blast+
  have "isValidEnrollRequest r" using assms(1) by (auto simp: handleU2fEnrollRequest_def Let_def split: option.splits if_splits)
  then have dis: "distinct (map challenge_version (web_challenges r))"
    using valid_versions by (fastforce simp: isValidEnrollRequest_def isValidEnrollChallengeArray_def web_challenges_def Let_def split: option.splits if_splits)
  have page: "enroll_client_data env (en_sender g) w = enroll_client_data env (en_sender h) w" for w
    using page_run [of h env es] unfolding assms(2) by (simp add: same_page_def enroll_client_data_def)
  have "checked_inv env (ws_origin (en_sender h)) g"
    unfolding assms(2) using checked_run checked_start [OF assms(1)] by blast
  then have "hashed_ids (en_app_ids r) req" using assms(3) rq unfolding checked_inv_def by blast
  then have "\<exists>a \<in> insert [] (set (en_app_ids r)). ec_appIdHash c = B64_encode (sha256HashOfString a) None"
    using assms(4) unfolding hashed_ids_def by blast
  moreover have "en_closeable g" unfolding assms(2) using inv_run [OF inv_start [OF assms(1)]] by (simp add: en_inv_def)
  ultimately show ?thesis using encoded_document [OF dis enc assms(4,5)] rq started unfolding page by blast
qed

lemma soft_enroll_fresh:
  assumes "\<not> already_registered p sds" "soft_challenge cs = Some c" "length (UTIL_HexToBytes pub) = 65" "UTIL_HexToArray (attestationKey p) = Inr ka"
    and "ec_appIdHash c = B64_encode (sha256HashOfString a) None" "ec_challengeHash c = B64_encode (sha256HashOfString d) None"
  shows "\<exists>reply. snd (soft_enroll ecdsa (sec, pub) sds cs p) = Some reply \<and> enroller_event reply = EnHelper 0 U2F_V2
    (let kh = key_handle_hash pub; pk = UTIL_HexToBytes pub;
         asn1 = snd (UTIL_JsonSignatureToAsn1 (ecdsa ka ([0x00] @ sha256HashOfString a @ sha256HashOfString d @ kh @ pk)))
     in B64_encode ([0x05] @ pk @ [32] @ kh @ UTIL_HexToBytes (attestationCert p) @ asn1) None)"
proof -
  let ?r = "\<lparr>rg_appIdHash = ec_appIdHash c, rg_keyHandle = B64_encode (key_handle_hash pub) None, rg_sec = sec, rg_pub = pub, rg_counter = 1\<rparr>"
  show ?thesis
    using registration_layout [of c ?r "p\<lparr>registrations := registrations p @ [?r]\<rparr>" ka ecdsa] assms
    by (simp add: soft_enroll_def createRegistration_def enroller_event_def OK_STATUS_def Let_def length_key_handle b64.dec_enc length_hash)
qed

text \<open>
  C6. A page's registration, carried out by the soft token with a fresh key pair: when the token knows none of the
  keys of the request and there is a challenge of version 2, the page gets a response for that challenge with the
  client data of the challenge and its origin, and a registration message whose signature, by the attestation
  key, is over the hash of an app id of the request, the hash of exactly these client data, the new key handle and
  the public key.
\<close>

theorem soft_token_enrolls:
  assumes "handleU2fEnrollRequest env sys m r = Inr h" "g = fold (en_step env) es h" "\<not> en_done g" "StartHandler req \<in> set (en_out g)"
    and "\<not> already_registered p (ehr_signData req)" "soft_challenge (ehr_enrollChallenges req) = Some c"
    and "length (UTIL_HexToBytes pub) = 65" "UTIL_HexToArray (attestationKey p) = Inr ka"
  shows "\<exists>w \<in> set (web_challenges r). \<exists>a reply resp. a \<in> insert [] (set (en_app_ids r))
    \<and> snd (soft_enroll ecdsa (sec, pub) (ehr_signData req) (ehr_enrollChallenges req) p) = Some reply
    \<and> Reply resp \<in> set (en_out (en_step env (enroller_event reply) g))
    \<and> (let d = enroll_client_data env (en_sender h) w; kh = key_handle_hash pub; pk = UTIL_HexToBytes pub;
           asn1 = snd (UTIL_JsonSignatureToAsn1 (ecdsa ka ([0x00] @ sha256HashOfString a @ sha256HashOfString d @ kh @ pk)))
       in resp_data resp = EnrollData w (B64_encode ([0x05] @ pk @ [32] @ kh @ UTIL_HexToBytes (attestationCert p) @ asn1) None)
            (Some (Some (B64_encode (UTIL_StringToBytes d) None))))"
proof -
  have c: "c \<in> set (ehr_enrollChallenges req)" "ec_version c = U2F_V2"
    using assms(6) by (auto simp: soft_challenge_def find_Some_iff)
  obtain w a where w: "w \<in> set (web_challenges r)" "a \<in> insert [] (set (en_app_ids r))" "en_request g = r" "en_started g" "en_closeable g"
      "findEnrollChallengeOfVersion (web_challenges r) U2F_V2 = Some w" "ec_appIdHash c = B64_encode (sha256HashOfString a) None"
      "ec_challengeHash c = B64_encode (sha256HashOfString (enroll_client_data env (en_sender h) w)) None"
      "map_of (en_browserData g) U2F_V2 = Some (B64_encode (UTIL_StringToBytes (enroll_client_data env (en_sender h) w)) None)"
    using session_document [OF assms(1,2,4) c] by blast
  obtain reply where reply: "snd (soft_enroll ecdsa (sec, pub) (ehr_signData req) (ehr_enrollChallenges req) p) = Some reply"
      "enroller_event reply = EnHelper 0 U2F_V2 (let kh = key_handle_hash pub; pk = UTIL_HexToBytes pub;
         asn1 = snd (UTIL_JsonSignatureToAsn1 (ecdsa ka ([0x00] @ sha256HashOfString a @ sha256HashOfString (enroll_client_data env (en_sender h) w) @ kh @ pk)))
       in B64_encode ([0x05] @ pk @ [32] @ kh @ UTIL_HexToBytes (attestationCert p) @ asn1) None)"
    using soft_enroll_fresh [OF assms(5-8) w(7,8), of ecdsa sec] by blast
  obtain resp where "Reply resp \<in> set (en_out (en_step env (enroller_event reply) g))"
      "resp_data resp = EnrollData w (let kh = key_handle_hash pub; pk = UTIL_HexToBytes pub;
         asn1 = snd (UTIL_JsonSignatureToAsn1 (ecdsa ka ([0x00] @ sha256HashOfString a @ sha256HashOfString (enroll_client_data env (en_sender h) w) @ kh @ pk)))
       in B64_encode ([0x05] @ pk @ [32] @ kh @ UTIL_HexToBytes (attestationCert p) @ asn1) None)
       (Some (Some (B64_encode (UTIL_StringToBytes (enroll_client_data env (en_sender h) w)) None)))"
    using enrolled_reply [OF w(4) assms(3) w(5,9) w(6) [folded w(3)]] unfolding reply(2) by blast
  then show ?thesis
    by (intro bexI [OF _ w(1)] exI [of _ a] exI [of _ reply] exI [of _ resp]) (use w(2) reply(1) in \<open>simp add: Let_def\<close>)
qed

text \<open>A concrete registration, of version 2.\<close>

definition two_challenge :: web_enroll where
  "two_challenge = \<lparr>we_version = Some U2F_V2, we_challenge = Some ''c'', we_appId = Some ''https://a.com''\<rparr>"

definition two_request :: web_request where
  "two_request = reg_request\<lparr>wr_registerRequests := Some [two_challenge]\<rparr>"

definition two_start :: enroller where
  "two_start = projr (handleU2fEnrollRequest reg_env \<lparr>sys_last = 0, sys_armed = []\<rparr> reg_message two_request)"

lemma two_started: "handleU2fEnrollRequest reg_env \<lparr>sys_last = 0, sys_armed = []\<rparr> reg_message two_request = Inr two_start"
proof -
  have "\<not> isl (handleU2fEnrollRequest reg_env \<lparr>sys_last = 0, sys_armed = []\<rparr> reg_message two_request)" by code_simp
  then show ?thesis by (simp add: two_start_def)
qed

lemma two_runs: "\<exists>req c. StartHandler req \<in> set (en_out (fold (en_step reg_env) reg_events two_start)) \<and> ehr_signData req = []
   \<and> soft_challenge (ehr_enrollChallenges req) = Some c \<and> \<not> en_done (fold (en_step reg_env) reg_events two_start)"
proof -
  define h1 where "h1 = en_step reg_env (EnTab True [] []) two_start"
  have a: "en_wait h1 = WaitApproval" "ws_origin (en_sender h1) = ''https://a.com''" "ws_tabId (en_sender h1) = Some 3" "\<not> en_done h1"
    unfolding h1_def by code_simp+
  have r: "en_request h1 = two_request"
    using request_run [of reg_env "[EnTab True [] []]" two_start] checked_start [OF two_started] by (simp add: h1_def)
  have s: "sign_challenges two_request = []" "enroll_app_ids two_request = [''https://a.com'']" "en_app_ids two_request = [''https://a.com'']"
    by code_simp+
  have w: "wr_registerRequests two_request = Some [two_challenge]" by (simp add: two_request_def)
  obtain c bd where e: "encodeEnrollChallenges reg_env (en_sender h1) (wr_appId two_request) [two_challenge] = (Some [c], bd)" "ec_version c = U2F_V2"
    by (simp add: encodeEnrollChallenges_def encode_one_def encodeEnrollChallenge_def two_challenge_def truthy_def U2F_V1_def U2F_V2_def Let_def)
  have "fold (en_step reg_env) reg_events two_start = fold (en_step reg_env) (tl reg_events) h1"
    unfolding h1_def reg_events_def list.sel by (simp only: fold.simps comp_apply)
  moreover have "soft_challenge [c] = Some c" using e(2) by (simp add: soft_challenge_def)
  ultimately show ?thesis using reg_course [OF a, unfolded r, OF s w e(1)] by metis
qed

theorem soft_token_enrolls_witness:
  "\<exists>req reply resp. StartHandler req \<in> set (en_out (fold (en_step reg_env) reg_events two_start))
     \<and> snd (soft_enroll toy_ecdsa ([], toy_pub) (ehr_signData req) (ehr_enrollChallenges req) SoftTokenProfile) = Some reply
     \<and> Reply resp \<in> set (en_out (en_step reg_env (enroller_event reply) (fold (en_step reg_env) reg_events two_start)))"
proof -
  have "\<not> isl (UTIL_HexToArray (attestationKey SoftTokenProfile))" by code_simp
  then obtain ka where ka: "UTIL_HexToArray (attestationKey SoftTokenProfile) = Inr ka" by (cases "UTIL_HexToArray (attestationKey SoftTokenProfile)") simp_all
  obtain req c where req: "StartHandler req \<in> set (en_out (fold (en_step reg_env) reg_events two_start))" "ehr_signData req = []"
      "soft_challenge (ehr_enrollChallenges req) = Some c" "\<not> en_done (fold (en_step reg_env) reg_events two_start)" using two_runs by blast
  have pub: "length (UTIL_HexToBytes toy_pub) = 65" by (simp add: toy_pub_def length_HexToBytes del: UTIL_BytesToHex.simps)
  have fresh: "\<not> already_registered SoftTokenProfile (ehr_signData req)" by (simp add: req(2))
  from soft_token_enrolls [OF two_started refl req(4,1) fresh req(3) pub ka, of toy_ecdsa "[]"] req(1) show ?thesis by blast
qed

end
