(* ===== verification/UsbStack.thy ===== *)
theory UsbStack
  imports EndToEnd
begin

text \<open>
  A sign request of a page down to the tokens: the signer (WebSigner), the sign handler of the USB helper
  (UsbHandlers), the signer of all tokens (MultipleSigner) and one signer for each token (SingleSigner). Each
  lists what it asks of the others; here these lists are carried out, in order and each entry once, at any
  time between the events from outside.
\<close>

subsection \<open>The stack\<close>

text \<open>With each component goes the number of the entries of its list that have been carried out.\<close>

record usb_stack =
  st_page :: sign_session
  st_page_done :: nat
  st_handler :: "usb_sign option"
  st_handler_done :: nat
  st_multi :: "multi_signer option"
  st_multi_done :: nat
  st_signers :: "(device_id \<times> single_signer \<times> nat) list"

definition usb_stack_for :: "sign_session \<Rightarrow> usb_stack" where
  "usb_stack_for h =
     \<lparr>st_page = h, st_page_done = 0, st_handler = None, st_handler_done = 0, st_multi = None, st_multi_done = 0,
      st_signers = []\<rparr>"

definition next_of :: "'e list \<Rightarrow> nat \<Rightarrow> 'e option" where
  "next_of out n = (if n < length out then Some (out ! n) else None)"

text \<open>The handler that the USB helper makes for the request, running.\<close>

definition usb_sign_handler :: "sign_helper_request \<Rightarrow> usb_sign" where
  "usb_sign_handler req = fst (us_run (UsbSignHandler (shr_signData req) (Some (shr_timeoutSeconds req)) False))"

definition carry_page :: "sg_effect \<Rightarrow> usb_stack \<Rightarrow> usb_stack" where
  "carry_page e st =
     (case e of
        SgStart req \<Rightarrow> st\<lparr>st_handler := Some (usb_sign_handler req), st_handler_done := 0\<rparr>
      | SgCloseHandler \<Rightarrow> st\<lparr>st_handler := map_option us_close (st_handler st)\<rparr>
      | _ \<Rightarrow> st)"

text \<open>The reply of the handler, as the signer reads it.\<close>

definition reply_event :: "int \<Rightarrow> sign_response option \<Rightarrow> sg_event" where
  "reply_event code r =
     SgHelper ''sign_helper_reply'' code (case r of Some x \<Rightarrow> re_keyHandle x | None \<Rightarrow> [])
       (case r of Some x \<Rightarrow> re_signatureData x | None \<Rightarrow> [])"

definition started_multi :: "rat \<Rightarrow> helper_challenge list \<Rightarrow> multi_signer" where
  "started_multi ms cs = fst (ms_doSign cs (MultipleGnubbySigner \<lparr>sys_last = 0, sys_armed = []\<rparr> False ms))"

definition carry_handler :: "web_env \<Rightarrow> us_effect \<Rightarrow> usb_stack \<Rightarrow> usb_stack" where
  "carry_handler env e st =
     (case e of
        StartSigner ms cs \<Rightarrow> st\<lparr>st_multi := Some (started_multi ms cs), st_multi_done := 0\<rparr>
      | StopSigner \<Rightarrow> st\<lparr>st_multi := map_option ms_close (st_multi st)\<rparr>
      | SignReply code r \<Rightarrow> st\<lparr>st_page := sg_step env (reply_event code r) (st_page st)\<rparr>
      | _ \<Rightarrow> st)"

text \<open>
  \<open>notifyGnubbyComplete_\<close>: the result as the handler gets it. A success without a token or a challenge, or a
  token without a key that is not there, would be an exception, which ends the callback.
\<close>

definition multi_result_of :: "signer_result \<Rightarrow> multi_result" where
  "multi_result_of r =
     \<lparr>mr_code = sr_code r, mr_gnubby = (case sr_gnubby r of Some g \<Rightarrow> g | None \<Rightarrow> 0),
      mr_challenge = (case sr_challenge r of Some c \<Rightarrow> c
        | None \<Rightarrow> \<lparr>sc_challengeHash = [], sc_appIdHash = [], sc_keyHandle = [], sc_version = None\<rparr>),
      mr_info = sr_info r\<rparr>"

definition gnubby_found :: "signer_result \<Rightarrow> bool \<Rightarrow> usb_sign \<Rightarrow> usb_sign" where
  "gnubby_found r expected h =
     (if sr_code r = 0 \<and> (sr_gnubby r = None \<or> sr_challenge r = None) \<or> sr_code r = WRONG_DATA_STATUS \<and> sr_gnubby r = None
      then h\<lparr>us_anyFound := True\<rparr>
      else signerFoundGnubby (multi_result_of r) expected h)"

text \<open>A device gets one signer: \<open>addGnubby\<close> has looked for its tracker before.\<close>

definition new_signer :: "bool \<Rightarrow> bool \<Rightarrow> sign_challenge list \<Rightarrow> single_signer" where
  "new_signer forEnroll late cs = fst (ss_doSign cs (SingleGnubbySigner forEnroll (Some late)))"

definition upd_signer :: "device_id \<Rightarrow> (single_signer \<times> nat \<Rightarrow> single_signer \<times> nat) \<Rightarrow> usb_stack \<Rightarrow> usb_stack" where
  "upd_signer k f st = st\<lparr>st_signers := map (\<lambda>(k', x). (k', if k' = k then f x else x)) (st_signers st)\<rparr>"

definition carry_multi :: "multi_signer \<Rightarrow> ms_effect \<Rightarrow> usb_stack \<Rightarrow> usb_stack" where
  "carry_multi m e st =
     (case e of
        NewSigner k cs \<Rightarrow>
          (if map_of (st_signers st) k \<noteq> None then st
           else st\<lparr>st_signers := st_signers st @ [(k, new_signer (ms_forEnroll m) (expired (ms_timer m)) cs, 0)]\<rparr>)
      | CloseSigner k \<Rightarrow> upd_signer k (\<lambda>(s, n). (ss_close s, n)) st
      | GnubbyComplete k r expected \<Rightarrow> st\<lparr>st_handler := map_option (gnubby_found r expected) (st_handler st)\<rparr>
      | AllComplete pending \<Rightarrow> st\<lparr>st_handler := map_option (signerCompleted pending) (st_handler st)\<rparr>
      | Enumerate \<Rightarrow> st)"

definition carry_signer :: "device_id \<Rightarrow> ss_effect \<Rightarrow> usb_stack \<Rightarrow> usb_stack" where
  "carry_signer k e st =
     (case e of CompleteCb r \<Rightarrow> st\<lparr>st_multi := map_option (signCompleted k r) (st_multi st)\<rparr> | _ \<Rightarrow> st)"

text \<open>
  Events: of the page and its timers; the documents of the app ids; the answers to what was asked of a token
  kept by the handler; the devices of an enumeration; timers of the signer of all tokens; the answers to the
  signer of one token and the end of its time; and the next entry of one of the lists.
\<close>

datatype st_event =
    StPage sg_event
  | StDocuments "string \<Rightarrow> (fetch_result \<times> bool) list"
  | StVersion nat int "bytes option"
  | StEnrolled nat int
  | StEnumerated int "device_id list"
  | StTimer ms_event
  | StToken device_id ss_wait int "bytes option" "nat option"
  | StExpire device_id
  | CarryPage
  | CarryHandler
  | CarryMulti
  | CarrySigner device_id

definition page_only :: "sg_event \<Rightarrow> bool" where
  "page_only e = (case e of SgHelper t c k s \<Rightarrow> False | SgDocuments d a b \<Rightarrow> False | _ \<Rightarrow> True)"

definition timer_only :: "ms_event \<Rightarrow> bool" where
  "timer_only e = (case e of MsTick \<Rightarrow> True | MsReenumerateTick \<Rightarrow> True | MsInterval i \<Rightarrow> True | _ \<Rightarrow> False)"

definition with_handler :: "(usb_sign \<Rightarrow> usb_sign) \<Rightarrow> usb_stack \<Rightarrow> usb_stack" where
  "with_handler f st = st\<lparr>st_handler := map_option f (st_handler st)\<rparr>"

definition with_multi :: "(multi_signer \<Rightarrow> multi_signer) \<Rightarrow> usb_stack \<Rightarrow> usb_stack" where
  "with_multi f st = st\<lparr>st_multi := map_option f (st_multi st)\<rparr>"

fun st_step :: "web_env \<Rightarrow> st_event \<Rightarrow> usb_stack \<Rightarrow> usb_stack" where
  "st_step env (StPage e) st = (if page_only e then st\<lparr>st_page := sg_step env e (st_page st)\<rparr> else st)"
| "st_step env (StDocuments docs) st =
     st\<lparr>st_page := sg_step env (SgDocuments docs True (sg_challenges (st_page st) \<noteq> [])) (st_page st)\<rparr>"
| "st_step env (StVersion g rc d) st =
     with_handler (\<lambda>h. if VersionOf g \<in> set (take (st_handler_done st) (us_out h)) then bogus_versioned g rc d h else h) st"
| "st_step env (StEnrolled g code) st =
     with_handler (\<lambda>h. if list_ex (\<lambda>e. case e of EnrollOn g' c a \<Rightarrow> g' = g | _ \<Rightarrow> False) (take (st_handler_done st) (us_out h))
       then us_enrollCallback g code h else h) st"
| "st_step env (StEnumerated rc ids) st =
     with_multi (\<lambda>m. if Enumerate \<in> set (take (st_multi_done st) (ms_out m))
       then enumerateCallback rc (map (\<lambda>k. (k, None, True)) ids) m else m) st"
| "st_step env (StTimer e) st = with_multi (\<lambda>m. if timer_only e then ms_step e m else m) st"
| "st_step env (StToken k w rc d g) st = upd_signer k (\<lambda>(s, n). (ss_step (SsBack w rc d g) s, n)) st"
| "st_step env (StExpire k) st = upd_signer k (\<lambda>(s, n). (ss_step SsExpire s, n)) st"
| "st_step env CarryPage st =
     (case next_of (sg_out (st_page st)) (st_page_done st) of None \<Rightarrow> st
      | Some e \<Rightarrow> carry_page e (st\<lparr>st_page_done := st_page_done st + 1\<rparr>))"
| "st_step env CarryHandler st =
     (case st_handler st of None \<Rightarrow> st
      | Some h \<Rightarrow> (case next_of (us_out h) (st_handler_done st) of None \<Rightarrow> st
          | Some e \<Rightarrow> carry_handler env e (st\<lparr>st_handler_done := st_handler_done st + 1\<rparr>)))"
| "st_step env CarryMulti st =
     (case st_multi st of None \<Rightarrow> st
      | Some m \<Rightarrow> (case next_of (ms_out m) (st_multi_done st) of None \<Rightarrow> st
          | Some e \<Rightarrow> carry_multi m e (st\<lparr>st_multi_done := st_multi_done st + 1\<rparr>)))"
| "st_step env (CarrySigner k) st =
     (case map_of (st_signers st) k of None \<Rightarrow> st
      | Some (s, n) \<Rightarrow> (case next_of (ss_out s) n of None \<Rightarrow> st
          | Some e \<Rightarrow> carry_signer k e (upd_signer k (\<lambda>(s, n). (s, n + 1)) st)))"


subsection \<open>One token\<close>

text \<open>
  What any step of a signer keeps when it is not the success of a signature: its challenges, what it asked for
  and its completions stay, and a new completion is an error.
\<close>

definition plain_step :: "single_signer \<Rightarrow> single_signer \<Rightarrow> bool" where
  "plain_step s s' \<longleftrightarrow> ss_challenges s' = ss_challenges s \<and> ss_forEnroll s' = ss_forEnroll s
     \<and> set (ss_out s) \<subseteq> set (ss_out s')
     \<and> (\<forall>i. WSign i \<in> set (ss_pending s') \<longrightarrow> WSign i \<in> set (ss_pending s)
          \<or> i < length (ss_challenges s') \<and> Sign (ss_challenges s' ! i) \<in> set (ss_out s'))
     \<and> (\<forall>r. CompleteCb r \<in> set (ss_out s') \<longrightarrow> CompleteCb r \<in> set (ss_out s) \<or> sr_code r \<noteq> 0)"

lemma plain_refl [simp]: "plain_step s s"
  by (simp add: plain_step_def)

lemma plain_trans:
  assumes "plain_step s s1" "plain_step s1 s2"
  shows "plain_step s s2"
proof -
  have c: "ss_challenges s1 = ss_challenges s" "ss_forEnroll s1 = ss_forEnroll s" "set (ss_out s) \<subseteq> set (ss_out s1)"
    "ss_challenges s2 = ss_challenges s" "ss_forEnroll s2 = ss_forEnroll s" "set (ss_out s1) \<subseteq> set (ss_out s2)"
    using assms unfolding plain_step_def by simp_all
  have "WSign i \<in> set (ss_pending s) \<or> i < length (ss_challenges s2) \<and> Sign (ss_challenges s2 ! i) \<in> set (ss_out s2)"
    if "WSign i \<in> set (ss_pending s2)" for i
    using that assms c(3,6) unfolding plain_step_def c(1,4) by blast
  moreover have "CompleteCb r \<in> set (ss_out s) \<or> sr_code r \<noteq> 0" if "CompleteCb r \<in> set (ss_out s2)" for r
    using that assms unfolding plain_step_def by blast
  ultimately show ?thesis unfolding plain_step_def c(4,5) using c by blast
qed

lemma plain_updates [simp]:
  "plain_step s (s\<lparr>ss_state := x\<rparr>)" "plain_step s (s\<lparr>ss_gnubby := g\<rparr>)" "plain_step s (s\<lparr>ss_timer := t\<rparr>)"
  "plain_step s (s\<lparr>ss_version := v\<rparr>)" "plain_step s (s\<lparr>ss_state := x, ss_version := v\<rparr>)"
  "plain_step s (s\<lparr>ss_gnubby := g, ss_state := x\<rparr>)" "plain_step s (next_index s)" "plain_step s (cache_error i c s)"
  "plain_step s (s\<lparr>ss_pending := remove1 w (ss_pending s)\<rparr>)"
  using set_remove1_subset [of w "ss_pending s"]
  by (auto simp: plain_step_def next_index_def cache_error_def split: option.split)

lemma plain_emit: "(\<And>r. e = CompleteCb r \<Longrightarrow> sr_code r \<noteq> 0) \<Longrightarrow> plain_step s (ss_emit e s)"
  by (auto simp: plain_step_def ss_emit_def)

lemma plain_await: "(\<And>i. w \<noteq> WSign i) \<Longrightarrow> plain_step s (await w s)"
  by (auto simp: plain_step_def await_def)

lemma plain_close: "plain_step s (ss_close s)"
proof -
  define s1 where "s1 = (if ss_state s = OPENING \<and> ss_canceller s then ss_emit CancelOpen s else s)"
  have 1: "plain_step s s1" using plain_emit [of CancelOpen s] by (simp add: s1_def)
  have 2: "plain_step s1 (await WClosed (ss_emit CloseWhenIdle (s1\<lparr>ss_state := CLOSING\<rparr>)))"
    by (rule plain_trans [OF plain_updates(1) plain_trans [OF plain_emit plain_await]]) simp_all
  have "ss_close s = (if ss_gnubby s1 = None then s1 else await WClosed (ss_emit CloseWhenIdle (s1\<lparr>ss_state := CLOSING\<rparr>)))"
    by (simp only: ss_close_def Let_def s1_def)
  then show ?thesis using 1 plain_trans [OF 1 2] by (simp only: split: if_split) blast
qed

lemma plain_goToError: "c \<noteq> 0 \<Longrightarrow> plain_step s (goToError c s)"
proof -
  assume c: "c \<noteq> 0"
  have 1: "plain_step s (ss_emit (CompleteCb x) (s\<lparr>ss_state := COMPLETE\<rparr>))" if "sr_code x \<noteq> 0" for x
    by (rule plain_trans [OF plain_updates(1) plain_emit]) (use that in simp)
  have 2: "plain_step s (ss_emit (CompleteCb x) (ss_close (s\<lparr>ss_state := COMPLETE\<rparr>)))" if "sr_code x \<noteq> 0" for x
    by (rule plain_trans [OF plain_trans [OF plain_updates(1) plain_close] plain_emit]) (use that in simp)
  show ?thesis using c by (simp add: goToError_def Let_def 1 2)
qed

lemma plain_success: "c \<noteq> 0 \<Longrightarrow> plain_step s (goToSuccess c ch info s)"
  unfolding goToSuccess_def Let_def
  by (rule plain_trans [OF plain_updates(1) plain_trans [OF plain_emit plain_updates(2)]]) auto

lemma plain_ask: "(\<And>r. e \<noteq> CompleteCb r) \<Longrightarrow> (\<And>i. w \<noteq> WSign i) \<Longrightarrow> plain_step s (ask e w s)"
  using plain_trans [OF plain_emit [of e s] plain_await [of w]] by (simp add: ask_def)

lemma plain_wait: "(\<And>i. w \<noteq> WSign i) \<Longrightarrow> plain_step s (await w (ss_emit (SetTimeout n) s))"
  by (rule plain_trans [OF plain_emit plain_await]) simp_all

lemma plain_doSign:
  "i < length (ss_challenges s) \<Longrightarrow> plain_step s (await (WSign i) (ss_emit (Sign (ss_challenges s ! i)) s))"
  by (auto simp: plain_step_def await_def ss_emit_def)

lemma code_of_nonzero [simp]: "code_of c \<noteq> 0" "WRONG_DATA_STATUS \<noteq> 0" "TIMEOUT_STATUS \<noteq> 0" "BUSY_STATUS \<noteq> 0" "GONE_STATUS \<noteq> 0"
  by (cases c) (simp_all add: status_codes)

lemma plain_signNext:
  "plain_step s (ss_signNext i s)" "code \<noteq> 0 \<Longrightarrow> plain_step s (signCallback i code info s)"
proof (induction i s and i code info s rule: ss_signNext_signCallback.induct)
  case (1 i s)
  let ?s1 = "s\<lparr>ss_state := SIGNING\<rparr>"
  have st: "plain_step s s'" if "plain_step ?s1 s'" for s' by (rule plain_trans [OF plain_updates(1) that])
  show ?case
  proof (cases "ss_gnubby s = None \<or> ss_expired s \<or> \<not> ss_challengesSet s")
    case True
    then show ?thesis by (auto simp: ss_signNext.simps [of i s] plain_goToError)
  next
    case False
    then have on: "ss_gnubby s \<noteq> None" "\<not> ss_expired s" "\<not> \<not> ss_challengesSet s" by auto
    note wrong = "1.IH"(1) [OF on refl, THEN st] "1.IH"(2) [OF on refl _ refl, THEN st] "1.IH"(3) [OF on refl _ refl, THEN st]
    show ?thesis
    proof (cases "length (ss_challenges ?s1) \<le> i")
      case True
      then show ?thesis using on wrong(1) by (simp add: ss_signNext.simps [of i s])
    next
      case False
      then show ?thesis
        using on wrong(2,3) st [OF plain_doSign [of i ?s1]] by (simp add: ss_signNext.simps [of i s] Let_def split: option.split)
    qed
  qed
next
  case (2 i code info s)
  define s1 where "s1 = cache_error i code s"
  have s1: "plain_step s s1" by (simp add: s1_def)
  have st: "plain_step s s'" if "plain_step s1 s'" for s' by (rule plain_trans [OF s1 that])
  have nx: "plain_step s s'" if "plain_step (next_index s1) s'" for s'
    by (rule st [OF plain_trans [OF plain_updates(7) that]])
  show ?case
  proof (cases "ss_state s = SIGNING")
    case True
    note IH = "2.IH" [folded s1_def]
    have "plain_step s1 (await WTouch (ss_emit (SetTimeout 200) s1))" "plain_step s1 (ask Resync WSynced s1)"
      by (simp_all add: plain_wait plain_ask)
    note ok = this [THEN st]
    have err: "plain_step s (goToError c s1)" "plain_step s (goToSuccess c ch d s1)" if "c \<noteq> 0" for c ch d
      using that by (simp_all add: st plain_goToError plain_success)
    have busy: "code = BUSY_STATUS \<Longrightarrow> code \<noteq> GONE_STATUS \<Longrightarrow> code \<noteq> TIMEOUT_STATUS \<Longrightarrow>
      plain_step s (ss_signNext (ss_challengeIndex s1) s1)" using IH(1) True by (auto intro: st)
    have nxt: "code \<noteq> GONE_STATUS \<Longrightarrow> code \<noteq> TIMEOUT_STATUS \<Longrightarrow> code \<noteq> BUSY_STATUS \<Longrightarrow> code \<noteq> WAIT_TOUCH_STATUS \<Longrightarrow>
      more_challenges s1 \<Longrightarrow> signErrorIndicatesInvalidKeyHandle code \<noteq> None \<or> \<not> ss_forEnroll s1 \<Longrightarrow>
      plain_step s (ss_signNext (ss_challengeIndex s1 + 1) (next_index s1))"
      using IH(2,3) True "2.prems" by (auto simp: OK_STATUS_def intro!: nx)
    show ?thesis
      unfolding signCallback.simps [of i code info s] Let_def s1_def [symmetric]
      using True ok busy nxt s1 "2.prems" by (simp add: OK_STATUS_def err split del: if_split) (simp add: err split: if_split)
  qed (simp add: signCallback.simps)
qed

text \<open>The steps of a signer, those apart in which a token answers a signature with success.\<close>

lemma plain_back:
  assumes "rc \<noteq> 0 \<or> (\<forall>i. w \<noteq> WSign i)"
  shows "plain_step s (come_back w rc d g s)"
proof (cases w)
  case WOpen
  have "plain_step s (ask AskVersion WVersion (s\<lparr>ss_gnubby := g\<rparr>))"
    by (rule plain_trans [OF plain_updates(2) plain_ask]) simp_all
  moreover have "plain_step s (await WReopen (ss_emit (SetTimeout OPEN_DELAY_MILLIS) (s\<lparr>ss_gnubby := g, ss_state := BUSY_STATE\<rparr>)))"
    by (rule plain_trans [OF plain_updates(6) plain_wait]) simp
  moreover have "plain_step s (goToError BUSY_STATUS (s\<lparr>ss_gnubby := g, ss_state := BUSY_STATE\<rparr>))"
    by (rule plain_trans [OF plain_updates(6) plain_goToError]) simp
  ultimately show ?thesis
    using WOpen plain_goToError [of rc s] by (simp add: openCallback_def Let_def OK_STATUS_def)
next
  case WReopen
  have "plain_step s (await WOpen (ss_emit (OpenGnubby None) s))" by (rule plain_trans [OF plain_emit plain_await]) simp_all
  then show ?thesis using WReopen by (simp add: reopen_def)
next
  case WVersion
  then show ?thesis
    using plain_trans [OF plain_updates(5) plain_signNext(1)] plain_goToError [of rc s]
    by (simp add: versionCallback_def Let_def plain_ask plain_goToError)
next
  case WVersionSync
  then show ?thesis by (simp add: versionSynced_def plain_ask plain_goToError)
next
  case (WSign i)
  with assms show ?thesis by (simp add: plain_signNext)
next
  case WSynced
  then show ?thesis by (simp add: synced_def plain_signNext plain_goToError)
next
  case WClosed
  then show ?thesis by (simp add: ss_closed_def)
qed (simp_all add: plain_signNext plain_goToError)

text \<open>What the successes of a signer rest on, given the answers \<open>A k i info\<close> of its token.\<close>

definition signer_ok :: "(nat \<Rightarrow> bytes option \<Rightarrow> bool) \<Rightarrow> single_signer \<Rightarrow> bool" where
  "signer_ok A s \<longleftrightarrow> \<not> ss_forEnroll s
     \<and> (\<forall>i. WSign i \<in> set (ss_pending s) \<longrightarrow> i < length (ss_challenges s) \<and> Sign (ss_challenges s ! i) \<in> set (ss_out s))
     \<and> (\<forall>r. CompleteCb r \<in> set (ss_out s) \<longrightarrow> sr_code r = 0 \<longrightarrow>
          (\<exists>i < length (ss_challenges s). sr_challenge r = Some (ss_challenges s ! i)
             \<and> Sign (ss_challenges s ! i) \<in> set (ss_out s) \<and> A i (sr_info r)))"

lemma signer_ok_mono: "signer_ok A s \<Longrightarrow> (\<And>i d. A i d \<Longrightarrow> B i d) \<Longrightarrow> signer_ok B s"
  unfolding signer_ok_def by blast

lemma plain_ok:
  assumes "plain_step s s'" "signer_ok A s"
  shows "signer_ok A s'"
  unfolding signer_ok_def
proof (intro conjI allI impI)
  have c: "ss_challenges s' = ss_challenges s" and out: "set (ss_out s) \<subseteq> set (ss_out s')"
    using assms(1) by (simp_all add: plain_step_def)
  show "\<not> ss_forEnroll s'" using assms unfolding plain_step_def signer_ok_def by simp
  fix i assume "WSign i \<in> set (ss_pending s')"
  then have "WSign i \<in> set (ss_pending s) \<or> i < length (ss_challenges s') \<and> Sign (ss_challenges s' ! i) \<in> set (ss_out s')"
    using assms(1) unfolding plain_step_def by blast
  moreover have "WSign i \<in> set (ss_pending s) \<longrightarrow> i < length (ss_challenges s) \<and> Sign (ss_challenges s ! i) \<in> set (ss_out s)"
    using assms(2) unfolding signer_ok_def by blast
  ultimately show "i < length (ss_challenges s')" "Sign (ss_challenges s' ! i) \<in> set (ss_out s')" unfolding c using out by blast+
next
  have c: "ss_challenges s' = ss_challenges s" and out: "set (ss_out s) \<subseteq> set (ss_out s')"
    using assms(1) by (simp_all add: plain_step_def)
  fix r assume r: "CompleteCb r \<in> set (ss_out s')" "sr_code r = 0"
  then have "CompleteCb r \<in> set (ss_out s)" using assms(1) unfolding plain_step_def by blast
  then show "\<exists>i < length (ss_challenges s'). sr_challenge r = Some (ss_challenges s' ! i)
             \<and> Sign (ss_challenges s' ! i) \<in> set (ss_out s') \<and> A i (sr_info r)"
    using assms(2) r(2) out unfolding signer_ok_def c by blast
qed

lemma signer_ok_pending: "signer_ok A s \<Longrightarrow> signer_ok A (s\<lparr>ss_pending := remove1 w (ss_pending s)\<rparr>)"
  by (rule plain_ok [OF plain_updates(9)])

text \<open>The one step that is not plain: a signature succeeds.\<close>

lemma sign_success:
  assumes "ss_state s = SIGNING" "\<not> ss_forEnroll s"
  shows "signCallback i 0 info s =
    goToSuccess 0 (if i < length (ss_challenges s) then Some (ss_challenges s ! i) else None) info s"
proof -
  have "cache_error i 0 s = s" by (simp add: cache_error_def signErrorIndicatesInvalidKeyHandle_def status_codes)
  then show ?thesis using assms by (simp add: signCallback.simps [of i 0] Let_def status_codes)
qed

lemma success_ok:
  assumes "signer_ok A s" "i < length (ss_challenges s)" "Sign (ss_challenges s ! i) \<in> set (ss_out s)"
  shows "signer_ok (\<lambda>i' d. A i' d \<or> i' = i \<and> d = info) (goToSuccess 0 (Some (ss_challenges s ! i)) info s)"
proof -
  let ?t = "goToSuccess 0 (Some (ss_challenges s ! i)) info s"
  have f: "ss_forEnroll ?t = ss_forEnroll s" "ss_pending ?t = ss_pending s" "ss_challenges ?t = ss_challenges s"
    "ss_out ?t = ss_out s @ [CompleteCb \<lparr>sr_code = 0, sr_gnubby = ss_gnubby s, sr_challenge = Some (ss_challenges s ! i), sr_info = info\<rparr>]"
    by (simp_all add: goToSuccess_def ss_emit_def)
  have "\<exists>j < length (ss_challenges s). sr_challenge r = Some (ss_challenges s ! j) \<and> Sign (ss_challenges s ! j) \<in> set (ss_out ?t)
      \<and> (A j (sr_info r) \<or> j = i \<and> sr_info r = info)" if q: "CompleteCb r \<in> set (ss_out ?t)" "sr_code r = 0" for r
  proof (cases "CompleteCb r \<in> set (ss_out s)")
    case True
    then obtain j where "j < length (ss_challenges s)" "sr_challenge r = Some (ss_challenges s ! j)"
        "Sign (ss_challenges s ! j) \<in> set (ss_out s)" "A j (sr_info r)"
      using assms(1) q(2) unfolding signer_ok_def by blast
    then show ?thesis by (intro exI [of _ j]) (simp add: f)
  next
    case False
    then have "r = \<lparr>sr_code = 0, sr_gnubby = ss_gnubby s, sr_challenge = Some (ss_challenges s ! i), sr_info = info\<rparr>"
      using q(1) by (simp add: f)
    then show ?thesis using assms(2,3) by (intro exI [of _ i]) (simp add: f)
  qed
  then show ?thesis using assms(1) unfolding signer_ok_def f(1-3) by (simp add: f(4))
qed

definition token_answers :: "ss_wait \<Rightarrow> int \<Rightarrow> bytes option \<Rightarrow> nat \<Rightarrow> bytes option \<Rightarrow> bool" where
  "token_answers w rc info i d \<longleftrightarrow> w = WSign i \<and> rc = 0 \<and> d = info"

lemma signer_answer:
  assumes "signer_ok A s"
  shows "signer_ok (\<lambda>i d. A i d \<or> token_answers w rc info i d) (ss_step (SsBack w rc info g) s)
    \<and> set (ss_out s) \<subseteq> set (ss_out (ss_step (SsBack w rc info g) s))
    \<and> ss_challenges (ss_step (SsBack w rc info g) s) = ss_challenges s"
proof (cases "w \<in> set (ss_pending s)")
  case True
  let ?s = "s\<lparr>ss_pending := remove1 w (ss_pending s)\<rparr>"
  have ok: "signer_ok A ?s" using assms by (rule signer_ok_pending)
  show ?thesis
  proof (cases "rc = 0 \<and> (\<exists>i. w = WSign i)")
    case False
    then have p: "plain_step ?s (come_back w rc info g ?s)" by (intro plain_back) auto
    show ?thesis
      using True p signer_ok_mono [OF plain_ok [OF p ok]] by (simp add: plain_step_def)
  next
    case ans: True
    then obtain i where i: "w = WSign i" "rc = 0" by blast
    then have "i < length (ss_challenges s)" "Sign (ss_challenges s ! i) \<in> set (ss_out s)" "\<not> ss_forEnroll s"
      using assms True unfolding signer_ok_def by blast+
    then have su: "signer_ok (\<lambda>i' d. A i' d \<or> i' = i \<and> d = info) (goToSuccess 0 (Some (ss_challenges ?s ! i)) info ?s)"
      by (intro success_ok [OF ok]) simp_all
    let ?t = "signCallback i 0 info ?s"
    have "signer_ok (\<lambda>i d. A i d \<or> token_answers w rc info i d) ?t \<and> set (ss_out s) \<subseteq> set (ss_out ?t) \<and> ss_challenges ?t = ss_challenges s"
    proof (cases "ss_state s = SIGNING")
      case True
      then have t: "?t = goToSuccess 0 (Some (ss_challenges ?s ! i)) info ?s"
        using sign_success [of ?s i info] \<open>\<not> ss_forEnroll s\<close> \<open>i < length (ss_challenges s)\<close> by simp
      have "signer_ok (\<lambda>i d. A i d \<or> token_answers w rc info i d) ?t"
        unfolding t by (rule signer_ok_mono [OF su]) (auto simp: token_answers_def i)
      moreover have "set (ss_out s) \<subseteq> set (ss_out ?t) \<and> ss_challenges ?t = ss_challenges s"
        by (auto simp: t goToSuccess_def ss_emit_def)
      ultimately show ?thesis by blast
    next
      case False
      then have "?t = ?s" by (simp add: signCallback.simps [of i 0 info ?s])
      then show ?thesis using signer_ok_mono [OF ok] by simp
    qed
    then show ?thesis using True i by simp
  qed
next
  case False
  then show ?thesis using signer_ok_mono [OF assms] by simp
qed

lemma new_signer_ok:
  "signer_ok A (new_signer False late cs)" "ss_challenges (new_signer False late cs) = cs"
  by (simp_all add: signer_ok_def new_signer_def ss_doSign_def SingleGnubbySigner_def ss_open_def await_def ss_emit_def)

subsection \<open>All tokens\<close>

text \<open>Only given challenges are handed to signers, and only given results are reported.\<close>

definition multi_ok :: "(sign_challenge \<Rightarrow> bool) \<Rightarrow> (signer_result \<Rightarrow> bool) \<Rightarrow> multi_signer \<Rightarrow> bool" where
  "multi_ok C G m \<longleftrightarrow> \<not> ms_forEnroll m \<and> (\<forall>c \<in> set (ms_challenges m). C c)
     \<and> (\<forall>k cs. NewSigner k cs \<in> set (ms_out m) \<longrightarrow> (\<forall>c \<in> set cs. C c))
     \<and> (\<forall>k r b. GnubbyComplete k r b \<in> set (ms_out m) \<longrightarrow> G r)"

lemma multi_ok_mono: "multi_ok C G m \<Longrightarrow> (\<And>c. C c \<Longrightarrow> C' c) \<Longrightarrow> (\<And>r. G r \<Longrightarrow> G' r) \<Longrightarrow> multi_ok C' G' m"
  unfolding multi_ok_def by blast

lemma multi_ok_simps [simp]:
  "multi_ok C G (ms_emit e m) \<longleftrightarrow> multi_ok C G m
     \<and> (case e of NewSigner k cs \<Rightarrow> \<forall>c \<in> set cs. C c | GnubbyComplete k r b \<Rightarrow> G r | _ \<Rightarrow> True)"
  "multi_ok C G (m\<lparr>ms_complete := b\<rparr>) = multi_ok C G m" "multi_ok C G (m\<lparr>ms_numComplete := n\<rparr>) = multi_ok C G m"
  "multi_ok C G (m\<lparr>ms_trackers := t\<rparr>) = multi_ok C G m"
  "multi_ok C G (m\<lparr>ms_sys := y, ms_timer := u\<rparr>) = multi_ok C G m"
  "multi_ok C G (m\<lparr>ms_sys := y, ms_reenumerateTimer := u\<rparr>) = multi_ok C G m"
  "multi_ok C G (m\<lparr>ms_sys := y, ms_intervals := l\<rparr>) = multi_ok C G m"
  "multi_ok C G (m\<lparr>ms_sys := y, ms_reenumerateTimer := u, ms_timer := v\<rparr>) = multi_ok C G m"
proof -
  show "multi_ok C G (ms_emit e m) \<longleftrightarrow> multi_ok C G m
     \<and> (case e of NewSigner k cs \<Rightarrow> \<forall>c \<in> set cs. C c | GnubbyComplete k r b \<Rightarrow> G r | _ \<Rightarrow> True)"
    by (cases e) (simp_all add: multi_ok_def ms_emit_def, (blast | fastforce)+)
qed (simp_all add: multi_ok_def)

lemma multi_ok_timeout [simp]: "multi_ok C G (ms_timeout b m) = multi_ok C G m"
  by (simp add: ms_timeout_def)

lemma multi_ok_maybe [simp]: "multi_ok C G (maybeReEnumerate b m) = multi_ok C G m"
  by (simp add: maybeReEnumerate_def Let_def split: prod.split)

lemma multi_ok_close: "multi_ok C G m \<Longrightarrow> multi_ok C G (ms_close m)"
proof -
  assume "multi_ok C G m"
  then have "multi_ok C G (fold (\<lambda>k. ms_emit (CloseSigner k)) ks m)" for ks
    by (induction ks arbitrary: m) auto
  moreover have "multi_ok C G (clear_interval m1) = multi_ok C G m1" for m1
    by (simp add: clear_interval_def Let_def split: prod.split)
  ultimately show ?thesis by (simp add: ms_close_def Let_def split: prod.split)
qed

lemma multi_ok_add: "multi_ok C G m \<Longrightarrow> multi_ok C G (addGnubby k r b m)"
  by (simp add: addGnubby_eq) (simp add: multi_ok_def)

lemma multi_ok_enumerate: "multi_ok C G m \<Longrightarrow> multi_ok C G (enumerateCallback rc ids m)"
proof -
  assume m: "multi_ok C G m"
  then have "multi_ok C G (fold (\<lambda>(k, r, b). addGnubby k r b) ids m)"
    by (induction ids arbitrary: m) (auto simp: multi_ok_add)
  with m show ?thesis by (simp add: enumerateCallback_def)
qed

lemma multi_ok_completed: "multi_ok C G m \<Longrightarrow> G r \<Longrightarrow> multi_ok C G (signCompleted k r m)"
  unfolding signCompleted_def tallyCompletedGnubby_def Let_def by (auto split: option.split)

lemma multi_ok_timer: "timer_only e \<Longrightarrow> multi_ok C G m \<Longrightarrow> multi_ok C G (ms_step e m)"
  by (cases e) (auto simp: timer_only_def enumerateGnubbies_def Let_def split: prod.split)

lemma multi_ok_start: "(\<forall>c \<in> set cs. C (decode_challenge c)) \<Longrightarrow> multi_ok C G (started_multi ms cs)"
  by (auto simp: started_multi_def ms_doSign_def MultipleGnubbySigner_def enumerateGnubbies_def Let_def split: prod.split)
    (auto simp: multi_ok_def)

subsection \<open>The handler\<close>

definition handler_ok :: "(helper_challenge \<Rightarrow> bool) \<Rightarrow> (sign_response \<Rightarrow> bool) \<Rightarrow> usb_sign \<Rightarrow> bool" where
  "handler_ok D R h \<longleftrightarrow> \<not> us_corrupt h \<and> us_signerError h \<noteq> Some 0
     \<and> (\<forall>ms cs. StartSigner ms cs \<in> set (us_out h) \<longrightarrow> (\<forall>c \<in> set cs. D c))
     \<and> (\<forall>x. SignReply 0 x \<in> set (us_out h) \<longrightarrow> (\<exists>y. x = Some y \<and> R y))"

lemma handler_ok_mono: "handler_ok D R h \<Longrightarrow> (\<And>c. D c \<Longrightarrow> D' c) \<Longrightarrow> (\<And>y. R y \<Longrightarrow> R' y) \<Longrightarrow> handler_ok D' R' h"
  unfolding handler_ok_def by blast

lemma handler_ok_simps [simp]:
  "handler_ok D R (us_emit e h) \<longleftrightarrow> handler_ok D R h
     \<and> (case e of StartSigner ms cs \<Rightarrow> \<forall>c \<in> set cs. D c | SignReply c x \<Rightarrow> c = 0 \<longrightarrow> (\<exists>y. x = Some y \<and> R y) | _ \<Rightarrow> True)"
  "handler_ok D R (h\<lparr>us_notified := b\<rparr>) = handler_ok D R h" "handler_ok D R (h\<lparr>us_notEnrolled := l\<rparr>) = handler_ok D R h"
  "handler_ok D R (h\<lparr>us_signer := b\<rparr>) = handler_ok D R h" "handler_ok D R (h\<lparr>us_anyFound := b\<rparr>) = handler_ok D R h"
proof -
  show "handler_ok D R (us_emit e h) \<longleftrightarrow> handler_ok D R h
     \<and> (case e of StartSigner ms cs \<Rightarrow> \<forall>c \<in> set cs. D c | SignReply c x \<Rightarrow> c = 0 \<longrightarrow> (\<exists>y. x = Some y \<and> R y) | _ \<Rightarrow> True)"
    by (cases e) (auto simp: handler_ok_def us_emit_def)
qed (simp_all add: handler_ok_def)

lemma handler_ok_close [simp]: "handler_ok D R (us_close h) = handler_ok D R h"
proof -
  have "handler_ok D R (fold (\<lambda>g. us_emit (CloseToken g)) gs h) = handler_ok D R h" for gs
    by (induction gs arbitrary: h) auto
  then show ?thesis by (simp add: us_close_def Let_def)
qed

lemma handler_ok_error: "handler_ok D R h \<Longrightarrow> c \<noteq> 0 \<Longrightarrow> handler_ok D R (us_notifyError c h)"
  by (simp add: us_notifyError_def)

definition response_to :: "sign_challenge \<Rightarrow> bytes option \<Rightarrow> sign_response" where
  "response_to ch info =
     \<lparr>re_appIdHash = B64_encode (sc_appIdHash ch) None, re_challengeHash = B64_encode (sc_challengeHash ch) None,
      re_keyHandle = B64_encode (sc_keyHandle ch) None,
      re_signatureData = B64_encode (case info of Some i \<Rightarrow> i | None \<Rightarrow> []) None\<rparr>"

lemma handler_ok_success:
  assumes "handler_ok D R h" "R (response_to ch info)"
  shows "handler_ok D R (us_notifySuccess g ch (case info of Some i \<Rightarrow> i | None \<Rightarrow> []) h)"
proof -
  have nc: "\<not> us_corrupt h" using assms(1) by (simp add: handler_ok_def)
  let ?h1 = "us_close (us_emit (CloseToken g) (h\<lparr>us_notified := True\<rparr>))"
  have "?h1\<lparr>us_corrupt := False\<rparr> = ?h1" using nc by simp
  then have "handler_ok D R (?h1\<lparr>us_corrupt := False\<rparr>)" using assms(1) by simp
  with assms nc show ?thesis by (simp add: us_notifySuccess_def Let_def response_to_def OK_STATUS_def)
qed

lemma handler_ok_found:
  assumes "handler_ok D R h" "sr_code r = 0 \<Longrightarrow> \<exists>ch. sr_challenge r = Some ch \<and> R (response_to ch (sr_info r))"
  shows "handler_ok D R (gnubby_found r b h)"
proof (cases "sr_code r = 0 \<and> (sr_gnubby r = None \<or> sr_challenge r = None) \<or> sr_code r = WRONG_DATA_STATUS \<and> sr_gnubby r = None")
  case True
  then show ?thesis using assms(1) by (auto simp: gnubby_found_def)
next
  case False
  have a: "handler_ok D R (h\<lparr>us_anyFound := True\<rparr>)" using assms(1) by simp
  show ?thesis
  proof (cases "sr_code r = 0")
    case True
    then obtain ch where "sr_challenge r = Some ch" "R (response_to ch (sr_info r))" using assms(2) by blast
    then show ?thesis
      using False True handler_ok_success [OF a] assms(1) by (simp add: gnubby_found_def signerFoundGnubby_def multi_result_of_def)
  next
    case code: False
    have "handler_ok D R (h\<lparr>us_anyFound := True, us_signerError := Some (sr_code r)\<rparr>)"
      using assms(1) code by (simp add: handler_ok_def)
    then show ?thesis
      using False code a assms(1) handler_ok_error [OF a]
      by (simp add: gnubby_found_def signerFoundGnubby_def multi_result_of_def sendBogusEnroll_def Let_def)
  qed
qed

lemma handler_ok_completed: "handler_ok D R h \<Longrightarrow> handler_ok D R (signerCompleted b h)"
proof -
  assume h: "handler_ok D R h"
  then have "us_signerError h \<noteq> Some 0" by (simp add: handler_ok_def)
  with h show ?thesis by (auto simp: signerCompleted_def handler_ok_error split: option.split)
qed

lemma handler_ok_token: "handler_ok D R h \<Longrightarrow> handler_ok D R (bogus_versioned g rc d h)"
  "handler_ok D R h \<Longrightarrow> handler_ok D R (us_enrollCallback g code h)"
  by (simp_all add: bogus_versioned_def us_enrollCallback_def sendBogusEnroll_def handler_ok_error Let_def INVALID_DATA_STATUS_def)

lemma handler_ok_start: "(\<forall>c \<in> set (shr_signData req). D c) \<Longrightarrow> handler_ok D R (usb_sign_handler req)"
  by (auto simp: usb_sign_handler_def us_run_def UsbSignHandler_def Let_def) (auto simp: handler_ok_def)

subsection \<open>The page\<close>

text \<open>The list of a session only grows, and a signature is not among what is added.\<close>

definition no_signature :: "sign_session \<Rightarrow> sign_session \<Rightarrow> bool" where
  "no_signature h h' \<longleftrightarrow> (\<exists>es. sg_out h' = sg_out h @ es \<and> (\<forall>r k cd sig. SgReply r \<in> set es \<longrightarrow> resp_data r \<noteq> SignData k cd sig))"

lemma no_signature_uneventful: "uneventful h h' \<Longrightarrow> no_signature h h'"
  unfolding uneventful_def no_signature_def by (fastforce simp: list_all_iff)

interpretation signatures: session_relation no_signature
proof
  show "no_signature h h1 \<Longrightarrow> no_signature h1 h2 \<Longrightarrow> no_signature h h2" for h h1 h2
    unfolding no_signature_def by fastforce
qed (auto simp: no_signature_uneventful, simp add: no_signature_def)

lemma no_signature_doSign:
  "sg_doSign env a b h = Some (h', ok) \<Longrightarrow> no_signature h h'"
proof -
  have "sg_out (fst (prepare env cs h)) = sg_out h" for cs
    by (induction env cs h rule: prepare.induct) (auto simp: Let_def split: option.split)
  then have "sg_out h1 = sg_out h" if "prepare env cs h = (h1, ok1)" for h1 ok1 cs using that by (metis fst_conv)
  then show "sg_doSign env a b h = Some (h', ok) \<Longrightarrow> no_signature h h'"
    by (auto simp: sg_doSign_def no_signature_def sg_emit_def Let_def split: prod.splits if_splits option.splits)
qed

lemma no_signature_notify:
  assumes "\<forall>c'. c = Some c' \<longrightarrow> key_of c' = k"
  shows "\<exists>es. sg_out (sg_notifySuccess c sig d h) = sg_out h @ es
    \<and> (\<forall>r k' cd sig'. SgReply r \<in> set es \<longrightarrow> resp_data r = SignData k' cd sig' \<longrightarrow> k' = k \<and> sig' = sig)"
proof -
  let ?h1 = "complete_token (sg_close_quiet (h\<lparr>sg_done := True\<rparr>))"
  have ns: "no_signature h ?h1" by (rule no_signature_uneventful [OF silent_uneventful [OF silent_fail]])
  let ?h2 = "?h1\<lparr>sg_wd := wrappedCallback () (sg_wd ?h1)\<rparr>"
  have ns2: "no_signature h (sg_close_watchdog ?h2)"
    by (rule signatures.trans [OF signatures.trans [OF ns no_signature_uneventful [OF uneventful_updates(1)]]
        no_signature_uneventful [OF uneventful_watchdog]])
  show ?thesis
  proof (cases "sg_done h \<or> wd_closed (sg_wd ?h1) \<or> c = None \<or> d = None")
    case True
    have "no_signature h (sg_notifySuccess c sig d h)"
      using True ns signatures.trans [OF ns no_signature_uneventful [OF uneventful_updates(1)]] signatures.uneventful [OF uneventful_refl, of h]
      by (auto simp: sg_notifySuccess_def sg_wrapped_def split: option.split)
    then show ?thesis unfolding no_signature_def by metis
  next
    case False
    then obtain c' d' where cd: "c = Some c'" "d = Some d'" by auto
    have "sg_notifySuccess c sig d h = sg_emit (SgReply (makeU2fSuccessResponse (Some (sg_request ?h2))
        (SignData k (B64_encode (UTIL_StringToBytes d') None) sig))) (sg_close_watchdog ?h2)"
      using False cd assms by (simp add: sg_notifySuccess_def sg_wrapped_def sg_sendSuccess_def respond_eq
          addSignatureAndBrowserDataToResponseData_def makeU2fSignResponseDataFromChallenge_def key_of_def)
    then show ?thesis
      using ns2 unfolding no_signature_def
      by (auto simp: sg_emit_def makeU2fSuccessResponse_def makeResponseForRequest_def)
  qed
qed

text \<open>A signature in the list of a session is the one the helper replied with.\<close>

lemma signature_replied:
  assumes i: "signed_inv env h"
  shows "\<exists>es. sg_out (sg_step env e h) = sg_out h @ es
    \<and> (\<forall>r k cd sig. SgReply r \<in> set es \<longrightarrow> resp_data r = SignData k cd sig \<longrightarrow> e = SgHelper ''sign_helper_reply'' 0 k sig)"
proof (cases "\<exists>t c k s. e = SgHelper t c k s")
  case False
  have "no_signature h (sg_step env e h)"
  proof (cases "\<exists>docs a b. e = SgDocuments docs a b")
    case True
    then obtain docs a b where e: "e = SgDocuments docs a b" by blast
    have "no_signature h1 h'" if "sg_doSign env a b h1 = Some (h', ok)" for h1 h' ok using that by (rule no_signature_doSign)
    then show ?thesis unfolding e by (rule signatures.asking_step)
  qed (use False in \<open>intro signatures.other_step; blast\<close>)
  then show ?thesis unfolding no_signature_def by auto
next
  case True
  then obtain t c k s where e: "e = SgHelper t c k s" by blast
  have none: ?thesis if "no_signature h (sg_step env e h)"
    using that unfolding no_signature_def by auto
  show ?thesis
  proof (cases "sg_started h \<and> t = ''sign_helper_reply'' \<and> c = 0")
    case False
    then show ?thesis
      using none signatures.notify [of h] signatures.uneventful [OF uneventful_refl, of h] e by (auto simp: sg_helperComplete_def)
  next
    case True
    have "\<forall>c'. map_of (sg_serverChallenges h) k = Some c' \<longrightarrow> key_of c' = k"
    proof (intro allI impI)
      fix c' assume "map_of (sg_serverChallenges h) k = Some c'"
      moreover have "case (map_of (sg_browserData h) k, map_of (sg_serverChallenges h) k) of (None, None) \<Rightarrow> True
        | (Some d, Some c) \<Rightarrow> c \<in> set (sg_challenges h) \<and> key_of c = k \<and> data_of env (sg_sender h) (sg_request h) c = Some d | _ \<Rightarrow> False"
        using i unfolding signed_inv_def matching_def by blast
      ultimately show "key_of c' = k" by (auto split: option.splits)
    qed
    from no_signature_notify [OF this, of s "map_of (sg_browserData h) k" h]
    show ?thesis using True e by (auto simp: sg_helperComplete_def)
  qed
qed

subsection \<open>The stack\<close>

text \<open>The challenges the page has sent, and the answers of tokens in a history.\<close>

definition sent :: "usb_stack \<Rightarrow> helper_challenge \<Rightarrow> bool" where
  "sent st hc \<longleftrightarrow> (\<exists>req. SgStart req \<in> set (sg_out (st_page st)) \<and> hc \<in> set (shr_signData req))"

definition sent_decoded :: "usb_stack \<Rightarrow> sign_challenge \<Rightarrow> bool" where
  "sent_decoded st ch \<longleftrightarrow> (\<exists>hc. sent st hc \<and> ch = decode_challenge hc)"

definition token_signed :: "st_event set \<Rightarrow> usb_stack \<Rightarrow> sign_challenge \<Rightarrow> bytes option \<Rightarrow> bool" where
  "token_signed A st ch info \<longleftrightarrow> (\<exists>k s n i g. map_of (st_signers st) k = Some (s, n) \<and> i < length (ss_challenges s)
     \<and> ss_challenges s ! i = ch \<and> Sign ch \<in> set (ss_out s) \<and> StToken k (WSign i) 0 info g \<in> A)"

definition result_ok :: "st_event set \<Rightarrow> usb_stack \<Rightarrow> signer_result \<Rightarrow> bool" where
  "result_ok A st r \<longleftrightarrow> (sr_code r = 0 \<longrightarrow> (\<exists>ch. sr_challenge r = Some ch \<and> sent_decoded st ch \<and> token_signed A st ch (sr_info r)))"

definition response_ok :: "st_event set \<Rightarrow> usb_stack \<Rightarrow> sign_response \<Rightarrow> bool" where
  "response_ok A st y \<longleftrightarrow> (\<exists>ch info. y = response_to ch info \<and> sent_decoded st ch \<and> token_signed A st ch info)"

definition signers_ok :: "st_event set \<Rightarrow> usb_stack \<Rightarrow> bool" where
  "signers_ok A st \<longleftrightarrow> (\<forall>k s n. map_of (st_signers st) k = Some (s, n) \<longrightarrow> (\<forall>ch \<in> set (ss_challenges s). sent_decoded st ch)
     \<and> signer_ok (\<lambda>i d. \<exists>g. StToken k (WSign i) 0 d g \<in> A) s)"

definition page_ok :: "web_env \<Rightarrow> st_event set \<Rightarrow> usb_stack \<Rightarrow> bool" where
  "page_ok env A st \<longleftrightarrow> signed_inv env (st_page st)
     \<and> (\<forall>r k cd sig. SgReply r \<in> set (sg_out (st_page st)) \<longrightarrow> resp_data r = SignData k cd sig \<longrightarrow>
          (\<exists>y. response_ok A st y \<and> k = re_keyHandle y \<and> sig = re_signatureData y))"

definition stack_ok :: "web_env \<Rightarrow> st_event set \<Rightarrow> usb_stack \<Rightarrow> bool" where
  "stack_ok env A st \<longleftrightarrow> page_ok env A st \<and> signers_ok A st
     \<and> (\<forall>h. st_handler st = Some h \<longrightarrow> handler_ok (sent st) (response_ok A st) h)
     \<and> (\<forall>m. st_multi st = Some m \<longrightarrow> multi_ok (sent_decoded st) (result_ok A st) m)"

text \<open>What a step leaves: the page's list and the signers only grow.\<close>

definition stack_grows :: "usb_stack \<Rightarrow> usb_stack \<Rightarrow> bool" where
  "stack_grows st st' \<longleftrightarrow> set (sg_out (st_page st)) \<subseteq> set (sg_out (st_page st'))
     \<and> (\<forall>k s n. map_of (st_signers st) k = Some (s, n) \<longrightarrow>
          (\<exists>s' n'. map_of (st_signers st') k = Some (s', n') \<and> ss_challenges s' = ss_challenges s \<and> set (ss_out s) \<subseteq> set (ss_out s')))"

lemma grows_sent: "stack_grows st st' \<Longrightarrow> sent st hc \<Longrightarrow> sent st' hc"
  unfolding stack_grows_def sent_def by blast

lemma grows_decoded: "stack_grows st st' \<Longrightarrow> sent_decoded st ch \<Longrightarrow> sent_decoded st' ch"
  unfolding sent_decoded_def using grows_sent by blast

lemma grows_signed: "stack_grows st st' \<Longrightarrow> A \<subseteq> B \<Longrightarrow> token_signed A st ch info \<Longrightarrow> token_signed B st' ch info"
proof -
  assume g: "stack_grows st st'" and A: "A \<subseteq> B" and t: "token_signed A st ch info"
  obtain k s n i g where "map_of (st_signers st) k = Some (s, n)" and r: "i < length (ss_challenges s)"
     "ss_challenges s ! i = ch" "Sign ch \<in> set (ss_out s)" "StToken k (WSign i) 0 info g \<in> A"
    using t unfolding token_signed_def by blast
  moreover from this(1) obtain s' n' where "map_of (st_signers st') k = Some (s', n')" "ss_challenges s' = ss_challenges s"
      "set (ss_out s) \<subseteq> set (ss_out s')"
    using g unfolding stack_grows_def by blast
  ultimately show ?thesis using A unfolding token_signed_def
    by (intro exI [of _ k] exI [of _ s'] exI [of _ n'] exI [of _ i] exI [of _ g]) auto
qed

lemma grows_result: "stack_grows st st' \<Longrightarrow> A \<subseteq> B \<Longrightarrow> result_ok A st r \<Longrightarrow> result_ok B st' r"
  unfolding result_ok_def using grows_decoded grows_signed by blast

lemma grows_response: "stack_grows st st' \<Longrightarrow> A \<subseteq> B \<Longrightarrow> response_ok A st y \<Longrightarrow> response_ok B st' y"
  unfolding response_ok_def using grows_decoded grows_signed by blast

lemma grows_refl: "st_page st' = st_page st \<Longrightarrow> st_signers st' = st_signers st \<Longrightarrow> stack_grows st st'"
  by (auto simp: stack_grows_def)

lemma grows_signers:
  assumes "stack_grows st st'" "signers_ok A st" "A \<subseteq> B" "st_signers st' = st_signers st"
  shows "signers_ok B st'"
  unfolding signers_ok_def assms(4)
proof (intro allI impI conjI ballI)
  fix k s n assume k: "map_of (st_signers st) k = Some (s, n)"
  have "\<forall>ch \<in> set (ss_challenges s). sent_decoded st ch" and o: "signer_ok (\<lambda>i d. \<exists>g. StToken k (WSign i) 0 d g \<in> A) s"
    using k assms(2) unfolding signers_ok_def by blast+
  then show "sent_decoded st' ch" if "ch \<in> set (ss_challenges s)" for ch
    using that grows_decoded [OF assms(1)] by blast
  from o show "signer_ok (\<lambda>i d. \<exists>g. StToken k (WSign i) 0 d g \<in> B) s" by (rule signer_ok_mono) (use assms(3) in blast)
qed

lemma grows_page:
  assumes "stack_grows st st'" "page_ok env A st" "A \<subseteq> B" "st_page st' = st_page st"
  shows "page_ok env B st'"
  unfolding page_ok_def assms(4)
proof (intro conjI allI impI)
  show "signed_inv env (st_page st)" using assms(2) by (simp add: page_ok_def)
  fix r k cd sig assume "SgReply r \<in> set (sg_out (st_page st))" "resp_data r = SignData k cd sig"
  then obtain y where "response_ok A st y" "k = re_keyHandle y \<and> sig = re_signatureData y"
    using assms(2) unfolding page_ok_def by blast
  then show "\<exists>y. response_ok B st' y \<and> k = re_keyHandle y \<and> sig = re_signatureData y"
    using grows_response [OF assms(1,3)] by blast
qed

lemma grows_handler:
  assumes "stack_grows st st'" "A \<subseteq> B" "handler_ok (sent st) (response_ok A st) h"
  shows "handler_ok (sent st') (response_ok B st') h"
  using assms(3) by (rule handler_ok_mono) (auto intro: grows_sent [OF assms(1)] grows_response [OF assms(1,2)])

lemma grows_multi:
  assumes "stack_grows st st'" "A \<subseteq> B" "multi_ok (sent_decoded st) (result_ok A st) m"
  shows "multi_ok (sent_decoded st') (result_ok B st') m"
  using assms(3) by (rule multi_ok_mono) (auto intro: grows_decoded [OF assms(1)] grows_result [OF assms(1,2)])

lemma stack_intro:
  assumes "stack_grows st st'" "A \<subseteq> B" "page_ok env B st'" "signers_ok B st'"
    and "\<And>h. st_handler st' = Some h \<Longrightarrow> handler_ok (sent st) (response_ok A st) h"
    and "\<And>m. st_multi st' = Some m \<Longrightarrow> multi_ok (sent_decoded st) (result_ok A st) m"
  shows "stack_ok env B st'"
  unfolding stack_ok_def using assms(3,4) grows_handler [OF assms(1,2) assms(5)] grows_multi [OF assms(1,2) assms(6)] by simp

lemma stack_parts:
  assumes "stack_ok env A st"
  shows "page_ok env A st" "signers_ok A st" "\<And>h. st_handler st = Some h \<Longrightarrow> handler_ok (sent st) (response_ok A st) h"
    "\<And>m. st_multi st = Some m \<Longrightarrow> multi_ok (sent_decoded st) (result_ok A st) m"
  using assms by (simp_all add: stack_ok_def)

lemma stack_more:
  assumes "stack_ok env A st" "A \<subseteq> B"
  shows "stack_ok env B st"
proof -
  have g: "stack_grows st st" by (rule grows_refl) simp_all
  note p = stack_parts [OF assms(1)]
  show ?thesis
    by (rule stack_intro [OF g assms(2) grows_page [OF g p(1) assms(2)] grows_signers [OF g p(2) assms(2)] p(3,4)]) simp_all
qed

text \<open>Changes of the handler and the signer of all tokens, of a signer, of the page.\<close>

lemma stack_same:
  assumes "stack_ok env A st" "st_page st' = st_page st" "st_signers st' = st_signers st"
    and "\<And>h. st_handler st' = Some h \<Longrightarrow> handler_ok (sent st) (response_ok A st) h"
    and "\<And>m. st_multi st' = Some m \<Longrightarrow> multi_ok (sent_decoded st) (result_ok A st) m"
  shows "stack_ok env A st'"
proof -
  have g: "stack_grows st st'" using assms(2,3) by (rule grows_refl)
  note p = stack_parts [OF assms(1)]
  show ?thesis
    by (rule stack_intro [OF g subset_refl grows_page [OF g p(1) subset_refl assms(2)] grows_signers [OF g p(2) subset_refl assms(3)] assms(4,5)])
qed

lemma stack_handler:
  "stack_ok env A st \<Longrightarrow> (\<And>h. st_handler st = Some h \<Longrightarrow> handler_ok (sent st) (response_ok A st) h \<Longrightarrow> handler_ok (sent st) (response_ok A st) (f h))
     \<Longrightarrow> stack_ok env A (with_handler f st)"
  by (rule stack_same) (auto simp: with_handler_def stack_ok_def)

lemma stack_multi:
  "stack_ok env A st \<Longrightarrow> (\<And>m. st_multi st = Some m \<Longrightarrow> multi_ok (sent_decoded st) (result_ok A st) m \<Longrightarrow> multi_ok (sent_decoded st) (result_ok A st) (f m))
     \<Longrightarrow> stack_ok env A (with_multi f st)"
  by (rule stack_same) (auto simp: with_multi_def stack_ok_def)

lemma map_of_upd: "map_of (map (\<lambda>(k', x). (k', if k' = k then f x else x)) l) k' = map_option (if k' = k then f else id) (map_of l k')"
  by (induction l) auto

lemma stack_signer:
  assumes "stack_ok env A st"
    and f: "\<And>s n. map_of (st_signers st) k = Some (s, n) \<Longrightarrow> signer_ok (\<lambda>i d. \<exists>g. StToken k (WSign i) 0 d g \<in> A) s \<Longrightarrow>
      signer_ok (\<lambda>i d. \<exists>g. StToken k (WSign i) 0 d g \<in> A) (fst (f (s, n)))
      \<and> set (ss_out s) \<subseteq> set (ss_out (fst (f (s, n)))) \<and> ss_challenges (fst (f (s, n))) = ss_challenges s"
  shows "stack_ok env A (upd_signer k f st)"
proof -
  let ?st = "upd_signer k f st"
  have m: "map_of (st_signers ?st) k' = map_option (if k' = k then f else id) (map_of (st_signers st) k')" for k'
    by (simp add: upd_signer_def map_of_upd)
  have ok: "signers_ok A st" using assms(1) by (simp add: stack_ok_def)
  have fk: "signer_ok (\<lambda>i d. \<exists>g. StToken k (WSign i) 0 d g \<in> A) (fst (f (s, n)))
      \<and> set (ss_out s) \<subseteq> set (ss_out (fst (f (s, n)))) \<and> ss_challenges (fst (f (s, n))) = ss_challenges s"
    if "map_of (st_signers st) k = Some (s, n)" for s n
    using f [OF that] that ok unfolding signers_ok_def by blast
  have g: "stack_grows st ?st"
    unfolding stack_grows_def
  proof (intro conjI allI impI)
    fix k' s n assume "map_of (st_signers st) k' = Some (s, n)"
    then show "\<exists>s' n'. map_of (st_signers ?st) k' = Some (s', n') \<and> ss_challenges s' = ss_challenges s \<and> set (ss_out s) \<subseteq> set (ss_out s')"
      using m [of k'] fk by (cases "k' = k"; cases "f (s, n)") auto
  qed (simp add: upd_signer_def)
  have "signers_ok A ?st"
    unfolding signers_ok_def
  proof (intro allI impI)
    fix k' s' n' assume k': "map_of (st_signers ?st) k' = Some (s', n')"
    then obtain s n where s: "map_of (st_signers st) k' = Some (s, n)" "(s', n') = (if k' = k then f (s, n) else (s, n))"
      using m [of k'] by (auto split: if_splits)
    have "\<forall>ch \<in> set (ss_challenges s). sent_decoded ?st ch" "signer_ok (\<lambda>i d. \<exists>g. StToken k' (WSign i) 0 d g \<in> A) s"
      using ok s(1) grows_decoded [OF g] unfolding signers_ok_def by blast+
    then show "(\<forall>ch \<in> set (ss_challenges s'). sent_decoded ?st ch) \<and> signer_ok (\<lambda>i d. \<exists>g. StToken k' (WSign i) 0 d g \<in> A) s'"
      using s fk by (cases "k' = k"; cases "f (s, n)") auto
  qed
  have "st_page ?st = st_page st" "st_handler ?st = st_handler st" "st_multi ?st = st_multi st" by (simp_all add: upd_signer_def)
  note same = this
  note p = stack_parts [OF assms(1)]
  from \<open>signers_ok A ?st\<close> show ?thesis
    by (rule stack_intro [OF g subset_refl grows_page [OF g p(1) subset_refl same(1)] _ p(3,4)]) (simp_all add: same)
qed

lemma stack_page:
  assumes "stack_ok env A st" "\<And>k sig. e = SgHelper ''sign_helper_reply'' 0 k sig \<Longrightarrow> \<exists>y. response_ok A st y \<and> k = re_keyHandle y \<and> sig = re_signatureData y"
  shows "stack_ok env A (st\<lparr>st_page := sg_step env e (st_page st)\<rparr>)"
proof -
  let ?st = "st\<lparr>st_page := sg_step env e (st_page st)\<rparr>"
  have i: "signed_inv env (st_page st)" using assms(1) by (simp add: stack_ok_def page_ok_def)
  from signature_replied [OF this, of e] obtain es where es: "sg_out (sg_step env e (st_page st)) = sg_out (st_page st) @ es"
    "\<And>r k cd sig. SgReply r \<in> set es \<Longrightarrow> resp_data r = SignData k cd sig \<Longrightarrow> e = SgHelper ''sign_helper_reply'' 0 k sig" by blast
  have g: "stack_grows st ?st" by (auto simp: stack_grows_def es)
  have "page_ok env A ?st"
    unfolding page_ok_def
  proof (intro conjI allI impI)
    show "signed_inv env (st_page ?st)" using signed_step [OF i] by simp
    fix r k cd sig assume r: "SgReply r \<in> set (sg_out (st_page ?st))" "resp_data r = SignData k cd sig"
    have "\<exists>y. response_ok A st y \<and> k = re_keyHandle y \<and> sig = re_signatureData y"
    proof (cases "SgReply r \<in> set es")
      case True
      from es(2) [OF this r(2)] show ?thesis by (rule assms(2))
    next
      case False
      then have "SgReply r \<in> set (sg_out (st_page st))" using r(1) es(1) by simp
      then show ?thesis using assms(1) r(2) unfolding stack_ok_def page_ok_def by blast
    qed
    then show "\<exists>y. response_ok A ?st y \<and> k = re_keyHandle y \<and> sig = re_signatureData y" using grows_response [OF g subset_refl] by blast
  qed
  note p = stack_parts [OF assms(1)]
  from \<open>page_ok env A ?st\<close> show ?thesis
    by (rule stack_intro [OF g subset_refl _ grows_signers [OF g p(2) subset_refl] p(3,4)]) simp_all
qed

lemma stack_new:
  assumes "stack_ok env A st" "map_of (st_signers st) k = None" "\<forall>c \<in> set cs. sent_decoded st c"
  shows "stack_ok env A (st\<lparr>st_signers := st_signers st @ [(k, new_signer False late cs, 0)]\<rparr>)"
proof -
  let ?st = "st\<lparr>st_signers := st_signers st @ [(k, new_signer False late cs, 0)]\<rparr>"
  note p = stack_parts [OF assms(1)]
  have m: "map_of (st_signers ?st) k' = (if k' = k then Some (new_signer False late cs, 0) else map_of (st_signers st) k')" for k'
    using assms(2) by (simp add: map_add_def split: option.split)
  have g: "stack_grows st ?st"
    unfolding stack_grows_def using assms(2) by (auto simp: map_add_def)
  have "signers_ok A ?st"
    unfolding signers_ok_def
  proof (intro allI impI)
    fix k' s n assume k': "map_of (st_signers ?st) k' = Some (s, n)"
    show "(\<forall>ch \<in> set (ss_challenges s). sent_decoded ?st ch) \<and> signer_ok (\<lambda>i d. \<exists>g. StToken k' (WSign i) 0 d g \<in> A) s"
    proof (cases "k' = k")
      case True
      then have s: "s = new_signer False late cs" using k' unfolding m by simp
      show ?thesis using assms(3) grows_decoded [OF g] unfolding s new_signer_ok(2) by (simp add: new_signer_ok(1))
    next
      case False
      then have "map_of (st_signers st) k' = Some (s, n)" using k' unfolding m by simp
      then have "\<forall>ch \<in> set (ss_challenges s). sent_decoded st ch" "signer_ok (\<lambda>i d. \<exists>g. StToken k' (WSign i) 0 d g \<in> A) s"
        using p(2) unfolding signers_ok_def by blast+
      then show ?thesis using grows_decoded [OF g] by blast
    qed
  qed
  moreover have same: "st_page ?st = st_page st" by simp
  ultimately show ?thesis
    by (intro stack_intro [OF g subset_refl grows_page [OF g p(1) subset_refl same] _ p(3,4)]) simp_all
qed

lemma next_of_in: "next_of out n = Some e \<Longrightarrow> e \<in> set out"
  by (auto simp: next_of_def split: if_splits)

lemma stack_done:
  assumes "stack_ok env A st"
  shows "stack_ok env A (st\<lparr>st_page_done := n\<rparr>)" "stack_ok env A (st\<lparr>st_handler_done := n\<rparr>)"
    "stack_ok env A (st\<lparr>st_multi_done := n\<rparr>)"
  by (rule stack_same [OF assms]; simp add: stack_parts [OF assms])+

lemma stack_carry_page:
  assumes "stack_ok env A st" "e \<in> set (sg_out (st_page st))"
  shows "stack_ok env A (carry_page e st)"
proof (cases e)
  case (SgStart req)
  then have "\<forall>c \<in> set (shr_signData req). sent st c" using assms(2) by (auto simp: sent_def)
  then show ?thesis
    using SgStart by (simp add: carry_page_def) (rule stack_same [OF assms(1)], auto simp: handler_ok_start stack_parts [OF assms(1)])
next
  case SgCloseHandler
  have "stack_ok env A (with_handler us_close st)" by (rule stack_handler [OF assms(1)]) simp
  then show ?thesis using SgCloseHandler by (simp add: carry_page_def with_handler_def)
qed (simp_all add: carry_page_def assms(1))

lemma stack_carry_handler:
  assumes "stack_ok env A st" "st_handler st = Some h" "e \<in> set (us_out h)"
  shows "stack_ok env A (carry_handler env e st)"
proof -
  have h: "handler_ok (sent st) (response_ok A st) h" using assms by (simp add: stack_parts)
  show ?thesis
  proof (cases e)
    case (StartSigner ms cs)
    then have "\<forall>c \<in> set cs. sent_decoded st (decode_challenge c)"
      using h assms(3) unfolding handler_ok_def sent_decoded_def by blast
    then have "multi_ok (sent_decoded st) (result_ok A st) (started_multi ms cs)" by (rule multi_ok_start)
    then show ?thesis
      using StartSigner by (simp add: carry_handler_def) (rule stack_same [OF assms(1)], auto simp: stack_parts [OF assms(1)])
  next
    case StopSigner
    have "stack_ok env A (with_multi ms_close st)" by (rule stack_multi [OF assms(1)]) (rule multi_ok_close)
    then show ?thesis using StopSigner by (simp add: carry_handler_def with_multi_def)
  next
    case (SignReply code r)
    have "\<exists>y. response_ok A st y \<and> k = re_keyHandle y \<and> sig = re_signatureData y"
      if "reply_event code r = SgHelper ''sign_helper_reply'' 0 k sig" for k sig
    proof -
      from that have "code = 0" by (simp add: reply_event_def)
      then obtain y where "r = Some y" "response_ok A st y" using h assms(3) SignReply unfolding handler_ok_def by blast
      then show ?thesis using that by (auto simp: reply_event_def)
    qed
    from stack_page [OF assms(1) this] show ?thesis using SignReply by (simp add: carry_handler_def)
  qed (simp_all add: carry_handler_def assms(1))
qed

lemma stack_carry_multi:
  assumes "stack_ok env A st" "st_multi st = Some m" "e \<in> set (ms_out m)"
  shows "stack_ok env A (carry_multi m e st)"
proof -
  have m: "multi_ok (sent_decoded st) (result_ok A st) m" using assms by (simp add: stack_parts)
  show ?thesis
  proof (cases e)
    case (NewSigner k cs)
    then have "\<forall>c \<in> set cs. sent_decoded st c" "\<not> ms_forEnroll m" using m assms(3) unfolding multi_ok_def by blast+
    then show ?thesis
      using NewSigner stack_new [OF assms(1), of k cs "expired (ms_timer m)"] assms(1)
      by (cases "map_of (st_signers st) k") (auto simp: carry_multi_def)
  next
    case (CloseSigner k)
    have "stack_ok env A (upd_signer k (\<lambda>(s, n). (ss_close s, n)) st)"
    proof (rule stack_signer [OF assms(1)])
      fix s n assume "signer_ok (\<lambda>i d. \<exists>g. StToken k (WSign i) 0 d g \<in> A) s"
      from plain_ok [OF plain_close this] plain_close [of s]
      show "signer_ok (\<lambda>i d. \<exists>g. StToken k (WSign i) 0 d g \<in> A) (fst ((\<lambda>(s, n). (ss_close s, n)) (s, n)))
        \<and> set (ss_out s) \<subseteq> set (ss_out (fst ((\<lambda>(s, n). (ss_close s, n)) (s, n))))
        \<and> ss_challenges (fst ((\<lambda>(s, n). (ss_close s, n)) (s, n))) = ss_challenges s"
        by (simp add: plain_step_def)
    qed
    then show ?thesis using CloseSigner by (simp add: carry_multi_def)
  next
    case (GnubbyComplete k r b)
    then have "result_ok A st r" using m assms(3) unfolding multi_ok_def by blast
    then have r: "sr_code r = 0 \<Longrightarrow> \<exists>ch. sr_challenge r = Some ch \<and> response_ok A st (response_to ch (sr_info r))"
      unfolding result_ok_def response_ok_def by blast
    have "stack_ok env A (with_handler (gnubby_found r b) st)"
      by (rule stack_handler [OF assms(1)]) (rule handler_ok_found [OF _ r])
    then show ?thesis using GnubbyComplete by (simp add: carry_multi_def with_handler_def)
  next
    case (AllComplete b)
    have "stack_ok env A (with_handler (signerCompleted b) st)"
      by (rule stack_handler [OF assms(1)]) (rule handler_ok_completed)
    then show ?thesis using AllComplete by (simp add: carry_multi_def with_handler_def)
  qed (simp add: carry_multi_def assms(1))
qed

lemma stack_carry_signer:
  assumes "stack_ok env A st" "map_of (st_signers st) k = Some (s, n)" "e \<in> set (ss_out s)"
  shows "stack_ok env A (carry_signer k e (upd_signer k (\<lambda>(s, n). (s, n + 1)) st))"
proof -
  let ?st = "upd_signer k (\<lambda>(s, n). (s, n + 1)) st"
  have ok: "stack_ok env A ?st" by (rule stack_signer [OF assms(1)]) simp
  show ?thesis
  proof (cases e)
    case (CompleteCb r)
    have m: "map_of (st_signers ?st) k = Some (s, n + 1)" using assms(2) by (simp add: upd_signer_def map_of_upd)
    then have s: "signer_ok (\<lambda>i d. \<exists>g. StToken k (WSign i) 0 d g \<in> A) s" "\<forall>ch \<in> set (ss_challenges s). sent_decoded ?st ch"
      using ok unfolding stack_ok_def signers_ok_def by blast+
    have "result_ok A ?st r"
      unfolding result_ok_def
    proof
      assume "sr_code r = 0"
      then obtain i g where i: "i < length (ss_challenges s)" "sr_challenge r = Some (ss_challenges s ! i)"
          "Sign (ss_challenges s ! i) \<in> set (ss_out s)" "StToken k (WSign i) 0 (sr_info r) g \<in> A"
        using s(1) assms(3) CompleteCb unfolding signer_ok_def by blast
      then have "token_signed A ?st (ss_challenges s ! i) (sr_info r)" using m unfolding token_signed_def by blast
      then show "\<exists>ch. sr_challenge r = Some ch \<and> sent_decoded ?st ch \<and> token_signed A ?st ch (sr_info r)"
        using i s(2) by (intro exI [of _ "ss_challenges s ! i"]) simp
    qed
    then have "stack_ok env A (with_multi (signCompleted k r) ?st)"
      by (intro stack_multi [OF ok]) (rule multi_ok_completed)
    then show ?thesis using CompleteCb by (simp add: carry_signer_def with_multi_def)
  qed (use ok in \<open>simp_all add: carry_signer_def\<close>)
qed

lemma stack_step: "stack_ok env A st \<Longrightarrow> stack_ok env (insert e A) (st_step env e st)"
proof -
  let ?B = "insert e A"
  assume "stack_ok env A st"
  then have ok: "stack_ok env ?B st" by (rule stack_more) blast
  show ?thesis
  proof (cases e)
    case (StPage x)
    then show ?thesis
      using ok stack_page [OF ok, of x] by (cases x) (auto simp: page_only_def)
  next
    case (StDocuments docs)
    then show ?thesis using stack_page [OF ok, of "SgDocuments docs True (sg_challenges (st_page st) \<noteq> [])"] by simp
  next
    case (StVersion g rc d)
    show ?thesis unfolding StVersion st_step.simps
      by (rule stack_handler [OF ok [unfolded StVersion]]) (simp add: handler_ok_token)
  next
    case (StEnrolled g code)
    show ?thesis unfolding StEnrolled st_step.simps
      by (rule stack_handler [OF ok [unfolded StEnrolled]]) (simp add: handler_ok_token)
  next
    case (StEnumerated rc ids)
    show ?thesis unfolding StEnumerated st_step.simps
      by (rule stack_multi [OF ok [unfolded StEnumerated]]) (simp add: multi_ok_enumerate)
  next
    case (StTimer x)
    show ?thesis unfolding StTimer st_step.simps
      by (rule stack_multi [OF ok [unfolded StTimer]]) (simp add: multi_ok_timer)
  next
    case (StToken k w rc d g)
    show ?thesis unfolding StToken st_step.simps
    proof (rule stack_signer [OF ok [unfolded StToken]])
      let ?C = "insert (StToken k w rc d g) A"
      fix s n assume s: "signer_ok (\<lambda>i d'. \<exists>g'. StToken k (WSign i) 0 d' g' \<in> ?C) s"
      note a = signer_answer [OF s, of w rc d g]
      from a have "signer_ok (\<lambda>i d'. \<exists>g'. StToken k (WSign i) 0 d' g' \<in> ?C) (ss_step (SsBack w rc d g) s)"
        by (rule signer_ok_mono [OF conjunct1]) (auto simp: token_answers_def)
      with a show "signer_ok (\<lambda>i d'. \<exists>g'. StToken k (WSign i) 0 d' g' \<in> ?C) (fst ((\<lambda>(s, n). (ss_step (SsBack w rc d g) s, n)) (s, n)))
        \<and> set (ss_out s) \<subseteq> set (ss_out (fst ((\<lambda>(s, n). (ss_step (SsBack w rc d g) s, n)) (s, n))))
        \<and> ss_challenges (fst ((\<lambda>(s, n). (ss_step (SsBack w rc d g) s, n)) (s, n))) = ss_challenges s"
        by simp
    qed
  next
    case (StExpire k)
    show ?thesis unfolding StExpire st_step.simps
      by (rule stack_signer [OF ok [unfolded StExpire]]) (simp add: plain_ok [OF plain_updates(3)])
  next
    case CarryPage
    then show ?thesis
      using ok stack_carry_page [OF stack_done(1) [OF ok]] by (auto split: option.split dest: next_of_in)
  next
    case CarryHandler
    then show ?thesis
      using ok stack_carry_handler [OF stack_done(2) [OF ok]] by (auto split: option.split dest: next_of_in)
  next
    case CarryMulti
    then show ?thesis
      using ok stack_carry_multi [OF stack_done(3) [OF ok]] by (auto split: option.split dest: next_of_in)
  next
    case (CarrySigner k)
    then show ?thesis
      using ok stack_carry_signer [OF ok, of k] by (auto split: option.split prod.split dest: next_of_in)
  qed
qed

lemma stack_run: "stack_ok env A st \<Longrightarrow> stack_ok env (A \<union> set es) (fold (st_step env) es st)"
proof (induction es arbitrary: A st)
  case (Cons e es)
  from Cons.IH [OF stack_step [OF Cons.prems, of e]] show ?case by simp
qed simp

lemma stack_start: "signed_inv env h \<Longrightarrow> sg_out h = [] \<Longrightarrow> stack_ok env {} (usb_stack_for h)"
  by (simp add: stack_ok_def page_ok_def signers_ok_def usb_stack_for_def)

lemma page_parties: "same_parties h (st_page st) \<Longrightarrow> same_parties h (st_page (fold (st_step env) es st))"
proof (induction es arbitrary: st)
  case (Cons e es)
  have "same_parties (st_page st) (st_page (st_step env e st))"
    by (cases e) (auto simp: parties_step simp del: sg_step.simps simp: with_handler_def with_multi_def upd_signer_def carry_page_def carry_handler_def carry_multi_def carry_signer_def
        split: option.split sg_effect.split us_effect.split ms_effect.split ss_effect.split prod.split)
  then have "same_parties h (st_page (st_step env e st))" by (rule parties_trans [OF Cons.prems])
  from Cons.IH [OF this] show ?case by simp
qed simp

text \<open>
  C4. A response with a signature, whatever happens between the parts and in whatever order: some token was asked to
  sign the hash of exactly the client data in the response, for an app id of the request and the key handle of the
  response, it answered this very command with success, and the signature in the response is its answer. Key handles
  are as \<open>B64_encode\<close> writes them.
\<close>

theorem usb_signs:
  assumes "handleU2fSignRequest env sys m r = Inr h" "st = fold (st_step env) es (usb_stack_for h)"
    and "\<forall>c \<in> set (sg_challenges h). B64_encode (B64_decode (key_of c)) None = key_of c"
    and "SgReply resp \<in> set (sg_out (st_page st))" "resp_data resp = SignData k cd sig"
  shows "\<exists>c \<in> set (sg_challenges h). \<exists>d a dev s n i ch info g. key_of c = k \<and> data_of env (sg_sender h) r c = Some d
    \<and> cd = B64_encode (UTIL_StringToBytes d) None \<and> a \<in> insert [] (set (session_ids h))
    \<and> map_of (st_signers st) dev = Some (s, n) \<and> i < length (ss_challenges s) \<and> ss_challenges s ! i = ch \<and> Sign ch \<in> set (ss_out s)
    \<and> sc_challengeHash ch = sha256HashOfString d \<and> sc_appIdHash ch = sha256HashOfString a \<and> sc_keyHandle ch = B64_decode k
    \<and> StToken dev (WSign i) 0 info g \<in> set es \<and> sig = B64_encode (case info of Some b \<Rightarrow> b | None \<Rightarrow> []) None"
proof -
  let ?p = "st_page st"
  have ok: "stack_ok env (set es) st"
    using stack_run [OF stack_start [OF signed_start [OF assms(1)]], of es] sign_starts [OF assms(1)] by (simp add: assms(2))
  have same: "same_parties h ?p" unfolding assms(2) by (rule page_parties) (simp add: usb_stack_for_def)
  then have p: "sg_sender ?p = sg_sender h" "sg_challenges ?p = sg_challenges h" "sg_request ?p = r" "session_ids ?p = session_ids h"
    using sign_starts [OF assms(1)] by (simp_all add: same_parties_def session_ids_def)
  have i: "signed_inv env ?p" using ok by (simp add: stack_ok_def page_ok_def)
  obtain ch info where y: "sent_decoded st ch" "token_signed (set es) st ch info" "k = re_keyHandle (response_to ch info)"
      "sig = re_signatureData (response_to ch info)"
    using ok assms(4,5) unfolding stack_ok_def page_ok_def response_ok_def by blast
  then obtain hc req where hc: "SgStart req \<in> set (sg_out ?p)" "hc \<in> set (shr_signData req)" "ch = decode_challenge hc"
    unfolding sent_decoded_def sent_def by blast
  have sd: "signs_data ?p req" and sh: "signed_hashes (session_ids ?p) req" using i hc(1) unfolding signed_inv_def by blast+
  obtain d where d: "map_of (sg_browserData ?p) (hc_keyHandle hc) = Some d" "hc_challengeHash hc = B64_encode (sha256HashOfString d) None"
    using sd hc(2) unfolding signs_data_def by blast
  obtain a where a: "a \<in> insert [] (set (session_ids h))" "hc_appIdHash hc = B64_encode (sha256HashOfString a) None"
    using sh hc(2) unfolding signed_hashes_def p(4) by blast
  have "case (map_of (sg_browserData ?p) (hc_keyHandle hc), map_of (sg_serverChallenges ?p) (hc_keyHandle hc)) of (None, None) \<Rightarrow> True
     | (Some d, Some c) \<Rightarrow> c \<in> set (sg_challenges h) \<and> key_of c = hc_keyHandle hc \<and> data_of env (sg_sender h) r c = Some d | _ \<Rightarrow> False"
    using i unfolding signed_inv_def matching_def p by blast
  with d(1) obtain c where c: "c \<in> set (sg_challenges h)" "key_of c = hc_keyHandle hc" "data_of env (sg_sender h) r c = Some d"
    by (auto split: option.splits)
  have k: "k = hc_keyHandle hc"
    using assms(3) c y(3) hc(3) by (force simp: response_to_def decode_challenge_def)
  have cd: "cd = B64_encode (UTIL_StringToBytes d) None"
    using i assms(4,5) d(1) unfolding signed_inv_def k by auto
  have f: "sc_challengeHash ch = sha256HashOfString d" "sc_appIdHash ch = sha256HashOfString a" "sc_keyHandle ch = B64_decode k"
    using d(2) a(2) by (simp_all add: hc(3) decode_challenge_def k b64.dec_enc)
  obtain dev s n j g where "map_of (st_signers st) dev = Some (s, n)" "j < length (ss_challenges s)" "ss_challenges s ! j = ch"
      "Sign ch \<in> set (ss_out s)" "StToken dev (WSign j) 0 info g \<in> set es"
    using y(2) unfolding token_signed_def by blast
  note t = this
  show ?thesis
    by (intro bexI [of _ c] exI [of _ d] exI [of _ a] exI [of _ dev] exI [of _ s] exI [of _ n] exI [of _ j] exI [of _ ch] exI [of _ info] exI [of _ g])
      (use t f c k cd a(1) y(4) in \<open>simp_all add: response_to_def\<close>)
qed

text \<open>
  The handler encodes the key handle that it had decoded. When the page wrote the key handle in another way, such as
  with other bits in the unused part of its last character, the signer does not find it: it is done, but
  does not respond.
\<close>

theorem reencoded_key_lost:
  assumes "map_of (sg_serverChallenges h) (B64_encode (sc_keyHandle ch) None) = None"
  shows "sg_replies (sg_step env (reply_event 0 (Some (response_to ch info))) h) = sg_replies h"
proof -
  have "sg_replies (complete_token (sg_close_quiet (h\<lparr>sg_done := True\<rparr>))) = sg_replies h"
    by (rule silent_replies [OF silent_fail])
  then show ?thesis
    using assms by (simp add: reply_event_def response_to_def sg_helperComplete_def sg_notifySuccess_def sg_wrapped_def)
qed

lemma reencoded_key_lost_witness:
  "(let c = decode_challenge \<lparr>hc_challengeHash = [], hc_appIdHash = [], hc_keyHandle = ''kh'', hc_version = None\<rparr>;
        h = sign_start\<lparr>sg_started := True, sg_serverChallenges := [(''kh'', key_challenge)], sg_browserData := [(''kh'', ''d'')]\<rparr>
    in sg_replies (sg_step reg_env (reply_event 0 (Some (response_to c None))) h) = sg_replies h)"
proof -
  have "B64_encode (sc_keyHandle (decode_challenge \<lparr>hc_challengeHash = [], hc_appIdHash = [], hc_keyHandle = ''kh'', hc_version = None\<rparr>)) None \<noteq> ''kh''"
    by code_simp
  then show ?thesis unfolding Let_def by (intro reencoded_key_lost) simp
qed

subsection \<open>A signature, from the page to a token and back\<close>

definition key_asked :: "string \<Rightarrow> string \<Rightarrow> helper_challenge" where
  "key_asked H A = \<lparr>hc_challengeHash = H, hc_appIdHash = A, hc_keyHandle = ''a2g'', hc_version = Some U2F_V2\<rparr>"

definition request_asked :: "string \<Rightarrow> string \<Rightarrow> sign_helper_request" where
  "request_asked H A = \<lparr>shr_signData = [key_asked H A], shr_timeout = 17 / 2, shr_timeoutSeconds = 17 / 2\<rparr>"

text \<open>A token is found, opened, tells its version and signs.\<close>

definition token_events :: "st_event list" where
  "token_events =
     [CarryHandler, CarryMulti, StEnumerated 0 [(''hid'', 1)], CarryMulti, StToken (''hid'', 1) WOpen 0 None (Some 7),
      StToken (''hid'', 1) WVersion 0 (Some (UTIL_StringToBytes U2F_V2)) None,
      StToken (''hid'', 1) (WSign 0) 0 (Some [1, 2, 3]) None, CarrySigner (''hid'', 1), CarrySigner (''hid'', 1),
      CarrySigner (''hid'', 1), CarrySigner (''hid'', 1), CarryMulti, CarryHandler, CarryHandler]"

lemma token_replies:
  "let st' = fold (st_step env) token_events \<lparr>st_page = P, st_page_done = 1, st_handler = Some (usb_sign_handler (request_asked H A)),
       st_handler_done = 0, st_multi = None, st_multi_done = 0, st_signers = []\<rparr>
   in st_page st' = P \<and> map_option (\<lambda>h. next_of (us_out h) (st_handler_done st')) (st_handler st')
      = Some (Some (SignReply 0 (Some (response_to (decode_challenge (key_asked H A)) (Some [1, 2, 3])))))"
  by code_simp

lemma page_timer: "millisecondsUntilExpired (sg_timer before_documents) / 1000 = 17 / 2" "sg_out before_documents = []"
proof -
  define h where "h = sg_step reg_env SgBegin sign_start"
  have b: "before_documents = sg_step reg_env SgClaimed h"
    by (simp only: before_documents_def h_def fold.simps comp_apply id_apply)
  have "let h = sg_step reg_env SgBegin sign_start in millisecondsUntilExpired (sg_timer h) / 1000 = 17 / 2 \<and> sg_out h = []"
    by code_simp
  then have "millisecondsUntilExpired (sg_timer h) / 1000 = 17 / 2 \<and> sg_out h = []" unfolding Let_def h_def .
  moreover have "sg_wait h = SgClaim [''https://a.com''] \<and> ws_origin (sg_sender h) = ''https://a.com''"
    using at_claim unfolding Let_def h_def by blast
  ultimately show "millisecondsUntilExpired (sg_timer before_documents) / 1000 = 17 / 2" "sg_out before_documents = []"
    using reg_claim by (simp_all add: b sg_originChecked_def case_prod_beta)
qed

lemma asked_out: "\<exists>H A. sg_out asked = [SgStart (request_asked H A)]"
proof -
  have "checkAppIds J False b o' d [o'] = Some True" for J b o' d by (subst check_iff) simp
  moreover have "server_challenge sign_req key_challenge = Some ''c''" by code_simp
  ultimately show ?thesis
    using at_documents page_timer
    by (simp add: asked_def appIdChecked_def sg_doSign_def encodeSignChallenges_def encodeSignChallenge_def getChallengeHash_def
        update_conv' key_challenge_def Let_def sg_emit_def U2F_V2_def makeSignHelperRequest_def request_asked_def key_asked_def)
qed

definition page_events :: "st_event list" where
  "page_events = [StPage SgBegin, StPage SgClaimed, StDocuments (\<lambda>_. []), CarryPage]"

lemma page_asks:
  assumes "sg_out asked = [SgStart req]"
  shows "fold (st_step reg_env) page_events (usb_stack_for sign_start) = \<lparr>st_page = asked, st_page_done = 1, st_handler = Some (usb_sign_handler req),
       st_handler_done = 0, st_multi = None, st_multi_done = 0, st_signers = []\<rparr>"
proof -
  have "before_documents = sg_step reg_env SgClaimed (sg_step reg_env SgBegin sign_start)"
    by (simp only: before_documents_def fold.simps comp_apply id_apply)
  note b = this [symmetric]
  have a: "sg_step reg_env (SgDocuments (\<lambda>_. []) True True) before_documents = asked" by (simp only: asked_def)
  have c: "sg_challenges before_documents \<noteq> []" using at_documents(3) by simp
  show ?thesis
    by (simp add: page_events_def page_only_def usb_stack_for_def b c a assms next_of_def carry_page_def del: sg_step.simps)
qed

definition stack_run_end :: usb_stack where
  "stack_run_end = fold (st_step reg_env) (page_events @ token_events @ [CarryHandler]) (usb_stack_for sign_start)"

lemma run_responds: "\<exists>resp cd. SgReply resp \<in> set (sg_out (st_page stack_run_end)) \<and> resp_data resp = SignData ''a2g'' cd (B64_encode [1, 2, 3] None)"
proof -
  obtain H A where HA: "sg_out asked = [SgStart (request_asked H A)]" using asked_out by blast
  define st where "st = fold (st_step reg_env) token_events \<lparr>st_page = asked, st_page_done = 1,
    st_handler = Some (usb_sign_handler (request_asked H A)), st_handler_done = 0, st_multi = None, st_multi_done = 0, st_signers = []\<rparr>"
  have e: "stack_run_end = st_step reg_env CarryHandler st"
    by (simp only: stack_run_end_def fold_append comp_apply page_asks [OF HA] st_def fold.simps id_apply)
  have "st_page st = asked" and n: "map_option (\<lambda>h. next_of (us_out h) (st_handler_done st)) (st_handler st)
      = Some (Some (SignReply 0 (Some (response_to (decode_challenge (key_asked H A)) (Some [1, 2, 3])))))"
    using token_replies [of reg_env asked H A] unfolding st_def Let_def by blast+
  have k: "B64_encode (sc_keyHandle (decode_challenge (key_asked H A))) None = ''a2g''"
  proof -
    have "B64_encode (B64_decode ''a2g'') None = ''a2g''" by code_simp
    then show ?thesis by (simp add: decode_challenge_def key_asked_def)
  qed
  have p: "st_page stack_run_end = sg_step reg_env (SgHelper ''sign_helper_reply'' 0 ''a2g'' (B64_encode [1, 2, 3] None)) asked"
    using n \<open>st_page st = asked\<close> k
    by (auto simp: e carry_handler_def reply_event_def response_to_def simp del: sg_step.simps)
  have h: "map_of (sg_browserData asked) ''a2g'' = Some (sign_client_data reg_env (sg_sender before_documents) ''c'')"
    "map_of (sg_serverChallenges asked) ''a2g'' = Some key_challenge" "\<not> sg_done asked" "\<not> wd_closed (sg_wd asked)" "sg_started asked"
    using documents_state [OF at_documents] fresh_documents unfolding asked_def Let_def by blast+
  have "key_of key_challenge = ''a2g''" by code_simp
  from success_replies [OF h(1,2) this h(3,4,5)] show ?thesis unfolding p by blast
qed

theorem usb_signs_witness:
  "\<exists>d dev s n ch. data_of reg_env (sg_sender sign_start) sign_req key_challenge = Some d
     \<and> map_of (st_signers stack_run_end) dev = Some (s, n) \<and> Sign ch \<in> set (ss_out s) \<and> sc_challengeHash ch = sha256HashOfString d"
proof -
  obtain resp cd where r: "SgReply resp \<in> set (sg_out (st_page stack_run_end))" "resp_data resp = SignData ''a2g'' cd (B64_encode [1, 2, 3] None)"
    using run_responds by blast
  have "sg_challenges sign_start = [key_challenge]" by code_simp
  then have one: "set (sg_challenges sign_start) = {key_challenge}" by (simp only: list.set)
  have "B64_encode (B64_decode (key_of key_challenge)) None = key_of key_challenge" by code_simp
  then have canonical: "\<forall>c \<in> set (sg_challenges sign_start). B64_encode (B64_decode (key_of c)) None = key_of c"
    unfolding one by blast
  from usb_signs [OF sign_started stack_run_end_def canonical r] show ?thesis unfolding one by blast
qed

end
