(* ===== verification/Json.thy ===== *)
theory Json
  imports WebRequest
begin

text \<open>
  \<open>JSON.parse\<close>, which the extension and the script of web pages apply to documents of other programs, and what
  it gives on a text written by \<open>JSON.stringify\<close>. The text of a number is read by \<open>num\<close>, which stands for
  the conversion to a double and back; a character is a code unit below 256. The parser has fuel, and twice the
  length of the text is always enough.
\<close>

subsection \<open>The parser\<close>

definition skip_ws :: "string \<Rightarrow> string" where
  "skip_ws = dropWhile (\<lambda>c. c \<in> {CHR 0x20, CHR 0x09, CHR 0x0A, CHR 0x0D})"

definition simple_escapes :: "(char \<times> char) list" where
  "simple_escapes = [(CHR 0x22, CHR 0x22), (CHR 0x5C, CHR 0x5C), (CHR ''/'', CHR ''/''), (CHR ''b'', CHR 0x08),
     (CHR ''f'', CHR 0x0C), (CHR ''n'', CHR 0x0A), (CHR ''r'', CHR 0x0D), (CHR ''t'', CHR 0x09)]"

definition hex4 :: "string \<Rightarrow> nat option" where
  "hex4 s = (if length s = 4 then map_option (foldl (\<lambda>a d. 16 * a + d) 0) (those (map hex_digit s)) else None)"

text \<open>The rest of a string literal after its opening quote: the string, and what follows the closing quote.\<close>

fun json_string :: "string \<Rightarrow> (string \<times> string) option" where
  "json_string [] = None"
| "json_string (c # r) =
     (if c = CHR 0x22 then Some ([], r)
      else if c = CHR 0x5C then
        (case r of [] \<Rightarrow> None
         | e # r1 \<Rightarrow>
           if e = CHR ''u'' then
             (case hex4 (take 4 r1) of None \<Rightarrow> None
              | Some n \<Rightarrow> if n \<ge> 256 then None else map_option (\<lambda>(t, r2). (char_of n # t, r2)) (json_string (drop 4 r1)))
           else (case map_of simple_escapes e of None \<Rightarrow> None
              | Some d \<Rightarrow> map_option (\<lambda>(t, r2). (d # t, r2)) (json_string r1)))
      else if (of_char c :: nat) < 32 then None
      else map_option (\<lambda>(t, r2). (c # t, r2)) (json_string r))"

definition is_digit :: "char \<Rightarrow> bool" where
  "is_digit c \<longleftrightarrow> 48 \<le> (of_char c :: nat) \<and> (of_char c :: nat) \<le> 57"

definition number_char :: "char \<Rightarrow> bool" where
  "number_char c \<longleftrightarrow> is_digit c \<or> c \<in> {CHR ''+'', CHR ''-'', CHR ''.'', CHR ''e'', CHR ''E''}"

definition digits_only :: "string \<Rightarrow> bool" where
  "digits_only s \<longleftrightarrow> s \<noteq> [] \<and> list_all is_digit s"

definition exponent :: "string \<Rightarrow> bool" where
  "exponent s \<longleftrightarrow> s = [] \<or> hd s \<in> {CHR ''e'', CHR ''E''}
     \<and> digits_only (if take 1 (tl s) \<in> {''+'', ''-''} then drop 1 (tl s) else tl s)"

definition number_literal :: "string \<Rightarrow> bool" where
  "number_literal t =
     (let s = (if take 1 t = ''-'' then drop 1 t else t);
          ip = takeWhile is_digit s; r = dropWhile is_digit s;
          fp = (if take 1 r = ''.'' then takeWhile is_digit (drop 1 r) else []);
          e = (if take 1 r = ''.'' then dropWhile is_digit (drop 1 r) else r)
      in ip \<noteq> [] \<and> (length ip = 1 \<or> hd ip \<noteq> CHR ''0'') \<and> (take 1 r = ''.'' \<longrightarrow> fp \<noteq> []) \<and> exponent e)"

text \<open>
  The characters of a number are taken as far as they go: where the grammar would end a number before such a
  character, the text is refused anyway.
\<close>

definition json_number :: "(string \<Rightarrow> string) \<Rightarrow> string \<Rightarrow> (jsval \<times> string) option" where
  "json_number num s = (let t = takeWhile number_char s in
     if number_literal t then Some (JNum (num t), dropWhile number_char s) else None)"

text \<open>An object of these members: the last of a name wins, and the names are in the order of \<open>Object.keys\<close>.\<close>

definition js_object :: "(string \<times> jsval) list \<Rightarrow> (string \<times> jsval) list" where
  "js_object ms = (let ob = fold (\<lambda>(k, v). AList.update k v) ms [] in map (\<lambda>k. (k, the (map_of ob k))) (js_keys ob))"

definition json_word :: "string \<Rightarrow> jsval \<Rightarrow> string \<Rightarrow> (jsval \<times> string) option" where
  "json_word w v s = (if take (length w) s = w then Some (v, drop (length w) s) else None)"

fun json_value :: "(string \<Rightarrow> string) \<Rightarrow> nat \<Rightarrow> string \<Rightarrow> (jsval \<times> string) option"
  and json_elements :: "(string \<Rightarrow> string) \<Rightarrow> nat \<Rightarrow> string \<Rightarrow> (jsval list \<times> string) option"
  and json_members :: "(string \<Rightarrow> string) \<Rightarrow> nat \<Rightarrow> string \<Rightarrow> ((string \<times> jsval) list \<times> string) option" where
  "json_value num 0 s = None"
| "json_value num (Suc n) s =
     (case skip_ws s of [] \<Rightarrow> None
      | c # r \<Rightarrow>
        if c = CHR 0x22 then map_option (\<lambda>(t, r'). (JStr t, r')) (json_string r)
        else if c = CHR ''['' then
          (if take 1 (skip_ws r) = '']'' then Some (JArr [], drop 1 (skip_ws r))
           else map_option (\<lambda>(xs, r'). (JArr xs, r')) (json_elements num n r))
        else if c = CHR ''{'' then
          (if take 1 (skip_ws r) = ''}'' then Some (JObj [], drop 1 (skip_ws r))
           else map_option (\<lambda>(ms, r'). (JObj (js_object ms), r')) (json_members num n r))
        else if c = CHR ''t'' then json_word ''true'' (JBool True) (c # r)
        else if c = CHR ''f'' then json_word ''false'' (JBool False) (c # r)
        else if c = CHR ''n'' then json_word ''null'' JNull (c # r)
        else json_number num (c # r))"
| "json_elements num 0 s = None"
| "json_elements num (Suc n) s =
     (case json_value num n s of None \<Rightarrow> None
      | Some (v, r) \<Rightarrow>
        if take 1 (skip_ws r) = '','' then map_option (\<lambda>(vs, r'). (v # vs, r')) (json_elements num n (drop 1 (skip_ws r)))
        else if take 1 (skip_ws r) = '']'' then Some ([v], drop 1 (skip_ws r)) else None)"
| "json_members num 0 s = None"
| "json_members num (Suc n) s =
     (if take 1 (skip_ws s) \<noteq> [CHR 0x22] then None
      else (case json_string (drop 1 (skip_ws s)) of None \<Rightarrow> None
        | Some (k, r) \<Rightarrow>
          if take 1 (skip_ws r) \<noteq> '':'' then None
          else (case json_value num n (drop 1 (skip_ws r)) of None \<Rightarrow> None
            | Some (v, r1) \<Rightarrow>
              if take 1 (skip_ws r1) = '','' then map_option (\<lambda>(ms, r'). ((k, v) # ms, r')) (json_members num n (drop 1 (skip_ws r1)))
              else if take 1 (skip_ws r1) = ''}'' then Some ([(k, v)], drop 1 (skip_ws r1)) else None)))"

text \<open>\<open>None\<close> is a \<open>SyntaxError\<close>.\<close>

definition JSON_parse :: "(string \<Rightarrow> string) \<Rightarrow> string \<Rightarrow> jsval option" where
  "JSON_parse num s =
     (case json_value num (2 * length s + 1) s of None \<Rightarrow> None
      | Some (v, r) \<Rightarrow> if skip_ws r = [] then Some v else None)"

subsection \<open>The fuel is enough\<close>

lemma skip_ws_length: "length (skip_ws s) \<le> length s"
  by (simp add: skip_ws_def length_dropWhile_le)

lemma skip_ws_idem [simp]: "skip_ws (skip_ws s) = skip_ws s"
  unfolding skip_ws_def by (rule dropWhile_idem)

lemma string_consumes: "json_string s = Some (t, r) \<Longrightarrow> length r < length s"
proof (induction s arbitrary: t r rule: json_string.induct)
  case (2 c s)
  then show ?case
    by (fastforce split: if_splits option.splits list.splits)
qed simp

lemma word_consumes: "json_word w v s = Some (x, r) \<Longrightarrow> w \<noteq> [] \<Longrightarrow> s \<noteq> [] \<Longrightarrow> length r < length s"
  by (cases w; cases s) (auto simp: json_word_def less_Suc_eq_le split: if_splits)

lemma literal_nonempty: "number_literal t \<Longrightarrow> t \<noteq> []"
  by (auto simp: number_literal_def Let_def)

lemma number_consumes: "json_number num s = Some (x, r) \<Longrightarrow> length r < length s"
proof -
  assume a: "json_number num s = Some (x, r)"
  then have "takeWhile number_char s \<noteq> []" "r = dropWhile number_char s"
    using literal_nonempty by (auto simp: json_number_def Let_def split: if_splits)
  moreover have "length s = length (takeWhile number_char s) + length (dropWhile number_char s)"
    using takeWhile_dropWhile_id [of number_char s] length_append by metis
  ultimately show ?thesis by simp
qed

lemma drop1_ws: "length (drop 1 (skip_ws s)) \<le> length s"
  using skip_ws_length [of s] by simp

lemma parser_consumes:
  "json_value num n s = Some (v, r) \<Longrightarrow> length r < length s"
  "json_elements num n s = Some (vs, r) \<Longrightarrow> length r < length s"
  "json_members num n s = Some (ms, r) \<Longrightarrow> length r < length s"
proof (induction num n s and num n s and num n s arbitrary: v r and vs r and ms r
    rule: json_value_json_elements_json_members.induct)
  case (2 num n s)
  obtain c q where cq: "skip_ws s = c # q" using "2.prems" by (cases "skip_ws s") auto
  then have len: "length (c # q) \<le> length s" using skip_ws_length [of s] by simp
  show ?case
    using "2.prems" "2.IH"(1) [OF cq] "2.IH"(2) [OF cq] cq len
      string_consumes [of q] word_consumes [of _ _ "c # q"] number_consumes [of num "c # q"] drop1_ws [of q]
    by (fastforce split: if_splits)
next
  case (4 num n s)
  obtain v' r' where v: "json_value num n s = Some (v', r')" using "4.prems" by (cases "json_value num n s") auto
  note one = "4.IH"(1) [OF v]
  show ?case
  proof (cases "take 1 (skip_ws r') = '',''")
    case True
    with "4.prems" v obtain vs' where "json_elements num n (drop 1 (skip_ws r')) = Some (vs', r)" by auto
    from "4.IH"(2) [OF v refl True this] one drop1_ws [of r'] show ?thesis by linarith
  next
    case False
    then have "r = drop 1 (skip_ws r')" using "4.prems" v by (auto split: if_splits)
    with one drop1_ws [of r'] show ?thesis by auto
  qed
next
  case (6 num n s)
  let ?q = "drop 1 (skip_ws s)"
  have q: "take 1 (skip_ws s) = [CHR 0x22]" using "6.prems" by (auto split: if_splits)
  obtain k r1 where k: "json_string ?q = Some (k, r1)" using "6.prems" q by (cases "json_string ?q") auto
  have c: "take 1 (skip_ws r1) = '':''" using "6.prems" q k by (auto split: if_splits)
  obtain v r2 where v: "json_value num n (drop 1 (skip_ws r1)) = Some (v, r2)"
    using "6.prems" q k c by (cases "json_value num n (drop 1 (skip_ws r1))") auto
  have one: "length r2 < length s"
    using string_consumes [OF k] "6.IH"(1) [OF _ k refl _ v] q c drop1_ws [of s] drop1_ws [of r1] by fastforce
  show ?case
  proof (cases "take 1 (skip_ws r2) = '',''")
    case True
    with "6.prems" q k c v obtain ms' where "json_members num n (drop 1 (skip_ws r2)) = Some (ms', r)" by auto
    from "6.IH"(2) [OF _ k refl _ v refl True this] q c one drop1_ws [of r2] show ?thesis by fastforce
  next
    case False
    then have "r = drop 1 (skip_ws r2)" using "6.prems" q k c v by (auto split: if_splits)
    with one drop1_ws [of r2] show ?thesis by auto
  qed
qed simp_all

lemma more_fuel:
  "2 * length s + 1 \<le> n \<Longrightarrow> json_value num (Suc n) s = json_value num n s"
  "2 * length s + 2 \<le> n \<Longrightarrow> json_elements num (Suc n) s = json_elements num n s"
  "2 * length s + 2 \<le> n \<Longrightarrow> json_members num (Suc n) s = json_members num n s"
proof (induction num n s and num n s and num n s rule: json_value_json_elements_json_members.induct)
  case (2 num n s)
  show ?case
  proof (cases "skip_ws s")
    case (Cons c q)
    then have "2 * length q + 2 \<le> n" using "2.prems" skip_ws_length [of s] by simp
    with "2.IH" Cons show ?thesis by simp
  qed simp
next
  case (4 num n s)
  note v = "4.IH"(1)
  show ?case
  proof (cases "json_value num n s")
    case (Some vr)
    obtain v' r where vr: "vr = (v', r)" by (cases vr)
    have "2 * length (drop 1 (skip_ws r)) + 2 \<le> n"
      using parser_consumes(1) [OF Some [unfolded vr]] drop1_ws [of r] "4.prems" by simp
    with v "4.IH"(2) [OF Some vr [symmetric]] Some vr "4.prems" show ?thesis by (simp del: json_value.simps)
  qed (use v "4.prems" in \<open>simp del: json_value.simps\<close>)
next
  case (6 num n s)
  show ?case
  proof (cases "take 1 (skip_ws s) = [CHR 0x22]")
    case q: True
    show ?thesis
    proof (cases "json_string (drop 1 (skip_ws s))")
      case (Some kr)
      obtain k r where kr: "kr = (k, r)" by (cases kr)
      have len: "length r < length s" using string_consumes [OF Some [unfolded kr]] drop1_ws [of s] by simp
      show ?thesis
      proof (cases "take 1 (skip_ws r) = '':''")
        case c: True
        let ?r = "drop 1 (skip_ws r)"
        have v: "json_value num (Suc n) ?r = json_value num n ?r"
          using "6.IH"(1) [OF _ Some kr [symmetric]] q c len drop1_ws [of r] "6.prems" by simp
        show ?thesis
        proof (cases "json_value num n ?r")
          case None
          with v q c Some kr show ?thesis by (simp del: json_value.simps)
        next
          case (Some vr)
          obtain v' r' where vr: "vr = (v', r')" by (cases vr)
          have "2 * length (drop 1 (skip_ws r')) + 2 \<le> n"
            using parser_consumes(1) [OF Some [unfolded vr]] drop1_ws [of r'] drop1_ws [of r] len "6.prems" by simp
          with "6.IH"(2) [OF _ \<open>json_string (drop 1 (skip_ws s)) = Some kr\<close> kr [symmetric] _ Some vr [symmetric]] v q c Some vr \<open>json_string (drop 1 (skip_ws s)) = Some kr\<close> kr
          show ?thesis by (simp del: json_value.simps)
        qed
      qed (use Some kr q in simp)
    qed (use q in simp)
  qed simp
qed simp_all

lemma fuel_enough: "2 * length s + 1 \<le> n \<Longrightarrow> json_value num n s = json_value num (2 * length s + 1) s"
proof (induction n rule: dec_induct)
  case (step n)
  with more_fuel(1) [of s n num] show ?case by simp
qed simp

subsection \<open>Reading back what was written\<close>

text \<open>
  Values as the program has them: a number by its canonical text, the names of an object distinct and in the order
  of \<open>Object.keys\<close>. \<open>kept\<close> is what is left of a value when it is written and read.
\<close>

definition js_ordered :: "string list \<Rightarrow> bool" where
  "js_ordered ks \<longleftrightarrow> distinct ks \<and> sort_key (dec_value 0) (filter is_index_key ks) @ filter (\<lambda>k. \<not> is_index_key k) ks = ks"

definition infinite_text :: "string \<Rightarrow> bool" where
  "infinite_text t \<longleftrightarrow> t \<in> {''Infinity'', ''-Infinity'', ''NaN''}"

definition canonical :: "(string \<Rightarrow> string) \<Rightarrow> string \<Rightarrow> bool" where
  "canonical num t \<longleftrightarrow> list_all number_char t \<and> number_literal t \<and> num t = t"

fun json_wf :: "(string \<Rightarrow> string) \<Rightarrow> jsval \<Rightarrow> bool" where
  "json_wf num (JNum t) = (infinite_text t \<or> canonical num t)"
| "json_wf num (JArr xs) = list_all (json_wf num) xs"
| "json_wf num (JObj ob) = (js_ordered (map fst ob) \<and> list_all (\<lambda>(k, v). json_wf num v) ob)"
| "json_wf num _ = True"

fun kept :: "jsval \<Rightarrow> jsval" where
  "kept JUndef = JNull"
| "kept (JNum t) = (if infinite_text t then JNull else JNum t)"
| "kept (JArr xs) = JArr (map kept xs)"
| "kept (JObj ob) = JObj (map (\<lambda>(k, v). (k, kept v)) (filter (\<lambda>(k, v). v \<noteq> JUndef) ob))"
| "kept v = v"

lemma hex4_escape:
  assumes "n < 32"
  shows "hex4 [CHR ''0'', CHR ''0'', ''0123456789abcdef'' ! (n div 16), ''0123456789abcdef'' ! (n mod 16)] = Some n"
proof -
  have "hex_digit CHR ''0'' = Some 0" by (simp add: hex_digit_def)
  moreover have "hex_digit (''0123456789abcdef'' ! (n div 16)) = Some (n div 16)" "hex_digit (''0123456789abcdef'' ! (n mod 16)) = Some (n mod 16)"
    using assms by (intro hexdigit_lower; simp)+
  ultimately show ?thesis by (simp add: hex4_def)
qed

lemma string_escape: "json_string (json_escape c @ q) = map_option (\<lambda>(t, r). (c # t, r)) (json_string q)"
proof -
  have n: "of_char (CHR 0x5C) = (0x5C :: nat)" "of_char (CHR 0x22) = (0x22 :: nat)" "of_char (CHR 0x08) = (8 :: nat)" "of_char (CHR 0x09) = (9 :: nat)"
    "of_char (CHR 0x0A) = (10 :: nat)" "of_char (CHR 0x0C) = (12 :: nat)" "of_char (CHR 0x0D) = (13 :: nat)" by simp_all
  have q: "c = CHR 0x5C \<longleftrightarrow> of_char c = (0x5C :: nat)" "c = CHR 0x22 \<longleftrightarrow> of_char c = (0x22 :: nat)"
    "c = CHR 0x08 \<longleftrightarrow> of_char c = (8 :: nat)" "c = CHR 0x09 \<longleftrightarrow> of_char c = (9 :: nat)" "c = CHR 0x0A \<longleftrightarrow> of_char c = (10 :: nat)"
    "c = CHR 0x0C \<longleftrightarrow> of_char c = (12 :: nat)" "c = CHR 0x0D \<longleftrightarrow> of_char c = (13 :: nat)"
    by (use n in \<open>metis char_of_char\<close>)+
  have u: "hex4 [CHR ''0'', CHR ''0'', ''0123456789abcdef'' ! (of_char c div 16), ''0123456789abcdef'' ! (of_char c mod 16)] = Some (of_char c)"
    if "(of_char c :: nat) < 32" using hex4_escape [OF that] .
  show ?thesis
    using q u by (auto simp: json_escape_def Let_def simple_escapes_def)
qed

lemma string_quoted: "json_string (concat (map json_escape s) @ CHR 0x22 # r) = Some (s, r)"
  by (induction s) (simp_all add: string_escape del: json_string.simps(2), simp)

lemma update_fresh: "k \<notin> fst ` set ob \<Longrightarrow> AList.update k v ob = ob @ [(k, v)]"
  by (induction ob) auto

lemma js_object_ordered:
  assumes "js_ordered (map fst ms)"
  shows "js_object ms = ms"
proof -
  have "fold (\<lambda>(k, v). AList.update k v) ms acc = acc @ ms"
    if "distinct (map fst ms)" "fst ` set ms \<inter> fst ` set acc = {}" for ms acc :: "(string \<times> jsval) list"
    using that by (induction ms arbitrary: acc) (auto simp: update_fresh)
  from this [of ms "[]"] have f: "fold (\<lambda>(k, v). AList.update k v) ms [] = ms" using assms by (simp add: js_ordered_def)
  have d: "distinct (map fst ms)" and k: "js_keys ms = map fst ms" using assms by (simp_all add: js_ordered_def js_keys_def Let_def)
  have "map (\<lambda>k. (k, the (map_of ms k))) (map fst ms) = ms"
    using d by (auto simp: comp_def intro: map_idI)
  then show ?thesis by (simp add: js_object_def f k)
qed

lemma sort_key_filter: "sort_key f (filter P xs) = filter P (sort_key f xs)"
  by (simp add: filter_sort)

lemma ordered_filter:
  assumes "js_ordered (map fst ob)"
  shows "js_ordered (map fst (filter P ob))"
proof -
  let ?ks = "map fst ob"
  define Q where "Q k \<longleftrightarrow> (\<exists>v. (k, v) \<in> set ob \<and> P (k, v))" for k
  have d: "distinct ?ks" and s: "sort_key (dec_value 0) (filter is_index_key ?ks) @ filter (\<lambda>k. \<not> is_index_key k) ?ks = ?ks"
    using assms by (simp_all add: js_ordered_def)
  have "filter Q ?ks = map fst (filter (Q \<circ> fst) ob)" by (simp add: filter_map)
  also have "filter (Q \<circ> fst) ob = filter P ob"
    by (rule filter_cong) (use d in \<open>auto simp: Q_def dest: eq_key_imp_eq_value\<close>)
  finally have m: "map fst (filter P ob) = filter Q ?ks" ..
  have "filter Q ?ks = filter Q (sort_key (dec_value 0) (filter is_index_key ?ks) @ filter (\<lambda>k. \<not> is_index_key k) ?ks)" by (simp only: s)
  also have "\<dots> = sort_key (dec_value 0) (filter is_index_key (filter Q ?ks)) @ filter (\<lambda>k. \<not> is_index_key k) (filter Q ?ks)"
    by (simp add: filter_sort conj_commute)
  finally have e: "filter Q ?ks = sort_key (dec_value 0) (filter is_index_key (filter Q ?ks)) @ filter (\<lambda>k. \<not> is_index_key k) (filter Q ?ks)" .
  have "distinct (filter Q ?ks)" using d by simp
  then show ?thesis unfolding m js_ordered_def using e by metis
qed

text \<open>What a text begins with: white space and closing brackets never; and where a number ends.\<close>

lemma skip_ws_Cons [simp]:
  "skip_ws [] = []"
  "skip_ws (c # s) = (if c \<in> {CHR 0x20, CHR 0x09, CHR 0x0A, CHR 0x0D} then skip_ws s else c # s)"
  by (simp_all add: skip_ws_def)

definition starts_value :: "string \<Rightarrow> bool" where
  "starts_value s \<longleftrightarrow> (\<exists>c q. s = c # q \<and> c \<notin> {CHR 0x20, CHR 0x09, CHR 0x0A, CHR 0x0D, CHR '']'', CHR ''}''})"

lemma starts_skip: "starts_value s \<Longrightarrow> skip_ws (s @ r) = s @ r \<and> take 1 (s @ r) \<noteq> '']'' \<and> take 1 (s @ r) \<noteq> ''}''"
  by (auto simp: starts_value_def)

lemma number_first:
  assumes "canonical num t"
  shows "\<exists>c q. t = c # q \<and> number_char c"
  using assms literal_nonempty by (cases t) (auto simp: canonical_def)

lemma number_char_distinct:
  "number_char c \<Longrightarrow> c \<notin> {CHR 0x20, CHR 0x09, CHR 0x0A, CHR 0x0D, CHR '']'', CHR ''}'', CHR '','', CHR '':'', CHR 0x22, CHR ''['', CHR ''{'', CHR ''t'', CHR ''f'', CHR ''n''}"
  by (auto simp: number_char_def is_digit_def)

lemma written_starts: "json_wf num v \<Longrightarrow> starts_value (json_stringify v)"
proof (cases v)
  case (JNum t)
  assume "json_wf num v"
  with JNum have "infinite_text t \<or> canonical num t" by simp
  then show ?thesis
  proof
    assume "canonical num t"
    then obtain c q where c: "t = c # q" "number_char c" using number_first by blast
    moreover have "json_number_text t = t \<or> json_number_text t = ''null''" by (auto simp: json_number_text_def)
    ultimately show ?thesis using JNum number_char_distinct [OF c(2)] by (auto simp: starts_value_def)
  qed (simp add: JNum infinite_text_def json_number_text_def starts_value_def)
qed (simp_all add: starts_value_def json_quote_def)

definition ends_value :: "string \<Rightarrow> bool" where
  "ends_value r \<longleftrightarrow> r = [] \<or> \<not> number_char (hd r)"

lemma number_written:
  assumes "canonical num t" "ends_value r"
  shows "json_number num (t @ r) = Some (JNum t, r)"
proof -
  have "takeWhile number_char r = []" "dropWhile number_char r = r"
    using assms(2) by (cases r; simp add: ends_value_def)+
  moreover have "\<forall>c \<in> set t. number_char c" using assms(1) by (simp add: canonical_def list_all_iff)
  ultimately show ?thesis using assms(1) by (simp add: json_number_def canonical_def Let_def)
qed

definition written :: "(string \<Rightarrow> string) \<Rightarrow> jsval \<Rightarrow> bool" where
  "written num v \<longleftrightarrow> (\<forall>n r. 2 * length (json_stringify v) \<le> n \<longrightarrow> ends_value r \<longrightarrow>
     json_value num n (json_stringify v @ r) = Some (kept v, r))"

lemma ends_simps [simp]: "ends_value []" "ends_value (CHR '','' # r)" "ends_value (CHR '']'' # r)" "ends_value (CHR ''}'' # r)"
  by (auto simp: ends_value_def number_char_def is_digit_def)

lemma elements_written:
  assumes "xs \<noteq> []" "\<forall>x \<in> set xs. written num x" "2 * length (js_join (map json_stringify xs)) + 1 \<le> n"
  shows "json_elements num n (js_join (map json_stringify xs) @ CHR '']'' # r) = Some (map kept xs, r)"
  using assms
proof (induction xs arbitrary: n)
  case (Cons x ys)
  then obtain m where n: "n = Suc m" by (cases n) auto
  show ?case
  proof (cases ys)
    case Nil
    with Cons.prems n have "json_value num m (json_stringify x @ CHR '']'' # r) = Some (kept x, CHR '']'' # r)"
      by (auto simp: written_def)
    with Nil n show ?thesis by simp
  next
    case (Cons y zs)
    let ?t = "js_join (map json_stringify ys)"
    have j: "js_join (map json_stringify (x # ys)) = json_stringify x @ CHR '','' # ?t" using Cons by simp
    have "json_value num m (json_stringify x @ CHR '','' # ?t @ CHR '']'' # r) = Some (kept x, CHR '','' # ?t @ CHR '']'' # r)"
      using Cons.prems(2,3) n j by (auto simp: written_def)
    moreover have "json_elements num m (?t @ CHR '']'' # r) = Some (map kept ys, r)"
      by (rule Cons.IH) (use Cons Cons.prems(2,3) n j in auto)
    ultimately show ?thesis using n j by simp
  qed
qed simp

definition member_text :: "string \<times> jsval \<Rightarrow> string" where
  "member_text kv = json_quote (fst kv) @ CHR '':'' # json_stringify (snd kv)"

lemma members_written:
  assumes "ob \<noteq> []" "\<forall>kv \<in> set ob. written num (snd kv) \<and> starts_value (json_stringify (snd kv))"
    "2 * length (js_join (map member_text ob)) + 1 \<le> n"
  shows "json_members num n (js_join (map member_text ob) @ CHR ''}'' # r) = Some (map (\<lambda>(k, v). (k, kept v)) ob, r)"
  using assms
proof (induction ob arbitrary: n)
  case (Cons kv ys)
  obtain k v where kv: "kv = (k, v)" by (cases kv)
  obtain m where n: "n = Suc m" using Cons.prems(3) by (cases n) auto
  have w: "written num v" using Cons.prems(2) kv by simp
  have s: "json_string (concat (map json_escape k) @ CHR 0x22 # q) = Some (k, q)" for q by (rule string_quoted)
  show ?case
  proof (cases ys)
    case Nil
    with Cons.prems(3) n kv have "json_value num m (json_stringify v @ CHR ''}'' # r) = Some (kept v, CHR ''}'' # r)"
      using w by (auto simp: written_def member_text_def)
    with Nil n kv s show ?thesis by (simp add: member_text_def json_quote_def)
  next
    case (Cons y zs)
    let ?t = "js_join (map member_text ys)"
    have j: "js_join (map member_text (kv # ys)) = CHR 0x22 # concat (map json_escape k) @ CHR 0x22 # CHR '':'' # json_stringify v @ CHR '','' # ?t"
      using Cons kv by (simp add: member_text_def json_quote_def)
    have "json_value num m (json_stringify v @ CHR '','' # ?t @ CHR ''}'' # r) = Some (kept v, CHR '','' # ?t @ CHR ''}'' # r)"
      using Cons.prems(3) n j w by (auto simp: written_def)
    moreover have "json_members num m (?t @ CHR ''}'' # r) = Some (map (\<lambda>(k, v). (k, kept v)) ys, r)"
      by (rule Cons.IH) (use Cons Cons.prems(2,3) n j in auto)
    ultimately show ?thesis using n j s kv by simp
  qed
qed simp

lemma writtenI:
  assumes "json_stringify v \<noteq> []"
    and "\<And>m r. 2 * length (json_stringify v) \<le> Suc m \<Longrightarrow> ends_value r \<Longrightarrow> json_value num (Suc m) (json_stringify v @ r) = Some (kept v, r)"
  shows "written num v"
  unfolding written_def
proof (intro allI impI)
  fix n r assume "2 * length (json_stringify v) \<le> n" "ends_value r"
  moreover from this(1) assms(1) obtain m where "n = Suc m" by (cases n) auto
  ultimately show "json_value num n (json_stringify v @ r) = Some (kept v, r)" using assms(2) by blast
qed

lemma join_starts: "xs \<noteq> [] \<Longrightarrow> starts_value (hd xs) \<Longrightarrow> starts_value (js_join xs)"
  by (cases xs rule: js_join.cases) (auto simp: starts_value_def)

lemma value_written: "json_wf num v \<Longrightarrow> written num v"
proof (induction v rule: json_stringify.induct)
  case (4 t)
  show ?case
  proof (cases "infinite_text t")
    case True
    then have "json_number_text t = ''null''" by (simp add: infinite_text_def json_number_text_def)
    then show ?thesis using True by (intro writtenI) (simp_all add: json_word_def)
  next
    case False
    with "4.prems" have c: "canonical num t" by simp
    from False have t: "json_number_text t = t" by (simp add: infinite_text_def json_number_text_def)
    obtain d q where d: "t = d # q" "number_char d" using number_first [OF c] by blast
    show ?thesis
      using number_written [OF c] number_char_distinct [OF d(2)] d(1) t False by (intro writtenI) auto
  qed
next
  case (6 xs)
  have w: "\<forall>x \<in> set xs. written num x" using "6.IH" "6.prems" by (auto simp: list_all_iff)
  show ?case
  proof (cases "xs = []")
    case False
    have s: "starts_value (js_join (map json_stringify xs))"
      using False "6.prems" written_starts [of num "hd xs"] by (intro join_starts) (auto simp: list_all_iff hd_map)
    show ?thesis
    proof (rule writtenI)
      fix m r assume "2 * length (json_stringify (JArr xs)) \<le> Suc m"
      then show "json_value num (Suc m) (json_stringify (JArr xs) @ r) = Some (kept (JArr xs), r)"
        using elements_written [OF False w, of m r] starts_skip [OF s, of "CHR '']'' # r"] by simp
    qed simp
  qed (intro writtenI; simp)
next
  case (7 ob)
  let ?ob = "filter (\<lambda>(k, v). v \<noteq> JUndef) ob"
  have wf: "json_wf num v" if "(k, v) \<in> set ob" for k v using "7.prems" that by (auto simp: list_all_iff)
  have w: "\<forall>kv \<in> set ?ob. written num (snd kv) \<and> starts_value (json_stringify (snd kv))"
    using "7.IH" wf written_starts by fastforce
  have shape: "json_stringify (JObj ob) = CHR ''{'' # js_join (map member_text ?ob) @ ''}''"
    by (simp add: member_text_def [abs_def] split_def)
  have o: "js_ordered (map fst (map (\<lambda>(k, v). (k, kept v)) ?ob))"
    using ordered_filter [of ob "\<lambda>(k, v). v \<noteq> JUndef"] "7.prems" by (simp add: comp_def split_def)
  show ?case
  proof (cases "?ob = []")
    case False
    have s: "starts_value (js_join (map member_text ?ob))"
      using False by (intro join_starts) (simp_all add: hd_map member_text_def json_quote_def starts_value_def)
    show ?thesis
    proof (rule writtenI)
      fix m r assume "2 * length (json_stringify (JObj ob)) \<le> Suc m"
      then show "json_value num (Suc m) (json_stringify (JObj ob) @ r) = Some (kept (JObj ob), r)"
        using members_written [OF False w, of m r] starts_skip [OF s, of "CHR ''}'' # r"] js_object_ordered [OF o]
        unfolding shape by simp
    qed (simp add: shape)
  next
    case True
    then show ?thesis by (intro writtenI) (simp_all add: shape del: json_stringify.simps)
  qed
qed (intro writtenI; simp add: json_word_def json_quote_def string_quoted)+

text \<open>What \<open>JSON.stringify\<close> writes, \<open>JSON.parse\<close> reads back, but for what has no place in JSON.\<close>

lemma parse_stringify:
  assumes "json_wf num v"
  shows "JSON_parse num (json_stringify v) = Some (kept v)"
proof -
  have "json_value num (2 * length (json_stringify v) + 1) (json_stringify v @ []) = Some (kept v, [])"
    by (rule value_written [OF assms, unfolded written_def, rule_format]) simp_all
  then show ?thesis unfolding JSON_parse_def append_Nil2 by simp
qed

subsection \<open>What was parsed is well formed\<close>

text \<open>
  What is relied on of the conversion of numbers: its result is the text of a number that is not finite, or a
  literal of JSON that is converted to itself.
\<close>

definition number_law :: "(string \<Rightarrow> string) \<Rightarrow> bool" where
  "number_law num \<longleftrightarrow> (\<forall>t. list_all number_char t \<and> number_literal t \<longrightarrow> infinite_text (num t) \<or> canonical num (num t))"

lemma js_object_wf:
  assumes "list_all (\<lambda>(k, v). json_wf num v) ms"
  shows "json_wf num (JObj (js_object ms))"
proof -
  define ob where "ob = fold (\<lambda>(k, v). AList.update k v) ms ([] :: (string \<times> jsval) list)"
  have d: "distinct (map fst (fold (\<lambda>(k, v). AList.update k v) ms acc))" if "distinct (map fst acc)" for acc :: "(string \<times> jsval) list"
    using that by (induction ms arbitrary: acc) (auto simp: distinct_update)
  have v: "map_of (fold (\<lambda>(k, v). AList.update k v) ms acc) k = Some v \<Longrightarrow> (k, v) \<in> set ms \<or> map_of acc k = Some v"
    for acc :: "(string \<times> jsval) list" and k v
  proof (induction ms arbitrary: acc)
    case (Cons kv ms)
    from Cons.IH [of "AList.update (fst kv) (snd kv) acc"] Cons.prems show ?case
      by (cases kv) (auto simp: update_conv split: if_splits)
  qed simp
  have dk: "distinct (js_keys ob)" using d [of "[]"] by (simp add: ob_def distinct_js_keys)
  have keys: "map fst (js_object ms) = js_keys ob" by (simp add: js_object_def ob_def [symmetric] comp_def)
  have "js_ordered (js_keys ob)"
    using dk by (simp add: js_ordered_def js_keys_def Let_def filter_sort sort_key_id_if_sorted)
  moreover have "json_wf num w" if "(k, w) \<in> set (js_object ms)" for k w
  proof -
    from that have k: "k \<in> set (js_keys ob)" "w = the (map_of ob k)" by (auto simp: js_object_def ob_def [symmetric] Let_def)
    then obtain x where x: "map_of ob k = Some x" by (metis map_of_eq_None_iff not_None_eq set_js_keys)
    from v [of "[]", folded ob_def, OF x] k(2) x assms show ?thesis by (auto simp: list_all_iff)
  qed
  ultimately show ?thesis by (auto simp: keys list_all_iff)
qed

lemma takeWhile_chars: "list_all P (takeWhile P s)"
  by (auto simp: list_all_iff dest: set_takeWhileD)

lemma parsed_wf:
  "number_law num \<Longrightarrow> json_value num n s = Some (v, r) \<Longrightarrow> json_wf num v \<and> v \<noteq> JUndef"
  "number_law num \<Longrightarrow> json_elements num n s = Some (vs, r) \<Longrightarrow> list_all (json_wf num) vs"
  "number_law num \<Longrightarrow> json_members num n s = Some (ms, r) \<Longrightarrow> list_all (\<lambda>(k, v). json_wf num v) ms"
proof (induction num n s and num n s and num n s arbitrary: v r and vs r and ms r
    rule: json_value_json_elements_json_members.induct)
  case (2 num n s)
  obtain c q where cq: "skip_ws s = c # q" using "2.prems" by (cases "skip_ws s") auto
  have number: "json_wf num x \<and> x \<noteq> JUndef" if "json_number num t = Some (x, r)" for x t
    using that "2.prems"(1) takeWhile_chars [of number_char t] by (auto simp: json_number_def number_law_def Let_def split: if_splits)
  have word: "json_word w x t = Some (v, r) \<Longrightarrow> v = x" for w x t by (auto simp: json_word_def split: if_splits)
  have empty: "json_wf num (JObj [])" by (simp add: js_ordered_def)
  show ?case
    using "2.prems" "2.IH"(1) [OF cq] "2.IH"(2) [OF cq] cq number js_object_wf empty
    by (auto split: if_splits simp del: json_wf.simps(3) dest!: word)
next
  case (4 num n s)
  then show ?case by (fastforce split: option.splits if_splits)
next
  case (6 num n s)
  then show ?case by (fastforce split: option.splits if_splits)
qed simp_all

subsection \<open>Client data\<close>

definition real_json :: "(string \<Rightarrow> string) \<Rightarrow> (string \<Rightarrow> string option) \<Rightarrow> json_lib" where
  "real_json num string_num = \<lparr>json_parse = JSON_parse num, string_number = string_num\<rparr>"

lemma JSON_parse_wf: "number_law num \<Longrightarrow> JSON_parse num s = Some v \<Longrightarrow> json_wf num v \<and> v \<noteq> JUndef"
  unfolding JSON_parse_def by (auto split: option.splits if_splits dest: parsed_wf(1) simp del: json_value.simps)

lemma tls_channel_wf: "number_law num \<Longrightarrow> json_wf num (tlsChannelIdValue (real_json num sn) cid) \<and> tlsChannelIdValue (real_json num sn) cid \<noteq> JUndef"
  by (auto simp: tlsChannelIdValue_def UNUSED_CID_PUBKEY_VALUE_def real_json_def split: option.splits dest: JSON_parse_wf)

text \<open>
  C7. What a relying party does with the client data of a response: it decodes them and parses them. It then finds
  the kind of request, the challenge and the origin just as they were, whatever characters they have, and the
  channel of the connection.
\<close>

theorem client_data_readable:
  assumes "number_law num"
  shows "let text' = makeBrowserData (real_json num sn) b ty ch o' cid;
      received = UTIL_BytesToString (B64_decode (B64_encode (UTIL_StringToBytes text') None))
    in JSON_parse num received = Some (JObj ([(''typ'', JStr ty), (''challenge'', JStr ch), (''origin'', JStr o')]
         @ (if b then [(''cid_pubkey'', kept (tlsChannelIdValue (real_json num sn) cid))] else [])))"
proof -
  let ?ob = "[(''typ'', JStr ty), (''challenge'', JStr ch), (''origin'', JStr o')]
       @ (if b then [(''cid_pubkey'', tlsChannelIdValue (real_json num sn) cid)] else [])"
  have "js_ordered [''typ'', ''challenge'', ''origin'']" "js_ordered [''typ'', ''challenge'', ''origin'', ''cid_pubkey'']"
    by code_simp+
  then have "json_wf num (JObj ?ob)" using tls_channel_wf [OF assms] by simp
  from parse_stringify [OF this] show ?thesis
    using tls_channel_wf [OF assms, of sn cid] by (simp add: makeBrowserData_def b64.dec_enc Let_def del: json_stringify.simps)
qed

definition digits_number :: "string \<Rightarrow> string" where
  "digits_number t = (if digits_only t then t else ''NaN'')"

lemma digits_number_law: "number_law digits_number"
  by (simp add: number_law_def digits_number_def canonical_def infinite_text_def)

theorem client_data_readable_witness:
  "JSON_parse digits_number (makeBrowserData (real_json digits_number (\<lambda>_. None)) True ''x'' [CHR 0x22, CHR 0x0A] ''https://a.com''
      (Some (CHR ''{'' # CHR 0x22 # ''kty'' @ CHR 0x22 # '': [1, 20]}'')))
     = Some (JObj [(''typ'', JStr ''x''), (''challenge'', JStr [CHR 0x22, CHR 0x0A]), (''origin'', JStr ''https://a.com''),
        (''cid_pubkey'', JObj [(''kty'', JArr [JNum ''1'', JNum ''20''])])])"
proof -
  have "kept (tlsChannelIdValue (real_json digits_number (\<lambda>_. None)) (Some (CHR ''{'' # CHR 0x22 # ''kty'' @ CHR 0x22 # '': [1, 20]}'')))
      = JObj [(''kty'', JArr [JNum ''1'', JNum ''20''])]"
    by code_simp
  with client_data_readable [OF digits_number_law, of "\<lambda>_. None" True "''x''" "[CHR 0x22, CHR 0x0A]" "''https://a.com''"
      "Some (CHR ''{'' # CHR 0x22 # ''kty'' @ CHR 0x22 # '': [1, 20]}'')"]
  show ?thesis by (simp add: b64.dec_enc Let_def)
qed

end
