(* ===== verification/PageApi.thy ===== *)
theory PageApi
  imports WebSigner
begin

text \<open>
  u2f-api.js: the script a web page uses to reach the extension. Its calls, the port that becomes ready and the
  responses that arrive are events. A callback of the page is a number; the callbacks the script makes itself,
  which learn the version of the interface and then send a request, are data, and so are the callbacks that
  wait for the port. What is posted and which callbacks of the page are called is listed in the trace.
\<close>

subsection \<open>Requests\<close>

text \<open>
  A registered key is an object of the page with the properties of \<open>web_challenge\<close>. The challenge of a sign
  request is a string, but the adaptation of a registration to version 1.0 puts a whole request there.
\<close>

datatype api_challenge = PlainChallenge "string option" | RequestAsChallenge "web_enroll option"

record api_sign =
  as_version :: "string option"
  as_challenge :: api_challenge
  as_keyHandle :: "string option"
  as_appId :: "string option"

record api_request =
  ar_type :: string
  ar_appId :: "string option"
  ar_challenge :: "string option"
  ar_registeredKeys :: "web_challenge list option"
  ar_signRequests :: "api_sign list option"
  ar_registerRequests :: "web_enroll list option"
  ar_timeoutSeconds :: rat
  ar_requestId :: nat

text \<open>\<open>js_api_version === undefined || js_api_version < 1.1\<close>\<close>

definition old_api :: "rat option \<Rightarrow> bool" where
  "old_api v = (case v of None \<Rightarrow> True | Some x \<Rightarrow> x < 11 / 10)"

definition formatSignRequest :: "rat option \<Rightarrow> string option \<Rightarrow> string option \<Rightarrow> web_challenge list \<Rightarrow> rat \<Rightarrow> nat \<Rightarrow> api_request" where
  "formatSignRequest js_api_version appId challenge registeredKeys timeoutSeconds reqId =
     (if old_api js_api_version
      then \<lparr>ar_type = U2F_SIGN_REQUEST, ar_appId = None, ar_challenge = None, ar_registeredKeys = None,
            ar_signRequests = Some (map (\<lambda>k. \<lparr>as_version = wc_version k, as_challenge = PlainChallenge challenge,
              as_keyHandle = wc_keyHandle k, as_appId = appId\<rparr>) registeredKeys),
            ar_registerRequests = None, ar_timeoutSeconds = timeoutSeconds, ar_requestId = reqId\<rparr>
      else \<lparr>ar_type = U2F_SIGN_REQUEST, ar_appId = appId, ar_challenge = challenge, ar_registeredKeys = Some registeredKeys,
            ar_signRequests = None, ar_registerRequests = None, ar_timeoutSeconds = timeoutSeconds, ar_requestId = reqId\<rparr>)"

text \<open>The adaptation writes the app id into the objects of the page: the second result are these objects.\<close>

definition formatRegisterRequest :: "rat option \<Rightarrow> string option \<Rightarrow> web_challenge list \<Rightarrow> web_enroll list \<Rightarrow> rat \<Rightarrow> nat
    \<Rightarrow> api_request \<times> web_enroll list" where
  "formatRegisterRequest js_api_version appId registeredKeys registerRequests timeoutSeconds reqId =
     (if old_api js_api_version
      then (let rrs = map (\<lambda>r. r\<lparr>we_appId := appId\<rparr>) registerRequests;
                first = (case rrs of [] \<Rightarrow> None | r # _ \<Rightarrow> Some r)
            in (\<lparr>ar_type = U2F_REGISTER_REQUEST, ar_appId = None, ar_challenge = None, ar_registeredKeys = None,
                 ar_signRequests = Some (map (\<lambda>k. \<lparr>as_version = wc_version k, as_challenge = RequestAsChallenge first,
                   as_keyHandle = wc_keyHandle k, as_appId = appId\<rparr>) registeredKeys),
                 ar_registerRequests = Some rrs, ar_timeoutSeconds = timeoutSeconds, ar_requestId = reqId\<rparr>, rrs))
      else (\<lparr>ar_type = U2F_REGISTER_REQUEST, ar_appId = appId, ar_challenge = None, ar_registeredKeys = Some registeredKeys,
             ar_signRequests = None, ar_registerRequests = Some registerRequests, ar_timeoutSeconds = timeoutSeconds,
             ar_requestId = reqId\<rparr>, registerRequests))"

subsection \<open>Ports\<close>

datatype port_kind = ChromeRuntimePort | IframePort | AuthenticatorPort | IosPort

definition getPortType :: "port_kind \<Rightarrow> string option" where
  "getPortType p = (case p of AuthenticatorPort \<Rightarrow> Some ''WrappedAuthenticatorPort_'' | IosPort \<Rightarrow> Some ''WrappedIosPort_'' | _ \<Rightarrow> None)"

fun occurs_in :: "string \<Rightarrow> string \<Rightarrow> bool" where
  "occurs_in s [] = (s = [])"
| "occurs_in s (c # cs) = (take (length s) (c # cs) = s \<or> occurs_in s cs)"

definition isAndroidChrome :: "string \<Rightarrow> bool" where
  "isAndroidChrome userAgent = (occurs_in ''Chrome'' userAgent \<and> occurs_in ''Android'' userAgent)"

definition isIosChrome :: "string \<Rightarrow> bool" where
  "isIosChrome platform = (platform \<in> set [''iPhone'', ''iPad'', ''iPod''])"

text \<open>Which port the page gets: \<open>runtime\<close> is \<open>chrome.runtime\<close>, with whether it could reach the extension.\<close>

definition getMessagePort :: "bool option \<Rightarrow> string \<Rightarrow> string \<Rightarrow> port_kind" where
  "getMessagePort runtime userAgent platform =
     (case runtime of
        Some reached \<Rightarrow> if reached then ChromeRuntimePort else IframePort
      | None \<Rightarrow> if isAndroidChrome userAgent then AuthenticatorPort
                else if isIosChrome platform then IosPort else IframePort)"

subsection \<open>State\<close>

text \<open>What a call of the page asks for once the version is known.\<close>

datatype api_send =
    SendSign "string option" "string option" "web_challenge list" nat "rat option"
  | SendRegister "string option" "web_enroll list" "web_challenge list" nat "rat option"

datatype api_callback = PageCallback nat | VersionThen api_send

datatype port_action = DoSend api_send | AskVersion api_callback "rat option"

text \<open>The data of a response: the version of the interface (or no such property), or anything else.\<close>

datatype 'd api_data = VersionIs "rat option" | Payload 'd

datatype 'd api_effect =
    OpenPort
  | Post port_kind api_request
  | PostVersionRequest port_kind rat nat
  | CallPage nat "'d api_data option"

record 'd page_api =
  pa_version :: "rat option"
  pa_port :: "port_kind option"
  waitingForPort :: "port_action list"
  reqCounter :: nat
  callbackMap :: "(nat \<times> api_callback) list"
  pa_out :: "'d api_effect list"

definition fresh_api :: "'d page_api" where
  "fresh_api = \<lparr>pa_version = None, pa_port = None, waitingForPort = [], reqCounter = 0, callbackMap = [], pa_out = []\<rparr>"

definition EXTENSION_TIMEOUT_SEC :: rat where "EXTENSION_TIMEOUT_SEC = 30"

definition timeout_or_default :: "rat option \<Rightarrow> rat" where
  "timeout_or_default t = (case t of Some s \<Rightarrow> s | None \<Rightarrow> EXTENSION_TIMEOUT_SEC)"

definition pa_emit :: "'d api_effect \<Rightarrow> 'd page_api \<Rightarrow> 'd page_api" where
  "pa_emit e s = s\<lparr>pa_out := pa_out s @ [e]\<rparr>"

text \<open>\<open>var reqId = ++u2f.reqCounter_; u2f.callbackMap_[reqId] = callback\<close>\<close>

definition new_request :: "api_callback \<Rightarrow> 'd page_api \<Rightarrow> 'd page_api" where
  "new_request cb s = s\<lparr>reqCounter := reqCounter s + 1, callbackMap := AList.update (reqCounter s + 1) cb (callbackMap s)\<rparr>"

fun send_on :: "port_kind \<Rightarrow> api_send \<Rightarrow> 'd page_api \<Rightarrow> 'd page_api" where
  "send_on port (SendSign appId challenge keys cb t) s =
     (let s1 = new_request (PageCallback cb) s
      in pa_emit (Post port (formatSignRequest (pa_version s1) appId challenge keys (timeout_or_default t) (reqCounter s1))) s1)"
| "send_on port (SendRegister appId rrs keys cb t) s =
     (let s1 = new_request (PageCallback cb) s
      in pa_emit (Post port (fst (formatRegisterRequest (pa_version s1) appId keys rrs (timeout_or_default t) (reqCounter s1)))) s1)"

text \<open>\<open>getPortSingleton_\<close>, for a callback \<open>a\<close> that \<open>perform\<close> carries out.\<close>

definition getPortSingleton :: "(port_kind \<Rightarrow> port_action \<Rightarrow> 'd page_api \<Rightarrow> 'd page_api) \<Rightarrow> port_action \<Rightarrow> 'd page_api \<Rightarrow> 'd page_api" where
  "getPortSingleton perform a s =
     (case pa_port s of
        Some port \<Rightarrow> perform port a s
      | None \<Rightarrow> (let s1 = (if waitingForPort s = [] then pa_emit OpenPort s else s)
                 in s1\<lparr>waitingForPort := waitingForPort s1 @ [a]\<rparr>))"

text \<open>
  A callback with the data of a response; \<open>None\<close> is \<open>undefined\<close> or \<open>null\<close>, in which the script's own callback looks for a
  property: an exception.
\<close>

fun call_back :: "api_callback \<Rightarrow> 'd api_data option \<Rightarrow> 'd page_api \<Rightarrow> 'd page_api" where
  "call_back (PageCallback c) d s = pa_emit (CallPage c d) s"
| "call_back (VersionThen x) None s = s"
| "call_back (VersionThen x) (Some d) s =
     getPortSingleton (\<lambda>port a. send_on port x) (DoSend x)
       (s\<lparr>pa_version := Some (case d of VersionIs (Some v) \<Rightarrow> v | _ \<Rightarrow> 0)\<rparr>)"

fun perform :: "port_kind \<Rightarrow> port_action \<Rightarrow> 'd page_api \<Rightarrow> 'd page_api" where
  "perform port (DoSend x) s = send_on port x s"
| "perform port (AskVersion cb t) s =
     (case getPortType port of
        Some ty \<Rightarrow> call_back cb (Some (VersionIs (Some
           (if ty = ''WrappedIosPort_'' \<or> ty = ''WrappedAuthenticatorPort_'' then 11 / 10 else 0)))) s
      | None \<Rightarrow> (let s1 = new_request cb s in pa_emit (PostVersionRequest port (timeout_or_default t) (reqCounter s1)) s1))"

definition getApiVersion :: "api_callback \<Rightarrow> rat option \<Rightarrow> 'd page_api \<Rightarrow> 'd page_api" where
  "getApiVersion cb t s = getPortSingleton perform (AskVersion cb t) s"

text \<open>\<open>u2f.sign\<close> and \<open>u2f.register\<close>: first ask for the version unless it is known.\<close>

definition api_call :: "api_send \<Rightarrow> 'd page_api \<Rightarrow> 'd page_api" where
  "api_call x s =
     (if pa_version s = None then getApiVersion (VersionThen x) None s else getPortSingleton perform (DoSend x) s)"

text \<open>The port is ready: the callbacks that wait are shifted off and called in turn.\<close>

definition port_ready :: "port_kind \<Rightarrow> 'd page_api \<Rightarrow> 'd page_api" where
  "port_ready port s =
     fold (\<lambda>a s'. perform port a (s'\<lparr>waitingForPort := tl (waitingForPort s')\<rparr>)) (waitingForPort s) (s\<lparr>pa_port := Some port\<rparr>)"

definition responseHandler :: "nat option \<Rightarrow> 'd api_data option \<Rightarrow> 'd page_api \<Rightarrow> 'd page_api" where
  "responseHandler reqId d s =
     (case reqId of None \<Rightarrow> s
      | Some i \<Rightarrow> (if i = 0 then s
         else (case map_of (callbackMap s) i of None \<Rightarrow> s
           | Some cb \<Rightarrow> call_back cb d (s\<lparr>callbackMap := AList.delete i (callbackMap s)\<rparr>))))"

datatype 'd api_event =
    ApiSign "string option" "string option" "web_challenge list" nat "rat option"
  | ApiRegister "string option" "web_enroll list" "web_challenge list" nat "rat option"
  | ApiVersion nat "rat option"
  | PortReady port_kind
  | Response "nat option" "'d api_data option"

fun api_step :: "'d api_event \<Rightarrow> 'd page_api \<Rightarrow> 'd page_api" where
  "api_step (ApiSign appId challenge keys cb t) s = api_call (SendSign appId challenge keys cb t) s"
| "api_step (ApiRegister appId rrs keys cb t) s = api_call (SendRegister appId rrs keys cb t) s"
| "api_step (ApiVersion cb t) s = getApiVersion (PageCallback cb) t s"
| "api_step (PortReady port) s = (if pa_port s = None \<and> waitingForPort s \<noteq> [] then port_ready port s else s)"
| "api_step (Response reqId d) s = (if pa_port s = None then s else responseHandler reqId d s)"

subsection \<open>Every callback of the page is called at most once\<close>

definition api_ok :: "'d page_api \<Rightarrow> bool" where
  "api_ok s \<longleftrightarrow> distinct (map fst (callbackMap s)) \<and> (\<forall>k \<in> fst ` set (callbackMap s). 1 \<le> k \<and> k \<le> reqCounter s)"

fun send_owner :: "api_send \<Rightarrow> nat" where
  "send_owner (SendSign appId challenge keys cb t) = cb"
| "send_owner (SendRegister appId rrs keys cb t) = cb"

fun callback_owner :: "api_callback \<Rightarrow> nat" where
  "callback_owner (PageCallback c) = c"
| "callback_owner (VersionThen x) = send_owner x"

fun action_owner :: "port_action \<Rightarrow> nat" where
  "action_owner (DoSend x) = send_owner x"
| "action_owner (AskVersion cb t) = callback_owner cb"

fun event_owner :: "'d api_event \<Rightarrow> nat option" where
  "event_owner (ApiSign appId challenge keys cb t) = Some cb"
| "event_owner (ApiRegister appId rrs keys cb t) = Some cb"
| "event_owner (ApiVersion cb t) = Some cb"
| "event_owner _ = None"

definition page_calls :: "nat \<Rightarrow> 'd page_api \<Rightarrow> ('d api_data option) list" where
  "page_calls c s = concat (map (\<lambda>e. case e of CallPage c' d \<Rightarrow> if c' = c then [d] else [] | _ \<Rightarrow> []) (pa_out s))"

definition is_owner :: "nat \<Rightarrow> nat \<Rightarrow> nat" where
  "is_owner c c' = (if c' = c then 1 else 0)"

text \<open>Where a callback of the page is: waiting for the port, for a response, or called.\<close>

definition page_tally :: "nat \<Rightarrow> 'd page_api \<Rightarrow> nat" where
  "page_tally c s = asum (\<lambda>cb. is_owner c (callback_owner cb)) (callbackMap s)
     + sum_list (map (\<lambda>a. is_owner c (action_owner a)) (waitingForPort s)) + length (page_calls c s)"

lemma tally_emit [simp]:
  "page_tally c (pa_emit e s) = page_tally c s + (case e of CallPage c' d \<Rightarrow> is_owner c c' | _ \<Rightarrow> 0)"
  "api_ok (pa_emit e s) = api_ok s" "pa_port (pa_emit e s) = pa_port s" "waitingForPort (pa_emit e s) = waitingForPort s"
  "callbackMap (pa_emit e s) = callbackMap s" "reqCounter (pa_emit e s) = reqCounter s" "pa_version (pa_emit e s) = pa_version s"
  by (auto simp: page_tally_def page_calls_def pa_emit_def is_owner_def api_ok_def split: api_effect.split)

lemma new_request_fields [simp]:
  "pa_port (new_request cb s) = pa_port s" "waitingForPort (new_request cb s) = waitingForPort s" "pa_out (new_request cb s) = pa_out s"
  "reqCounter (new_request cb s) = reqCounter s + 1" "pa_version (new_request cb s) = pa_version s"
  by (simp_all add: new_request_def)

lemma tally_new:
  assumes "api_ok s"
  shows "api_ok (new_request cb s) \<and> page_tally c (new_request cb s) = page_tally c s + is_owner c (callback_owner cb)"
proof -
  let ?k = "reqCounter s + 1"
  have fresh: "map_of (callbackMap s) ?k = None"
    using assms unfolding api_ok_def map_of_eq_None_iff by auto
  have d: "distinct (map fst (callbackMap s))" using assms by (simp add: api_ok_def)
  have "asum f (AList.update ?k cb (callbackMap s)) = asum f (callbackMap s) + f cb" for f
    using asum_update [OF d, of f ?k cb] fresh by simp
  then show ?thesis
    using assms by (auto simp: api_ok_def new_request_def page_tally_def page_calls_def distinct_update)
qed

lemma tally_send:
  "api_ok s \<Longrightarrow> api_ok (send_on p x s) \<and> page_tally c (send_on p x s) = page_tally c s + is_owner c (send_owner x)
     \<and> pa_port (send_on p x s) = pa_port s \<and> waitingForPort (send_on p x s) = waitingForPort s"
  using tally_new [of s _ c] by (cases x) (simp_all add: Let_def)

lemma tally_wait:
  "api_ok s \<Longrightarrow> pa_port s = None \<Longrightarrow> api_ok (getPortSingleton f a s) \<and> page_tally c (getPortSingleton f a s) = page_tally c s + is_owner c (action_owner a)
     \<and> pa_port (getPortSingleton f a s) = None"
  by (auto simp: getPortSingleton_def Let_def page_tally_def page_calls_def api_ok_def pa_emit_def)

lemma singleton_port: "pa_port s = Some p \<Longrightarrow> getPortSingleton f a s = f p a s"
  by (simp add: getPortSingleton_def)

lemma tally_version [simp]: "page_tally c (s\<lparr>pa_version := v\<rparr>) = page_tally c s" "api_ok (s\<lparr>pa_version := v\<rparr>) = api_ok s"
  by (simp_all add: page_tally_def page_calls_def api_ok_def)

lemma tally_call_back:
  assumes "api_ok s"
  shows "api_ok (call_back cb d s) \<and> page_tally c (call_back cb d s) \<le> page_tally c s + is_owner c (callback_owner cb)
     \<and> pa_port (call_back cb d s) = pa_port s
     \<and> (pa_port s \<noteq> None \<longrightarrow> waitingForPort (call_back cb d s) = waitingForPort s)"
proof (cases cb)
  case (VersionThen x)
  show ?thesis
  proof (cases d)
    case (Some d')
    let ?s = "s\<lparr>pa_version := Some (case d' of VersionIs (Some v) \<Rightarrow> v | _ \<Rightarrow> 0)\<rparr>"
    have ok: "api_ok ?s" using assms by simp
    show ?thesis
    proof (cases "pa_port s")
      case None
      then show ?thesis using tally_wait [OF ok, of "\<lambda>port a. send_on port x" "DoSend x" c] VersionThen Some by simp
    next
      case (Some p)
      then show ?thesis using tally_send [OF ok, of p x c] VersionThen \<open>d = Some d'\<close> by (simp add: singleton_port)
    qed
  qed (simp add: VersionThen assms)
qed (use assms in \<open>simp add: is_owner_def\<close>)

lemma tally_perform:
  assumes "api_ok s"
  shows "api_ok (perform p a s) \<and> page_tally c (perform p a s) \<le> page_tally c s + is_owner c (action_owner a)
     \<and> pa_port (perform p a s) = pa_port s
     \<and> (pa_port s \<noteq> None \<longrightarrow> waitingForPort (perform p a s) = waitingForPort s)"
proof (cases a)
  case (DoSend x)
  then show ?thesis using tally_send [OF assms, of p x c] by simp
next
  case (AskVersion cb t)
  then show ?thesis
    using tally_call_back [OF assms, of cb _ c] tally_new [OF assms, of cb c] by (auto simp: Let_def split: option.split)
qed

lemma tally_singleton:
  "api_ok s \<Longrightarrow> api_ok (getPortSingleton perform a s) \<and> page_tally c (getPortSingleton perform a s) \<le> page_tally c s + is_owner c (action_owner a)"
  by (cases "pa_port s") (use tally_wait [of s perform a c] tally_perform [of s _ a c] singleton_port [of s] in \<open>auto\<close>)

lemma tally_shift:
  "waitingForPort s = a # as \<Longrightarrow> page_tally c (s\<lparr>waitingForPort := as\<rparr>) + is_owner c (action_owner a) = page_tally c s"
  by (simp add: page_tally_def page_calls_def)

lemma tally_ready:
  assumes "api_ok s"
  shows "api_ok (port_ready port s) \<and> page_tally c (port_ready port s) \<le> page_tally c s"
proof -
  have "api_ok (fold (\<lambda>a s'. perform port a (s'\<lparr>waitingForPort := tl (waitingForPort s')\<rparr>)) as s)
     \<and> page_tally c (fold (\<lambda>a s'. perform port a (s'\<lparr>waitingForPort := tl (waitingForPort s')\<rparr>)) as s) \<le> page_tally c s"
    if "api_ok s" "pa_port s \<noteq> None" "waitingForPort s = as" for as and s :: "'a page_api"
    using that
  proof (induction as arbitrary: s)
    case (Cons a as)
    let ?s = "s\<lparr>waitingForPort := as\<rparr>"
    have ok: "api_ok ?s" using Cons.prems(1) by (simp add: api_ok_def)
    note p = tally_perform [OF ok, of port a c]
    have "api_ok (fold (\<lambda>a s'. perform port a (s'\<lparr>waitingForPort := tl (waitingForPort s')\<rparr>)) as (perform port a ?s))
      \<and> page_tally c (fold (\<lambda>a s'. perform port a (s'\<lparr>waitingForPort := tl (waitingForPort s')\<rparr>)) as (perform port a ?s)) \<le> page_tally c (perform port a ?s)"
      using p Cons.prems(2) by (intro Cons.IH) simp_all
    with p tally_shift [OF Cons.prems(3), of c] Cons.prems(3) show ?case by simp
  qed simp
  from this [of "s\<lparr>pa_port := Some port\<rparr>"] assms show ?thesis
    by (simp add: port_ready_def page_tally_def page_calls_def api_ok_def)
qed

lemma tally_response:
  assumes "api_ok s"
  shows "api_ok (responseHandler i d s) \<and> page_tally c (responseHandler i d s) \<le> page_tally c s"
proof (cases "\<exists>k cb. i = Some k \<and> k \<noteq> 0 \<and> map_of (callbackMap s) k = Some cb")
  case True
  then obtain k cb where k: "i = Some k" "k \<noteq> 0" "map_of (callbackMap s) k = Some cb" by blast
  let ?s = "s\<lparr>callbackMap := AList.delete k (callbackMap s)\<rparr>"
  have d: "distinct (map fst (callbackMap s))" using assms by (simp add: api_ok_def)
  have "set (map fst (AList.delete k (callbackMap s))) \<subseteq> set (map fst (callbackMap s))"
    unfolding delete_keys by (simp only: set_removeAll Diff_subset)
  then have "fst ` set (AList.delete k (callbackMap s)) \<subseteq> fst ` set (callbackMap s)" by simp
  then have "\<forall>j \<in> fst ` set (AList.delete k (callbackMap s)). 1 \<le> j \<and> j \<le> reqCounter s"
    using assms unfolding api_ok_def by blast
  moreover have "distinct (map fst (AList.delete k (callbackMap s)))" using d by (rule distinct_delete)
  ultimately have ok: "api_ok ?s" unfolding api_ok_def by simp
  have "page_tally c ?s + is_owner c (callback_owner cb) = page_tally c s"
    using asum_delete [OF d, of "\<lambda>cb. is_owner c (callback_owner cb)" k] k(3) by (simp add: page_tally_def page_calls_def)
  with tally_call_back [OF ok, of cb d c] k show ?thesis by (simp add: responseHandler_def)
next
  case False
  then have "responseHandler i d s = s" by (auto simp: responseHandler_def split: option.split)
  with assms show ?thesis by simp
qed

lemma tally_step:
  assumes "api_ok s"
  shows "api_ok (api_step e s) \<and> page_tally c (api_step e s) \<le> page_tally c s + (if event_owner e = Some c then 1 else 0)"
proof (cases e)
  case (ApiSign a ch ks cb t)
  then show ?thesis
    using tally_singleton [OF assms, of "AskVersion (VersionThen (SendSign a ch ks cb t)) None" c]
      tally_singleton [OF assms, of "DoSend (SendSign a ch ks cb t)" c]
    by (auto simp: api_call_def getApiVersion_def is_owner_def)
next
  case (ApiRegister a rs ks cb t)
  then show ?thesis
    using tally_singleton [OF assms, of "AskVersion (VersionThen (SendRegister a rs ks cb t)) None" c]
      tally_singleton [OF assms, of "DoSend (SendRegister a rs ks cb t)" c]
    by (auto simp: api_call_def getApiVersion_def is_owner_def)
next
  case (ApiVersion cb t)
  then show ?thesis
    using tally_singleton [OF assms, of "AskVersion (PageCallback cb) t" c] by (auto simp: getApiVersion_def is_owner_def)
qed (use assms tally_ready [OF assms] tally_response [OF assms] in \<open>simp_all\<close>)

lemma api_run:
  "api_ok s \<Longrightarrow> api_ok (fold api_step es s)
     \<and> page_tally c (fold api_step es s) \<le> page_tally c s + length (filter (\<lambda>e. event_owner e = Some c) es)"
proof (induction es arbitrary: s)
  case (Cons e es)
  from tally_step [OF Cons.prems, of e c] Cons.IH [of "api_step e s"] show ?case by (auto split: if_splits)
qed simp

lemma fresh_ok: "api_ok fresh_api"
  by (simp add: api_ok_def fresh_api_def)

text \<open>
  A callback that the page passes to one call is called at most once: through the question for the version, the
  wait for the port, repeated and unknown responses, and whatever else the page asks.
\<close>

theorem page_called_once:
  assumes "length (filter (\<lambda>e. event_owner e = Some c) es) \<le> 1"
  shows "length (page_calls c (fold api_step es fresh_api)) \<le> 1"
proof -
  have "page_tally c (fresh_api :: 'a page_api) = 0" by (simp add: page_tally_def page_calls_def fresh_api_def asum_def)
  then have "page_tally c (fold api_step es fresh_api) \<le> 1" using api_run [OF fresh_ok, of es c] assms by simp
  moreover have "length (page_calls c s) \<le> page_tally c s" for s :: "'a page_api" by (simp add: page_tally_def)
  ultimately show ?thesis using order_trans by blast
qed

theorem page_called_once_witness:
  "length (page_calls 5 (fold api_step
     [ApiSign None None [] 5 None, ApiVersion 6 None, PortReady IframePort, Response (Some 1) (Some (VersionIs None)), Response (Some 3) (Some (Payload ())),
      Response (Some 3) None] fresh_api)) \<le> 1"
  by (rule page_called_once) simp

subsection \<open>A response reaches its request\<close>

definition awaited :: "nat \<Rightarrow> api_callback \<Rightarrow> 'd page_api \<Rightarrow> bool" where
  "awaited r cb s \<longleftrightarrow> map_of (callbackMap s) r = Some cb \<and> 1 \<le> r \<and> r \<le> reqCounter s"

lemma awaited_fields [simp]:
  "awaited r cb (pa_emit e s) = awaited r cb s" "awaited r cb (s\<lparr>pa_version := v\<rparr>) = awaited r cb s"
  "awaited r cb (s\<lparr>pa_port := p\<rparr>) = awaited r cb s" "awaited r cb (s\<lparr>waitingForPort := w\<rparr>) = awaited r cb s"
  by (simp_all add: awaited_def)

lemma awaited_new: "awaited r cb s \<Longrightarrow> awaited r cb (new_request cb' s)"
  by (simp add: awaited_def new_request_def update_conv')

lemma awaited_send: "awaited r cb s \<Longrightarrow> awaited r cb (send_on p x s)"
  by (cases x) (simp_all add: Let_def awaited_new)

lemma awaited_singleton:
  "awaited r cb s \<Longrightarrow> (\<And>p. awaited r cb (f p a s)) \<Longrightarrow> awaited r cb (getPortSingleton f a s)"
  by (simp add: getPortSingleton_def Let_def split: option.split)

lemma awaited_call_back: "awaited r cb s \<Longrightarrow> awaited r cb (call_back cb' d s)"
  by (cases "(cb', d, s)" rule: call_back.cases) (simp_all add: awaited_singleton awaited_send)

lemma awaited_perform: "awaited r cb s \<Longrightarrow> awaited r cb (perform p a s)"
  by (cases a) (simp_all add: awaited_send awaited_call_back awaited_new Let_def split: option.split)

lemma awaited_single: "awaited r cb s \<Longrightarrow> awaited r cb (getPortSingleton perform a s)"
  by (rule awaited_singleton) (simp_all only: awaited_perform)

lemma awaited_ready: "awaited r cb s \<Longrightarrow> awaited r cb (port_ready port s)"
proof -
  have "awaited r cb (fold (\<lambda>a s'. perform port a (s'\<lparr>waitingForPort := tl (waitingForPort s')\<rparr>)) as s)" if "awaited r cb s"
    for as and s :: "'a page_api"
    using that by (induction as arbitrary: s) (simp_all add: awaited_perform)
  then show "awaited r cb s \<Longrightarrow> awaited r cb (port_ready port s)" by (simp add: port_ready_def)
qed

lemma awaited_response:
  assumes "awaited r cb s" "i \<noteq> Some r"
  shows "awaited r cb (responseHandler i d s)"
proof -
  have "awaited r cb (s\<lparr>callbackMap := AList.delete k (callbackMap s)\<rparr>)" if "k \<noteq> r" for k
    using assms(1) that by (simp add: awaited_def delete_conv')
  then show ?thesis
    using assms by (auto simp: responseHandler_def intro!: awaited_call_back split: option.split)
qed

lemma awaited_step:
  "awaited r cb s \<Longrightarrow> (case e of Response i d \<Rightarrow> i \<noteq> Some r | _ \<Rightarrow> True) \<Longrightarrow> awaited r cb (api_step e s)"
  by (cases e) (simp_all add: api_call_def getApiVersion_def awaited_single awaited_ready awaited_response del: perform.simps)

lemma awaited_run:
  "awaited r cb s \<Longrightarrow> list_all (\<lambda>e. case e of Response i d \<Rightarrow> i \<noteq> Some r | _ \<Rightarrow> True) es \<Longrightarrow> awaited r cb (fold api_step es s)"
  by (induction es arbitrary: s) (simp_all add: awaited_step)

lemma port_kept: "pa_port s = Some p \<Longrightarrow> pa_port (api_step e s) = Some p"
proof -
  assume p: "pa_port s = Some p"
  have send: "pa_port s = Some p \<Longrightarrow> pa_port (send_on q x s) = Some p" for q x and s :: "'a page_api"
    by (cases x) (simp_all add: Let_def)
  have cb: "pa_port s = Some p \<Longrightarrow> pa_port (call_back c d s) = Some p" for c d and s :: "'a page_api"
    by (cases "(c, d, s)" rule: call_back.cases) (simp_all add: singleton_port send)
  have perf: "pa_port s = Some p \<Longrightarrow> pa_port (perform q a s) = Some p" for q a and s :: "'a page_api"
    by (cases a) (simp_all add: send cb Let_def split: option.split)
  have "pa_port (responseHandler i d s) = Some p" for i d
    using p by (simp add: responseHandler_def cb split: option.split)
  moreover have "pa_port (getPortSingleton perform a s) = Some p" for a
    using perf [OF p] singleton_port [OF p] by simp
  ultimately show "pa_port (api_step e s) = Some p"
    using p by (cases e) (simp_all add: api_call_def getApiVersion_def del: perform.simps)
qed



text \<open>
  While the version is unknown a call first asks for it; the answer decides the form of the request, and the
  response to the request reaches the page.
\<close>

theorem version_then_sign:
  "pa_out (fold api_step [ApiSign appId challenge keys cb t, PortReady ChromeRuntimePort,
       Response (Some 1) (Some (VersionIs v)), Response (Some 2) d] fresh_api)
   = [OpenPort, PostVersionRequest ChromeRuntimePort 30 1,
      Post ChromeRuntimePort (formatSignRequest (Some (case v of Some x \<Rightarrow> x | None \<Rightarrow> 0)) appId challenge keys (timeout_or_default t) 2),
      CallPage cb d]"
  by (simp add: fresh_api_def api_call_def getApiVersion_def getPortSingleton_def port_ready_def responseHandler_def Let_def
      new_request_def pa_emit_def getPortType_def EXTENSION_TIMEOUT_SEC_def timeout_or_default_def numeral_2_eq_2)

subsection \<open>What the extension receives\<close>

text \<open>The port clones the message; a challenge that is an object is none of the extension's requests.\<close>

fun plain_sign :: "api_sign \<Rightarrow> web_challenge option" where
  "plain_sign x = (case as_challenge x of
      PlainChallenge ch \<Rightarrow> Some \<lparr>wc_challenge = ch, wc_appId = as_appId x, wc_keyHandle = as_keyHandle x, wc_version = as_version x\<rparr>
    | RequestAsChallenge r \<Rightarrow> None)"

definition request_received :: "api_request \<Rightarrow> web_request option" where
  "request_received r =
     (let srs = map_option (map plain_sign) (ar_signRequests r) in
      if srs \<noteq> None \<and> None \<in> set (the srs) then None
      else Some \<lparr>wr_type = Some (ar_type r), wr_requestId = Some (int (ar_requestId r)), wr_appId = ar_appId r, wr_challenge = ar_challenge r,
        wr_registerRequests = ar_registerRequests r, wr_signRequests = map_option (map the) srs, wr_registeredKeys = ar_registeredKeys r,
        wr_timeout = \<lparr>req_timeoutSeconds = Some (ar_timeoutSeconds r), req_timeout = None\<rparr>\<rparr>)"

definition usable_key :: "web_challenge \<Rightarrow> bool" where
  "usable_key k \<longleftrightarrow> wc_keyHandle k \<noteq> None \<and> (truthy (wc_version k) \<longrightarrow> wc_version k = Some U2F_V1 \<or> wc_version k = Some U2F_V2)"

lemma valid_keys: "isValidSignChallengeArray keys False False \<longleftrightarrow> list_all usable_key keys"
  by (induction keys) (auto simp: isValidRegisteredKey_def usable_key_def)

lemma valid_adapted:
  "isValidSignChallengeArray (map (\<lambda>k. \<lparr>wc_challenge = Some c, wc_appId = Some a, wc_keyHandle = wc_keyHandle k, wc_version = wc_version k\<rparr>) keys) True True
     \<longleftrightarrow> list_all usable_key keys"
  by (induction keys) (auto simp: isValidRegisteredKey_def usable_key_def)


lemma sign_always_received: "\<exists>w. request_received (formatSignRequest v (Some a) (Some c) keys t r) = Some w"
  by (auto simp: request_received_def formatSignRequest_def Let_def comp_def)


text \<open>
  A registration in the old form names the keys the user has already; the challenge in each of these is the whole
  first registration request, not its challenge, so the extension receives no valid list of sign requests.
\<close>

theorem old_register_challenge:
  "request_received (fst (formatRegisterRequest None a [k] [rr] t r)) = None
   \<and> map_option (map as_challenge) (ar_signRequests (fst (formatRegisterRequest None a [k] [rr] t r))) = Some [RequestAsChallenge (Some (rr\<lparr>we_appId := a\<rparr>))]"
  by (simp add: formatRegisterRequest_def request_received_def old_api_def Let_def)

end
