(* ===== verification/Ports.thy ===== *)
theory Ports
  imports Json PageApi
begin

text \<open>
  The ports of u2f-api.js: how a request of a page leaves it, and how a response comes back. The Authenticator and the
  iOS application get the request in a URL; the Authenticator answers with a message whose data is JSON text
  in JSON text. What the two applications do with a URL is not part of the program: the reading of the
  parts of a URL below is the reference the ports are compared with.
\<close>

subsection \<open>Percent encoding\<close>

text \<open>The UTF-8 bytes of a code unit below 256.\<close>

definition utf8 :: "char \<Rightarrow> nat list" where
  "utf8 c = (let n = of_char c in if n < 128 then [n] else [0xC0 + n div 64, 0x80 + n mod 64])"

definition percent :: "nat \<Rightarrow> string" where
  "percent b = [CHR ''%'', ''0123456789ABCDEF'' ! (b div 16), ''0123456789ABCDEF'' ! (b mod 16)]"

definition uri_encode :: "(char \<Rightarrow> bool) \<Rightarrow> string \<Rightarrow> string" where
  "uri_encode keep s = concat (map (\<lambda>c. if keep c then [c] else concat (map percent (utf8 c))) s)"

definition uri_unreserved :: "char \<Rightarrow> bool" where
  "uri_unreserved c \<longleftrightarrow> (let n = of_char c :: nat in 48 \<le> n \<and> n \<le> 57 \<or> 65 \<le> n \<and> n \<le> 90 \<or> 97 \<le> n \<and> n \<le> 122) \<or> c \<in> set ''-_.!~*'' \<or> c \<in> {CHR 0x27, CHR ''('', CHR '')''}"

definition uri_reserved :: "char \<Rightarrow> bool" where
  "uri_reserved c \<longleftrightarrow> c \<in> set '';,/?:@&=+$#''"

definition encodeURIComponent :: "string \<Rightarrow> string" where
  "encodeURIComponent = uri_encode uri_unreserved"

definition encodeURI :: "string \<Rightarrow> string" where
  "encodeURI = uri_encode (\<lambda>c. uri_unreserved c \<or> uri_reserved c)"

subsection \<open>Sending\<close>

definition INTENT_URL_BASE :: string where
  "INTENT_URL_BASE = ''intent:#Intent;action=com.google.android.apps.authenticator.AUTHENTICATE''"

definition intent_url :: "jsval \<Rightarrow> string" where
  "intent_url message = INTENT_URL_BASE @ '';S.request='' @ encodeURIComponent (json_stringify message) @ '';end''"

definition ios_url :: "jsval \<Rightarrow> string" where
  "ios_url message = ''u2f://auth?'' @ encodeURI (json_stringify message)"

datatype post_effect = PostMessage jsval | SetLocation string | ReplaceLocation string

text \<open>\<open>postMessage\<close> of each port; that of the frame is the browser's.\<close>

definition postMessage :: "port_kind \<Rightarrow> jsval \<Rightarrow> post_effect" where
  "postMessage p message =
     (case p of ChromeRuntimePort \<Rightarrow> PostMessage message | IframePort \<Rightarrow> PostMessage message
      | AuthenticatorPort \<Rightarrow> SetLocation (intent_url message) | IosPort \<Rightarrow> ReplaceLocation (ios_url message))"

subsection \<open>Getting a port\<close>

definition EXTENSION_ID :: string where "EXTENSION_ID = ''kmendfapggjehodndflmmgagdbamhnfd''"

datatype port_setup = ConnectRuntime string bool | ReadySoon | CreateFrame string | AwaitReady

definition getChromeRuntimePort :: "port_setup list" where
  "getChromeRuntimePort = [ConnectRuntime EXTENSION_ID True, ReadySoon]"

definition getAuthenticatorPort :: "port_setup list" where "getAuthenticatorPort = [ReadySoon]"

definition getIosPort :: "port_setup list" where "getIosPort = [ReadySoon]"

definition getIframePort :: "port_setup list" where
  "getIframePort = [CreateFrame (''chrome-extension://'' @ EXTENSION_ID @ ''/u2f-comms.html''), AwaitReady]"

text \<open>
  The frame: when it is loaded it gets its end of the channel; the first \<open>ready\<close> on the other end makes that end
  the port of the page, and what comes before is refused. \<open>fr_port\<close> counts the calls of the callback.
\<close>

record frame_port =
  fr_awaiting :: bool
  fr_port :: nat
  fr_sent :: "(string \<times> string) list"

definition new_frame_port :: frame_port where
  "new_frame_port = \<lparr>fr_awaiting = True, fr_port = 0, fr_sent = []\<rparr>"

datatype frame_event = FrameLoaded | ChannelMessage jsval

definition frame_step :: "frame_event \<Rightarrow> frame_port \<Rightarrow> frame_port" where
  "frame_step e f =
     (case e of
        FrameLoaded \<Rightarrow> f\<lparr>fr_sent := fr_sent f @ [(''init'', ''chrome-extension://'' @ EXTENSION_ID)]\<rparr>
      | ChannelMessage m \<Rightarrow>
          if fr_awaiting f \<and> m = JStr ''ready'' then f\<lparr>fr_awaiting := False, fr_port := fr_port f + 1\<rparr> else f)"

lemma frame_port_once:
  "fr_port (fold frame_step es new_frame_port) = (if ChannelMessage (JStr ''ready'') \<in> set es then 1 else 0)"
proof -
  have "fr_port (fold frame_step es f) = fr_port f + (if fr_awaiting f \<and> ChannelMessage (JStr ''ready'') \<in> set es then 1 else 0)" for f
    by (induction es arbitrary: f) (auto simp: frame_step_def split: frame_event.split)
  then show ?thesis by (simp add: new_frame_port_def)
qed

subsection \<open>Receiving\<close>

definition to_lower :: "string \<Rightarrow> string" where
  "to_lower s = map (\<lambda>c. let n = of_char c :: nat in
     if 65 \<le> n \<and> n \<le> 90 \<or> 192 \<le> n \<and> n \<le> 222 \<and> n \<noteq> 215 then char_of (n + 32) else c) s"

text \<open>Whether \<open>addEventListener\<close> of a port lets the handler hear of messages.\<close>

definition chrome_addEventListener :: "string \<Rightarrow> bool" where
  "chrome_addEventListener eventName = (to_lower eventName \<in> {''message'', ''onmessage''})"

definition authenticator_addEventListener :: "string \<Rightarrow> bool" where
  "authenticator_addEventListener eventName = (to_lower eventName = ''message'')"

text \<open>This one only reports the other names as errors: it never keeps a handler.\<close>

definition ios_addEventListener :: "string \<Rightarrow> bool" where
  "ios_addEventListener eventName = False"

definition addEventListener :: "port_kind \<Rightarrow> string \<Rightarrow> bool" where
  "addEventListener p eventName =
     (case p of ChromeRuntimePort \<Rightarrow> chrome_addEventListener eventName
      | AuthenticatorPort \<Rightarrow> authenticator_addEventListener eventName
      | IosPort \<Rightarrow> ios_addEventListener eventName | IframePort \<Rightarrow> eventName = ''message'')"

text \<open>
  A message from the Authenticator: the response in it, or \<open>None\<close> for an exception. An object that has a property
  of its own called \<open>hasOwnProperty\<close> hides the method.
\<close>

definition onRequestUpdate :: "(string \<Rightarrow> string) \<Rightarrow> jsval \<Rightarrow> jsval option" where
  "onRequestUpdate num data =
     (case JSON_parse num (js_toString data) of None \<Rightarrow> None
      | Some messageObject \<Rightarrow>
        if js_get messageObject ''intentURL'' = None then None
        else (case messageObject of
            JObj ob \<Rightarrow> if map_of ob ''hasOwnProperty'' \<noteq> None then None
              else (case map_of ob ''data'' of None \<Rightarrow> Some JNull | Some d \<Rightarrow> JSON_parse num (js_toString d))
          | _ \<Rightarrow> Some JNull))"

text \<open>
  What \<open>responseHandler_\<close> finds in a response: the request id, when it can be the key of a callback, and the data.
  \<open>version\<close> is the number of a value. \<open>None\<close> is an exception: the response is \<open>null\<close>.
\<close>

definition request_key :: "jsval \<Rightarrow> nat option" where
  "request_key v = (let t = js_toString v; n = dec_value 0 t in if js_truthy v \<and> nat_to_string n = t then Some n else None)"

definition payload :: "(jsval \<Rightarrow> rat) \<Rightarrow> jsval \<Rightarrow> jsval api_data option" where
  "payload ver v =
     (case js_get v ''js_api_version'' of None \<Rightarrow> None
      | Some JUndef \<Rightarrow> Some (Payload v) | Some w \<Rightarrow> Some (VersionIs (Some (ver w))))"

definition handle_response :: "(jsval \<Rightarrow> rat) \<Rightarrow> jsval \<Rightarrow> jsval page_api \<Rightarrow> jsval page_api" where
  "handle_response ver response s =
     (case (js_get response ''requestId'', js_get response ''responseData'') of
        (Some i, Some d) \<Rightarrow> responseHandler (request_key i) (payload ver d) s
      | _ \<Rightarrow> s)"

definition api_port_message :: "(string \<Rightarrow> string) \<Rightarrow> (jsval \<Rightarrow> rat) \<Rightarrow> port_kind \<Rightarrow> jsval \<Rightarrow> jsval page_api \<Rightarrow> jsval page_api" where
  "api_port_message num ver p data s =
     (if \<not> addEventListener p ''message'' then s
      else (case p of AuthenticatorPort \<Rightarrow> (case onRequestUpdate num data of None \<Rightarrow> s | Some r \<Rightarrow> handle_response ver r s)
        | _ \<Rightarrow> handle_response ver data s))"

subsection \<open>Reading a URL\<close>

text \<open>The inverse of percent encoding, for code units below 256.\<close>

fun uri_bytes :: "string \<Rightarrow> nat list option" where
  "uri_bytes [] = Some []"
| "uri_bytes (c # r) =
     (if c \<noteq> CHR ''%'' then (if (of_char c :: nat) < 128 then map_option ((#) (of_char c)) (uri_bytes r) else None)
      else (case r of a # b # r' \<Rightarrow>
          (case (hex_digit a, hex_digit b) of (Some x, Some y) \<Rightarrow> map_option ((#) (16 * x + y)) (uri_bytes r') | _ \<Rightarrow> None)
        | _ \<Rightarrow> None))"

fun utf8_decode :: "nat list \<Rightarrow> string option" where
  "utf8_decode [] = Some []"
| "utf8_decode (b # r) =
     (if b < 128 then map_option ((#) (char_of b)) (utf8_decode r)
      else if 0xC2 \<le> b \<and> b \<le> 0xC3 then
        (case r of d # r' \<Rightarrow> if 128 \<le> d \<and> d < 192 then map_option ((#) (char_of (64 * (b - 0xC0) + (d - 128)))) (utf8_decode r') else None
         | [] \<Rightarrow> None)
      else None)"

definition uri_decode :: "string \<Rightarrow> string option" where
  "uri_decode s = Option.bind (uri_bytes s) utf8_decode"

lemma hexdigit_upper: "n < 16 \<Longrightarrow> hex_digit (''0123456789ABCDEF'' ! n) = Some n"
proof -
  have "list_all (\<lambda>n. hex_digit (''0123456789ABCDEF'' ! n) = Some n) [0..<16]" by code_simp
  then show "n < 16 \<Longrightarrow> ?thesis" by (auto simp: list_all_iff)
qed

lemma bytes_percent: "b < 256 \<Longrightarrow> uri_bytes (percent b @ s) = map_option ((#) b) (uri_bytes s)"
  by (simp add: percent_def hexdigit_upper less_mult_imp_div_less)

lemma code_unit: "(of_char c :: nat) div 64 < 4"
  using nat_of_char_less_256 [of c] by (simp add: less_mult_imp_div_less)

lemma utf8_small: "b \<in> set (utf8 c) \<Longrightarrow> b < 256"
  using code_unit [of c] mod_less_divisor [of 64 "of_char c"] by (auto simp: utf8_def Let_def simp del: mod_less_divisor split: if_splits)

lemma utf8_bytes: "uri_bytes (concat (map percent (utf8 c)) @ s) = map_option ((@) (utf8 c)) (uri_bytes s)"
proof -
  have "\<forall>b \<in> set bs. b < 256 \<Longrightarrow> uri_bytes (concat (map percent bs) @ s) = map_option ((@) bs) (uri_bytes s)" for bs
    by (induction bs) (cases "uri_bytes s"; simp add: bytes_percent)+
  then show ?thesis using utf8_small by blast
qed

lemma decode_utf8: "utf8_decode (utf8 c @ bs) = map_option ((#) c) (utf8_decode bs)"
proof -
  have "64 * (of_char c div 64) + of_char c mod 64 = (of_char c :: nat)" by simp
  moreover have "2 \<le> (of_char c :: nat) div 64 \<and> (of_char c :: nat) div 64 \<le> 3" if "128 \<le> (of_char c :: nat)"
    using code_unit [of c] div_le_mono [OF that, of 64] by simp
  ultimately show ?thesis by (simp add: utf8_def Let_def)
qed

definition plain_ascii :: "(char \<Rightarrow> bool) \<Rightarrow> bool" where
  "plain_ascii keep \<longleftrightarrow> (\<forall>c. keep c \<longrightarrow> c \<noteq> CHR ''%'' \<and> (of_char c :: nat) < 128)"

lemma uri_decode_encode:
  assumes "plain_ascii keep"
  shows "uri_decode (uri_encode keep s) = Some s"
proof -
  have "uri_bytes (uri_encode keep s) = Some (concat (map utf8 s))"
  proof (induction s)
    case (Cons c s)
    have "utf8 c = [of_char c] \<and> c \<noteq> CHR ''%'' \<and> (of_char c :: nat) < 128" if "keep c"
      using assms that by (simp add: plain_ascii_def utf8_def)
    with Cons show ?case by (auto simp: uri_encode_def utf8_bytes)
  qed (simp add: uri_encode_def)
  moreover have "utf8_decode (concat (map utf8 s)) = Some s"
    by (induction s) (simp_all add: decode_utf8)
  ultimately show ?thesis by (simp add: uri_decode_def)
qed

lemma encoders_plain: "plain_ascii uri_unreserved" "plain_ascii (\<lambda>c. uri_unreserved c \<or> uri_reserved c)"
  by (auto simp: plain_ascii_def uri_unreserved_def uri_reserved_def Let_def)

lemma percent_chars: "b < 256 \<Longrightarrow> c \<in> set (percent b) \<Longrightarrow> c = CHR ''%'' \<or> c \<in> set ''0123456789ABCDEF''"
  using nth_mem [of "b div 16" "''0123456789ABCDEF''"] nth_mem [of "b mod 16" "''0123456789ABCDEF''"]
  by (auto simp: percent_def less_mult_imp_div_less)

lemma encoded_chars:
  assumes "c \<in> set (uri_encode keep s)"
  shows "keep c \<or> c = CHR ''%'' \<or> c \<in> set ''0123456789ABCDEF''"
proof -
  obtain d where d: "c \<in> set (if keep d then [d] else concat (map percent (utf8 d)))"
    using assms unfolding uri_encode_def set_concat set_map by blast
  show ?thesis
  proof (cases "keep d")
    case False
    then obtain b where b: "b \<in> set (utf8 d)" "c \<in> set (percent b)" using d by auto
    from percent_chars [OF utf8_small [OF b(1)] b(2)] show ?thesis by blast
  qed (use d in simp)
qed

text \<open>The fields of a URL, and the extra of an intent.\<close>

fun fields_of :: "char \<Rightarrow> string \<Rightarrow> string list" where
  "fields_of d [] = [[]]"
| "fields_of d (c # cs) = (if c = d then [] # fields_of d cs else (c # hd (fields_of d cs)) # tl (fields_of d cs))"

lemma fields_nonempty [simp]: "fields_of d s \<noteq> []"
  by (cases s) simp_all

lemma fields_append: "fields_of d (s @ d # t) = fields_of d s @ fields_of d t"
  by (induction s) (simp_all add: hd_append tl_append split: list.split)

lemma fields_single: "d \<notin> set s \<Longrightarrow> fields_of d s = [s]"
  by (induction s) auto

definition intent_extra :: "string \<Rightarrow> string \<Rightarrow> string option" where
  "intent_extra name url = map_option (drop (length name)) (List.find (\<lambda>f. take (length name) f = name) (fields_of CHR '';'' url))"

text \<open>
  The request in the URL for the Authenticator: the application that takes the extra \<open>S.request\<close> of the intent,
  decodes and parses it has the message of the page again. Nothing in the message can end the extra early.
\<close>

lemma intent_request:
  assumes "json_wf num message"
  shows "Option.bind (Option.bind (intent_extra ''S.request='' (intent_url message)) uri_decode) (JSON_parse num) = Some (kept message)"
proof -
  let ?e = "encodeURIComponent (json_stringify message)"
  have "CHR '';'' \<notin> set ?e"
    using encoded_chars [of "CHR '';''" uri_unreserved "json_stringify message"]
    by (auto simp: encodeURIComponent_def uri_unreserved_def Let_def)
  then have e: "CHR '';'' \<notin> set (''S.request='' @ ?e)" by simp
  have "intent_url message = ''intent:#Intent'' @ CHR '';'' # ''action=com.google.android.apps.authenticator.AUTHENTICATE'' @ CHR '';'' #
      (''S.request='' @ ?e) @ CHR '';'' # ''end''"
    by (simp add: intent_url_def INTENT_URL_BASE_def)
  then have "fields_of CHR '';'' (intent_url message) =
      [''intent:#Intent'', ''action=com.google.android.apps.authenticator.AUTHENTICATE'', ''S.request='' @ ?e, ''end'']"
    using fields_single [OF e] by (simp only: fields_append) (simp add: fields_single del: fields_of.simps)
  then have "intent_extra ''S.request='' (intent_url message) = Some ?e" by (simp add: intent_extra_def)
  then show ?thesis
    using parse_stringify [OF assms] uri_decode_encode [OF encoders_plain(1)] by (simp add: encodeURIComponent_def)
qed

text \<open>The query of a URL ends where its fragment begins.\<close>

definition url_query :: "string \<Rightarrow> string" where
  "url_query url = takeWhile (\<lambda>c. c \<noteq> CHR ''#'') (drop 1 (dropWhile (\<lambda>c. c \<noteq> CHR ''?'') url))"

lemma ios_query: "uri_decode (url_query (ios_url message)) = Some (takeWhile (\<lambda>c. c \<noteq> CHR ''#'') (json_stringify message))"
proof -
  let ?keep = "\<lambda>c. uri_unreserved c \<or> uri_reserved c"
  have hash: "CHR ''#'' \<notin> set (concat (map percent (utf8 c)))" for c
    using encoded_chars [of "CHR ''#''" "\<lambda>c. False" "[c]"] by (auto simp: uri_encode_def)
  have "takeWhile (\<lambda>c. c \<noteq> CHR ''#'') (uri_encode ?keep s) = uri_encode ?keep (takeWhile (\<lambda>c. c \<noteq> CHR ''#'') s)" for s
  proof (induction s)
    case (Cons c s)
    let ?w = "if ?keep c then [c] else concat (map percent (utf8 c))"
    have w: "uri_encode ?keep (c # t) = ?w @ uri_encode ?keep t" for t by (simp add: uri_encode_def)
    show ?case
    proof (cases "c = CHR ''#''")
      case True
      then have "?w = ''#''" by (simp add: uri_reserved_def)
      then show ?thesis unfolding w True by (simp add: uri_encode_def)
    next
      case False
      have "\<forall>x \<in> set ?w. x \<noteq> CHR ''#''"
      proof (cases "?keep c")
        case False
        then have "?w = concat (map percent (utf8 c))" by (rule if_not_P)
        with hash [of c] show ?thesis by metis
      qed (use \<open>c \<noteq> CHR ''#''\<close> in simp)
      then have "takeWhile (\<lambda>c. c \<noteq> CHR ''#'') (?w @ uri_encode ?keep s) = ?w @ takeWhile (\<lambda>c. c \<noteq> CHR ''#'') (uri_encode ?keep s)"
        by (intro takeWhile_append2) blast
      with False Cons show ?thesis unfolding w by (simp only: takeWhile.simps if_True not_False_eq_True w)
    qed
  qed (simp add: uri_encode_def)
  then show ?thesis
    using uri_decode_encode [OF encoders_plain(2)] by (simp add: url_query_def ios_url_def encodeURI_def)
qed

subsection \<open>An exchange with the Authenticator\<close>

lemma nat_text_zero: "nat_to_string 0 = ''0''"
  by code_simp

lemma nat_text_digits: "list_all is_digit (nat_to_string n)"
proof (induction n rule: nat_to_string.induct)
  case (1 n)
  have "is_digit (char_of (48 + m))" if "m < 10" for m :: nat using that by (simp add: is_digit_def)
  with 1 show ?case by (subst nat_to_string.simps) simp
qed

lemma nat_text_head: "nat_to_string n \<noteq> [] \<and> (hd (nat_to_string n) = CHR ''0'' \<longrightarrow> nat_to_string n = ''0'')"
proof (induction n rule: nat_to_string.induct)
  case (1 n)
  show ?case
  proof (cases "n < 10")
    case True
    have "n = 0" if "char_of (48 + n) = CHR ''0''"
    proof -
      from that have "of_char (char_of (48 + n) :: char) = (of_char (CHR ''0'') :: nat)" by (rule arg_cong)
      with True show ?thesis by simp
    qed
    then show ?thesis using True by (subst (1 2 3) nat_to_string.simps) auto
  next
    case False
    from "1.IH" [OF False] False have ih: "nat_to_string (n div 10) \<noteq> []"
      "hd (nat_to_string (n div 10)) = CHR ''0'' \<longrightarrow> nat_to_string (n div 10) = nat_to_string 0"
      unfolding nat_text_zero by simp_all
    with False have "hd (nat_to_string (n div 10)) \<noteq> CHR ''0''" by (auto simp: nat_to_string_inject)
    with ih(1) False show ?thesis by (subst (1 2 3) nat_to_string.simps) simp
  qed
qed

lemma digits_literal:
  assumes "t \<noteq> []" "\<forall>c \<in> set t. is_digit c" "length t = 1 \<or> hd t \<noteq> CHR ''0''"
  shows "number_literal t"
proof -
  have "take 1 t \<noteq> ''-''" using assms(1,2) by (cases t) (auto simp: is_digit_def)
  moreover have "takeWhile is_digit t = t" "dropWhile is_digit t = []" using assms(2) by simp_all
  ultimately show ?thesis using assms(1,3) by (simp add: number_literal_def exponent_def Let_def del: takeWhile_eq_all_conv dropWhile_eq_Nil_conv)
qed

lemma nat_text_literal: "list_all number_char (nat_to_string n) \<and> number_literal (nat_to_string n)"
proof -
  have "\<forall>c \<in> set (nat_to_string n). is_digit c" using nat_text_digits [of n] by (simp add: list_all_iff)
  then show ?thesis
    using digits_literal [of "nat_to_string n"] nat_text_head [of n] by (auto simp: list_all_iff number_char_def)
qed

text \<open>A response of the extension's protocol, and the message of the Authenticator that carries it.\<close>

definition response_object :: "nat \<Rightarrow> jsval \<Rightarrow> jsval" where
  "response_object i d = JObj [(''requestId'', JNum (nat_to_string i)), (''responseData'', d)]"

definition carried :: "jsval \<Rightarrow> jsval" where
  "carried r = JStr (json_stringify (JObj [(''data'', JStr (json_stringify r))]))"

lemma request_update_carried:
  assumes "json_wf num r"
  shows "onRequestUpdate num (carried r) = Some (kept r)"
proof -
  have "js_ordered [''data'']" by code_simp
  then have "JSON_parse num (json_stringify (JObj [(''data'', JStr (json_stringify r))])) = Some (JObj [(''data'', JStr (json_stringify r))])"
    using parse_stringify [of num "JObj [(''data'', JStr (json_stringify r))]"] by (simp del: json_stringify.simps)
  then show ?thesis
    using parse_stringify [OF assms] by (simp add: onRequestUpdate_def carried_def js_get_def del: json_stringify.simps)
qed

lemma response_wf:
  assumes "num (nat_to_string i) = nat_to_string i" "json_wf num d" "d \<noteq> JUndef"
  shows "json_wf num (response_object i d) \<and> kept (response_object i d) = response_object i (kept d)"
proof -
  have "js_ordered [''requestId'', ''responseData'']" by code_simp
  moreover have "canonical num (nat_to_string i)" using assms(1) nat_text_literal by (simp add: canonical_def)
  moreover have "\<not> infinite_text (nat_to_string i)"
    using nat_text_digits [of i] by (auto simp: infinite_text_def is_digit_def)
  ultimately show ?thesis using assms(2,3) by (simp add: response_object_def)
qed

lemma response_handled:
  assumes "0 < i"
  shows "handle_response ver (response_object i d) s = (if d = JUndef then responseHandler (Some i) None s else responseHandler (Some i) (payload ver d) s)"
proof -
  have "nat_to_string i \<noteq> ''0''"
    using assms nat_to_string_inject [of i 0] unfolding nat_text_zero by simp
  then have "request_key (JNum (nat_to_string i)) = Some i"
    by (simp add: request_key_def dec_value_nat_to_string js_truthy_def Let_def)
  then show ?thesis by (simp add: handle_response_def response_object_def js_get_def payload_def)
qed

text \<open>
  C8. An exchange with the Authenticator. It can read from the URL it is called with exactly the request of the page,
  whatever the request contains; and when it answers with a response to a request that is under way, the
  callback of that request gets the data of the response, once.
\<close>

theorem authenticator_exchange:
  assumes "json_wf num message" "json_wf num d" "d \<noteq> JUndef" "num (nat_to_string i) = nat_to_string i" "0 < i"
    and "map_of (callbackMap s) i = Some (PageCallback c)"
  shows "\<exists>url. postMessage AuthenticatorPort message = SetLocation url
      \<and> Option.bind (Option.bind (intent_extra ''S.request='' url) uri_decode) (JSON_parse num) = Some (kept message)
      \<and> api_port_message num ver AuthenticatorPort (carried (response_object i d)) s
        = pa_emit (CallPage c (payload ver (kept d))) (s\<lparr>callbackMap := AList.delete i (callbackMap s)\<rparr>)"
proof (intro exI conjI)
  show "postMessage AuthenticatorPort message = SetLocation (intent_url message)" by (simp add: postMessage_def)
  show "Option.bind (Option.bind (intent_extra ''S.request='' (intent_url message)) uri_decode) (JSON_parse num) = Some (kept message)"
    by (rule intent_request [OF assms(1)])
  have "onRequestUpdate num (carried (response_object i d)) = Some (response_object i (kept d))"
    using request_update_carried response_wf [OF assms(4,2,3)] by simp
  moreover have "kept d \<noteq> JUndef" using assms(3) by (cases d) auto
  ultimately show "api_port_message num ver AuthenticatorPort (carried (response_object i d)) s
        = pa_emit (CallPage c (payload ver (kept d))) (s\<lparr>callbackMap := AList.delete i (callbackMap s)\<rparr>)"
    using response_handled [OF assms(5)] assms(5,6)
    by (simp add: api_port_message_def addEventListener_def authenticator_addEventListener_def to_lower_def responseHandler_def)
qed

theorem authenticator_exchange_witness:
  "api_port_message digits_number (\<lambda>_. 0) AuthenticatorPort (carried (response_object 1 (JObj [(''errorCode'', JNum ''5'')])))
     (fresh_api\<lparr>callbackMap := [(1, PageCallback 7)]\<rparr>)
   = pa_emit (CallPage 7 (Some (Payload (JObj [(''errorCode'', JNum ''5'')])))) fresh_api"
proof -
  have o: "js_ordered [''errorCode'']" by code_simp
  have c: "canonical digits_number ''5''" by code_simp
  have "digits_number (nat_to_string 1) = nat_to_string 1" by code_simp
  from authenticator_exchange [of digits_number "JStr ''x''" "JObj [(''errorCode'', JNum ''5'')]" 1
      "fresh_api\<lparr>callbackMap := [(1, PageCallback 7)]\<rparr>" 7 "\<lambda>_. 0", OF _ _ _ this] o c
  show ?thesis by (auto simp: payload_def js_get_def infinite_text_def fresh_api_def)
qed

text \<open>When the Authenticator reports an error instead of a response, the page hears nothing.\<close>

theorem authenticator_error_lost:
  "api_port_message digits_number ver AuthenticatorPort (JStr (json_stringify (JObj [(''errorCode'', JNum ''2'')]))) s = s"
proof -
  have "onRequestUpdate digits_number (JStr (json_stringify (JObj [(''errorCode'', JNum ''2'')]))) = Some JNull" by code_simp
  then show ?thesis by (simp add: api_port_message_def handle_response_def js_get_def)
qed

text \<open>Whatever the iOS application sends, the script does not hear it.\<close>

lemma ios_deaf: "api_port_message num ver IosPort data s = s"
  by (simp add: api_port_message_def addEventListener_def ios_addEventListener_def)

text \<open>Everything behind a number sign is missing from the query of the URL for the iOS application.\<close>

theorem ios_request_cut:
  "uri_decode (url_query (ios_url (JObj [(''appId'', JStr ''https://a.com/#x''), (''requestId'', JNum ''1'')])))
   = Some (CHR ''{'' # json_quote ''appId'' @ '':'' @ CHR 0x22 # ''https://a.com/'')"
  unfolding ios_query by (simp add: json_quote_def json_escape_def Let_def)

end
