(* ===== verification/Background.thy ===== *)
theory Background
  imports WebSigner Helpers
begin

text \<open>
  u2fbackground.js and u2f-comms.js: the background page, which connects the ports of web pages and of its own
  frames with the handlers of requests, and admits external helpers; and the frame that forwards the messages
  of a page. A request of a page is under way as a session, the enroller or the queued sign request with its
  watchdog; the events of a session are those of its component.
\<close>

subsection \<open>Responses that fit their request\<close>

text \<open>Steps of a session that keep the request and respond only in the way \<open>P\<close>.\<close>

definition sg_speaks :: "(web_request \<Rightarrow> web_response \<Rightarrow> bool) \<Rightarrow> sign_session \<Rightarrow> sign_session \<Rightarrow> bool" where
  "sg_speaks P h h' \<longleftrightarrow> sg_request h' = sg_request h
     \<and> (\<forall>r. SgReply r \<in> set (sg_out h') \<longrightarrow> SgReply r \<in> set (sg_out h) \<or> P (sg_request h) r)"

definition en_speaks :: "(web_request \<Rightarrow> web_response \<Rightarrow> bool) \<Rightarrow> enroller \<Rightarrow> enroller \<Rightarrow> bool" where
  "en_speaks P h h' \<longleftrightarrow> en_request h' = en_request h
     \<and> (\<forall>r. Reply r \<in> set (en_out h') \<longrightarrow> Reply r \<in> set (en_out h) \<or> P (en_request h) r)"

definition fits :: "(response_data \<Rightarrow> bool) \<Rightarrow> web_request \<Rightarrow> web_response \<Rightarrow> bool" where
  "fits D q r \<longleftrightarrow> (\<exists>d. r = makeResponseForRequest (Some q) ''_response'' None d \<and> D d)"

definition sign_data :: "response_data \<Rightarrow> bool" where
  "sign_data d = (case d of ErrorData e \<Rightarrow> True | SignData k c s \<Rightarrow> True | _ \<Rightarrow> False)"

definition enroll_data :: "response_data \<Rightarrow> bool" where
  "enroll_data d = (case d of ErrorData e \<Rightarrow> True | EnrollData c i o' \<Rightarrow> True | _ \<Rightarrow> False)"

abbreviation "sign_fits \<equiv> sg_speaks (fits sign_data)"
abbreviation "enroll_fits \<equiv> en_speaks (fits enroll_data)"

lemma error_fits:
  "fits sign_data q (makeU2fErrorResponse (Some q) c m None)" "fits enroll_data q (makeU2fErrorResponse (Some q) c m None)"
  unfolding fits_def makeU2fErrorResponse_def by (auto simp: sign_data_def enroll_data_def)

lemma sg_speaks_trans: "sg_speaks P h h1 \<Longrightarrow> sg_speaks P h1 h2 \<Longrightarrow> sg_speaks P h h2"
  unfolding sg_speaks_def by metis

lemma sg_speaks_same: "sg_request h' = sg_request h \<Longrightarrow> sg_out h' = sg_out h \<Longrightarrow> sg_speaks P h h'"
  by (simp add: sg_speaks_def)

lemma sg_speaks_refl [simp]: "sg_speaks P h h"
  by (rule sg_speaks_same) simp_all

lemma silent_speaks: "silent h h' \<Longrightarrow> sg_speaks P h h'"
  unfolding silent_def sg_speaks_def by auto

lemma watchdog_speaks: "sg_speaks P h (sg_close_watchdog h)"
  by (rule sg_speaks_trans [OF sg_speaks_same silent_speaks [OF close_watchdog_silent]]) simp_all

lemma respond_speaks: "P (sg_request h) r \<Longrightarrow> sg_speaks P h (sg_respond r h)"
proof -
  assume p: "P (sg_request h) r"
  have "sg_request (sg_close_watchdog h) = sg_request h" using watchdog_speaks [of P h] by (simp add: sg_speaks_def)
  with p have "sg_speaks P (sg_close_watchdog h) (sg_emit (SgReply r) (sg_close_watchdog h))"
    by (simp add: sg_speaks_def sg_emit_def)
  from sg_speaks_trans [OF watchdog_speaks this] show ?thesis by (simp add: respond_eq)
qed

lemma error_speaks: "sign_fits h (sg_sendError e h)"
  unfolding sg_sendError_def by (rule respond_speaks) (rule error_fits)

lemma wrapped_speaks: "(\<And>h'. sg_request h' = sg_request h \<Longrightarrow> sg_speaks P h' (cb h')) \<Longrightarrow> sg_speaks P h (sg_wrapped cb h)"
proof -
  assume cb: "\<And>h'. sg_request h' = sg_request h \<Longrightarrow> sg_speaks P h' (cb h')"
  let ?h = "h\<lparr>sg_wd := wrappedCallback () (sg_wd h)\<rparr>"
  have "sg_speaks P h ?h" by (rule sg_speaks_same) simp_all
  moreover have "sg_speaks P ?h (cb ?h)" by (rule cb) simp
  ultimately have "sg_speaks P h (cb ?h)" by (rule sg_speaks_trans)
  then show ?thesis by (simp add: sg_wrapped_def)
qed

lemma notify_speaks: "sign_fits h (sg_notifyError e h)" "sign_fits h (sg_notifySuccess c i d h)"
proof -
  let ?h1 = "complete_token (sg_close_quiet (h\<lparr>sg_done := True\<rparr>))"
  have 1: "sign_fits h ?h1" by (rule silent_speaks [OF silent_fail])
  have "sign_fits ?h1 (sg_wrapped (sg_sendError e) ?h1)" by (rule wrapped_speaks) (rule error_speaks)
  from sg_speaks_trans [OF 1 this] show "sign_fits h (sg_notifyError e h)"
    by (simp add: sg_notifyError_def signerFailed_def sg_speaks_same)
  have "sign_fits h' (case (c, d) of (Some c', Some d') \<Rightarrow> sg_sendSuccess c' i d' h' | _ \<Rightarrow> h')" for h'
  proof -
    have "sign_fits h' (sg_sendSuccess c' i d' h')" for c' d'
      unfolding sg_sendSuccess_def
      by (rule respond_speaks) (auto simp: fits_def makeU2fSuccessResponse_def addSignatureAndBrowserDataToResponseData_def sign_data_def)
    then show ?thesis by (simp add: sg_speaks_same split: option.split)
  qed
  then have "sign_fits ?h1 (sg_wrapped (\<lambda>h'. case (c, d) of (Some c', Some d') \<Rightarrow> sg_sendSuccess c' i d' h' | _ \<Rightarrow> h') ?h1)"
    by (intro wrapped_speaks)
  from sg_speaks_trans [OF 1 this] show "sign_fits h (sg_notifySuccess c i d h)"
    unfolding sg_notifySuccess_def by (simp add: sg_speaks_same)
qed

lemma close_speaks: "sign_fits h (qs_close h)"
proof -
  have "sign_fits h (sg_close h)"
    unfolding sg_close_def by (rule sg_speaks_trans [OF silent_speaks [OF silent_ops(1)] notify_speaks(1)])
  from sg_speaks_trans [OF this silent_speaks [OF silent_end]] silent_speaks [OF silent_end]
  show ?thesis by (simp add: qs_close_def)
qed

lemma begin_speaks: "sign_fits h (qs_begin h)"
proof -
  have w: "sign_fits h1 (sg_wrapped (sg_sendError e) h1)" for h1 e by (rule wrapped_speaks) (rule error_speaks)
  have s: "sign_fits h1 (fst (setChallenges h1))" for h1
  proof -
    have "sign_fits h1 (sg_notifyError missing_appId (h1\<lparr>sg_challengesSet := True\<rparr>))"
      by (rule sg_speaks_trans [OF sg_speaks_same notify_speaks(1)]) simp_all
    then show ?thesis by (simp add: setChallenges_def sg_checkAppIds_def Let_def sg_speaks_same notify_speaks)
  qed
  show ?thesis
  proof (cases "expired (qs_timer h)")
    case True
    then show ?thesis using sg_speaks_trans [OF close_speaks w] by (simp add: qs_begin_def)
  next
    case False
    obtain sys1 t1 where c: "cd_clone (sg_sys h) (qs_timer h) (None :: unit option) = (sys1, t1)" by fastforce
    let ?h1 = "h\<lparr>qs_begun := True, qs_token := True, sg_made := True, sg_sys := sys1, sg_timer := t1\<rparr>"
    obtain h2 ok where h2: "setChallenges ?h1 = (h2, ok)" by fastforce
    have "sign_fits h ?h1" by (rule sg_speaks_same) simp_all
    from sg_speaks_trans [OF this s] have 2: "sign_fits h h2" using h2 by (metis fst_conv)
    let ?h3 = "if ok then h2 else sg_wrapped (sg_sendError (plain_error BAD_REQUEST)) (complete_token h2)"
    have 3: "sign_fits h ?h3"
      using 2 sg_speaks_trans [OF 2 sg_speaks_trans [OF silent_speaks [OF silent_ops(2)] w]] by simp
    obtain sys2 t2 where c2: "cd_clearTimeout (sg_sys ?h3) (qs_timer ?h3) = (sys2, t2)" by fastforce
    have "qs_begin h = ?h3\<lparr>sg_sys := sys2, qs_timer := t2\<rparr>" using False c h2 c2 by (simp add: qs_begin_def Let_def)
    then show ?thesis using sg_speaks_trans [OF 3 sg_speaks_same] by simp
  qed
qed

lemma prepare_speaks: "sg_speaks P h (fst (prepare env cs h))"
proof (induction env cs h rule: prepare.induct)
  case (2 env c cs h)
  show ?case
  proof (cases "server_challenge (sg_request h) c")
    case (Some ch)
    from sg_speaks_trans [OF sg_speaks_same 2 [OF Some refl]] show ?thesis by (simp add: Some Let_def)
  qed simp
qed simp

lemma doSign_speaks: "sg_doSign env a b h = Some (h', ok) \<Longrightarrow> sg_speaks P h h'"
proof -
  assume d: "sg_doSign env a b h = Some (h', ok)"
  obtain h1 ok1 where p: "prepare env (sg_challenges h) h = (h1, ok1)" by fastforce
  have 1: "sg_speaks P h h1" using prepare_speaks [of P h env "sg_challenges h"] p by simp
  have "sg_speaks P h1 (sg_emit (SgStart q) (h1\<lparr>sg_handler := True, sg_started := True\<rparr>))" for q
    by (simp add: sg_speaks_def sg_emit_def)
  from sg_speaks_trans [OF 1 this] 1 d p show ?thesis
    by (auto simp: sg_doSign_def Let_def split: if_splits option.splits)
qed

lemma sign_step_fits: "sign_fits h (sg_step env e h)"
proof (cases e)
  case SgBegin
  have "sign_fits h (qs_begin (h\<lparr>sg_wait := SgRest\<rparr>))" by (rule sg_speaks_trans [OF sg_speaks_same begin_speaks]) simp_all
  with SgBegin show ?thesis by simp
next
  case SgQueueTimer
  obtain sys' t cs where f: "cd_fire (sg_sys h) (qs_timer h) = (sys', t, cs)" by (metis prod_cases3)
  let ?h = "h\<lparr>sg_sys := sys', qs_timer := t\<rparr>"
  have 1: "sign_fits h ?h" by (rule sg_speaks_same) simp_all
  from sg_speaks_trans [OF 1 close_speaks] 1 show ?thesis using SgQueueTimer f by (simp add: Let_def)
next
  case SgClaimed
  have "sign_fits h (sg_originChecked ids ok (h\<lparr>sg_wait := SgRest\<rparr>))" for ids ok
  proof -
    have "sign_fits h (sg_notifyError bad_appId (h\<lparr>sg_wait := SgRest\<rparr>))"
      by (rule sg_speaks_trans [OF sg_speaks_same notify_speaks(1)]) simp_all
    then show ?thesis by (simp add: sg_originChecked_def sg_speaks_same split: prod.split)
  qed
  with SgClaimed show ?thesis by (simp split: sg_stage.split)
next
  case (SgDocuments docs a b)
  let ?h = "h\<lparr>sg_wait := SgRest\<rparr>"
  have 0: "sign_fits h ?h" by (rule sg_speaks_same) simp_all
  have n: "sign_fits h (sg_notifyError e h1)" if "sign_fits h h1" for e h1 by (rule sg_speaks_trans [OF that notify_speaks(1)])
  have "sign_fits h (appIdChecked env a b res ?h)" for res
    using sg_speaks_trans [OF 0 doSign_speaks] 0 n by (auto simp: appIdChecked_def split: option.split)
  with SgDocuments show ?thesis by (simp split: sg_stage.split option.split)
next
  case (SgHelper ty c k s)
  then show ?thesis by (simp add: sg_helperComplete_def notify_speaks)
next
  case SgWatchdog
  have 1: "sign_fits h (h\<lparr>sg_wd := w\<rparr>)" for w by (rule sg_speaks_same) simp_all
  from sg_speaks_trans [OF 1 error_speaks] 1 show ?thesis using SgWatchdog by (simp add: Let_def)
next
  case SgClose
  then show ?thesis by (simp add: watchdog_speaks)
qed

lemma sign_run_fits: "sign_fits h (fold (sg_step env) es h)"
proof (induction es arbitrary: h)
  case (Cons e es)
  from sg_speaks_trans [OF sign_step_fits Cons.IH] show ?case by simp
qed simp

lemma en_speaks_trans: "en_speaks P h h1 \<Longrightarrow> en_speaks P h1 h2 \<Longrightarrow> en_speaks P h h2"
  unfolding en_speaks_def by metis

lemma en_speaks_same: "en_request h' = en_request h \<Longrightarrow> en_out h' = en_out h \<Longrightarrow> en_speaks P h h'"
  by (simp add: en_speaks_def)

lemma en_speaks_refl [simp]: "en_speaks P h h"
  by (rule en_speaks_same) simp_all

lemma en_close_speaks: "en_speaks P h (en_close h)" "en_speaks P h (close_watchdog h)" "en_speaks P h ((en_close h)\<lparr>en_done := True\<rparr>)"
  by (auto simp: en_speaks_def close_watchdog_def en_close_def en_emit_def Let_def)

lemma send_speaks: "P (en_request h) r \<Longrightarrow> en_speaks P h (send_once r h)"
  using en_close_speaks(2) [of P h] by (auto simp: send_once_def sendResponseOnce_def en_speaks_def)

lemma en_error_speaks: "enroll_fits h (sendErrorResponse e h)"
  unfolding sendErrorResponse_def by (rule send_speaks) (rule error_fits)

lemma en_notify_speaks: "enroll_fits h (en_notifyError e h)" "enroll_fits h (en_notifySuccess v i d h)"
proof -
  show "enroll_fits h (en_notifyError e h)"
    unfolding en_notifyError_def using en_speaks_trans [OF en_close_speaks(3) en_error_speaks] by simp
  have "enroll_fits h' (sendSuccessResponse v i d h')" for h'
  proof -
    have "fits enroll_data q (makeU2fSuccessResponse (Some q) (makeEnrollResponseData c v i d))" for q c
      by (auto simp: fits_def makeU2fSuccessResponse_def makeEnrollResponseData_def enroll_data_def)
    then show ?thesis by (auto simp: sendSuccessResponse_def en_error_speaks intro: send_speaks split: option.split)
  qed
  then show "enroll_fits h (en_notifySuccess v i d h)"
    unfolding en_notifySuccess_def using en_speaks_trans [OF en_close_speaks(3)] by simp
qed

lemma enroll_step_fits: "enroll_fits h (en_step env e h)"
proof -
  have n: "enroll_fits h (en_notifyError x h1)" "enroll_fits h (notifyTimeout h1)" "enroll_fits h (sendErrorResponse x h1)"
    if "en_request h1 = en_request h" "en_out h1 = en_out h" for x h1
    unfolding notifyTimeout_def
    by (rule en_speaks_trans [OF en_speaks_same en_notify_speaks(1)] en_speaks_trans [OF en_speaks_same en_error_speaks]; rule that)+
  have s: "enroll_fits h (sendEnrollRequestToHelper env h1)" if "en_request h1 = en_request h" "en_out h1 = en_out h" for h1
    using that by (auto simp: sendEnrollRequestToHelper_def Let_def intro: n en_speaks_same split: prod.split option.split)
  show ?thesis
  proof (cases e)
    case (EnTab a b c)
    have "enroll_fits h (en_notifyError x (en_close (h\<lparr>en_sender := s', en_wait := AtRest\<rparr>)))" for x s'
      by (rule en_speaks_trans [OF en_speaks_trans [OF en_speaks_same en_close_speaks(1)] en_notify_speaks(1)]) simp_all
    with EnTab show ?thesis by (auto simp: Let_def intro!: en_speaks_same split: prod.split)
  next
    case (EnApproval a b c d f)
    have "enroll_fits h (en_approved env r (h\<lparr>en_wait := AtRest\<rparr>))" for r
      by (simp add: en_approved_def n s en_speaks_same split: prod.split)
    with EnApproval show ?thesis by (simp add: en_speaks_same split: option.split promised.split)
  next
    case EnClaim
    have "enroll_fits h (en_originChecked ids q r (h\<lparr>en_wait := AtRest\<rparr>))" for ids q r
      by (simp add: en_originChecked_def n en_speaks_same split: prod.split)
    with EnClaim show ?thesis by (simp split: en_stage.split)
  next
    case (EnDocuments docs b)
    have "enroll_fits h (en_appIdsChecked q b r (h\<lparr>en_wait := AtRest\<rparr>))" for q r
      by (simp add: en_appIdsChecked_def n en_speaks_same) (simp add: en_speaks_def)
    with EnDocuments show ?thesis by (simp split: en_stage.split option.split)
  next
    case (EnHelper c v d)
    then show ?thesis by (simp add: en_helperComplete_def en_notify_speaks)
  next
    case EnTimer
    then show ?thesis by (simp add: Let_def n en_speaks_same split: prod.split)
  next
    case EnWatchdog
    then show ?thesis by (simp add: Let_def n en_speaks_same)
  next
    case EnClose
    then show ?thesis by (simp add: en_close_speaks)
  qed
qed

lemma enroll_run_fits: "enroll_fits h (fold (en_step env) es h)"
proof (induction es arbitrary: h)
  case (Cons e es)
  from en_speaks_trans [OF enroll_step_fits Cons.IH] show ?case by simp
qed simp

subsection \<open>Requests and their sessions\<close>

datatype session = RegisterSession enroller | SignSession sign_session

datatype session_event = RegisterEvent en_event | SignEvent sg_event

fun session_step :: "web_env \<Rightarrow> session_event \<Rightarrow> session \<Rightarrow> session" where
  "session_step env (RegisterEvent e) (RegisterSession h) = RegisterSession (en_step env e h)"
| "session_step env (SignEvent e) (SignSession h) = SignSession (sg_step env e h)"
| "session_step env _ s = s"

text \<open>\<open>close\<close> of the closeable that the handler returned, which is the watchdog.\<close>

fun session_close :: "session \<Rightarrow> session" where
  "session_close (RegisterSession h) = RegisterSession (close_watchdog h)"
| "session_close (SignSession h) = SignSession (sg_close_watchdog h)"

fun session_responses :: "session \<Rightarrow> web_response list" where
  "session_responses (RegisterSession h) = concat (map (\<lambda>e. case e of Reply r \<Rightarrow> [r] | _ \<Rightarrow> []) (en_out h))"
| "session_responses (SignSession h) = concat (map (\<lambda>e. case e of SgReply r \<Rightarrow> [r] | _ \<Rightarrow> []) (sg_out h))"

text \<open>What the handler calls \<open>sendResponse\<close> with at once, and the session it returns.\<close>

definition messageHandler :: "web_env \<Rightarrow> systimer \<Rightarrow> web_request \<Rightarrow> message_sender \<Rightarrow> web_response list \<times> session option" where
  "messageHandler env sys request sender =
     (case handleWebPageRequest request of
        Answered r \<Rightarrow> ([r], None)
      | HandleEnroll \<Rightarrow> (case handleU2fEnrollRequest env sys sender request of
            Inl r \<Rightarrow> ([r], None) | Inr h \<Rightarrow> ([], Some (RegisterSession h)))
      | HandleSign \<Rightarrow> (case handleU2fSignRequest env sys sender request of
            Inl r \<Rightarrow> ([r], None) | Inr h \<Rightarrow> ([], Some (SignSession h))))"

definition isRegisterRequest :: "web_request option \<Rightarrow> bool" where
  "isRegisterRequest request = (case request of None \<Rightarrow> False | Some r \<Rightarrow> wr_type r = Some U2F_REGISTER_REQUEST)"

definition defaultResponseCallback :: "web_request \<Rightarrow> web_response \<Rightarrow> web_response" where
  "defaultResponseCallback request response = response\<lparr>resp_requestId := wr_requestId request\<rparr>"

text \<open>
  Of a sender without a tab the id of the tab is asked for: an exception, and no response. \<open>fg\<close> is what becomes of
  the promise of \<open>tabInForeground\<close>.
\<close>

definition sendResponseToActiveTabOnly :: "web_request \<Rightarrow> message_sender \<Rightarrow> promised \<Rightarrow> web_response \<Rightarrow> web_response option" where
  "sendResponseToActiveTabOnly request sender fg response =
     (case mg_tab sender of None \<Rightarrow> None
      | Some i \<Rightarrow> if fg = Resolved True then Some (defaultResponseCallback request response) else None)"

definition responseCallback :: "web_request \<Rightarrow> message_sender \<Rightarrow> promised \<Rightarrow> web_response \<Rightarrow> web_response option" where
  "responseCallback request sender fg response =
     (if isRegisterRequest (Some request) then sendResponseToActiveTabOnly request sender fg response
      else Some (defaultResponseCallback request response))"

definition response_type :: "web_request \<Rightarrow> string option" where
  "response_type r =
     (if wr_type r = Some U2F_REGISTER_REQUEST then Some U2F_REGISTER_RESPONSE
      else if wr_type r = Some U2F_SIGN_REQUEST then Some U2F_SIGN_RESPONSE else None)"

definition response_data_ok :: "web_request \<Rightarrow> response_data \<Rightarrow> bool" where
  "response_data_ok r d = (if wr_type r = Some U2F_REGISTER_REQUEST then enroll_data d else sign_data d)"

lemma response_types:
  "replace_request U2F_REGISTER_REQUEST ''_response'' = U2F_REGISTER_RESPONSE"
  "replace_request U2F_SIGN_REQUEST ''_response'' = U2F_SIGN_RESPONSE" "U2F_REGISTER_REQUEST \<noteq> []" "U2F_SIGN_REQUEST \<noteq> []"
  "U2F_REGISTER_REQUEST \<noteq> U2F_SIGN_REQUEST"
  by code_simp+

lemma fits_type:
  "fits enroll_data q r \<Longrightarrow> wr_type q = Some U2F_REGISTER_REQUEST \<Longrightarrow> resp_type r = Some U2F_REGISTER_RESPONSE \<and> enroll_data (resp_data r)"
  "fits sign_data q r \<Longrightarrow> wr_type q = Some U2F_SIGN_REQUEST \<Longrightarrow> resp_type r = Some U2F_SIGN_RESPONSE \<and> sign_data (resp_data r)"
  using response_types by (auto simp: fits_def makeResponseForRequest_def)

lemma session_fits:
  assumes "messageHandler env sys q m = (rs, Some s)"
  shows "\<forall>r \<in> set (session_responses (fold (session_step env) es s)). resp_type r = response_type q \<and> response_data_ok q (resp_data r)"
proof -
  have reg: "\<exists>h'. fold (session_step env) es (RegisterSession h) = RegisterSession h' \<and> enroll_fits h h'" for h
  proof (induction es arbitrary: h)
    case (Cons e es)
    show ?case
    proof (cases e)
      case (RegisterEvent x)
      from Cons [of "en_step env x h"] enroll_step_fits [of h env x] en_speaks_trans show ?thesis
        by (metis RegisterEvent fold_simps(2) session_step.simps(1))
    qed (use Cons in simp)
  qed simp
  have sig: "\<exists>h'. fold (session_step env) es (SignSession h) = SignSession h' \<and> sign_fits h h'" for h
  proof (induction es arbitrary: h)
    case (Cons e es)
    show ?case
    proof (cases e)
      case (SignEvent x)
      from Cons [of "sg_step env x h"] sign_step_fits [of h env x] sg_speaks_trans show ?thesis
        by (metis SignEvent fold_simps(2) session_step.simps(2))
    qed (use Cons in simp)
  qed simp
  show ?thesis
  proof (cases "handleWebPageRequest q")
    case HandleEnroll
    then obtain h where h: "handleU2fEnrollRequest env sys m q = Inr h" "s = RegisterSession h"
      using assms by (auto simp: messageHandler_def split: sum.splits)
    have t: "wr_type q = Some U2F_REGISTER_REQUEST" using HandleEnroll by (simp add: handleWebPageRequest_def split: if_splits)
    have q: "en_request h = q" "en_out h = []"
      using h(1) by (auto simp: handleU2fEnrollRequest_def Let_def split: option.splits if_splits prod.splits)
    obtain h' where "fold (session_step env) es s = RegisterSession h'" "enroll_fits h h'" using reg [of h] h(2) by blast
    then show ?thesis
      using q t fits_type(1) [of q] by (auto simp: en_speaks_def response_type_def response_data_ok_def split: en_effect.splits)
  next
    case HandleSign
    then obtain h where h: "handleU2fSignRequest env sys m q = Inr h" "s = SignSession h"
      using assms by (auto simp: messageHandler_def split: sum.splits)
    have t: "wr_type q = Some U2F_SIGN_REQUEST" using HandleSign by (simp add: handleWebPageRequest_def split: if_splits)
    have q: "sg_request h = q" "sg_out h = []" using sign_starts [OF h(1)] by simp_all
    obtain h' where "fold (session_step env) es s = SignSession h'" "sign_fits h h'" using sig [of h] h(2) by blast
    then show ?thesis
      using q t fits_type(2) [of q] response_types(5)
      by (auto simp: sg_speaks_def response_type_def response_data_ok_def split: sg_effect.splits)
  qed (use assms in \<open>simp add: messageHandler_def\<close>)
qed


lemma sign_events: "fold (session_step env) (map SignEvent es) (SignSession h) = SignSession (fold (sg_step env) es h)"
  by (induction es arbitrary: h) simp_all

definition signed_events :: "sg_event list" where
  "signed_events = [SgBegin, SgClaimed, SgDocuments (\<lambda>_. []) True True, SgHelper ''sign_helper_reply'' 0 ''a2g'' ''sig'']"

lemma example_reply: "\<exists>r. SgReply r \<in> set (sg_out (fold (sg_step reg_env) signed_events sign_start))"
proof -
  define h where "h = sg_step reg_env (SgDocuments (\<lambda>_. []) True True) before_documents"
  have run: "fold (sg_step reg_env) signed_events sign_start = sg_step reg_env (SgHelper ''sign_helper_reply'' 0 ''a2g'' ''sig'') h"
    by (simp only: signed_events_def h_def before_documents_def fold.simps comp_apply id_apply)
  have h: "map_of (sg_browserData h) ''a2g'' = Some (sign_client_data reg_env (sg_sender before_documents) ''c'')"
    "map_of (sg_serverChallenges h) ''a2g'' = Some key_challenge" "\<not> sg_done h" "\<not> wd_closed (sg_wd h)" "sg_started h"
    using documents_state [OF at_documents] fresh_documents unfolding h_def Let_def by blast+
  have "key_of key_challenge = ''a2g''" by code_simp
  from success_replies [OF h(1,2) this h(3,4,5)] show ?thesis unfolding run by blast
qed

lemma example_handler: "messageHandler reg_env \<lparr>sys_last = 0, sys_armed = []\<rparr> sign_req reg_message = ([], Some (SignSession sign_start))"
proof -
  have "handleWebPageRequest sign_req = HandleSign" by code_simp
  then show ?thesis by (simp add: messageHandler_def sign_started)
qed


subsection \<open>Ports of web pages\<close>

text \<open>
  A connection: the sessions of its messages, in order, and the variable \<open>closeable\<close> of the listeners, which holds
  what the handler of the latest message returned.
\<close>

record connection =
  cn_sessions :: "session list"
  cn_closeable :: "nat option"
  cn_closed :: "nat list"

definition new_connection :: connection where
  "new_connection = \<lparr>cn_sessions = [], cn_closeable = None, cn_closed = []\<rparr>"

definition port_message :: "web_env \<Rightarrow> systimer \<Rightarrow> web_request \<Rightarrow> message_sender \<Rightarrow> connection \<Rightarrow> connection \<times> web_response list" where
  "port_message env sys request sender c =
     (case messageHandler env sys request sender of
        (rs, None) \<Rightarrow> (c\<lparr>cn_closeable := None\<rparr>, rs)
      | (rs, Some s) \<Rightarrow> (c\<lparr>cn_sessions := cn_sessions c @ [s], cn_closeable := Some (length (cn_sessions c))\<rparr>, rs))"

definition port_disconnect :: "connection \<Rightarrow> connection" where
  "port_disconnect c =
     (case cn_closeable c of None \<Rightarrow> c
      | Some i \<Rightarrow> c\<lparr>cn_sessions := (cn_sessions c)[i := session_close (cn_sessions c ! i)], cn_closed := cn_closed c @ [i]\<rparr>)"

text \<open>The sender that a frame of the extension stands for.\<close>

definition makeMessageSenderFromOrigin :: "string \<Rightarrow> message_sender" where
  "makeMessageSenderFromOrigin o' = \<lparr>mg_url = o', mg_tlsChannelId = Some [], mg_tab = None\<rparr>"

definition frame_message :: "web_env \<Rightarrow> systimer \<Rightarrow> string \<Rightarrow> web_request \<Rightarrow> int option \<Rightarrow> connection \<Rightarrow> connection \<times> web_response list" where
  "frame_message env sys o' request port_tab c =
     port_message env sys request ((makeMessageSenderFromOrigin o')\<lparr>mg_tab := port_tab\<rparr>) c"

text \<open>What the frame's port gets: the listener sets the id of the request once more.\<close>

definition frame_response :: "web_request \<Rightarrow> web_response \<Rightarrow> web_response" where
  "frame_response request response = response\<lparr>resp_requestId := wr_requestId request\<rparr>"

lemma frame_sender:
  "createSenderFromMessageSender ((makeMessageSenderFromOrigin o')\<lparr>mg_tab := i\<rparr>)
     = map_option (\<lambda>og. \<lparr>ws_origin = og, ws_tlsChannelId = None, ws_tabId = i\<rparr>) (getOriginFromUrl o')"
  by (auto simp: createSenderFromMessageSender_def makeMessageSenderFromOrigin_def split: option.split)

text \<open>When two requests are under way on one port, its end closes only the second; the first goes on.\<close>

theorem first_request_left:
  "(let c = port_disconnect (fst (port_message reg_env \<lparr>sys_last = 0, sys_armed = []\<rparr> sign_req reg_message
              (fst (port_message reg_env \<lparr>sys_last = 0, sys_armed = []\<rparr> sign_req reg_message new_connection))))
    in cn_closed c = [1] \<and> length (cn_sessions c) = 2 \<and> cn_sessions c ! 0 = SignSession sign_start)"
  by (simp add: port_message_def example_handler new_connection_def port_disconnect_def)

subsection \<open>External helpers\<close>

definition BLE_APP_HASH :: string where
  "BLE_APP_HASH = ''sdpeHuOBPmz9tQ9Dk_q9GlO3fN4rbKST08sQ6X1f2rQ''"

definition isBleApp :: "string \<Rightarrow> bool" where
  "isBleApp senderId = (BLE_APP_HASH = B64_encode (sha256HashOfString senderId) None)"

definition HELPER_WHITELIST :: helper_whitelist where
  "HELPER_WHITELIST = addAllowedBlindedExtension BLE_APP_HASH (Some ''BLE'') empty_whitelist"

text \<open>
  The background page: the helpers, the number of external helpers made, their configurations, the id in
  \<open>chrome.storage\<close>, and the acknowledgements sent.
\<close>

record background =
  bg_helper :: delegating_helper
  bg_made :: nat
  bg_configs :: "unit external_config list"
  bg_stored :: "string option"
  bg_acks :: "string list"

text \<open>The USB helper is the object 0, external helpers are 1, 2, \<dots>\<close>

definition new_background :: "string option \<Rightarrow> background" where
  "new_background stored =
     \<lparr>bg_helper = addHelper (OtherHelper 0) DelegatingHelper, bg_made = 0, bg_configs = [], bg_stored = stored, bg_acks = []\<rparr>"

definition registerExternalHelper :: "string \<Rightarrow> background \<Rightarrow> background" where
  "registerExternalHelper i b =
     (let config = \<lparr>xc_appId = i, xc_source = (if truthy (getExtensionMnemonic HELPER_WHITELIST i) then getExtensionMnemonic HELPER_WHITELIST i else None),
                    xc_defaultError = TIMEOUT_STATUS\<rparr>
      in b\<lparr>bg_helper := addHelper (ExternalHelper (bg_made b + 1) i) (bg_helper b), bg_made := bg_made b + 1, bg_configs := bg_configs b @ [config]\<rparr>)"

definition setBleAppId :: "string \<Rightarrow> background \<Rightarrow> background" where
  "setBleAppId i b = b\<lparr>bg_stored := Some i\<rparr>"

text \<open>The callback of \<open>chrome.storage.local.get\<close>.\<close>

definition load_stored :: "bool \<Rightarrow> background \<Rightarrow> background" where
  "load_stored lastError b = (if \<not> lastError \<and> truthy (bg_stored b) then registerExternalHelper (the (bg_stored b)) b else b)"

text \<open>
  A message of another extension, by \<open>sendMessage\<close> or on a port: \<open>text\<close> is the message when it is a string.
\<close>

definition external_message :: "string \<Rightarrow> string option \<Rightarrow> background \<Rightarrow> background" where
  "external_message sender_id text b =
     (if text = Some sender_id \<and> isExtensionAllowed HELPER_WHITELIST sender_id
      then (let b1 = registerExternalHelper sender_id b in
            if isBleApp sender_id then (let b2 = setBleAppId sender_id b1 in b2\<lparr>bg_acks := bg_acks b2 @ [sender_id]\<rparr>) else b1)
      else b)"

definition external_port_message :: "string \<Rightarrow> string option \<Rightarrow> background \<Rightarrow> background" where
  "external_port_message sender_id text b =
     (if text = Some sender_id \<and> isExtensionAllowed HELPER_WHITELIST sender_id then registerExternalHelper sender_id b else b)"

datatype bg_event = BgStored bool | BgMessage string "string option" | BgPortMessage string "string option"

fun bg_step :: "bg_event \<Rightarrow> background \<Rightarrow> background" where
  "bg_step (BgStored lastError) b = load_stored lastError b"
| "bg_step (BgMessage i t) b = external_message i t b"
| "bg_step (BgPortMessage i t) b = external_port_message i t b"

definition trusted :: "background \<Rightarrow> bool" where
  "trusted b \<longleftrightarrow> (\<forall>k a. ExternalHelper k a \<in> set (dh_helpers (bg_helper b)) \<longrightarrow> isBleApp a)
     \<and> (\<forall>k. OtherHelper k \<in> set (dh_helpers (bg_helper b)) \<longrightarrow> k = 0)
     \<and> (\<forall>i. bg_stored b = Some i \<longrightarrow> isBleApp i) \<and> (\<forall>i \<in> set (bg_acks b). isBleApp i)"

lemma allowed_ble: "isExtensionAllowed HELPER_WHITELIST i \<longleftrightarrow> isBleApp i"
  by (auto simp: HELPER_WHITELIST_def allowed_blinded isBleApp_def blinded_def) (simp_all add: allowed_iff empty_whitelist_def)

lemma replaced_helpers: "set (fst (replace_helper a h hs)) \<subseteq> insert h (set hs)"
  by (induction hs) (auto split: prod.splits)

lemma added_helpers: "set (dh_helpers (addHelper h d)) \<subseteq> insert h (set (dh_helpers d))"
proof (cases h)
  case (ExternalHelper k a)
  then show ?thesis using replaced_helpers [of a h "dh_helpers d"] by (auto split: prod.split)
qed auto

lemma trusted_register: "trusted b \<Longrightarrow> isBleApp i \<Longrightarrow> trusted (registerExternalHelper i b)"
  using added_helpers [of "ExternalHelper (bg_made b + 1) i" "bg_helper b"]
  by (auto simp: trusted_def registerExternalHelper_def Let_def)

lemma trusted_step: "trusted b \<Longrightarrow> trusted (bg_step e b)"
proof (cases e)
  case (BgStored x)
  assume t: "trusted b"
  show ?thesis
  proof (cases "\<not> x \<and> truthy (bg_stored b)")
    case True
    then obtain i where i: "bg_stored b = Some i" by (auto simp: truthy_def)
    then have "isBleApp i" using t by (simp add: trusted_def)
    from trusted_register [OF t this] show ?thesis using BgStored True i by (simp add: load_stored_def)
  qed (use t BgStored in \<open>auto simp: load_stored_def\<close>)
next
  case (BgMessage i t)
  assume t: "trusted b"
  show ?thesis
  proof (cases "t = Some i \<and> isBleApp i")
    case True
    with trusted_register [OF t, of i] show ?thesis using BgMessage
      by (auto simp: external_message_def allowed_ble Let_def setBleAppId_def trusted_def)
  qed (use t BgMessage in \<open>auto simp: external_message_def allowed_ble\<close>)
next
  case (BgPortMessage i t)
  assume "trusted b"
  then show ?thesis using BgPortMessage trusted_register [of b i] by (auto simp: external_port_message_def allowed_ble)
qed

text \<open>
  C40. Only the one extension whose hashed id is built in becomes a helper: when the stored id was put there by this
  code, every external helper, every stored id and every acknowledgement belongs to an extension with that hash,
  whatever messages other extensions send.
\<close>

theorem helpers_trusted:
  assumes "case stored of None \<Rightarrow> True | Some i \<Rightarrow> isBleApp i"
  shows "let b = fold bg_step es (new_background stored) in
    list_all (\<lambda>h. case h of ExternalHelper k a \<Rightarrow> B64_encode (sha256HashOfString a) None = BLE_APP_HASH | OtherHelper k \<Rightarrow> k = 0)
      (dh_helpers (bg_helper b))
    \<and> (case bg_stored b of None \<Rightarrow> True | Some i \<Rightarrow> isBleApp i) \<and> list_all isBleApp (bg_acks b)"
proof -
  have "trusted (new_background stored)"
    using assms(1) by (auto simp: trusted_def new_background_def DelegatingHelper_def isBleApp_def)
  then have "trusted (fold bg_step es (new_background stored))"
    by (rule fold_invariant [where Q = "\<lambda>_. True" and P = trusted, rotated]) (simp_all add: trusted_step)
  then show ?thesis
    by (auto simp: trusted_def isBleApp_def Let_def list_all_iff split: option.split helper.split)
qed

theorem helpers_trusted_witness:
  "list_all isBleApp (bg_acks (fold bg_step [BgStored False, BgMessage ''x'' (Some ''x''), BgPortMessage ''y'' None] (new_background None)))"
  using helpers_trusted [of None "[BgStored False, BgMessage ''x'' (Some ''x''), BgPortMessage ''y'' None]"] by (simp only: Let_def option.case simp_thms)

subsection \<open>The forwarding frame (u2f-comms.js)\<close>

text \<open>
  The frame between a page and the extension. Ports of pages are numbers; \<open>'m\<close> are the messages.
\<close>

datatype 'm fw_effect =
    ToExtension "string option" 'm
  | ToPage nat 'm
  | ReadyTo nat
  | Connect

record 'm forwarder =
  extensionPort :: bool
  pagePort :: "nat option"
  pageOrigin :: "string option"
  fw_listening :: "nat list"
  fw_out :: "'m fw_effect list"

definition Forwarder :: "'m forwarder" where
  "Forwarder = \<lparr>extensionPort = False, pagePort = None, pageOrigin = None, fw_listening = [], fw_out = []\<rparr>"

definition fw_emit :: "'m fw_effect \<Rightarrow> 'm forwarder \<Rightarrow> 'm forwarder" where
  "fw_emit e f = f\<lparr>fw_out := fw_out f @ [e]\<rparr>"

text \<open>\<open>connects\<close>: whether \<open>chrome.runtime.connect\<close> gives a port.\<close>

definition connectToExtension :: "bool \<Rightarrow> 'm forwarder \<Rightarrow> 'm forwarder" where
  "connectToExtension connects f =
     (if extensionPort f then f else fw_emit Connect (f\<lparr>extensionPort := connects\<rparr>))"

text \<open>A message to the window of the frame: \<open>is_init\<close> when its data is \<open>init\<close>, with the ports it hands over.\<close>

definition fw_window_message :: "bool \<Rightarrow> bool \<Rightarrow> nat list \<Rightarrow> string \<Rightarrow> 'm forwarder \<Rightarrow> 'm forwarder" where
  "fw_window_message connects is_init ports o' f =
     (if is_init \<and> ports \<noteq> []
      then fw_emit (ReadyTo (hd ports)) (connectToExtension connects
             (f\<lparr>pageOrigin := Some o', pagePort := Some (hd ports), fw_listening := fw_listening f @ [hd ports]\<rparr>))
      else f)"

definition onPageMessage :: "'m \<Rightarrow> 'm forwarder \<Rightarrow> 'm forwarder" where
  "onPageMessage d f = (if \<not> extensionPort f then f else fw_emit (ToExtension (pageOrigin f) d) f)"

definition onExtensionMessage :: "'m \<Rightarrow> 'm forwarder \<Rightarrow> 'm forwarder" where
  "onExtensionMessage m f = (case pagePort f of None \<Rightarrow> f | Some p \<Rightarrow> fw_emit (ToPage p m) f)"

datatype 'm fw_event =
    FwWindow bool bool "nat list" string
  | FwPage nat 'm
  | FwExtension 'm

fun fw_step :: "'m fw_event \<Rightarrow> 'm forwarder \<Rightarrow> 'm forwarder" where
  "fw_step (FwWindow connects is_init ports o') f = fw_window_message connects is_init ports o' f"
| "fw_step (FwPage p d) f = (if p \<in> set (fw_listening f) then onPageMessage d f else f)"
| "fw_step (FwExtension m) f = (if extensionPort f then onExtensionMessage m f else f)"

definition inits :: "'m fw_event list \<Rightarrow> (nat \<times> string) list" where
  "inits es = concat (map (\<lambda>e. case e of FwWindow c i ps o' \<Rightarrow> if i \<and> ps \<noteq> [] then [(hd ps, o')] else [] | _ \<Rightarrow> []) es)"

fun fw_faithful :: "nat \<Rightarrow> string \<Rightarrow> 'm fw_effect \<Rightarrow> bool" where
  "fw_faithful p o' (ToExtension og m) = (og = Some o')"
| "fw_faithful p o' (ToPage p' m) = (p' = p)"
| "fw_faithful p o' (ReadyTo p') = (p' = p)"
| "fw_faithful p o' Connect = True"

lemma fw_run:
  assumes "list_all (fw_faithful p o') (fw_out f)" "pagePort f = None \<and> pageOrigin f = None \<and> fw_listening f = [] \<and> \<not> extensionPort f
      \<or> pagePort f = Some p \<and> pageOrigin f = Some o'"
    and "list_all (\<lambda>x. x = (p, o')) (inits es)"
  shows "list_all (fw_faithful p o') (fw_out (fold fw_step es f))"
  using assms
proof (induction es arbitrary: f)
  case (Cons e es)
  have "list_all (fw_faithful p o') (fw_out (fw_step e f)) \<and> (pagePort (fw_step e f) = None \<and> pageOrigin (fw_step e f) = None
      \<and> fw_listening (fw_step e f) = [] \<and> \<not> extensionPort (fw_step e f)
      \<or> pagePort (fw_step e f) = Some p \<and> pageOrigin (fw_step e f) = Some o')"
    using Cons.prems
    by (cases e) (auto simp: fw_window_message_def connectToExtension_def onPageMessage_def onExtensionMessage_def fw_emit_def
        inits_def split: if_splits)
  moreover have "list_all (\<lambda>x. x = (p, o')) (inits es)" using Cons.prems(3) by (simp add: inits_def)
  ultimately show ?case using Cons.IH by simp
qed simp

text \<open>
  A frame that one page initialises (once or again with the same port) tells the extension the origin of that page
  with every request, and hands every response to that page's port.
\<close>

theorem forwarder_faithful:
  assumes "list_all (\<lambda>x. x = (p, o')) (inits es)"
  shows "list_all (fw_faithful p o') (fw_out (fold fw_step es Forwarder))"
  by (rule fw_run [OF _ _ assms]) (simp_all add: Forwarder_def)

theorem forwarder_faithful_witness:
  "list_all (fw_faithful 1 ''https://a.com'') (fw_out (fold fw_step
     [FwPage 1 ''early'', FwWindow True True [1] ''https://a.com'', FwPage 1 ''request'', FwExtension ''response''] Forwarder))"
  by (rule forwarder_faithful) (simp add: inits_def)

text \<open>
  The frame can be initialised again by any window: then the first page's requests go out under the origin of the
  second, and the responses to them go to the second page.
\<close>

theorem forwarder_taken_over:
  "fw_out (fold fw_step [FwWindow True True [1] ''https://a.com'', FwPage 1 ''r1'', FwWindow True True [2] ''https://b.com'',
      FwExtension ''s1'', FwPage 1 ''r2''] Forwarder)
   = [Connect, ReadyTo 1, ToExtension (Some ''https://a.com'') ''r1'', ReadyTo 2, ToPage 2 ''s1'', ToExtension (Some ''https://b.com'') ''r2'']"
  by code_simp

end
