(* ===== verification/Fetcher.thy ===== *)
theory Fetcher
  imports AppId
begin

text \<open>
  textfetcher.js: the fetcher of documents, one \<open>XMLHttpRequest\<close> behind a promise. The browser reports the end of
  the request, after an error of the network as well; a promise keeps its first result.
\<close>

record xhr =
  xhr_method :: string
  xhr_url :: string
  xhr_body :: "string option"
  xhr_result :: "fetch_result option"

definition xhr_fetch :: "string \<Rightarrow> string option \<Rightarrow> string option \<Rightarrow> xhr" where
  "xhr_fetch url opt_method opt_body =
     \<lparr>xhr_method = (case opt_method of None \<Rightarrow> ''GET'' | Some m \<Rightarrow> if m = [] then ''GET'' else m),
      xhr_url = url,
      xhr_body = (case opt_body of None \<Rightarrow> None | Some b \<Rightarrow> if b = [] then None else Some b),
      xhr_result = None\<rparr>"

definition settle :: "fetch_result \<Rightarrow> xhr \<Rightarrow> xhr" where
  "settle r x = (case xhr_result x of None \<Rightarrow> x\<lparr>xhr_result := Some r\<rparr> | Some _ \<Rightarrow> x)"

definition onloadend :: "int \<Rightarrow> string \<Rightarrow> xhr \<Rightarrow> xhr" where
  "onloadend status responseText x = (if status \<noteq> 200 then settle (FetchFailed status) x else settle (Fetched responseText) x)"

definition xhr_onerror :: "xhr \<Rightarrow> xhr" where
  "xhr_onerror x = settle (FetchFailed 404) x"

datatype xhr_event = LoadEnd int string | NetworkError

fun xhr_step :: "xhr_event \<Rightarrow> xhr \<Rightarrow> xhr" where
  "xhr_step (LoadEnd status t) x = onloadend status t x"
| "xhr_step NetworkError x = xhr_onerror x"

lemma settled_stays: "xhr_result x = Some r \<Longrightarrow> xhr_result (fold xhr_step es x) = Some r"
proof (induction es arbitrary: x)
  case (Cons e es)
  have "xhr_result (xhr_step e x) = Some r"
    using Cons.prems by (cases e) (auto simp: onloadend_def xhr_onerror_def settle_def)
  from Cons.IH [OF this] show ?case by simp
qed simp

definition event_result :: "xhr_event \<Rightarrow> fetch_result" where
  "event_result e = (case e of LoadEnd status t \<Rightarrow> if status = 200 then Fetched t else FetchFailed status | NetworkError \<Rightarrow> FetchFailed 404)"

text \<open>The promise has the result of the first report, whatever is reported later.\<close>

lemma first_report: "xhr_result (fold xhr_step es (xhr_fetch u m b)) = (case es of [] \<Rightarrow> None | e # _ \<Rightarrow> Some (event_result e))"
proof (cases es)
  case (Cons e es')
  have "xhr_result (xhr_step e (xhr_fetch u m b)) = Some (event_result e)"
    by (cases e) (simp_all add: xhr_fetch_def onloadend_def xhr_onerror_def settle_def event_result_def)
  from settled_stays [OF this] show ?thesis using Cons by simp
qed (simp add: xhr_fetch_def)

text \<open>
  A network that fails counts as a document that is not there: the error comes before the end of the request,
  the fetch is not tried again, and the app id lists no origins. A failure of the server is tried again.
\<close>

theorem network_error_final:
  "xhr_result (fold xhr_step (NetworkError # es) (xhr_fetch u m b)) = Some (FetchFailed 404)
   \<and> fetch_attempts J ((FetchFailed 404, timedout) # answers) = Some []
   \<and> (status \<ge> 500 \<longrightarrow> xhr_result (fold xhr_step (LoadEnd status t # es) (xhr_fetch u m b)) = Some (FetchFailed status)
        \<and> fetch_attempts J ((FetchFailed status, False) # answers) = fetch_attempts J answers)"
  unfolding first_report by (simp add: event_result_def)

end
