(* ===== verification/Demo.thy ===== *)
theory Demo
  imports AppId
begin

text \<open>
  u2fdemo.js (src/u2f-gae-demo/war/js), the script of the demonstration site: what it asks of its server and of the
  API, and the two boxes with messages. A card of a token is its public key; how cards look is left out, as is the
  log. The objects of the server are as \<open>JSON\<close> gives them. A callback has the variables of the call that made it:
  \<open>dm_signs\<close> and \<open>dm_enrolls\<close> keep these, and an answer of the API names its call by number.
\<close>

subsection \<open>State\<close>

record sign_begun =
  sb_appId :: jsval
  sb_challenge :: jsval
  sb_registeredKeys :: "jsval jsobj list"

record enroll_begun =
  eb_appId :: jsval
  eb_registerRequests :: "jsval jsobj"
  eb_registeredKeys :: jsval
  eb_sessionId :: jsval

record demo_response =
  dr_errorCode :: "nat option"
  dr_fields :: "jsval jsobj"

datatype demo_effect =
    PostGetTokens
  | PostRemoveToken string
  | PostBeginEnroll bool
  | PostBeginSign
  | CallRegister jsval "jsval jsobj list" jsval int
  | CallSign jsval jsval "jsval jsobj list" int
  | PostFinishEnroll "jsval jsobj"
  | PostFinishSign "jsval jsobj"
  | HighlightCard string

record demo =
  dm_errorVisible :: bool
  dm_errorText :: string
  dm_infoVisible :: bool
  dm_infoText :: string
  dm_tokens :: "string list"
  dm_signs :: "jsval jsobj list"
  dm_enrolls :: "jsval list"
  dm_out :: "demo_effect list"

definition fresh_demo :: demo where
  "fresh_demo = \<lparr>dm_errorVisible = False, dm_errorText = [], dm_infoVisible = False, dm_infoText = [], dm_tokens = [],
     dm_signs = [], dm_enrolls = [], dm_out = []\<rparr>"

definition dm_emit :: "demo_effect \<Rightarrow> demo \<Rightarrow> demo" where
  "dm_emit e d = d\<lparr>dm_out := dm_out d @ [e]\<rparr>"

subsection \<open>The page\<close>

definition hideMessage :: "demo \<Rightarrow> demo" where
  "hideMessage d = d\<lparr>dm_infoVisible := False\<rparr>"

definition hideError :: "demo \<Rightarrow> demo" where
  "hideError d = d\<lparr>dm_errorVisible := False\<rparr>"

definition showError :: "string \<Rightarrow> demo \<Rightarrow> demo" where
  "showError message d = (hideMessage d)\<lparr>dm_errorText := message, dm_errorVisible := True\<rparr>"

definition showMessage :: "string \<Rightarrow> demo \<Rightarrow> demo" where
  "showMessage message d = d\<lparr>dm_infoText := message, dm_infoVisible := True\<rparr>"

definition addTokenInfoToPage :: "string \<Rightarrow> demo \<Rightarrow> demo" where
  "addTokenInfoToPage publicKey d = d\<lparr>dm_tokens := dm_tokens d @ [publicKey]\<rparr>"

text \<open>jQuery selects the first element with an id.\<close>

definition removeTokenInfoFromPage :: "string \<Rightarrow> demo \<Rightarrow> demo" where
  "removeTokenInfoFromPage publicKey d = d\<lparr>dm_tokens := remove1 publicKey (dm_tokens d)\<rparr>"

definition onError :: "nat \<Rightarrow> bool \<Rightarrow> demo \<Rightarrow> demo" where
  "onError code enrolling d =
     (if code = 1 then showError ''sign error (other)'' d
      else if code = 2 then showError ''bad request'' d
      else if code = 3 then showError ''configuration unsupported'' d
      else if code = 4
      then showError (if enrolling then ''U2F token is already registered'' else ''U2F token is not registered'') d
      else if code = 5 then showError ''timeout'' d
      else showError (''unknown error code='' @ nat_to_string code) d)"

subsection \<open>Requests\<close>

definition fetchAllUserTokens :: "demo \<Rightarrow> demo" where
  "fetchAllUserTokens d = dm_emit PostGetTokens d"

definition sendRemoveTokenRequest :: "string \<Rightarrow> demo \<Rightarrow> demo" where
  "sendRemoveTokenRequest publicKey d = dm_emit (PostRemoveToken publicKey) d"

definition sendBeginEnrollRequest :: "bool \<Rightarrow> demo \<Rightarrow> demo" where
  "sendBeginEnrollRequest reregistration d = dm_emit (PostBeginEnroll reregistration) d"

definition sendBeginSignRequest :: "demo \<Rightarrow> demo" where
  "sendBeginSignRequest d = dm_emit PostBeginSign d"

text \<open>An attestation may be asked for; the timeout is ten minutes.\<close>

definition on_enroll_begun :: "bool \<Rightarrow> enroll_begun \<Rightarrow> demo \<Rightarrow> demo" where
  "on_enroll_begun attestation r d =
     (let d1 = showMessage ''please touch the token'' d;
          req = (if attestation then AList.update ''attestation'' (JStr ''direct'') (eb_registerRequests r) else eb_registerRequests r)
      in dm_emit (CallRegister (eb_appId r) [req] (eb_registeredKeys r) 600) (d1\<lparr>dm_enrolls := dm_enrolls d1 @ [eb_sessionId r]\<rparr>))"

text \<open>A key handle is a string; an absent one is the property \<open>undefined\<close>.\<close>

definition property_key :: "jsval option \<Rightarrow> string" where
  "property_key v = (case v of Some (JStr s) \<Rightarrow> s | _ \<Rightarrow> ''undefined'')"

definition or_undefined :: "jsval option \<Rightarrow> jsval" where
  "or_undefined v = (case v of Some x \<Rightarrow> x | None \<Rightarrow> JUndef)"

text \<open>The loop over the registered keys: the sessions by key handle, and the keys without them.\<close>

fun store_sessions :: "jsval jsobj list \<Rightarrow> jsval jsobj \<Rightarrow> jsval jsobj \<times> jsval jsobj list" where
  "store_sessions [] sessionIds = (sessionIds, [])"
| "store_sessions (k # ks) sessionIds =
     (let s1 = AList.update (property_key (map_of k ''keyHandle'')) (or_undefined (map_of k ''sessionId'')) sessionIds;
          (s2, ks') = store_sessions ks s1
      in (s2, AList.delete ''sessionId'' k # ks'))"

definition on_sign_begun :: "sign_begun \<Rightarrow> demo \<Rightarrow> demo" where
  "on_sign_begun r d =
     (let d1 = showMessage ''please touch the token'' d; (sessionIds, keys) = store_sessions (sb_registeredKeys r) []
      in dm_emit (CallSign (sb_appId r) (sb_challenge r) keys 600) (d1\<lparr>dm_signs := dm_signs d1 @ [sessionIds]\<rparr>))"

subsection \<open>Answers\<close>

definition onTokenEnrollSuccess :: "jsval jsobj \<Rightarrow> demo \<Rightarrow> demo" where
  "onTokenEnrollSuccess finishEnrollData d = dm_emit (PostFinishEnroll finishEnrollData) (hideMessage d)"

definition onTokenSignSuccess :: "jsval jsobj \<Rightarrow> demo \<Rightarrow> demo" where
  "onTokenSignSuccess responseData d = dm_emit (PostFinishSign responseData) (hideMessage d)"

definition has_error :: "demo_response \<Rightarrow> nat option" where
  "has_error r = (case dr_errorCode r of Some c \<Rightarrow> if c = 0 then None else Some c | None \<Rightarrow> None)"

definition dm_registered :: "nat \<Rightarrow> demo_response \<Rightarrow> demo \<Rightarrow> demo" where
  "dm_registered i response d =
     (if i \<ge> length (dm_enrolls d) then d
      else (case has_error response of
          Some c \<Rightarrow> onError c True d
        | None \<Rightarrow> onTokenEnrollSuccess (AList.update ''sessionId'' (dm_enrolls d ! i) (dr_fields response)) d))"

definition dm_signed :: "nat \<Rightarrow> demo_response \<Rightarrow> demo \<Rightarrow> demo" where
  "dm_signed i response d =
     (if i \<ge> length (dm_signs d) then d
      else (case has_error response of
          Some c \<Rightarrow> onError c False d
        | None \<Rightarrow>
            (let sessionId = or_undefined (map_of (dm_signs d ! i) (property_key (map_of (dr_fields response) ''keyHandle'')))
             in onTokenSignSuccess (AList.update ''sessionId'' sessionId (dr_fields response)) d)))"

datatype demo_event =
    DmLoad
  | DmRemoveClick string
  | DmEnrollClick bool
  | DmSignClick
  | DmTokens "string list"
  | DmRemoved string
  | DmRemoveFailed string
  | DmEnrollBegun bool enroll_begun
  | DmSignBegun sign_begun
  | DmSignRefused string
  | DmRegistered nat demo_response
  | DmSigned nat demo_response
  | DmEnrolled string
  | DmAuthenticated string
  | DmFinishFailed string

fun demo_step :: "demo_event \<Rightarrow> demo \<Rightarrow> demo" where
  "demo_step DmLoad d = fetchAllUserTokens d"
| "demo_step (DmRemoveClick k) d = sendRemoveTokenRequest k d"
| "demo_step (DmEnrollClick b) d = sendBeginEnrollRequest b d"
| "demo_step DmSignClick d = sendBeginSignRequest d"
| "demo_step (DmTokens ks) d = fold addTokenInfoToPage ks d"
| "demo_step (DmRemoved k) d = removeTokenInfoFromPage k d"
| "demo_step (DmRemoveFailed status) d = showError (''couldn'' @ [CHR 0x27] @ ''t remove token: '' @ status) d"
| "demo_step (DmEnrollBegun b r) d = on_enroll_begun b r d"
| "demo_step (DmSignBegun r) d = on_sign_begun r d"
| "demo_step (DmSignRefused status) d = showError (''can'' @ [CHR 0x27] @ ''t authenticate: '' @ status) d"
| "demo_step (DmRegistered i r) d = dm_registered i r d"
| "demo_step (DmSigned i r) d = dm_signed i r d"
| "demo_step (DmEnrolled k) d = addTokenInfoToPage k d"
| "demo_step (DmAuthenticated k) d = dm_emit (HighlightCard k) d"
| "demo_step (DmFinishFailed status) d = showError status d"

subsection \<open>The session of a signature\<close>

text \<open>The keys that the API gets have no session; the last key with a key handle decides on its session.\<close>

definition handle_of :: "jsval jsobj \<Rightarrow> string" where
  "handle_of k = property_key (map_of k ''keyHandle'')"

lemma sessions_of:
  "map_of (fst (store_sessions ks ids)) h =
     (case find (\<lambda>k. handle_of k = h) (rev ks) of Some k \<Rightarrow> Some (or_undefined (map_of k ''sessionId'')) | None \<Rightarrow> map_of ids h)"
proof (induction ks arbitrary: ids)
  case (Cons k ks)
  have f: "find P (xs @ ys) = (case find P xs of None \<Rightarrow> find P ys | Some y \<Rightarrow> Some y)" for P :: "jsval jsobj \<Rightarrow> bool" and xs ys
    by (induction xs) auto
  show ?case by (auto simp: Cons.IH case_prod_beta Let_def f update_conv' handle_of_def split: option.split)
qed simp

lemma keys_without_session: "snd (store_sessions ks ids) = map (AList.delete ''sessionId'') ks"
  by (induction ks arbitrary: ids) (auto simp: case_prod_beta Let_def)

lemma find_distinct:
  "distinct (map handle_of ks) \<Longrightarrow> k \<in> set ks \<Longrightarrow> find (\<lambda>k'. handle_of k' = handle_of k) (rev ks) = Some k"
proof -
  assume d: "distinct (map handle_of ks)" and k: "k \<in> set ks"
  have "find (\<lambda>k'. handle_of k' = handle_of k) xs = Some k" if "k \<in> set xs" "set xs \<subseteq> set ks" for xs
    using that
  proof (induction xs)
    case (Cons x xs)
    have "handle_of x = handle_of k \<Longrightarrow> x = k"
      using d k Cons.prems by (auto simp: distinct_map inj_on_def)
    with Cons show ?case by auto
  qed simp
  from this [of "rev ks"] k show ?thesis by simp
qed

lemmas demo_defs = fetchAllUserTokens_def sendRemoveTokenRequest_def sendBeginEnrollRequest_def sendBeginSignRequest_def
  removeTokenInfoFromPage_def on_enroll_begun_def on_sign_begun_def dm_registered_def dm_signed_def addTokenInfoToPage_def
  onTokenEnrollSuccess_def onTokenSignSuccess_def onError_def showError_def showMessage_def hideMessage_def dm_emit_def

lemma tokens_added: "fold addTokenInfoToPage ks d = d\<lparr>dm_tokens := dm_tokens d @ ks\<rparr>"
  by (induction ks arbitrary: d) (simp_all add: addTokenInfoToPage_def)

lemma signs_grow: "\<exists>l. dm_signs (demo_step e d) = dm_signs d @ l"
  by (cases e) (auto simp: demo_defs tokens_added Let_def case_prod_beta split: option.split)

lemma signs_grow_run: "\<exists>l. dm_signs (fold demo_step es d) = dm_signs d @ l"
proof (induction es arbitrary: d)
  case (Cons e es)
  from signs_grow [of e d] Cons.IH [of "demo_step e d"] show ?case by auto
qed simp

text \<open>
  Whatever the user does while a token is waited for: the signature that is posted to the server has the session that
  the server gave with the key of the response, for the request that the response answers. The API
  gets the keys without their sessions.
\<close>

theorem session_of_signature:
  assumes "d1 = demo_step (DmSignBegun r) d0" "i = length (dm_signs d0)"
    and "distinct (map handle_of (sb_registeredKeys r))" "k \<in> set (sb_registeredKeys r)"
    and "has_error response = None" "handle_of (dr_fields response) = handle_of k"
  shows "\<exists>f. dm_out (demo_step (DmSigned i response) (fold demo_step es d1)) = dm_out (fold demo_step es d1) @ [PostFinishSign f]
    \<and> map_of f ''sessionId'' = Some (or_undefined (map_of k ''sessionId''))"
    and "CallSign (sb_appId r) (sb_challenge r) (map (AList.delete ''sessionId'') (sb_registeredKeys r)) 600 \<in> set (dm_out d1)"
proof -
  have d1: "dm_signs d1 = dm_signs d0 @ [fst (store_sessions (sb_registeredKeys r) [])]"
    and out: "dm_out d1 = dm_out d0 @ [CallSign (sb_appId r) (sb_challenge r) (snd (store_sessions (sb_registeredKeys r) [])) 600]"
    by (simp_all add: assms(1) demo_defs Let_def case_prod_beta)
  then show "CallSign (sb_appId r) (sb_challenge r) (map (AList.delete ''sessionId'') (sb_registeredKeys r)) 600 \<in> set (dm_out d1)"
    by (simp add: keys_without_session)
  obtain l where l: "dm_signs (fold demo_step es d1) = dm_signs d1 @ l" using signs_grow_run by blast
  then have i: "\<not> i \<ge> length (dm_signs (fold demo_step es d1))"
      "dm_signs (fold demo_step es d1) ! i = fst (store_sessions (sb_registeredKeys r) [])"
    using d1 assms(2) by (simp_all add: nth_append)
  have "map_of (fst (store_sessions (sb_registeredKeys r) [])) (handle_of (dr_fields response)) = Some (or_undefined (map_of k ''sessionId''))"
    unfolding sessions_of assms(6) find_distinct [OF assms(3,4)] by simp
  then show "\<exists>f. dm_out (demo_step (DmSigned i response) (fold demo_step es d1)) = dm_out (fold demo_step es d1) @ [PostFinishSign f]
    \<and> map_of f ''sessionId'' = Some (or_undefined (map_of k ''sessionId''))"
    using i assms(5) by (simp add: dm_signed_def handle_of_def onTokenSignSuccess_def hideMessage_def dm_emit_def Let_def
        or_undefined_def [of "Some _"] update_conv')
qed

text \<open>No one calls \<open>hideError\<close>: an error once shown stays on the page, also beside the message of a later request.\<close>

theorem error_stays: "dm_errorVisible d \<Longrightarrow> dm_errorVisible (fold demo_step es d)"
proof (induction es arbitrary: d)
  case (Cons e es)
  have "dm_errorVisible (demo_step e d)"
    using Cons.prems by (cases e) (auto simp: demo_defs tokens_added Let_def case_prod_beta split: option.split)
  from Cons.IH [OF this] show ?case by simp
qed simp

end
